(* ===== verification/Prelude.thy ===== *)
theory Prelude
  imports Main "HOL-Library.Char_ord" "HOL-Library.List_Lexorder"
    "HOL-Library.Option_ord" "HOL-Library.Product_Lexorder" "HOL-Library.Sublist"
begin

text \<open>
  What every theory of the development shares: the types that stand for the Rust
  types of the code, the monad of its fallible stateful functions with a
  weakest-precondition calculus for it, and the generic lemmas on ordered maps,
  association lists and texts.

  Modelling conventions.
  \<^item> A Rust \<open>String\<close>, \<open>&str\<close> or \<open>Vec<u8>\<close> is the list of its bytes: the type
    \<open>string\<close>, whose characters are bytes. \<open>text.len()\<close> is \<open>length\<close>, and
    the order of texts is the lexicographic order of their bytes, as in Rust.
  \<^item> An \<open>OffsetDateTime\<close> is an instant: its nanoseconds since the epoch, an \<open>int\<close>.
  \<^item> A \<open>Uuid\<close> is the number its 16 bytes write, most significant first, a \<open>nat\<close>.
  \<^item> \<open>Result<T, E>\<close> is \<open>'e + 'a\<close>, with \<open>Inl\<close> for the error.
  \<^item> A \<open>BTreeMap\<close> is an association list sorted by its keys, a \<open>HashMap\<close> that is only
    looked up in is a map \<open>'k \<rightharpoonup> 'v\<close>.
\<close>

type_synonym instant = int
type_synonym duration = int
type_synonym uuid = nat
type_synonym bytes = string

named_theorems wp_intro \<open>weakest preconditions of the primitive steps\<close>
named_theorems wp_step \<open>weakest preconditions of the operations of the ports\<close>

subsection \<open>Results\<close>

abbreviation Err :: "'e \<Rightarrow> 'e + 'a" where
  "Err \<equiv> Inl"

abbreviation Ok :: "'a \<Rightarrow> 'e + 'a" where
  "Ok \<equiv> Inr"

text \<open>\<open>option.ok_or(e)\<close>\<close>

definition ok_or :: "'e \<Rightarrow> 'a option \<Rightarrow> 'e + 'a" where
  "ok_or e x = (case x of None \<Rightarrow> Err e | Some v \<Rightarrow> Ok v)"

lemma ok_or_simps [simp]:
  "ok_or e None = Err e"
  "ok_or e (Some v) = Ok v"
  by (simp_all add: ok_or_def)

lemma ok_or_eq_Ok [simp]: "ok_or e x = Ok v \<longleftrightarrow> x = Some v"
  by (cases x) simp_all

text \<open>\<open>option.filter(p)\<close>\<close>

definition filter_option :: "('a \<Rightarrow> bool) \<Rightarrow> 'a option \<Rightarrow> 'a option" where
  "filter_option p x = (case x of None \<Rightarrow> None | Some v \<Rightarrow> if p v then Some v else None)"

lemma filter_option_simps [simp]:
  "filter_option p None = None"
  "filter_option p (Some v) = (if p v then Some v else None)"
  by (simp_all add: filter_option_def)

lemma filter_option_eq_Some: "filter_option p x = Some v \<longleftrightarrow> x = Some v \<and> p v"
  by (cases x) auto

text \<open>\<open>option.is_none_or(p)\<close> and \<open>option.is_some_and(p)\<close>\<close>

definition is_none_or :: "('a \<Rightarrow> bool) \<Rightarrow> 'a option \<Rightarrow> bool" where
  "is_none_or p x = (case x of None \<Rightarrow> True | Some v \<Rightarrow> p v)"

definition is_some_and :: "('a \<Rightarrow> bool) \<Rightarrow> 'a option \<Rightarrow> bool" where
  "is_some_and p x = (case x of None \<Rightarrow> False | Some v \<Rightarrow> p v)"

lemma is_none_or_simps [simp]:
  "is_none_or p None"
  "is_none_or p (Some v) = p v"
  by (simp_all add: is_none_or_def)

lemma is_some_and_simps [simp]:
  "\<not> is_some_and p None"
  "is_some_and p (Some v) = p v"
  by (simp_all add: is_some_and_def)

text \<open>\<open>iter().find(p)\<close>: what is found is one of the items, and is as asked.\<close>

lemma find_found: "find p xs = Some x \<Longrightarrow> x \<in> set xs \<and> p x"
  by (induction xs) (auto split: if_splits)

lemma in_map_filter: "y \<in> set (List.map_filter f xs) \<longleftrightarrow> (\<exists>x \<in> set xs. f x = Some y)"
  by (induction xs) (auto simp: map_filter_simps split: option.splits)

subsection \<open>Fallible stateful functions\<close>

text \<open>
  An \<open>async fn\<close> of the code that reads and writes the state of the application and
  may return early with \<open>?\<close>: a function from the state to a result and the state after.
  An early return keeps the state reached: what an abandoned unit of work leaves is
  decided by the storage, not by the monad.
\<close>

type_synonym ('s, 'e, 'a) act = "'s \<Rightarrow> ('e + 'a) \<times> 's"

definition ret :: "'a \<Rightarrow> ('s, 'e, 'a) act" where
  "ret x = (\<lambda>s. (Ok x, s))"

definition throw :: "'e \<Rightarrow> ('s, 'e, 'a) act" where
  "throw e = (\<lambda>s. (Err e, s))"

definition and_then :: "('s, 'e, 'a) act \<Rightarrow> ('a \<Rightarrow> ('s, 'e, 'b) act) \<Rightarrow> ('s, 'e, 'b) act" where
  "and_then m f = (\<lambda>s. case m s of (Err e, t) \<Rightarrow> (Err e, t) | (Ok x, t) \<Rightarrow> f x t)"

definition lift_result :: "'e + 'a \<Rightarrow> ('s, 'e, 'a) act" where
  "lift_result r = (\<lambda>s. (r, s))"

definition map_err :: "('e \<Rightarrow> 'f) \<Rightarrow> ('s, 'e, 'a) act \<Rightarrow> ('s, 'f, 'a) act" where
  "map_err g m = (\<lambda>s. case m s of (Err e, t) \<Rightarrow> (Err (g e), t) | (Ok x, t) \<Rightarrow> (Ok x, t))"

text \<open>A guard: returns the error when the condition does not hold.\<close>

definition ensure :: "bool \<Rightarrow> 'e \<Rightarrow> ('s, 'e, unit) act" where
  "ensure b e = (if b then ret () else throw e)"

text \<open>
  Weakest preconditions: \<open>Q\<close> holds of the value and the state of a run that succeeds,
  \<open>R\<close> of the error and the state of one that fails.
\<close>

definition wp :: "('s, 'e, 'a) act \<Rightarrow> ('a \<Rightarrow> 's \<Rightarrow> bool) \<Rightarrow> ('e \<Rightarrow> 's \<Rightarrow> bool) \<Rightarrow> 's \<Rightarrow> bool" where
  "wp m Q R s = (case m s of (Ok x, t) \<Rightarrow> Q x t | (Err e, t) \<Rightarrow> R e t)"

lemma wp_ret [wp_intro, simp]: "wp (ret x) Q R s = Q x s"
  by (simp add: wp_def ret_def)

lemma wp_throw [wp_intro, simp]: "wp (throw e) Q R s = R e s"
  by (simp add: wp_def throw_def)

lemma wp_and_then [wp_intro, simp]:
  "wp (and_then m f) Q R s = wp m (\<lambda>x. wp (f x) Q R) R s"
  by (simp add: wp_def and_then_def split: prod.split sum.split)

lemma wp_lift_result [wp_intro, simp]:
  "wp (lift_result r) Q R s = (case r of Ok x \<Rightarrow> Q x s | Err e \<Rightarrow> R e s)"
  by (simp add: wp_def lift_result_def split: sum.split)

lemma wp_map_err [wp_intro, simp]: "wp (map_err g m) Q R s = wp m Q (\<lambda>e. R (g e)) s"
  by (simp add: wp_def map_err_def split: prod.split sum.split)

lemma wp_ensure [wp_intro, simp]: "wp (ensure b e) Q R s = (if b then Q () s else R e s)"
  by (simp add: ensure_def)

lemma wp_if [wp_intro, simp]:
  "wp (if b then m else n) Q R s = (if b then wp m Q R s else wp n Q R s)"
  by simp

lemma wp_case_option [wp_intro, simp]:
  "wp (case x of None \<Rightarrow> m | Some v \<Rightarrow> f v) Q R s =
     (case x of None \<Rightarrow> wp m Q R s | Some v \<Rightarrow> wp (f v) Q R s)"
  by (simp split: option.split)

lemma wp_case_sum [wp_intro, simp]:
  "wp (case x of Inl e \<Rightarrow> f e | Inr v \<Rightarrow> g v) Q R s =
     (case x of Inl e \<Rightarrow> wp (f e) Q R s | Inr v \<Rightarrow> wp (g v) Q R s)"
  by (simp split: sum.split)

lemma wp_case_prod [wp_intro, simp]:
  "wp (case x of (a, b) \<Rightarrow> f a b) Q R s = (case x of (a, b) \<Rightarrow> wp (f a b) Q R s)"
  by (simp split: prod.split)

text \<open>The two ways a run is read back from its weakest precondition.\<close>

lemma wp_Ok: "wp m Q R s \<Longrightarrow> m s = (Ok x, t) \<Longrightarrow> Q x t"
  by (simp add: wp_def)

lemma wp_Err: "wp m Q R s \<Longrightarrow> m s = (Err e, t) \<Longrightarrow> R e t"
  by (simp add: wp_def)

lemma wp_mono:
  assumes "wp m Q R s"
    and "\<And>x t. Q x t \<Longrightarrow> Q' x t" and "\<And>e t. R e t \<Longrightarrow> R' e t"
  shows "wp m Q' R' s"
  using assms by (auto simp: wp_def split: prod.splits sum.splits)

lemma wp_conj: "wp m Q R s \<Longrightarrow> wp m Q' R' s \<Longrightarrow>
    wp m (\<lambda>x t. Q x t \<and> Q' x t) (\<lambda>e t. R e t \<and> R' e t) s"
  by (auto simp: wp_def split: prod.splits sum.splits)

text \<open>What a function keeps of the state, however it ends.\<close>

definition keeps :: "('s \<Rightarrow> bool) \<Rightarrow> ('s, 'e, 'a) act \<Rightarrow> bool" where
  "keeps I m \<longleftrightarrow> (\<forall>s. I s \<longrightarrow> I (snd (m s)))"

lemma keeps_ret [simp]: "keeps I (ret x)"
  by (simp add: keeps_def ret_def)

lemma keeps_and_then: "keeps I m \<Longrightarrow> (\<And>x. keeps I (f x)) \<Longrightarrow> keeps I (and_then m f)"
  unfolding keeps_def and_then_def by (force split: prod.splits sum.splits)

lemma wp_same: "wp m (\<lambda>_. I) (\<lambda>_. I) s = I (snd (m s))"
  by (cases "m s"; cases "fst (m s)") (auto simp: wp_def)

lemma keeps_wp: "keeps I m \<longleftrightarrow> (\<forall>s. I s \<longrightarrow> wp m (\<lambda>_. I) (\<lambda>_. I) s)"
  by (simp add: keeps_def wp_same)

subsection \<open>Ordered maps\<close>

text \<open>\<open>BTreeMap::insert\<close>: the value of a key is replaced, a new key takes its place in the order.\<close>

fun bt_insert :: "'k::linorder \<Rightarrow> 'v \<Rightarrow> ('k \<times> 'v) list \<Rightarrow> ('k \<times> 'v) list" where
  "bt_insert k v [] = [(k, v)]"
| "bt_insert k v ((a, b) # m) =
     (if k < a then (k, v) # (a, b) # m
      else if k = a then (k, v) # m
      else (a, b) # bt_insert k v m)"

definition bt_sorted :: "('k::linorder \<times> 'v) list \<Rightarrow> bool" where
  "bt_sorted m = sorted_wrt (<) (map fst m)"

lemma bt_sorted_Nil [simp]: "bt_sorted []"
  by (simp add: bt_sorted_def)

lemma map_of_bt_insert: "map_of (bt_insert k v m) = (map_of m)(k \<mapsto> v)"
  by (induction k v m rule: bt_insert.induct) (auto simp: fun_eq_iff)

lemma fst_set_bt_insert: "fst ` set (bt_insert k v m) = insert k (fst ` set m)"
  by (induction k v m rule: bt_insert.induct) auto

lemma bt_sorted_insert: "bt_sorted m \<Longrightarrow> bt_sorted (bt_insert k v m)"
proof (induction k v m rule: bt_insert.induct)
  case (1 k v)
  then show ?case by (simp add: bt_sorted_def)
next
  case (2 k v a b m)
  have keys: "set (map fst (bt_insert k v m)) = insert k (set (map fst m))"
    using fst_set_bt_insert [of k v m] by simp
  show ?case
    using 2 keys by (auto simp: bt_sorted_def simp del: set_map)
qed

lemma bt_insert_entries: "bt_sorted m \<Longrightarrow> set (bt_insert k v m) = insert (k, v) {(a, b) \<in> set m. a \<noteq> k}"
proof (induction k v m rule: bt_insert.induct)
  case (2 k v a b m)
  then show ?case by (auto simp: bt_sorted_def)
qed auto

lemma bt_sorted_distinct: "bt_sorted m \<Longrightarrow> distinct (map fst m)"
  by (induction m) (auto simp: bt_sorted_def)

subsection \<open>Texts\<close>

definition is_ascii_lowercase :: "char \<Rightarrow> bool" where
  "is_ascii_lowercase c \<longleftrightarrow> CHR ''a'' \<le> c \<and> c \<le> CHR ''z''"

definition is_ascii_uppercase :: "char \<Rightarrow> bool" where
  "is_ascii_uppercase c \<longleftrightarrow> CHR ''A'' \<le> c \<and> c \<le> CHR ''Z''"

definition is_ascii_digit :: "char \<Rightarrow> bool" where
  "is_ascii_digit c \<longleftrightarrow> CHR ''0'' \<le> c \<and> c \<le> CHR ''9''"

definition is_ascii_alphanumeric :: "char \<Rightarrow> bool" where
  "is_ascii_alphanumeric c \<longleftrightarrow> is_ascii_lowercase c \<or> is_ascii_uppercase c \<or> is_ascii_digit c"

text \<open>\<open>text.split_once(mark)\<close>: what comes before the first mark, and what comes after it.\<close>

fun split_once :: "char \<Rightarrow> string \<Rightarrow> (string \<times> string) option" where
  "split_once c [] = None"
| "split_once c (x # xs) =
     (if x = c then Some ([], xs)
      else map_option (\<lambda>(a, b). (x # a, b)) (split_once c xs))"

text \<open>\<open>text.rsplit_once(mark)\<close>: the same at the last mark.\<close>

definition rsplit_once :: "char \<Rightarrow> string \<Rightarrow> (string \<times> string) option" where
  "rsplit_once c s = map_option (\<lambda>(a, b). (rev b, rev a)) (split_once c (rev s))"

lemma split_once_None [simp]: "split_once c s = None \<longleftrightarrow> c \<notin> set s"
  by (induction s) auto

lemma split_once_Some:
  "split_once c s = Some (a, b) \<longleftrightarrow> s = a @ c # b \<and> c \<notin> set a"
proof (induction s arbitrary: a)
  case Nil
  then show ?case by simp
next
  case (Cons x xs)
  then show ?case by (cases a) auto
qed

lemma rsplit_once_None [simp]: "rsplit_once c s = None \<longleftrightarrow> c \<notin> set s"
  by (simp add: rsplit_once_def)

lemma rsplit_once_Some:
  "rsplit_once c s = Some (a, b) \<longleftrightarrow> s = a @ c # b \<and> c \<notin> set b"
proof -
  have "rsplit_once c s = Some (a, b) \<longleftrightarrow> split_once c (rev s) = Some (rev b, rev a)"
    by (auto simp: rsplit_once_def)
  also have "\<dots> \<longleftrightarrow> rev s = rev b @ c # rev a \<and> c \<notin> set b"
    by (simp add: split_once_Some)
  also have "\<dots> \<longleftrightarrow> s = a @ c # b \<and> c \<notin> set b"
    by (metis append.assoc append_Cons append_Nil rev.simps(2) rev_append rev_rev_ident)
  finally show ?thesis .
qed

lemma length_filter_less_iff: "length (filter p xs) < length xs \<longleftrightarrow> (\<exists>x \<in> set xs. \<not> p x)"
  by (metis filter_True length_filter_less less_irrefl)

lemma length_filter_conj: "length (filter (\<lambda>x. q x \<and> p x) xs) \<le> length (filter p xs)"
  by (induction xs) auto

lemma map_of_keys: "map_of xs k \<noteq> None \<longleftrightarrow> k \<in> fst ` set xs"
  by (simp add: map_of_eq_None_iff)

lemma wp_seq: "wp m (\<lambda>x. wp (f x) Q R) R s \<Longrightarrow> wp (and_then m f) Q R s"
  by simp

lemma wp_ensured: "b \<Longrightarrow> wp (f ()) Q R s \<Longrightarrow> wp (and_then (ensure b e) f) Q R s"
  by simp

lemma wp_ensure_then:
  "(b \<Longrightarrow> wp (f ()) Q R s) \<Longrightarrow> (\<not> b \<Longrightarrow> R e s) \<Longrightarrow> wp (and_then (ensure b e) f) Q R s"
  by simp

lemma wp_lift_then:
  "(\<And>x. r = Ok x \<Longrightarrow> wp (f x) Q R s) \<Longrightarrow> (\<And>e. r = Err e \<Longrightarrow> R e s) \<Longrightarrow> wp (and_then (lift_result r) f) Q R s"
  by (cases r) simp_all

end
