(* ===== verification/Errors.thy ===== *)
theory Errors
  imports Prelude
begin

text \<open>
  The catalog of refusals (\<open>saffui-core/src/error.rs\<close>), the refusals of the storage port
  (\<open>saffui-core/src/ports/storage.rs\<close>) and the dialect of the protocol plane
  (\<open>saffui-core/src/oidc/errors.rs\<close>), with the conversions \<open>?\<close> applies between them. The
  lemmas show what the catalog promises: no number and no name is used twice, and the
  protocol plane tells an unknown realm exactly as it tells an unknown client.
\<close>

datatype error_kind = Invalid | Unauthenticated | Forbidden | NotFound | Conflicting
  | Unavailable_kind | Internal_kind

datatype (plugins only: code) error_code =
    Internal
  | StorageUnavailable
  | Conflict
  | RandomUnavailable
  | CryptoUnavailable
  | RequestInvalid
  | ListOffsetTooLarge
  | RealmNotFound
  | RealmNameInvalid
  | RealmNameTaken
  | UsernameInvalid
  | UsernameTaken
  | EmailInvalid
  | EmailTaken
  | DisplayNameInvalid
  | PasswordUnacceptable
  | PersonNotFound
  | AuthenticatorNotFound
  | SecurityKeyNotFound
  | ClientAuthenticationFailed
  | ClientIdentifierInvalid
  | ClientIdentifierTaken
  | ClientNameInvalid
  | ScopeInvalid
  | ScopeNotAllowed
  | GrantNotAllowed
  | GrantTypeUnsupported
  | ClientNotFound
  | CapabilityUnknown
  | RedirectUriInvalid
  | RedirectUriMismatch
  | AdminAuthenticationFailed
  | CapabilityMissing
  | SignInFailed
  | HashingBusy
  | AuthorizationRequestExpired
  | SignInRequestsTooFrequent
  | SessionRequired
  | AuthenticatorAlreadyEnrolled
  | CodeRejected
  | SecondFactorProofRequired
  | KeyRejected
  | SecurityKeysNotServed
  | ConsentNotFound
  | TokenInvalid
  | GrantInvalid
  | TokenScopeInsufficient
  | TokenTypeUnsupported
  | TenantNameInvalid
  | RoleNameInvalid
  | RoleNameTaken
  | RoleNotFound
  | GroupNameInvalid
  | GroupNameTaken
  | GroupNotFound
  | RoleTextInvalid
  | GrantPeriodInvalid
  | RoleGrantNotFound
  | MembershipNotFound
  | HeldTooMany
  | RelationSchemaInvalid
  | RelationInvalid
  | RelationNotFound
  | PolicyInvalid
  | PolicyNameTaken
  | PolicyNotFound
  | ResourceTypeTaken
  | NamedByPolicy

text \<open>\<open>ErrorCode::number\<close>\<close>

primrec error_number :: "error_code \<Rightarrow> nat" where
  "error_number Internal = 1"
| "error_number StorageUnavailable = 2"
| "error_number Conflict = 3"
| "error_number RandomUnavailable = 4"
| "error_number CryptoUnavailable = 5"
| "error_number RequestInvalid = 6"
| "error_number ListOffsetTooLarge = 7"
| "error_number RealmNotFound = 100"
| "error_number RealmNameInvalid = 101"
| "error_number RealmNameTaken = 102"
| "error_number UsernameInvalid = 200"
| "error_number UsernameTaken = 201"
| "error_number EmailInvalid = 202"
| "error_number EmailTaken = 203"
| "error_number DisplayNameInvalid = 204"
| "error_number PasswordUnacceptable = 205"
| "error_number PersonNotFound = 206"
| "error_number AuthenticatorNotFound = 207"
| "error_number SecurityKeyNotFound = 208"
| "error_number ClientAuthenticationFailed = 300"
| "error_number ClientIdentifierInvalid = 301"
| "error_number ClientIdentifierTaken = 302"
| "error_number ClientNameInvalid = 303"
| "error_number ScopeInvalid = 304"
| "error_number ScopeNotAllowed = 305"
| "error_number GrantNotAllowed = 306"
| "error_number GrantTypeUnsupported = 307"
| "error_number ClientNotFound = 308"
| "error_number CapabilityUnknown = 309"
| "error_number RedirectUriInvalid = 310"
| "error_number RedirectUriMismatch = 311"
| "error_number AdminAuthenticationFailed = 400"
| "error_number CapabilityMissing = 401"
| "error_number SignInFailed = 402"
| "error_number HashingBusy = 403"
| "error_number AuthorizationRequestExpired = 404"
| "error_number SignInRequestsTooFrequent = 405"
| "error_number SessionRequired = 406"
| "error_number AuthenticatorAlreadyEnrolled = 407"
| "error_number CodeRejected = 408"
| "error_number SecondFactorProofRequired = 409"
| "error_number KeyRejected = 410"
| "error_number SecurityKeysNotServed = 411"
| "error_number ConsentNotFound = 412"
| "error_number TokenInvalid = 500"
| "error_number GrantInvalid = 501"
| "error_number TokenScopeInsufficient = 502"
| "error_number TokenTypeUnsupported = 503"
| "error_number TenantNameInvalid = 600"
| "error_number RoleNameInvalid = 900"
| "error_number RoleNameTaken = 901"
| "error_number RoleNotFound = 902"
| "error_number GroupNameInvalid = 903"
| "error_number GroupNameTaken = 904"
| "error_number GroupNotFound = 905"
| "error_number RoleTextInvalid = 906"
| "error_number GrantPeriodInvalid = 907"
| "error_number RoleGrantNotFound = 908"
| "error_number MembershipNotFound = 909"
| "error_number HeldTooMany = 918"
| "error_number RelationSchemaInvalid = 910"
| "error_number RelationInvalid = 911"
| "error_number RelationNotFound = 912"
| "error_number PolicyInvalid = 913"
| "error_number PolicyNameTaken = 914"
| "error_number PolicyNotFound = 915"
| "error_number ResourceTypeTaken = 916"
| "error_number NamedByPolicy = 917"

text \<open>\<open>ErrorCode::kind\<close>\<close>

primrec kind_of :: "error_code \<Rightarrow> error_kind" where
  "kind_of Internal = Internal_kind"
| "kind_of StorageUnavailable = Unavailable_kind"
| "kind_of Conflict = Conflicting"
| "kind_of RandomUnavailable = Internal_kind"
| "kind_of CryptoUnavailable = Internal_kind"
| "kind_of RequestInvalid = Invalid"
| "kind_of ListOffsetTooLarge = Invalid"
| "kind_of RealmNotFound = NotFound"
| "kind_of RealmNameInvalid = Invalid"
| "kind_of RealmNameTaken = Conflicting"
| "kind_of UsernameInvalid = Invalid"
| "kind_of UsernameTaken = Conflicting"
| "kind_of EmailInvalid = Invalid"
| "kind_of EmailTaken = Conflicting"
| "kind_of DisplayNameInvalid = Invalid"
| "kind_of PasswordUnacceptable = Invalid"
| "kind_of PersonNotFound = NotFound"
| "kind_of AuthenticatorNotFound = NotFound"
| "kind_of SecurityKeyNotFound = NotFound"
| "kind_of ClientAuthenticationFailed = Unauthenticated"
| "kind_of ClientIdentifierInvalid = Invalid"
| "kind_of ClientIdentifierTaken = Conflicting"
| "kind_of ClientNameInvalid = Invalid"
| "kind_of ScopeInvalid = Invalid"
| "kind_of ScopeNotAllowed = Invalid"
| "kind_of GrantNotAllowed = Forbidden"
| "kind_of GrantTypeUnsupported = Invalid"
| "kind_of ClientNotFound = NotFound"
| "kind_of CapabilityUnknown = Invalid"
| "kind_of RedirectUriInvalid = Invalid"
| "kind_of RedirectUriMismatch = Invalid"
| "kind_of AdminAuthenticationFailed = Unauthenticated"
| "kind_of CapabilityMissing = Forbidden"
| "kind_of SignInFailed = Unauthenticated"
| "kind_of HashingBusy = Unavailable_kind"
| "kind_of AuthorizationRequestExpired = Invalid"
| "kind_of SignInRequestsTooFrequent = Unavailable_kind"
| "kind_of SessionRequired = Unauthenticated"
| "kind_of AuthenticatorAlreadyEnrolled = Conflicting"
| "kind_of CodeRejected = Unauthenticated"
| "kind_of SecondFactorProofRequired = Forbidden"
| "kind_of KeyRejected = Unauthenticated"
| "kind_of SecurityKeysNotServed = Forbidden"
| "kind_of ConsentNotFound = NotFound"
| "kind_of TokenInvalid = Unauthenticated"
| "kind_of GrantInvalid = Invalid"
| "kind_of TokenScopeInsufficient = Forbidden"
| "kind_of TokenTypeUnsupported = Invalid"
| "kind_of TenantNameInvalid = Invalid"
| "kind_of RoleNameInvalid = Invalid"
| "kind_of RoleNameTaken = Conflicting"
| "kind_of RoleNotFound = NotFound"
| "kind_of GroupNameInvalid = Invalid"
| "kind_of GroupNameTaken = Conflicting"
| "kind_of GroupNotFound = NotFound"
| "kind_of RoleTextInvalid = Invalid"
| "kind_of GrantPeriodInvalid = Invalid"
| "kind_of RoleGrantNotFound = NotFound"
| "kind_of MembershipNotFound = NotFound"
| "kind_of HeldTooMany = Conflicting"
| "kind_of RelationSchemaInvalid = Invalid"
| "kind_of RelationInvalid = Invalid"
| "kind_of RelationNotFound = NotFound"
| "kind_of PolicyInvalid = Invalid"
| "kind_of PolicyNameTaken = Conflicting"
| "kind_of PolicyNotFound = NotFound"
| "kind_of ResourceTypeTaken = Conflicting"
| "kind_of NamedByPolicy = Conflicting"

text \<open>\<open>ErrorCode::slug\<close>\<close>

primrec slug :: "error_code \<Rightarrow> string" where
  "slug Internal = ''platform.internal''"
| "slug StorageUnavailable = ''platform.storage_unavailable''"
| "slug Conflict = ''platform.conflict''"
| "slug RandomUnavailable = ''platform.random_unavailable''"
| "slug CryptoUnavailable = ''platform.crypto_unavailable''"
| "slug RequestInvalid = ''platform.request_invalid''"
| "slug ListOffsetTooLarge = ''platform.list_offset_too_large''"
| "slug RealmNotFound = ''realm.not_found''"
| "slug RealmNameInvalid = ''realm.name_invalid''"
| "slug RealmNameTaken = ''realm.name_taken''"
| "slug UsernameInvalid = ''user.username_invalid''"
| "slug UsernameTaken = ''user.username_taken''"
| "slug EmailInvalid = ''user.email_invalid''"
| "slug EmailTaken = ''user.email_taken''"
| "slug DisplayNameInvalid = ''user.display_name_invalid''"
| "slug PasswordUnacceptable = ''user.password_unacceptable''"
| "slug PersonNotFound = ''user.not_found''"
| "slug AuthenticatorNotFound = ''user.authenticator_not_found''"
| "slug SecurityKeyNotFound = ''user.security_key_not_found''"
| "slug ClientAuthenticationFailed = ''client.authentication_failed''"
| "slug ClientIdentifierInvalid = ''client.identifier_invalid''"
| "slug ClientIdentifierTaken = ''client.identifier_taken''"
| "slug ClientNameInvalid = ''client.name_invalid''"
| "slug ScopeInvalid = ''client.scope_invalid''"
| "slug ScopeNotAllowed = ''client.scope_not_allowed''"
| "slug GrantNotAllowed = ''client.grant_not_allowed''"
| "slug GrantTypeUnsupported = ''client.grant_type_unsupported''"
| "slug ClientNotFound = ''client.not_found''"
| "slug CapabilityUnknown = ''client.capability_unknown''"
| "slug RedirectUriInvalid = ''client.redirect_uri_invalid''"
| "slug RedirectUriMismatch = ''client.redirect_uri_mismatch''"
| "slug AdminAuthenticationFailed = ''auth.admin_authentication_failed''"
| "slug CapabilityMissing = ''auth.capability_missing''"
| "slug SignInFailed = ''auth.sign_in_failed''"
| "slug HashingBusy = ''auth.hashing_busy''"
| "slug AuthorizationRequestExpired = ''auth.request_expired''"
| "slug SignInRequestsTooFrequent = ''auth.sign_in_requests_too_frequent''"
| "slug SessionRequired = ''auth.session_required''"
| "slug AuthenticatorAlreadyEnrolled = ''auth.authenticator_already_enrolled''"
| "slug CodeRejected = ''auth.code_rejected''"
| "slug SecondFactorProofRequired = ''auth.second_factor_proof_required''"
| "slug KeyRejected = ''auth.key_rejected''"
| "slug SecurityKeysNotServed = ''auth.security_keys_not_served''"
| "slug ConsentNotFound = ''auth.consent_not_found''"
| "slug TokenInvalid = ''token.invalid''"
| "slug GrantInvalid = ''token.grant_invalid''"
| "slug TokenScopeInsufficient = ''token.scope_insufficient''"
| "slug TokenTypeUnsupported = ''token.type_unsupported''"
| "slug TenantNameInvalid = ''tenant.name_invalid''"
| "slug RoleNameInvalid = ''authz.role_name_invalid''"
| "slug RoleNameTaken = ''authz.role_name_taken''"
| "slug RoleNotFound = ''authz.role_not_found''"
| "slug GroupNameInvalid = ''authz.group_name_invalid''"
| "slug GroupNameTaken = ''authz.group_name_taken''"
| "slug GroupNotFound = ''authz.group_not_found''"
| "slug RoleTextInvalid = ''authz.text_invalid''"
| "slug GrantPeriodInvalid = ''authz.grant_period_invalid''"
| "slug RoleGrantNotFound = ''authz.grant_not_found''"
| "slug MembershipNotFound = ''authz.membership_not_found''"
| "slug HeldTooMany = ''authz.held_too_many''"
| "slug RelationSchemaInvalid = ''authz.relation_schema_invalid''"
| "slug RelationInvalid = ''authz.relation_invalid''"
| "slug RelationNotFound = ''authz.relation_not_found''"
| "slug PolicyInvalid = ''authz.policy_invalid''"
| "slug PolicyNameTaken = ''authz.policy_name_taken''"
| "slug PolicyNotFound = ''authz.policy_not_found''"
| "slug ResourceTypeTaken = ''authz.resource_type_taken''"
| "slug NamedByPolicy = ''authz.named_by_policy''"

text \<open>\<open>ErrorCode::message\<close>\<close>

primrec error_message :: "error_code \<Rightarrow> string" where
  "error_message Internal = ''The request could not be completed.''"
| "error_message StorageUnavailable = ''The service is temporarily unavailable.''"
| "error_message Conflict = ''The request conflicts with what exists.''"
| "error_message RandomUnavailable = ''The request could not be completed.''"
| "error_message CryptoUnavailable = ''The request could not be completed.''"
| "error_message RequestInvalid = ''The request is missing a parameter or carries one it cannot.''"
| "error_message ListOffsetTooLarge = ''A list starts at 100000 at the latest: narrow it instead.''"
| "error_message RealmNotFound = ''No such realm.''"
| "error_message RealmNameInvalid = ''A realm name is 1 to 63 lowercase letters, digits or hyphens, and neither starts nor ends with a hyphen.''"
| "error_message RealmNameTaken = ''This realm name is already taken.''"
| "error_message UsernameInvalid = ''A username is 1 to 64 letters, digits, dots, hyphens or underscores, and starts and ends with a letter or a digit.''"
| "error_message UsernameTaken = ''This username is already taken.''"
| "error_message EmailInvalid = ''This is not an email address.''"
| "error_message EmailTaken = ''This email address is already taken.''"
| "error_message DisplayNameInvalid = ''A display name is at most 120 characters, none of them a control or a format character.''"
| "error_message PasswordUnacceptable = ''A password is 8 to 1024 bytes long.''"
| "error_message PersonNotFound = ''No such person.''"
| "error_message AuthenticatorNotFound = ''This person has no authenticator application.''"
| "error_message SecurityKeyNotFound = ''This person has no security key.''"
| "error_message ClientAuthenticationFailed = ''Client authentication failed.''"
| "error_message ClientIdentifierInvalid = ''A client identifier is 1 to 64 letters, digits, hyphens, dots or underscores.''"
| "error_message ClientIdentifierTaken = ''This client identifier is already taken.''"
| "error_message ClientNameInvalid = ''A client name is 1 to 120 characters, none of them a control or a format character.''"
| "error_message ScopeInvalid = ''A scope is 1 to 64 printable characters, without a space or a quote.''"
| "error_message ScopeNotAllowed = ''The client is not allowed a scope it asked for.''"
| "error_message GrantNotAllowed = ''The client is not allowed this grant.''"
| "error_message GrantTypeUnsupported = ''This grant type is not supported.''"
| "error_message ClientNotFound = ''No such client.''"
| "error_message CapabilityUnknown = ''A capability that was asked for does not exist.''"
| "error_message RedirectUriInvalid = ''A redirect URI is an https URL, or an http URL of this machine, without a fragment.''"
| "error_message RedirectUriMismatch = ''The redirect URI is not one the client registered.''"
| "error_message AdminAuthenticationFailed = ''Authentication is required.''"
| "error_message CapabilityMissing = ''The caller is not allowed to do this.''"
| "error_message SignInFailed = ''The name or the password is wrong.''"
| "error_message HashingBusy = ''The service is busy. Try again in a moment.''"
| "error_message AuthorizationRequestExpired = ''This sign-in has expired. Start again from the application.''"
| "error_message SignInRequestsTooFrequent = ''Too many sign-ins were started from here. Try again in a few minutes.''"
| "error_message SessionRequired = ''Sign in from an application first.''"
| "error_message AuthenticatorAlreadyEnrolled = ''An authenticator application is already set up for this account.''"
| "error_message CodeRejected = ''The code is wrong, or was already used.''"
| "error_message SecondFactorProofRequired = ''Sign in again with your second factor before you change it.''"
| "error_message KeyRejected = ''The security key was not accepted.''"
| "error_message SecurityKeysNotServed = ''This account needs a security key, and this service cannot use one. Ask an administrator.''"
| "error_message ConsentNotFound = ''This person gave that client no consent.''"
| "error_message TokenInvalid = ''The token is not valid.''"
| "error_message GrantInvalid = ''The grant is invalid, expired, or was already used.''"
| "error_message TokenScopeInsufficient = ''The token was not granted what this asks.''"
| "error_message TokenTypeUnsupported = ''A token of this type cannot be revoked.''"
| "error_message TenantNameInvalid = ''A tenant name is 1 to 120 characters, none of them a control character.''"
| "error_message RoleNameInvalid = ''A role name is 1 to 64 letters, digits, dots, colons, hyphens or underscores.''"
| "error_message RoleNameTaken = ''This role name is already taken.''"
| "error_message RoleNotFound = ''No such role.''"
| "error_message GroupNameInvalid = ''A group name is 1 to 64 letters, digits, dots, colons, hyphens or underscores.''"
| "error_message GroupNameTaken = ''This group name is already taken.''"
| "error_message GroupNotFound = ''No such group.''"
| "error_message RoleTextInvalid = ''A description or a reason is at most 255 characters, none of them a control or a format character.''"
| "error_message GrantPeriodInvalid = ''A grant ends after it starts and after now, at instants written in RFC 3339.''"
| "error_message RoleGrantNotFound = ''This role is not granted there.''"
| "error_message MembershipNotFound = ''This person is not a member of this group.''"
| "error_message HeldTooMany = ''This person holds more roles or groups than a token or a decision can say.''"
| "error_message RelationSchemaInvalid = ''The schema of relations has faults.''"
| "error_message RelationInvalid = ''The schema of the realm does not admit this relation.''"
| "error_message RelationNotFound = ''No such relation.''"
| "error_message PolicyInvalid = ''The policy cannot be read, or names what the realm does not have.''"
| "error_message PolicyNameTaken = ''This policy name is already taken.''"
| "error_message PolicyNotFound = ''No such policy.''"
| "error_message ResourceTypeTaken = ''A type of resource is decided by the schema of relations or by policies, never by both.''"
| "error_message NamedByPolicy = ''A policy names this role or group: remove the policy first.''"

record failure =
  code :: error_code
  detail :: "string option"

text \<open>\<open>Failure::new\<close> and \<open>Failure::with_detail\<close>\<close>

definition new_failure :: "error_code \<Rightarrow> failure" where
  "new_failure c = \<lparr>code = c, detail = None\<rparr>"

definition failure_with_detail :: "error_code \<Rightarrow> string \<Rightarrow> failure" where
  "failure_with_detail c d = \<lparr>code = c, detail = Some d\<rparr>"

lemma code_new_failure [simp]: "code (new_failure c) = c"
  by (simp add: new_failure_def)

lemma code_failure_with_detail [simp]: "code (failure_with_detail c d) = c"
  by (simp add: failure_with_detail_def)

lemma new_failure_eq [simp]: "new_failure c = new_failure d \<longleftrightarrow> c = d"
  by (simp add: new_failure_def)

subsection \<open>Refusals of the storage\<close>

datatype storage_unavailable = PoolExhausted | TimedOut | TlsFailed | Refused_connection
  | SchemaBehind | SchemaAhead | Unreachable

datatype storage_error =
    Storage_Unavailable storage_unavailable
  | Taken string
  | Storage_Failed

text \<open>The text of \<open>StorageUnavailable\<close>, as its \<open>Display\<close> writes it.\<close>

fun unavailable_text :: "storage_unavailable \<Rightarrow> string" where
  "unavailable_text PoolExhausted = ''every database connection is in use''"
| "unavailable_text TimedOut = ''the database did not answer in time''"
| "unavailable_text TlsFailed = ''the TLS handshake with the database failed''"
| "unavailable_text Refused_connection = ''the database refused the connection''"
| "unavailable_text SchemaBehind = ''the database schema is behind this binary: migrations are pending''"
| "unavailable_text SchemaAhead = ''the database schema is ahead of this binary''"
| "unavailable_text Unreachable = ''nothing answers at the database address''"

text \<open>\<open>impl From<StorageError> for Failure\<close>\<close>

fun failure_of_storage :: "storage_error \<Rightarrow> failure" where
  "failure_of_storage (Storage_Unavailable reason) =
     failure_with_detail StorageUnavailable (unavailable_text reason)"
| "failure_of_storage (Taken what) = failure_with_detail Conflict what"
| "failure_of_storage Storage_Failed = new_failure Internal"

subsection \<open>The protocol plane\<close>

datatype oauth_error = InvalidRequest | InvalidClient | UnauthorizedClient
  | UnsupportedGrantType | InvalidGrant | InvalidScope | UnsupportedResponseType
  | LoginRequired | ConsentRequired | AccessDenied | UnsupportedTokenType | ServerError
  | TemporarilyUnavailable

text \<open>\<open>OAuthError::name\<close>\<close>

primrec oauth_error_name :: "oauth_error \<Rightarrow> string" where
  "oauth_error_name InvalidRequest = ''invalid_request''"
| "oauth_error_name InvalidClient = ''invalid_client''"
| "oauth_error_name UnauthorizedClient = ''unauthorized_client''"
| "oauth_error_name UnsupportedGrantType = ''unsupported_grant_type''"
| "oauth_error_name InvalidGrant = ''invalid_grant''"
| "oauth_error_name InvalidScope = ''invalid_scope''"
| "oauth_error_name UnsupportedResponseType = ''unsupported_response_type''"
| "oauth_error_name LoginRequired = ''login_required''"
| "oauth_error_name ConsentRequired = ''consent_required''"
| "oauth_error_name AccessDenied = ''access_denied''"
| "oauth_error_name UnsupportedTokenType = ''unsupported_token_type''"
| "oauth_error_name ServerError = ''server_error''"
| "oauth_error_name TemporarilyUnavailable = ''temporarily_unavailable''"

text \<open>\<open>OAuthError::describe\<close>\<close>

primrec describe_oauth_error :: "oauth_error \<Rightarrow> string" where
  "describe_oauth_error InvalidRequest = ''The request is missing a parameter or carries one twice.''"
| "describe_oauth_error InvalidClient = ''Client authentication failed.''"
| "describe_oauth_error UnauthorizedClient = ''The client is not allowed this grant.''"
| "describe_oauth_error UnsupportedGrantType = ''This grant type is not served.''"
| "describe_oauth_error InvalidGrant = ''The grant is invalid, expired, or was already used.''"
| "describe_oauth_error InvalidScope = ''A scope that was asked for is unknown or not allowed.''"
| "describe_oauth_error UnsupportedResponseType = ''Only the code response type is served.''"
| "describe_oauth_error LoginRequired = ''The person must sign in.''"
| "describe_oauth_error ConsentRequired = ''The person must allow the client first.''"
| "describe_oauth_error AccessDenied = ''The person did not allow the client.''"
| "describe_oauth_error UnsupportedTokenType = ''A token of this type cannot be revoked.''"
| "describe_oauth_error ServerError = ''The request could not be completed.''"
| "describe_oauth_error TemporarilyUnavailable = ''The service is busy. Try again in a moment.''"

record oauth_failure =
  oauth_error :: oauth_error
  cause :: failure

text \<open>\<open>impl From<Failure> for OAuthFailure\<close>\<close>

definition oauth_error_of :: "error_code \<Rightarrow> oauth_error" where
  "oauth_error_of c =
     (if c = ClientAuthenticationFailed \<or> c = RealmNotFound then InvalidClient
      else if c = ScopeInvalid \<or> c = ScopeNotAllowed then InvalidScope
      else if c = GrantNotAllowed then UnauthorizedClient
      else if c = GrantInvalid then InvalidGrant
      else if c = GrantTypeUnsupported then UnsupportedGrantType
      else if c = TokenTypeUnsupported then UnsupportedTokenType
      else
        (case kind_of c of
           Unavailable_kind \<Rightarrow> TemporarilyUnavailable
         | Internal_kind \<Rightarrow> ServerError
         | _ \<Rightarrow> InvalidRequest))"

definition oauth_failure_of :: "failure \<Rightarrow> oauth_failure" where
  "oauth_failure_of f = \<lparr>oauth_error = oauth_error_of (code f), cause = f\<rparr>"

definition oauth_failure_of_code :: "error_code \<Rightarrow> oauth_failure" where
  "oauth_failure_of_code c = oauth_failure_of (new_failure c)"

lemma cause_oauth_failure_of [simp]: "cause (oauth_failure_of f) = f"
  by (simp add: oauth_failure_of_def)

subsection \<open>The catalog\<close>

text \<open>Every code, in the order the source lists them.\<close>

definition all_codes :: "error_code list" where
  "all_codes =
     [Internal, StorageUnavailable, Conflict, RandomUnavailable,
      CryptoUnavailable, RequestInvalid, ListOffsetTooLarge, RealmNotFound,
      RealmNameInvalid, RealmNameTaken, UsernameInvalid, UsernameTaken,
      EmailInvalid, EmailTaken, DisplayNameInvalid, PasswordUnacceptable,
      PersonNotFound, AuthenticatorNotFound, SecurityKeyNotFound, ClientAuthenticationFailed,
      ClientIdentifierInvalid, ClientIdentifierTaken, ClientNameInvalid, ScopeInvalid,
      ScopeNotAllowed, GrantNotAllowed, GrantTypeUnsupported, ClientNotFound,
      CapabilityUnknown, RedirectUriInvalid, RedirectUriMismatch, AdminAuthenticationFailed,
      CapabilityMissing, SignInFailed, HashingBusy, AuthorizationRequestExpired,
      SignInRequestsTooFrequent, SessionRequired, AuthenticatorAlreadyEnrolled, CodeRejected,
      SecondFactorProofRequired, KeyRejected, SecurityKeysNotServed, ConsentNotFound,
      TokenInvalid, GrantInvalid, TokenScopeInsufficient, TokenTypeUnsupported,
      TenantNameInvalid, RoleNameInvalid, RoleNameTaken, RoleNotFound,
      GroupNameInvalid, GroupNameTaken, GroupNotFound, RoleTextInvalid,
      GrantPeriodInvalid, RoleGrantNotFound, MembershipNotFound, HeldTooMany,
      RelationSchemaInvalid, RelationInvalid, RelationNotFound, PolicyInvalid,
      PolicyNameTaken, PolicyNotFound, ResourceTypeTaken, NamedByPolicy]"

lemma in_all_codes: "c \<in> set all_codes"
  by (cases c) (simp_all add: all_codes_def)

lemma inj_of_distinct: "distinct (map f xs) \<Longrightarrow> (\<And>x. x \<in> set xs) \<Longrightarrow> f a = f b \<longleftrightarrow> a = b"
  by (auto simp: distinct_map inj_on_def)

lemma error_number_eq_iff: "error_number c = error_number d \<longleftrightarrow> c = d"
  by (rule inj_of_distinct [of error_number all_codes])
     (simp_all only: in_all_codes, simp add: all_codes_def)

lemma slug_eq_iff: "slug c = slug d \<longleftrightarrow> c = d"
  by (rule inj_of_distinct [of slug all_codes])
     (simp_all only: in_all_codes, simp add: all_codes_def)

lemma oauth_error_invalid_client:
  "oauth_error_of c = InvalidClient \<longleftrightarrow> c \<in> {ClientAuthenticationFailed, RealmNotFound}"
  by (simp add: oauth_error_of_def split: error_kind.split)

lemma oauth_error_server: "oauth_error_of c = ServerError \<longleftrightarrow> kind_of c = Internal_kind"
  by (auto simp: oauth_error_of_def split: error_kind.split)

lemma oauth_error_unavailable:
  "oauth_error_of c = TemporarilyUnavailable \<longleftrightarrow> kind_of c = Unavailable_kind"
  by (auto simp: oauth_error_of_def split: error_kind.split)

subsection \<open>Properties\<close>

text \<open>
  An error is told by its number and by its slug alone: no two codes of the catalog share
  either, so whoever reads a refusal knows which rule refused.
\<close>

theorem error_codes_told_apart:
  "(error_number c = error_number d \<longleftrightarrow> c = d) \<and> (slug c = slug d \<longleftrightarrow> c = d)"
  by (simp add: error_number_eq_iff slug_eq_iff)

text \<open>
  What the protocol plane tells of a failure. A client is told \<open>invalid_client\<close> exactly when it
  failed to authenticate or named a realm that is not there, the two told alike; \<open>server_error\<close>
  exactly for the internal failures and \<open>temporarily_unavailable\<close> exactly for what is out of
  reach; and a failure of the storage reaches it as one of these two or as a conflict.
\<close>

theorem oauth_errors_told:
  "(oauth_error_of c = InvalidClient \<longleftrightarrow> c \<in> {ClientAuthenticationFailed, RealmNotFound}) \<and>
   (oauth_error_of c = ServerError \<longleftrightarrow> kind_of c = Internal_kind) \<and>
   (oauth_error_of c = TemporarilyUnavailable \<longleftrightarrow> kind_of c = Unavailable_kind) \<and>
   cause (oauth_failure_of f) = f \<and>
   code (failure_of_storage e) \<in> {StorageUnavailable, Conflict, Internal}"
  by (cases e)
     (simp_all add: oauth_error_invalid_client oauth_error_server oauth_error_unavailable
       failure_with_detail_def new_failure_def)

end
