(* ===== verification/Schema.thy ===== *)
theory Schema
  imports Errors
begin

text \<open>
  The data of relations: objects, subjects and the tuples a realm keeps
  (\<open>saffui-core/src/authz/relations/mod.rs\<close>), and the compiled schema that says what they
  mean (\<open>saffui-core/src/authz/relations/schema.rs\<close>): the types of objects, the subjects
  each relation admits and the rules permissions are computed from. The lemmas show that
  an object and a subject written as text read back as themselves, and that what changes
  between two schemas is exactly what one admits and the other does not.
\<close>

subsection \<open>Objects, subjects and tuples\<close>

datatype object_ref = ObjectRef (object_type: string) (object_id: string)

datatype subject_ref = SubjectRef (object: object_ref) (member: "string option")

datatype relation_tuple =
  RelationTuple (tuple_object: object_ref) (tuple_relation: string) (tuple_subject: subject_ref)

text \<open>The order \<open>derive(Ord)\<close> gives them: field by field.\<close>

instantiation object_ref :: linorder
begin

definition less_eq_object_ref :: "object_ref \<Rightarrow> object_ref \<Rightarrow> bool" where
  "less_eq_object_ref a b \<longleftrightarrow> (object_type a, object_id a) \<le> (object_type b, object_id b)"

definition less_object_ref :: "object_ref \<Rightarrow> object_ref \<Rightarrow> bool" where
  "less_object_ref a b \<longleftrightarrow> (object_type a, object_id a) < (object_type b, object_id b)"

instance
  by standard
     (auto simp: less_eq_object_ref_def less_object_ref_def object_ref.expand)

end

instantiation subject_ref :: linorder
begin

definition less_eq_subject_ref :: "subject_ref \<Rightarrow> subject_ref \<Rightarrow> bool" where
  "less_eq_subject_ref a b \<longleftrightarrow> (object a, member a) \<le> (object b, member b)"

definition less_subject_ref :: "subject_ref \<Rightarrow> subject_ref \<Rightarrow> bool" where
  "less_subject_ref a b \<longleftrightarrow> (object a, member a) < (object b, member b)"

instance
  by standard
     (auto simp: less_eq_subject_ref_def less_subject_ref_def subject_ref.expand)

end

subsection \<open>The compiled schema\<close>

definition COMPILED_VERSION :: nat where
  "COMPILED_VERSION = 1"

datatype allowed_subject =
  AllowedSubject (allowed_type: string) (allowed_member: "string option")

instantiation allowed_subject :: linorder
begin

definition less_eq_allowed_subject :: "allowed_subject \<Rightarrow> allowed_subject \<Rightarrow> bool" where
  "less_eq_allowed_subject a b \<longleftrightarrow>
     (allowed_type a, allowed_member a) \<le> (allowed_type b, allowed_member b)"

definition less_allowed_subject :: "allowed_subject \<Rightarrow> allowed_subject \<Rightarrow> bool" where
  "less_allowed_subject a b \<longleftrightarrow>
     (allowed_type a, allowed_member a) < (allowed_type b, allowed_member b)"

instance
  by standard
     (auto simp: less_eq_allowed_subject_def less_allowed_subject_def allowed_subject.expand)

end

datatype rule =
    Computed string
  | Arrow string string
  | Union "rule list"
  | Intersection "rule list"

text \<open>An \<open>ObjectType\<close> and a \<open>CompiledSchema\<close>: their maps are ordered by key.\<close>

record object_type_form =
  form_relations :: "(string \<times> allowed_subject list) list"
  form_permissions :: "(string \<times> rule) list"

record compiled_schema =
  schema_version :: nat
  schema_types :: "(string \<times> object_type_form) list"

datatype member_kind =
    Relation_member "allowed_subject list"
  | Permission_member rule

definition find_member :: "compiled_schema \<Rightarrow> string \<Rightarrow> string \<Rightarrow> member_kind option" where
  "find_member schema ty m =
     (case map_of (schema_types schema) ty of
        None \<Rightarrow> None
      | Some found \<Rightarrow>
          (case map_of (form_relations found) m of
             Some allowed \<Rightarrow> Some (Relation_member allowed)
           | None \<Rightarrow> map_option Permission_member (map_of (form_permissions found) m)))"

subsection \<open>Names and their texts\<close>

text \<open>\<open>is_schema_name\<close>: a lowercase letter, then up to 63 lowercase letters, digits or underscores.\<close>

definition is_schema_name :: "string \<Rightarrow> bool" where
  "is_schema_name text \<longleftrightarrow>
     (case text of
        [] \<Rightarrow> False
      | first # rest \<Rightarrow>
          is_ascii_lowercase first \<and> length text \<le> 64 \<and>
          list_all (\<lambda>b. is_ascii_lowercase b \<or> is_ascii_digit b \<or> b = CHR ''_'') rest)"

definition is_object_id :: "string \<Rightarrow> bool" where
  "is_object_id text \<longleftrightarrow>
     1 \<le> length text \<and> length text \<le> 128 \<and>
     list_all (\<lambda>b. is_ascii_alphanumeric b \<or> b \<in> set ''.:@_-'') text"

definition read_object :: "string \<Rightarrow> object_ref option" where
  "read_object text =
     (case split_once CHR '':'' text of
        None \<Rightarrow> None
      | Some (ty, i) \<Rightarrow>
          if is_schema_name ty \<and> is_object_id i then Some (ObjectRef ty i) else None)"

definition read_subject :: "string \<Rightarrow> subject_ref option" where
  "read_subject text =
     (case rsplit_once CHR ''#'' text of
        Some (obj, m) \<Rightarrow>
          if is_schema_name m
          then map_option (\<lambda>found. SubjectRef found (Some m)) (read_object obj)
          else None
      | None \<Rightarrow> map_option (\<lambda>found. SubjectRef found None) (read_object text))"

text \<open>The texts \<open>describe_relation\<close> writes of an object and of a subject.\<close>

definition show_object :: "object_ref \<Rightarrow> string" where
  "show_object obj = object_type obj @ '':'' @ object_id obj"

definition show_subject :: "subject_ref \<Rightarrow> string" where
  "show_subject s =
     show_object (object s) @ (case member s of None \<Rightarrow> '''' | Some m \<Rightarrow> ''#'' @ m)"

text \<open>\<open>check_relation_names\<close>: what no schema could admit is refused.\<close>

definition relation_names_ok :: "relation_tuple \<Rightarrow> bool" where
  "relation_names_ok t \<longleftrightarrow>
     is_schema_name (object_type (tuple_object t)) \<and>
     is_object_id (object_id (tuple_object t)) \<and>
     is_schema_name (tuple_relation t) \<and>
     is_schema_name (object_type (object (tuple_subject t))) \<and>
     is_object_id (object_id (object (tuple_subject t))) \<and>
     is_none_or is_schema_name (member (tuple_subject t))"

definition check_relation_names :: "relation_tuple \<Rightarrow> failure + unit" where
  "check_relation_names t =
     (if relation_names_ok t then Ok () else Err (new_failure RelationInvalid))"

subsection \<open>What a schema admits\<close>

datatype admitted_relation =
  AdmittedRelation (adm_type: string) (adm_relation: string) (adm_subject: allowed_subject)

definition list_admitted_relations :: "compiled_schema \<Rightarrow> admitted_relation list" where
  "list_admitted_relations schema =
     concat (map (\<lambda>(ty, found).
        concat (map (\<lambda>(rel, allowed). map (AdmittedRelation ty rel) allowed)
          (form_relations found)))
       (schema_types schema))"

definition is_admitted_by :: "admitted_relation \<Rightarrow> compiled_schema \<Rightarrow> bool" where
  "is_admitted_by one schema \<longleftrightarrow>
     (case map_of (schema_types schema) (adm_type one) of
        None \<Rightarrow> False
      | Some found \<Rightarrow>
          is_some_and (\<lambda>allowed. adm_subject one \<in> set allowed)
            (map_of (form_relations found) (adm_relation one)))"

definition list_changed_relations ::
    "compiled_schema \<Rightarrow> compiled_schema \<Rightarrow> admitted_relation list" where
  "list_changed_relations before after =
     filter (\<lambda>one. \<not> is_admitted_by one after) (list_admitted_relations before) @
     filter (\<lambda>one. \<not> is_admitted_by one before) (list_admitted_relations after)"

text \<open>
  A compiled form as a \<open>BTreeMap\<close> holds it: the keys of every map are in order, so no key
  is there twice.
\<close>

definition well_keyed :: "compiled_schema \<Rightarrow> bool" where
  "well_keyed schema \<longleftrightarrow>
     bt_sorted (schema_types schema) \<and>
     (\<forall>(ty, found) \<in> set (schema_types schema).
        bt_sorted (form_relations found) \<and> bt_sorted (form_permissions found))"

subsection \<open>Texts read back\<close>

lemma schema_name_letters:
  assumes "is_schema_name text" and "c \<in> set text"
  shows "is_ascii_lowercase c \<or> is_ascii_digit c \<or> c = CHR ''_''"
  using assms by (auto simp: is_schema_name_def list_all_iff split: list.splits)

lemma mark_not_in_name:
  assumes "is_schema_name text"
  shows "CHR '':'' \<notin> set text" and "CHR ''#'' \<notin> set text"
  using schema_name_letters [OF assms]
  by (force simp: is_ascii_lowercase_def is_ascii_digit_def less_eq_char_def)+

lemma mark_not_in_id: "is_object_id text \<Longrightarrow> CHR ''#'' \<notin> set text"
  by (auto simp: is_object_id_def list_all_iff is_ascii_alphanumeric_def is_ascii_lowercase_def
      is_ascii_uppercase_def is_ascii_digit_def less_eq_char_def)

definition object_ok :: "object_ref \<Rightarrow> bool" where
  "object_ok obj \<longleftrightarrow> is_schema_name (object_type obj) \<and> is_object_id (object_id obj)"

lemma read_object_iff: "read_object text = Some obj \<longleftrightarrow> object_ok obj \<and> text = show_object obj"
proof
  assume "read_object text = Some obj"
  then show "object_ok obj \<and> text = show_object obj"
    by (auto simp: read_object_def object_ok_def show_object_def split_once_Some
        split: option.splits if_splits)
next
  assume ok: "object_ok obj \<and> text = show_object obj"
  then have "split_once CHR '':'' text = Some (object_type obj, object_id obj)"
    by (simp add: split_once_Some show_object_def object_ok_def mark_not_in_name)
  with ok show "read_object text = Some obj"
    by (simp add: read_object_def object_ok_def)
qed

lemma mark_not_in_object: "object_ok obj \<Longrightarrow> CHR ''#'' \<notin> set (show_object obj)"
  by (simp add: object_ok_def show_object_def mark_not_in_name mark_not_in_id)

lemma read_subject_iff:
  "read_subject text = Some s \<longleftrightarrow>
     object_ok (object s) \<and> is_none_or is_schema_name (member s) \<and> text = show_subject s"
proof (cases "member s")
  case None
  have "read_subject text = Some s \<longleftrightarrow>
      rsplit_once CHR ''#'' text = None \<and> read_object text = Some (object s)"
    using None
    by (cases s) (auto simp: read_subject_def simp del: rsplit_once_None
        split: option.splits if_splits)
  with None show ?thesis
    by (auto simp: read_object_iff show_subject_def mark_not_in_object)
next
  case (Some m)
  have "read_subject text = Some s \<longleftrightarrow>
      (\<exists>obj. rsplit_once CHR ''#'' text = Some (obj, m) \<and> is_schema_name m \<and>
         read_object obj = Some (object s))"
    using Some
    by (cases s) (auto simp: read_subject_def simp del: rsplit_once_None
        split: option.splits if_splits)
  with Some show ?thesis
    by (auto simp: read_object_iff rsplit_once_Some show_subject_def mark_not_in_name)
qed

subsection \<open>What changes between schemas\<close>

lemma map_of_sorted_iff: "bt_sorted m \<Longrightarrow> map_of m k = Some v \<longleftrightarrow> (k, v) \<in> set m"
  by (simp add: bt_sorted_distinct map_of_eq_Some_iff)

lemma in_list_admitted:
  "one \<in> set (list_admitted_relations schema) \<longleftrightarrow>
     (\<exists>found allowed. (adm_type one, found) \<in> set (schema_types schema) \<and>
        (adm_relation one, allowed) \<in> set (form_relations found) \<and>
        adm_subject one \<in> set allowed)"
proof -
  have "one \<in> set (list_admitted_relations schema) \<longleftrightarrow>
      (\<exists>(ty, found) \<in> set (schema_types schema).
         \<exists>(rel, allowed) \<in> set (form_relations found). \<exists>s \<in> set allowed.
           one = AdmittedRelation ty rel s)"
    by (auto simp: list_admitted_relations_def image_iff split_beta)
  then show ?thesis by (cases one) auto
qed

lemma list_admitted_iff:
  assumes "well_keyed schema"
  shows "one \<in> set (list_admitted_relations schema) \<longleftrightarrow> is_admitted_by one schema"
proof -
  have types: "bt_sorted (schema_types schema)"
    and relations: "\<And>ty found. (ty, found) \<in> set (schema_types schema) \<Longrightarrow>
      bt_sorted (form_relations found)"
    using assms by (auto simp: well_keyed_def)
  have "is_admitted_by one schema \<longleftrightarrow>
      (\<exists>found allowed. map_of (schema_types schema) (adm_type one) = Some found \<and>
         map_of (form_relations found) (adm_relation one) = Some allowed \<and>
         adm_subject one \<in> set allowed)"
    by (auto simp: is_admitted_by_def is_some_and_def split: option.splits)
  also have "\<dots> \<longleftrightarrow> (\<exists>found allowed. (adm_type one, found) \<in> set (schema_types schema) \<and>
        (adm_relation one, allowed) \<in> set (form_relations found) \<and>
        adm_subject one \<in> set allowed)"
    using relations by (simp add: map_of_sorted_iff [OF types]) (metis map_of_sorted_iff)
  finally show ?thesis by (simp add: in_list_admitted)
qed

lemma list_changed_iff:
  assumes "well_keyed before" and "well_keyed after"
  shows "one \<in> set (list_changed_relations before after) \<longleftrightarrow>
     is_admitted_by one before \<noteq> is_admitted_by one after"
  using assms by (auto simp: list_changed_relations_def list_admitted_iff)

subsection \<open>Properties\<close>

text \<open>
  Objects and subjects are read exactly as they are written. A text reads as an object when it
  is what the object is shown as, and the object has a type and an identifier the schema admits;
  the same holds of subjects, with or without a member. Nothing else reads.
\<close>

theorem references_round_trip:
  "(read_object text = Some obj \<longleftrightarrow> object_ok obj \<and> text = show_object obj) \<and>
   (read_subject text = Some sub \<longleftrightarrow>
      object_ok (object sub) \<and> is_none_or is_schema_name (member sub) \<and> text = show_subject sub)"
  by (simp add: read_object_iff read_subject_iff)

end
