(* ===== verification/Texts.thy ===== *)
theory Texts
  imports Errors
begin

text \<open>
  The checks of texts the components share: what a page can show
  (\<open>saffui-core/src/clients/mod.rs\<close>), the names of roles, groups, policies, realms and
  scopes, the descriptions an administrator writes (\<open>saffui-core/src/authz/roles.rs\<close>), and
  the addresses a person may be sent back to. Characters are the code points of the
  UTF-8 bytes of a text.
\<close>

subsection \<open>Characters\<close>

definition byte_of :: "char \<Rightarrow> nat" where
  "byte_of c = of_char c"

definition byte :: "nat \<Rightarrow> char" where
  "byte n = char_of n"

text \<open>
  \<open>text.chars()\<close>: the code points of a text. A \<open>&str\<close> is well formed, so a lead byte is
  always followed by its continuation bytes; on bytes that are not, the model reads each
  byte for itself.
\<close>

fun chars :: "string \<Rightarrow> nat list" where
  "chars [] = []"
| "chars (a # rest) =
     (let x = byte_of a in
      if x < 128 then x # chars rest
      else if 192 \<le> x \<and> x < 224 then
        (case rest of
           b # rest' \<Rightarrow> ((x - 192) * 64 + (byte_of b - 128)) # chars rest'
         | [] \<Rightarrow> [x])
      else if 224 \<le> x \<and> x < 240 then
        (case rest of
           b # c # rest' \<Rightarrow>
             ((x - 224) * 4096 + (byte_of b - 128) * 64 + (byte_of c - 128)) # chars rest'
         | _ \<Rightarrow> x # chars rest)
      else if 240 \<le> x then
        (case rest of
           b # c # d # rest' \<Rightarrow>
             ((x - 240) * 262144 + (byte_of b - 128) * 4096 + (byte_of c - 128) * 64
                + (byte_of d - 128)) # chars rest'
         | _ \<Rightarrow> x # chars rest)
      else x # chars rest)"

text \<open>The UTF-8 bytes of a code point, and of a text of them.\<close>

definition encode_char :: "nat \<Rightarrow> string" where
  "encode_char c =
     (if c < 128 then [byte c]
      else if c < 2048 then [byte (192 + c div 64), byte (128 + c mod 64)]
      else if c < 65536 then
        [byte (224 + c div 4096), byte (128 + c div 64 mod 64), byte (128 + c mod 64)]
      else
        [byte (240 + c div 262144), byte (128 + c div 4096 mod 64),
         byte (128 + c div 64 mod 64), byte (128 + c mod 64)])"

definition encode_chars :: "nat list \<Rightarrow> string" where
  "encode_chars cs = concat (map encode_char cs)"

text \<open>\<open>String::from_utf8\<close>: the bytes are those of code points that are characters.\<close>

definition is_scalar :: "nat \<Rightarrow> bool" where
  "is_scalar c \<longleftrightarrow> c < 0xD800 \<or> 0xE000 \<le> c \<and> c < 0x110000"

definition is_utf8 :: "bytes \<Rightarrow> bool" where
  "is_utf8 bs \<longleftrightarrow> list_all is_scalar (chars bs) \<and> encode_chars (chars bs) = bs"

text \<open>\<open>char::is_control\<close> (category Cc) and \<open>char::is_whitespace\<close> (property White_Space).\<close>

definition is_control :: "nat \<Rightarrow> bool" where
  "is_control c \<longleftrightarrow> c \<le> 31 \<or> 127 \<le> c \<and> c \<le> 159"

definition is_whitespace :: "nat \<Rightarrow> bool" where
  "is_whitespace c \<longleftrightarrow>
     9 \<le> c \<and> c \<le> 13 \<or> c \<in> {32, 133, 160, 5760, 8232, 8233, 8239, 8287, 12288} \<or>
     8192 \<le> c \<and> c \<le> 8202"

definition is_unshowable :: "nat \<Rightarrow> bool" where
  "is_unshowable c \<longleftrightarrow>
     is_control c \<or>
     c = 0xad \<or> (0x600 \<le> c \<and> c \<le> 0x605) \<or> c = 0x61c \<or> c = 0x6dd \<or> c = 0x70f \<or>
     (0x890 \<le> c \<and> c \<le> 0x891) \<or> c = 0x8e2 \<or> c = 0x180e \<or>
     (0x200b \<le> c \<and> c \<le> 0x200f) \<or> (0x2028 \<le> c \<and> c \<le> 0x202e) \<or>
     (0x2060 \<le> c \<and> c \<le> 0x2064) \<or> (0x2066 \<le> c \<and> c \<le> 0x206f) \<or>
     c = 0xfeff \<or> (0xfff9 \<le> c \<and> c \<le> 0xfffb) \<or> c = 0x110bd \<or> c = 0x110cd \<or>
     (0x13430 \<le> c \<and> c \<le> 0x1343f) \<or> (0x1bca0 \<le> c \<and> c \<le> 0x1bca3) \<or>
     (0x1d173 \<le> c \<and> c \<le> 0x1d17a) \<or> c = 0xe0001 \<or> (0xe0020 \<le> c \<and> c \<le> 0xe007f)"

text \<open>\<open>char::REPLACEMENT_CHARACTER\<close> is U+FFFD.\<close>

definition neutralize_unshowable :: "string \<Rightarrow> string" where
  "neutralize_unshowable text =
     encode_chars (map (\<lambda>c. if is_unshowable c then 0xfffd else c) (chars text))"

definition trim :: "string \<Rightarrow> string" where
  "trim text = encode_chars (rev (dropWhile is_whitespace (rev (dropWhile is_whitespace (chars text)))))"

subsection \<open>Names\<close>

definition is_role_name :: "string \<Rightarrow> bool" where
  "is_role_name text \<longleftrightarrow>
     1 \<le> length text \<and> length text \<le> 64 \<and>
     list_all (\<lambda>b. is_ascii_alphanumeric b \<or> b \<in> set ''.:_-'') text"

definition read_role_text :: "string option \<Rightarrow> failure + string option" where
  "read_role_text text =
     (case filter_option (\<lambda>t. t \<noteq> []) (map_option trim text) of
        None \<Rightarrow> Ok None
      | Some t \<Rightarrow>
          if length (chars t) > 255 \<or> list_ex is_unshowable (chars t)
          then Err (new_failure RoleTextInvalid)
          else Ok (Some t))"

text \<open>\<open>RealmName::parse\<close>\<close>

definition parse_realm_name :: "string \<Rightarrow> failure + string" where
  "parse_realm_name text =
     (if 1 \<le> length text \<and> length text \<le> 63 \<and>
         list_all (\<lambda>b. is_ascii_lowercase b \<or> is_ascii_digit b \<or> b = CHR ''-'') text \<and>
         hd text \<noteq> CHR ''-'' \<and> last text \<noteq> CHR ''-''
      then Ok text
      else Err (new_failure RealmNameInvalid))"

text \<open>
  \<open>check_client_identifier\<close>. Whether a text is shaped as the identifier of a person is asked
  of the \<open>uuid\<close> crate.
\<close>

definition check_client_identifier :: "(string \<Rightarrow> bool) \<Rightarrow> string \<Rightarrow> failure + unit" where
  "check_client_identifier is_uuid text =
     (if 1 \<le> length text \<and> length text \<le> 64 \<and>
         list_all (\<lambda>b. is_ascii_alphanumeric b \<or> b \<in> set ''-._'') text \<and>
         \<not> is_uuid text
      then Ok ()
      else Err (new_failure ClientIdentifierInvalid))"

definition check_scope_token :: "string \<Rightarrow> failure + unit" where
  "check_scope_token text =
     (if 1 \<le> length text \<and> length text \<le> 64 \<and>
         list_all (\<lambda>b. byte_of b = 0x21 \<or> 0x23 \<le> byte_of b \<and> byte_of b \<le> 0x5b \<or>
           0x5d \<le> byte_of b \<and> byte_of b \<le> 0x7e) text
      then Ok ()
      else Err (new_failure ScopeInvalid))"

subsection \<open>Redirect addresses\<close>

text \<open>\<open>strip_prefix\<close>, \<open>split(marks).next()\<close> and \<open>trim_start_matches(mark)\<close>\<close>

fun strip_prefix :: "string \<Rightarrow> string \<Rightarrow> string option" where
  "strip_prefix [] text = Some text"
| "strip_prefix (p # ps) [] = None"
| "strip_prefix (p # ps) (c # cs) = (if p = c then strip_prefix ps cs else None)"

definition before_any :: "string \<Rightarrow> string \<Rightarrow> string" where
  "before_any marks text = takeWhile (\<lambda>c. c \<notin> set marks) text"

definition check_redirect_uri :: "string \<Rightarrow> failure + unit" where
  "check_redirect_uri text =
     (let plain = length text \<le> 2000 \<and> CHR ''#'' \<notin> set text \<and>
            \<not> list_ex (\<lambda>c. is_whitespace c \<or> is_control c) (chars text);
          scheme = (case strip_prefix ''https://'' text of
              Some rest \<Rightarrow> Some (True, rest)
            | None \<Rightarrow> map_option (Pair False) (strip_prefix ''http://'' text))
      in case scheme of
           None \<Rightarrow> Err (new_failure RedirectUriInvalid)
         | Some (secure, rest) \<Rightarrow>
             let authority = before_any ''/?'' rest;
                 host = (case rsplit_once CHR '']'' authority of
                     Some (address, _) \<Rightarrow> dropWhile (\<lambda>c. c = CHR ''['') address
                   | None \<Rightarrow> before_any '':'' authority);
                 local = host \<in> {''localhost'', ''127.0.0.1'', ''::1''}
             in if plain \<and> host \<noteq> [] \<and> CHR ''@'' \<notin> set authority \<and> (secure \<or> local)
                then Ok ()
                else Err (new_failure RedirectUriInvalid))"

subsection \<open>What can be shown\<close>

lemma byte_of_byte [simp]: "n < 256 \<Longrightarrow> byte_of (byte n) = n"
  by (simp add: byte_of_def byte_def)

lemma sixtyfourths:
  "(c :: nat) div 4096 * 4096 + c div 64 mod 64 * 64 + c mod 64 = c"
  "(c :: nat) div 262144 * 262144 + c div 4096 mod 64 * 4096 + c div 64 mod 64 * 64 + c mod 64 = c"
proof -
  have "c div 64 div 64 = c div 4096" and "c div 4096 div 64 = c div 262144"
    by (simp_all flip: div_mult2_eq)
  moreover have "c div 64 * 64 + c mod 64 = c"
    and "c div 64 div 64 * 64 + c div 64 mod 64 = c div 64"
    and "c div 4096 div 64 * 64 + c div 4096 mod 64 = c div 4096"
    by simp_all
  ultimately show "c div 4096 * 4096 + c div 64 mod 64 * 64 + c mod 64 = c"
    and "c div 262144 * 262144 + c div 4096 mod 64 * 4096 + c div 64 mod 64 * 64 + c mod 64 = c"
    by linarith+
qed

lemma chars_encode_char:
  assumes "c < 0x110000"
  shows "chars (encode_char c @ rest) = c # chars rest"
proof -
  consider "c < 128" | "128 \<le> c" "c < 2048" | "2048 \<le> c" "c < 65536" | "65536 \<le> c"
    by linarith
  then show ?thesis
  proof cases
    case 1
    then show ?thesis by (simp add: encode_char_def)
  next
    case 2
    then have "c div 64 < 32" by simp
    with 2 show ?thesis by (simp add: encode_char_def Let_def)
  next
    case 3
    then have "c div 4096 < 16" by simp
    with 3 show ?thesis by (simp add: encode_char_def Let_def sixtyfourths)
  next
    case 4
    have "c div 262144 < 5" using assms by simp
    with 4 show ?thesis by (simp add: encode_char_def Let_def sixtyfourths)
  qed
qed

lemma chars_encode_chars: "list_all (\<lambda>c. c < 0x110000) cs \<Longrightarrow> chars (encode_chars cs) = cs"
  by (induction cs) (simp_all add: encode_chars_def chars_encode_char)

lemma byte_byte_of [simp]: "byte (byte_of c) = c"
  by (simp add: byte_def byte_of_def)

lemma chars_ascii: "list_all (\<lambda>c. byte_of c < 128) t \<Longrightarrow> chars t = map byte_of t \<and> encode_chars (map byte_of t) = t"
  by (induction t) (auto simp: encode_chars_def encode_char_def)

lemma ascii_is_utf8: "list_all (\<lambda>c. byte_of c < 128) t \<Longrightarrow> is_utf8 t"
  using chars_ascii [of t] by (auto simp: is_utf8_def is_scalar_def list_all_iff)

lemma scalars_are_small: "list_all is_scalar cs \<Longrightarrow> list_all (\<lambda>c. c < 0x110000) cs"
  by (induction cs) (auto simp: is_scalar_def)

lemma is_utf8_append:
  assumes "is_utf8 a" and "is_utf8 b"
  shows "is_utf8 (a @ b)"
proof -
  let ?cs = "chars a @ chars b"
  have scalar: "list_all is_scalar ?cs" using assms by (simp add: is_utf8_def)
  then have small: "list_all (\<lambda>c. c < 0x110000) ?cs" by (rule scalars_are_small)
  have "a @ b = encode_chars ?cs" using assms by (simp add: is_utf8_def encode_chars_def)
  with chars_encode_chars [OF small] scalar show ?thesis by (simp add: is_utf8_def)
qed

end
