(* ===== verification/Json.thy ===== *)
theory Json
  imports Texts
begin

text \<open>
  JSON values as \<open>serde_json\<close> holds them, and the canonical form (RFC 8785) an envelope of
  the audit chain is written in (\<open>saffui-core/src/audit/canonical.rs\<close>). The members of an
  object are an association list ordered by name, as the map of \<open>serde_json\<close> keeps them.
  Which values are read back as they were written is said
  by a predicate. The lemmas show that the canonical form exists exactly for values whose numbers are safe
  integers.
\<close>

subsection \<open>Values\<close>

text \<open>
  A finite \<open>f64\<close> by its value: \<open>m * 2 ^ e\<close> with \<open>m\<close> odd, or \<open>0\<close> with the exponent \<open>0\<close>, so
  that two are equal when they are worth the same. JSON writes no other.
\<close>

datatype f64 = F64 int int

datatype number = PosInt nat | NegInt int | Float f64

datatype json =
    JNull
  | JBool bool
  | JNumber number
  | JString string
  | JArray "json list"
  | JObject "(string \<times> json) list"

text \<open>\<open>value.get(name)\<close>, \<open>value.as_str()\<close> and \<open>value.as_array()\<close>\<close>

definition json_get :: "string \<Rightarrow> json \<Rightarrow> json option" where
  "json_get name v = (case v of JObject members \<Rightarrow> map_of members name | _ \<Rightarrow> None)"

definition json_as_str :: "json \<Rightarrow> string option" where
  "json_as_str v = (case v of JString s \<Rightarrow> Some s | _ \<Rightarrow> None)"

definition json_as_array :: "json \<Rightarrow> json list option" where
  "json_as_array v = (case v of JArray items \<Rightarrow> Some items | _ \<Rightarrow> None)"

text \<open>\<open>json!({ ... })\<close>: the members, put in order by name.\<close>

definition json_object :: "(string \<times> json) list \<Rightarrow> json" where
  "json_object members = JObject (fold (\<lambda>(k, v) m. bt_insert k v m) members [])"

definition json_text_option :: "string option \<Rightarrow> json" where
  "json_text_option text = (case text of None \<Rightarrow> JNull | Some s \<Rightarrow> JString s)"

subsection \<open>Numbers\<close>

text \<open>\<open>as_u64\<close>, \<open>as_i64\<close> and \<open>is_f64\<close>\<close>

fun as_u64 :: "number \<Rightarrow> nat option" where
  "as_u64 (PosInt n) = Some n"
| "as_u64 (NegInt i) = None"
| "as_u64 (Float f) = None"

fun as_i64 :: "number \<Rightarrow> int option" where
  "as_i64 (PosInt n) = (if n < 2 ^ 63 then Some (int n) else None)"
| "as_i64 (NegInt i) = Some i"
| "as_i64 (Float f) = None"

fun is_f64 :: "number \<Rightarrow> bool" where
  "is_f64 (Float f) = True"
| "is_f64 _ = False"

text \<open>
  The integer a 64-bit integer is converted to: the nearest with 53 significant bits, the
  one with an even last bit between two as near.
\<close>

definition bit_count :: "nat \<Rightarrow> nat" where
  "bit_count n = length (takeWhile (\<lambda>k. 2 ^ k \<le> n) [0..<65])"

definition round_to_f64 :: "nat \<Rightarrow> nat" where
  "round_to_f64 n =
     (let cut = bit_count n - 53; unit = 2 ^ cut; low = n mod unit; high = n div unit in
      if cut = 0 then n
      else if 2 * low < unit \<or> 2 * low = unit \<and> even high then high * unit
      else (high + 1) * unit)"

definition f64_of_int :: "int \<Rightarrow> f64" where
  "f64_of_int i = F64 (if i < 0 then - int (round_to_f64 (nat (- i))) else int (round_to_f64 (nat i))) 0"

fun as_f64 :: "number \<Rightarrow> f64" where
  "as_f64 (PosInt n) = f64_of_int (int n)"
| "as_f64 (NegInt i) = f64_of_int i"
| "as_f64 (Float f) = f"

text \<open>The order of two finite values, at their common exponent.\<close>

definition f64_scaled :: "int \<Rightarrow> f64 \<Rightarrow> int" where
  "f64_scaled low f = (case f of F64 m e \<Rightarrow> m * 2 ^ nat (e - low))"

definition f64_low :: "f64 \<Rightarrow> f64 \<Rightarrow> int" where
  "f64_low a b = (case a of F64 _ e \<Rightarrow> case b of F64 _ e' \<Rightarrow> min e e')"

definition f64_less :: "f64 \<Rightarrow> f64 \<Rightarrow> bool" where
  "f64_less a b \<longleftrightarrow> f64_scaled (f64_low a b) a < f64_scaled (f64_low a b) b"

definition f64_equal :: "f64 \<Rightarrow> f64 \<Rightarrow> bool" where
  "f64_equal a b \<longleftrightarrow> f64_scaled (f64_low a b) a = f64_scaled (f64_low a b) b"

definition json_as_f64 :: "json \<Rightarrow> f64 option" where
  "json_as_f64 v = (case v of JNumber n \<Rightarrow> Some (as_f64 n) | _ \<Rightarrow> None)"

subsection \<open>What reads back\<close>

text \<open>
  The values \<open>serde_json\<close> reads back as it wrote them: no number but a 64-bit integer in the form its
  sign gives it, texts that are UTF-8, the members of an object in the order of their names, each
  name once, and arrays and objects nested no deeper than it reads.
\<close>

fun reads_exactly :: "nat \<Rightarrow> json \<Rightarrow> bool" where
  "reads_exactly depth JNull \<longleftrightarrow> True"
| "reads_exactly depth (JBool b) \<longleftrightarrow> True"
| "reads_exactly depth (JNumber n) \<longleftrightarrow>
     (case n of PosInt i \<Rightarrow> i < 2 ^ 64 | NegInt i \<Rightarrow> - (2 ^ 63) \<le> i \<and> i < 0 | Float f \<Rightarrow> False)"
| "reads_exactly depth (JString t) \<longleftrightarrow> is_utf8 t"
| "reads_exactly depth (JArray vs) \<longleftrightarrow> 0 < depth \<and> list_all (reads_exactly (depth - 1)) vs"
| "reads_exactly depth (JObject members) \<longleftrightarrow> 0 < depth \<and> bt_sorted members \<and>
     list_all (\<lambda>(name, v). is_utf8 name \<and> reads_exactly (depth - 1) v) members"

lemma list_all_bt_insert: "list_all P m \<Longrightarrow> P (k, v) \<Longrightarrow> list_all P (bt_insert k v m)"
  by (induction k v m rule: bt_insert.induct) auto

lemma reads_exactly_insert:
  assumes "reads_exactly depth (JObject members)" and "is_utf8 name" and "reads_exactly (depth - 1) v"
  shows "reads_exactly depth (JObject (bt_insert name v members))"
  using assms by (simp add: bt_sorted_insert list_all_bt_insert)

lemma reads_exactly_fold:
  assumes "list_all (\<lambda>(name, v). is_utf8 name \<and> reads_exactly (depth - 1) v) added"
    and "reads_exactly depth (JObject members)"
  shows "reads_exactly depth (JObject (fold (\<lambda>(k, v) m. bt_insert k v m) added members))"
  using assms
proof (induction added arbitrary: members)
  case (Cons entry added)
  then show ?case
    using reads_exactly_insert [of depth members "fst entry" "snd entry"] by (simp add: split_beta del: reads_exactly.simps)
qed simp

lemma reads_exactly_object:
  assumes "0 < depth" and "list_all (\<lambda>(name, v). is_utf8 name \<and> reads_exactly (depth - 1) v) members"
  shows "reads_exactly depth (json_object members)"
  unfolding json_object_def by (rule reads_exactly_fold [OF assms(2)]) (simp add: assms(1))

subsection \<open>The canonical form\<close>

definition MAX_SAFE_INTEGER :: nat where
  "MAX_SAFE_INTEGER = 2 ^ 53 - 1"

datatype canonical_error = NotAnInteger | IntegerTooLarge

fun canonical_error_text :: "canonical_error \<Rightarrow> string" where
  "canonical_error_text NotAnInteger = ''a number that is not an integer''"
| "canonical_error_text IntegerTooLarge = ''an integer no JSON reader is bound to keep exact''"

text \<open>The decimal digits of an integer, as \<open>Display\<close> writes them.\<close>

definition digit :: "nat \<Rightarrow> char" where
  "digit n = byte (48 + n)"

fun show_nat :: "nat \<Rightarrow> string" where
  "show_nat n = (if n < 10 then [digit n] else show_nat (n div 10) @ [digit (n mod 10)])"

declare show_nat.simps [simp del]

definition show_int :: "int \<Rightarrow> string" where
  "show_int i = (if i < 0 then ''-'' @ show_nat (nat (- i)) else show_nat (nat i))"

fun show_number :: "number \<Rightarrow> string" where
  "show_number (PosInt n) = show_nat n"
| "show_number (NegInt i) = show_int i"
| "show_number (Float f) = []"

definition write_number :: "number \<Rightarrow> canonical_error + string" where
  "write_number n =
     (let magnitude = (case as_u64 n of
           Some positive \<Rightarrow> Some positive
         | None \<Rightarrow> map_option (\<lambda>negative. nat \<bar>negative\<bar>) (as_i64 n))
      in case magnitude of
           None \<Rightarrow> Err NotAnInteger
         | Some m \<Rightarrow> if m > MAX_SAFE_INTEGER then Err IntegerTooLarge else Ok (show_number n))"

text \<open>
  The escapes of a text. Every character that has one is an ASCII character, so the bytes of
  any other are written as they are.
\<close>

definition hex_digit :: "nat \<Rightarrow> char" where
  "hex_digit n = (if n < 10 then byte (48 + n) else byte (87 + n))"

definition write_char :: "char \<Rightarrow> string" where
  "write_char c =
     (let n = byte_of c in
      if n = 34 then [byte 92, byte 34]
      else if n = 92 then [byte 92, byte 92]
      else if n = 8 then [byte 92, CHR ''b'']
      else if n = 9 then [byte 92, CHR ''t'']
      else if n = 10 then [byte 92, CHR ''n'']
      else if n = 12 then [byte 92, CHR ''f'']
      else if n = 13 then [byte 92, CHR ''r'']
      else if n < 32 then [byte 92, CHR ''u'', CHR ''0'', CHR ''0'', hex_digit (n div 16), hex_digit (n mod 16)]
      else [c])"

definition write_string :: "string \<Rightarrow> string" where
  "write_string text = [byte 34] @ concat (map write_char text) @ [byte 34]"

text \<open>\<open>encode_utf16\<close>, whose lexicographic order is the order of the names.\<close>

definition utf16_units :: "nat \<Rightarrow> nat list" where
  "utf16_units c =
     (if c < 65536 then [c]
      else [0xd800 + (c - 65536) div 1024, 0xdc00 + (c - 65536) mod 1024])"

definition encode_utf16 :: "string \<Rightarrow> nat list" where
  "encode_utf16 text = concat (map utf16_units (chars text))"

definition sort_names :: "(string \<times> json) list \<Rightarrow> (string \<times> json) list" where
  "sort_names members = sort_key (\<lambda>(name, _). encode_utf16 name) members"

text \<open>Texts one after the other, with a comma between two.\<close>

fun join_commas :: "string list \<Rightarrow> string" where
  "join_commas [] = []"
| "join_commas [t] = t"
| "join_commas (t # u # rest) = t @ '','' @ join_commas (u # rest)"

text \<open>The first error in order, or every text.\<close>

fun collect :: "('e + 'a) list \<Rightarrow> 'e + 'a list" where
  "collect [] = Ok []"
| "collect (r # rs) =
     (case r of
        Err e \<Rightarrow> Err e
      | Ok x \<Rightarrow> (case collect rs of Err e \<Rightarrow> Err e | Ok xs \<Rightarrow> Ok (x # xs)))"

definition map_ok :: "('a \<Rightarrow> 'b) \<Rightarrow> 'e + 'a \<Rightarrow> 'e + 'b" where
  "map_ok f r = (case r of Err e \<Rightarrow> Err e | Ok x \<Rightarrow> Ok (f x))"

lemma collect_cong [fundef_cong]: "rs = rs' \<Longrightarrow> collect rs = collect rs'"
  by simp

lemma set_sort_names [simp]: "set (sort_names members) = set members"
  by (simp add: sort_names_def)

lemma size_in_object [termination_simp]:
  "(name, v) \<in> set members \<Longrightarrow> size v < Suc (size_list (\<lambda>x. Suc (size (snd x))) members)" for v :: json
  by (induction members) auto

lemma size_in_array [termination_simp]: "v \<in> set items \<Longrightarrow> size v < Suc (size_list size items)" for v :: json
  by (induction items) auto

fun canonicalize :: "json \<Rightarrow> canonical_error + string" where
  "canonicalize JNull = Ok ''null''"
| "canonicalize (JBool True) = Ok ''true''"
| "canonicalize (JBool False) = Ok ''false''"
| "canonicalize (JNumber n) = write_number n"
| "canonicalize (JString s) = Ok (write_string s)"
| "canonicalize (JArray items) =
     map_ok (\<lambda>texts. ''['' @ join_commas texts @ '']'') (collect (map (\<lambda>v. canonicalize v) items))"
| "canonicalize (JObject members) =
     map_ok (\<lambda>texts. CHR ''{'' # join_commas texts @ [CHR ''}''])
       (collect (map (\<lambda>(name, v). map_ok (\<lambda>text. write_string name @ '':'' @ text) (canonicalize v))
         (sort_names members)))"

subsection \<open>What has a canonical form\<close>

text \<open>Whether every number of a value is an integer every reader of JSON keeps exact.\<close>

fun safe_number :: "number \<Rightarrow> bool" where
  "safe_number (PosInt n) \<longleftrightarrow> n \<le> MAX_SAFE_INTEGER"
| "safe_number (NegInt i) \<longleftrightarrow> nat \<bar>i\<bar> \<le> MAX_SAFE_INTEGER"
| "safe_number (Float f) \<longleftrightarrow> False"

fun safe_json :: "json \<Rightarrow> bool" where
  "safe_json (JNumber n) \<longleftrightarrow> safe_number n"
| "safe_json (JArray items) \<longleftrightarrow> (\<forall>v \<in> set items. safe_json v)"
| "safe_json (JObject members) \<longleftrightarrow> (\<forall>(name, v) \<in> set members. safe_json v)"
| "safe_json _ \<longleftrightarrow> True"

lemma map_ok_is_Ok [simp]: "(\<exists>y. map_ok f r = Ok y) \<longleftrightarrow> (\<exists>x. r = Ok x)"
  by (auto simp: map_ok_def split: sum.split)

lemma collect_is_Ok: "(\<exists>xs. collect rs = Ok xs) \<longleftrightarrow> (\<forall>r \<in> set rs. \<exists>x. r = Ok x)"
  by (induction rs) (auto split: sum.splits)

lemma write_number_is_Ok: "(\<exists>text. write_number n = Ok text) \<longleftrightarrow> safe_number n"
  by (cases n) (auto simp: write_number_def Let_def)

lemma canonicalize_is_Ok: "(\<exists>text. canonicalize v = Ok text) \<longleftrightarrow> safe_json v"
proof (induction v rule: canonicalize.induct)
  case (7 members)
  have "safe_json v \<longleftrightarrow> (\<exists>text. canonicalize v = Ok text)" if "(name, v) \<in> set members" for name v
    using 7 [of "(name, v)" name v] that by simp
  then have "safe_json (JObject members) \<longleftrightarrow> (\<forall>(name, v) \<in> set members. \<exists>text. canonicalize v = Ok text)"
    by auto
  then show ?case by (simp add: collect_is_Ok split_beta)
qed (auto simp: write_number_is_Ok collect_is_Ok)

lemma canonicalize_safe: "safe_json v \<Longrightarrow> \<exists>text. canonicalize v = Ok text"
  using canonicalize_is_Ok [of v] by blast

lemma set_bt_insert: "set (bt_insert k v m) \<subseteq> insert (k, v) (set m)"
  by (induction k v m rule: bt_insert.induct) auto

lemma safe_json_object:
  assumes "\<And>name v. (name, v) \<in> set members \<Longrightarrow> safe_json v"
  shows "safe_json (json_object members)"
proof -
  have "set (fold (\<lambda>(k, v) m. bt_insert k v m) members m) \<subseteq> set members \<union> set m" for m
  proof (induction members arbitrary: m)
    case (Cons member members)
    then show ?case
      using set_bt_insert [of "fst member" "snd member" m] by (auto simp: split_beta)
  qed simp
  from this [of "[]"] show ?thesis
    using assms by (auto simp: json_object_def)
qed

lemma json_get_object: "json_get name (json_object members) = map_of (rev members) name"
proof -
  have "map_of (fold (\<lambda>(k, v) m. bt_insert k v m) members m) = map_of (rev members @ m)" for m
    by (induction members arbitrary: m) (auto simp: map_of_bt_insert fun_eq_iff map_add_def split: option.splits)
  from this [of "[]"] show ?thesis
    by (simp add: json_get_def json_object_def)
qed

subsection \<open>Properties\<close>

text \<open>
  C40: a value has a canonical form exactly when every number in it is an integer every reader of
  JSON keeps exact; a fraction or a larger integer anywhere in it is refused, never rounded.
\<close>

theorem canonical_form_exists: "(\<exists>text. canonicalize v = Ok text) \<longleftrightarrow> safe_json v"
  by (rule canonicalize_is_Ok)

end
