(* ===== verification/Domain.thy ===== *)
theory Domain
  imports Schema Json
begin

text \<open>
  The data the components keep, one record per struct of the code: tenants and realms
  (\<open>tenancy/mod.rs\<close>), clients (\<open>clients/mod.rs\<close>), people (\<open>directory/mod.rs\<close>), sessions
  (\<open>login/session.rs\<close>), roles, groups and their grants (\<open>authz/roles.rs\<close>,
  \<open>authz/grants.rs\<close>), policies (\<open>authz/policy.rs\<close>), schemas as they are stored
  (\<open>authz/relations/mod.rs\<close>), the events of a chain (\<open>audit/store.rs\<close>), refresh tokens
  (\<open>tokens/store.rs\<close>), authorization codes (\<open>oidc/code.rs\<close>) and consents
  (\<open>consent/mod.rs\<close>), with the predicates the code
  defines on them.
\<close>

subsection \<open>Tenants, realms and scopes\<close>

record realm_scope =
  scope_tenant :: uuid
  scope_realm :: uuid

record tenant =
  tenant_id :: uuid
  tenant_name :: string
  tenant_created_at :: instant

record realm =
  realm_id :: uuid
  realm_tenant :: uuid
  realm_name :: string
  realm_enabled :: bool
  realm_created_at :: instant

record realm_location =
  location_tenant :: uuid
  location_realm :: uuid
  location_enabled :: bool

subsection \<open>Clients and capabilities\<close>

datatype capability = RealmRead | ClientRead | ClientWrite | AuditRead | UserRead | UserWrite
  | RoleRead | RoleWrite | PolicyRead | PolicyWrite

definition all_capabilities :: "capability list" where
  "all_capabilities =
     [RealmRead, ClientRead, ClientWrite, AuditRead, UserRead, UserWrite, RoleRead, RoleWrite,
      PolicyRead, PolicyWrite]"

fun capability_name :: "capability \<Rightarrow> string" where
  "capability_name RealmRead = ''realm:read''"
| "capability_name ClientRead = ''client:read''"
| "capability_name ClientWrite = ''client:write''"
| "capability_name AuditRead = ''audit:read''"
| "capability_name UserRead = ''user:read''"
| "capability_name UserWrite = ''user:write''"
| "capability_name RoleRead = ''role:read''"
| "capability_name RoleWrite = ''role:write''"
| "capability_name PolicyRead = ''policy:read''"
| "capability_name PolicyWrite = ''policy:write''"

definition parse_capability :: "string \<Rightarrow> capability option" where
  "parse_capability name = find (\<lambda>c. capability_name c = name) all_capabilities"

record client =
  client_uuid :: uuid
  client_id :: string
  client_name :: string
  client_secret_digest :: "bytes option"
  allows_client_credentials :: bool
  allows_authorization_code :: bool
  redirect_uris :: "string list"
  post_logout_redirect_uris :: "string list"
  requires_consent :: bool
  client_scopes :: "string list"
  client_capabilities :: "capability list"
  client_enabled :: bool
  client_created_at :: instant

text \<open>\<open>clients::store::ListWindow\<close>\<close>

record list_window =
  window_first :: nat
  window_max :: nat

text \<open>\<open>authz::admin::AdminCaller\<close>\<close>

record admin_caller =
  caller_realm :: string
  caller_scope :: realm_scope
  caller_client :: client

subsection \<open>People, sessions and their factors\<close>

record person =
  person_id :: uuid
  person_username :: string
  person_email :: "string option"
  person_email_verified :: bool
  person_display_name :: "string option"
  person_enabled :: bool
  person_created_at :: instant

datatype session_state = Session_active | Session_ended

datatype authentication_method = Password_method | OneTimeCode | SecurityKey_method

fun method_name :: "authentication_method \<Rightarrow> string" where
  "method_name Password_method = ''pwd''"
| "method_name OneTimeCode = ''otp''"
| "method_name SecurityKey_method = ''pop''"

record session =
  session_id :: uuid
  session_person :: uuid
  session_secret_digest :: bytes
  session_state :: session_state
  session_methods :: "authentication_method list"
  authenticated_at :: instant
  session_expires_at :: instant

record read_session =
  the_session :: session
  person_holds_factor :: bool

record totp_authenticator =
  totp_person :: uuid
  totp_sealed_secret :: bytes
  totp_confirmed_at :: "instant option"
  totp_last_step :: "int option"
  totp_created_at :: instant

record security_key =
  key_credential_id :: bytes
  key_person :: uuid
  key_record :: bytes
  key_created_at :: instant
  key_last_used_at :: "instant option"

text \<open>\<open>login::store::KnownBrowser\<close> and \<open>TotpUse\<close>\<close>

record known_browser =
  browser_device :: uuid
  browser_person :: uuid
  browser_expires_at :: instant

datatype totp_use = Totp_confirmation | Totp_sign_in

text \<open>\<open>proves_second_factor\<close> and \<open>answers_for_its_person\<close>\<close>

definition proves_second_factor :: "session \<Rightarrow> bool" where
  "proves_second_factor s \<longleftrightarrow> list_ex (\<lambda>m. m \<noteq> Password_method) (session_methods s)"

definition answers_for_its_person :: "read_session \<Rightarrow> bool" where
  "answers_for_its_person r \<longleftrightarrow> proves_second_factor (the_session r) \<or> \<not> person_holds_factor r"

subsection \<open>Signing keys\<close>

datatype signature_algorithm = Es256

definition algorithm_name :: "signature_algorithm \<Rightarrow> string" where
  "algorithm_name a = (case a of Es256 \<Rightarrow> ''ES256'')"

definition parse_algorithm :: "string \<Rightarrow> signature_algorithm option" where
  "parse_algorithm name = find (\<lambda>a. algorithm_name a = name) [Es256]"

record signing_key =
  signing_key_id :: uuid
  signing_kid :: string
  signing_algorithm :: signature_algorithm
  signing_public_jwk :: json
  sealed_private_key :: bytes
  signing_created_at :: instant

text \<open>\<open>ports::crypto::WrappedDataKey\<close> and \<open>SealPlace\<close>: the data key of a realm, and where a value is sealed.\<close>

record wrapped_data_key =
  data_key_generation :: nat
  data_key_wrapped :: bytes

record seal_place =
  place_tenant :: uuid
  place_realm :: uuid
  place_purpose :: string
  place_row :: uuid

subsection \<open>What the cryptographic ports answer\<close>

record generated_signing_key =
  generated_algorithm :: signature_algorithm
  generated_kid :: string
  generated_private_key :: bytes
  generated_public_jwk :: json

datatype hashing_failure = Hashing_busy | Hashing_failed

record totp_enrollment_text =
  totp_uri :: string
  totp_typed_secret :: string

record key_ceremony =
  ceremony_options :: json
  ceremony_state :: bytes

record enrolled_key =
  enrolled_credential_id :: bytes
  enrolled_record :: bytes

record key_proof =
  proven_credential_id :: bytes
  proven_record :: "bytes option"

datatype key_refusal = Key_refused | Copy_suspected | Key_failed

subsection \<open>Roles, groups and grants\<close>

record role =
  role_id :: uuid
  role_client_id :: "string option"
  role_name :: string
  role_description :: "string option"
  role_created_at :: instant

record group =
  group_id :: uuid
  group_name :: string
  group_description :: "string option"
  group_created_at :: instant

record grant =
  valid_from :: instant
  valid_until :: "instant option"
  granted_by :: string
  grant_reason :: "string option"
  granted_at :: instant

definition stands_at :: "grant \<Rightarrow> instant \<Rightarrow> bool" where
  "stands_at g now \<longleftrightarrow> valid_from g \<le> now \<and> is_none_or (\<lambda>until. now < until) (valid_until g)"

datatype role_holder = Person_holder uuid | Group_holder uuid

record role_grant =
  granted_role :: uuid
  holder :: role_holder
  role_terms :: grant

record membership =
  member_group :: uuid
  member_person :: uuid
  member_terms :: grant

record held_role =
  held_id :: uuid
  held_client_id :: "string option"
  held_name :: string
  held_through :: "uuid option"
  held_until :: "instant option"

subsection \<open>Policies and schemas\<close>

datatype effect = Permit | Deny

datatype combine = Combine_all | Combine_any

fun effect_name :: "effect \<Rightarrow> string" where
  "effect_name Permit = ''permit''"
| "effect_name Deny = ''deny''"

fun combine_name :: "combine \<Rightarrow> string" where
  "combine_name Combine_all = ''all''"
| "combine_name Combine_any = ''any''"

definition parse_effect :: "string \<Rightarrow> effect option" where
  "parse_effect text = find (\<lambda>e. effect_name e = text) [Permit, Deny]"

definition parse_combine :: "string \<Rightarrow> combine option" where
  "parse_combine text = find (\<lambda>c. combine_name c = text) [Combine_all, Combine_any]"

record policy =
  policy_id :: uuid
  policy_client_id :: string
  policy_name :: string
  policy_resource_type :: string
  policy_action :: string
  policy_effect :: effect
  policy_combine :: combine
  policy_conditions :: json
  policy_created_at :: instant

record stored_schema =
  schema_source :: string
  schema_compiled :: json
  schema_written_at :: instant

record guarded_schema =
  guarded_compiled :: json
  guarded :: bool

datatype relation_admission = Admission_refused | Admission_kept | Admission_taken

subsection \<open>The chain, the tokens and the codes\<close>

record chain_position =
  position_seq :: int
  position_hash :: bytes

record chained_event =
  event_seq :: int
  event_previous_hash :: bytes
  event_hash :: bytes
  event_envelope :: bytes

record refresh_token =
  token_digest :: bytes
  token_family :: uuid
  token_client_id :: string
  token_person :: uuid
  token_session :: uuid
  token_scopes :: "string list"
  token_issued_at :: instant
  token_expires_at :: instant

record stored_refresh_token =
  stored_token :: refresh_token
  used_at :: "instant option"
  revoked_at :: "instant option"

definition is_live :: "stored_refresh_token \<Rightarrow> instant \<Rightarrow> bool" where
  "is_live s now \<longleftrightarrow> used_at s = None \<and> revoked_at s = None \<and> token_expires_at (stored_token s) > now"

record ended_family =
  ended_tokens :: nat
  last_issued_at :: instant
  last_used_at :: "instant option"

record revoked_families =
  families_ended :: nat
  tokens_revoked :: nat
  families_named :: "uuid list"

text \<open>\<open>oidc::code::PendingKeyProof\<close> and \<open>PendingAuthorization\<close>\<close>

record pending_key_proof =
  proof_state :: bytes
  proof_options :: json

record pending_authorization =
  pending_id :: uuid
  browser_digest :: bytes
  pending_client_id :: string
  pending_redirect_uri :: string
  pending_scopes :: "string list"
  pending_state :: "string option"
  pending_nonce :: "string option"
  pending_code_challenge :: string
  pending_expires_at :: instant
  expected_person :: "uuid option"
  first_factor :: "uuid option"
  pending_key_proof :: "pending_key_proof option"
  consent_prompted :: bool
  consent_session :: "uuid option"

record authorization_code =
  code_digest :: bytes
  code_client_id :: string
  code_person :: uuid
  code_session :: uuid
  code_redirect_uri :: string
  code_scopes :: "string list"
  code_nonce :: "string option"
  code_challenge :: string
  code_authenticated_at :: instant
  code_expires_at :: instant

record kept_code =
  kept_code :: authorization_code
  spent_at :: "instant option"
  code_family :: "uuid option"
  replayed_at :: "instant option"

text \<open>\<open>consent::Consent\<close> and \<open>ConsentTerms\<close>\<close>

record consent =
  consent_person :: uuid
  consent_client_id :: string
  consent_scopes :: "string list"
  consent_granted_at :: instant

record listed_consent =
  listed_consent :: consent
  listed_client_name :: string

record consent_terms =
  terms_require_consent :: bool
  terms_allowed :: "string list option"

record replayed_code =
  replayed_person :: uuid
  replayed_session :: uuid
  replayed_family :: "uuid option"

end
