(* ===== verification/Digest.thy ===== *)
theory Digest
  imports Prelude "HOL-Library.Word"
begin

unbundle bit_operations_syntax

text \<open>
  The bytes of machine integers, and the digest the in-memory storage links its chains with
  (\<open>saffui-core/src/testkit/digest.rs\<close>): FNV-1a over 64-bit words, kept at their width so that
  every multiplication wraps as the code says it does.
\<close>

definition byte_of_word :: "64 word \<Rightarrow> char" where
  "byte_of_word w = char_of (unat (take_bit 8 w))"

definition word_of_byte :: "char \<Rightarrow> 64 word" where
  "word_of_byte c = of_nat (of_char c)"

text \<open>\<open>to_be_bytes\<close> of a 64-bit word, and of an \<open>i64\<close> by its two's complement.\<close>

definition to_be_bytes :: "64 word \<Rightarrow> bytes" where
  "to_be_bytes w = map (\<lambda>k. byte_of_word (drop_bit (8 * k) w)) [7, 6, 5, 4, 3, 2, 1, 0]"

definition i64_to_be_bytes :: "int \<Rightarrow> bytes" where
  "i64_to_be_bytes i = to_be_bytes (word_of_int i)"

definition fnv_step :: "64 word \<Rightarrow> char \<Rightarrow> 64 word" where
  "fnv_step state b = (state XOR word_of_byte b) * 0x00000100000001b3"

definition mix :: "64 word \<Rightarrow> bytes \<Rightarrow> 64 word" where
  "mix seed data =
     (let state = foldl fnv_step (seed XOR 0xcbf29ce484222325) data;
          spread = state XOR drop_bit 32 state
      in spread * 0x9E3779B97F4A7C15)"

definition weak_sha256 :: "bytes \<Rightarrow> bytes" where
  "weak_sha256 data = concat (map (\<lambda>seed. to_be_bytes (mix seed data)) [1, 2, 3, 4])"

text \<open>\<open>equal_in_constant_time\<close> of the double.\<close>

definition weak_equal :: "bytes \<Rightarrow> bytes \<Rightarrow> bool" where
  "weak_equal left right \<longleftrightarrow> left = right"

lemma length_to_be_bytes [simp]: "length (to_be_bytes w) = 8"
  by (simp add: to_be_bytes_def)

lemma length_i64_to_be_bytes [simp]: "length (i64_to_be_bytes i) = 8"
  by (simp add: i64_to_be_bytes_def)

lemma length_weak_sha256 [simp]: "length (weak_sha256 data) = 32"
  by (simp add: weak_sha256_def)

text \<open>A word is known by its bytes, so a sequence number in range is known by its bytes.\<close>

lemma byte_of_word_eq: "byte_of_word v = byte_of_word w \<longleftrightarrow> take_bit 8 v = take_bit 8 w"
proof -
  have "(of_char (byte_of_word x) :: nat) = unat (take_bit 8 x)" for x
    by (simp add: byte_of_word_def unsigned_take_bit_eq) (simp add: take_bit_eq_mod)
  then show ?thesis
    by (metis byte_of_word_def unsigned_word_eqI)
qed

lemma to_be_bytes_eq [simp]: "to_be_bytes v = to_be_bytes w \<longleftrightarrow> v = w"
proof
  assume eq: "to_be_bytes v = to_be_bytes w"
  have parts: "take_bit 8 (drop_bit (8 * k) v) = take_bit 8 (drop_bit (8 * k) w)" if "k < 8" for k
  proof -
    from that have "k \<in> set [7, 6, 5, 4, 3, 2, 1, 0]" by (auto simp: numeral_eq_Suc less_Suc_eq)
    with eq show ?thesis unfolding to_be_bytes_def byte_of_word_eq [symmetric] by auto
  qed
  show "v = w"
  proof (rule bit_word_eqI)
    fix n
    assume "n < LENGTH(64)"
    then have "n div 8 < 8" by simp
    then have "bit (take_bit 8 (drop_bit (8 * (n div 8)) v)) (n mod 8)
        \<longleftrightarrow> bit (take_bit 8 (drop_bit (8 * (n div 8)) w)) (n mod 8)"
      using parts by simp
    then show "bit v n \<longleftrightarrow> bit w n"
      by (simp add: bit_take_bit_iff bit_drop_bit_eq)
  qed
qed simp

lemma i64_to_be_bytes_eq:
  assumes "- (2 ^ 63) \<le> i" "i < 2 ^ 63" "- (2 ^ 63) \<le> j" "j < 2 ^ 63"
  shows "i64_to_be_bytes i = i64_to_be_bytes j \<longleftrightarrow> i = j"
proof
  assume "i64_to_be_bytes i = i64_to_be_bytes j"
  then have "i mod 2 ^ 64 = j mod 2 ^ 64"
    by (simp add: i64_to_be_bytes_def word_of_int_eq_iff take_bit_eq_mod)
  then have "2 ^ 64 dvd i - j"
    by (simp add: mod_eq_dvd_iff)
  moreover have "\<bar>i - j\<bar> < 2 ^ 64" using assms by simp
  ultimately show "i = j" using dvd_imp_le_int [of "i - j" "2 ^ 64"] by auto
qed simp

end
