(* ===== verification/Storage.thy ===== *)
theory Storage
  imports Domain Digest
begin

text \<open>
  The application and its storage: what a use case can reach (\<open>saffui-core/src/app.rs\<close>), the
  state kept in memory, the units of work over it (\<open>saffui-core/src/testkit/memory/mod.rs\<close>), the
  identifiers minted from the clock and the random source (\<open>saffui-core/src/ids.rs\<close>) and the way
  from the name of a realm to its scope (\<open>saffui-core/src/tenancy/resolve.rs\<close>).

  The in-memory storage is the reference of the storage port: the code checks it and the
  database adapter against one contract. A unit of work starts from a copy of the state and
  only \<open>commit\<close> puts its copy in place; a refused write marks it failed, and a failed unit of
  work commits nothing.
\<close>

subsection \<open>The state\<close>

text \<open>
  A \<open>HashMap<Uuid, Vec<T>>\<close> of the code is only read through \<open>get\<close> with an empty default and
  written through \<open>entry().or_default()\<close>: it is a function from realms to lists here.
\<close>

record state =
  st_tenants :: "uuid \<rightharpoonup> tenant"
  st_realms :: "(uuid \<times> realm) list"
  st_audit :: "uuid \<Rightarrow> chained_event list"
  st_data_keys :: "uuid \<rightharpoonup> wrapped_data_key"
  st_signing_keys :: "uuid \<Rightarrow> signing_key list"
  st_clients :: "uuid \<Rightarrow> client list"
  st_persons :: "uuid \<Rightarrow> person list"
  st_passwords :: "uuid \<rightharpoonup> string"
  st_sessions :: "uuid \<Rightarrow> session list"
  st_login_failures :: "((uuid \<times> bytes \<times> instant) \<times> nat) list"
  st_pending_authorizations :: "uuid \<Rightarrow> pending_authorization list"
  st_authorization_codes :: "uuid \<Rightarrow> kept_code list"
  st_known_browsers :: "uuid \<Rightarrow> known_browser list"
  st_refresh_tokens :: "uuid \<Rightarrow> stored_refresh_token list"
  st_totp :: "uuid \<times> uuid \<rightharpoonup> totp_authenticator"
  st_code_attempts :: "uuid \<times> uuid \<rightharpoonup> nat"
  st_security_keys :: "uuid \<Rightarrow> security_key list"
  st_key_enrollments :: "uuid \<times> uuid \<rightharpoonup> bytes \<times> instant"
  st_roles :: "uuid \<Rightarrow> role list"
  st_groups :: "uuid \<Rightarrow> group list"
  st_role_grants :: "uuid \<Rightarrow> role_grant list"
  st_memberships :: "uuid \<Rightarrow> membership list"
  st_relation_schemas :: "uuid \<rightharpoonup> stored_schema"
  st_relation_kinds :: "uuid \<Rightarrow> admitted_relation list"
  st_relations :: "uuid \<Rightarrow> relation_tuple list"
  st_relation_guards :: "uuid \<Rightarrow> (string \<times> string) list"
  st_policies :: "uuid \<Rightarrow> policy list"
  st_consents :: "((uuid \<times> uuid \<times> string) \<times> consent) list"

definition empty_state :: state where
  "empty_state =
     \<lparr>st_tenants = (\<lambda>_. None), st_realms = [], st_audit = (\<lambda>_. []), st_data_keys = (\<lambda>_. None), st_signing_keys = (\<lambda>_. []),
      st_clients = (\<lambda>_. []), st_persons = (\<lambda>_. []), st_passwords = (\<lambda>_. None), st_sessions = (\<lambda>_. []), st_login_failures = [],
      st_pending_authorizations = (\<lambda>_. []), st_authorization_codes = (\<lambda>_. []), st_known_browsers = (\<lambda>_. []),
      st_refresh_tokens = (\<lambda>_. []), st_totp = (\<lambda>_. None), st_code_attempts = (\<lambda>_. None),
      st_security_keys = (\<lambda>_. []), st_key_enrollments = (\<lambda>_. None), st_roles = (\<lambda>_. []), st_groups = (\<lambda>_. []),
      st_role_grants = (\<lambda>_. []), st_memberships = (\<lambda>_. []), st_relation_schemas = (\<lambda>_. None),
      st_relation_kinds = (\<lambda>_. []), st_relations = (\<lambda>_. []), st_relation_guards = (\<lambda>_. []),
      st_policies = (\<lambda>_. []), st_consents = []\<rparr>"

subsection \<open>Units of work\<close>

record unit_of_work =
  uow_scope :: realm_scope
  working :: state
  failed :: bool
  read_only :: bool

type_synonym 'a work_act = "(unit_of_work, storage_error, 'a) act"

definition uow_realm :: "unit_of_work \<Rightarrow> uuid" where
  "uow_realm w = scope_realm (uow_scope w)"

definition refuse_in_snapshot :: "unit work_act" where
  "refuse_in_snapshot = (\<lambda>w. (if read_only w then Err Storage_Failed else Ok (), w))"

definition record_refusal :: "'a work_act \<Rightarrow> 'a work_act" where
  "record_refusal m = (\<lambda>w. case m w of
      (Err e, w') \<Rightarrow> (Err e, w'\<lparr>failed := True\<rparr>)
    | (Ok x, w') \<Rightarrow> (Ok x, w'))"

text \<open>A read of the rows of the realm, and a write of the working copy behind the guard.\<close>

definition reading :: "(unit_of_work \<Rightarrow> 'a) \<Rightarrow> 'a work_act" where
  "reading f = (\<lambda>w. (Ok (f w), w))"

definition writing :: "(unit_of_work \<Rightarrow> 'a \<times> state) \<Rightarrow> 'a work_act" where
  "writing f = and_then (record_refusal refuse_in_snapshot)
     (\<lambda>_ w. case f w of (x, s) \<Rightarrow> (Ok x, w\<lparr>working := s\<rparr>))"

subsection \<open>The application\<close>

text \<open>
  What the code asks of others: the clock, read once more at each call; the random source; the
  digester, the signer, the sealer, the hasher of passwords, the one-time codes and the security
  keys of the cryptographic adapter; the tables of Unicode that lower the case of a text; and of
  third-party crates the texts of identifiers, of instants, of JSON and of base64, and the derived
  serialization of a compiled schema. A port that draws for itself takes how often the context has
  drawn: two of its calls need not answer alike. The shares of the point of decision and those of
  the hashers are bounded by two numbers each.
\<close>

record app =
  app_clock :: "nat \<Rightarrow> instant"
  app_random :: "nat \<Rightarrow> nat \<Rightarrow> bytes option"
  app_sha256 :: "bytes \<Rightarrow> bytes"
  app_equal :: "bytes \<Rightarrow> bytes \<Rightarrow> bool"
  app_verify :: "signature_algorithm \<Rightarrow> json \<Rightarrow> bytes \<Rightarrow> bytes \<Rightarrow> bool option"
  app_sign :: "signature_algorithm \<Rightarrow> bytes \<Rightarrow> bytes \<Rightarrow> bytes option"
  app_generate_key :: "nat \<Rightarrow> signature_algorithm \<Rightarrow> generated_signing_key option"
  app_make_data_key :: "nat \<Rightarrow> uuid \<Rightarrow> uuid \<Rightarrow> nat \<Rightarrow> wrapped_data_key option"
  app_seal :: "nat \<Rightarrow> wrapped_data_key \<Rightarrow> seal_place \<Rightarrow> bytes \<Rightarrow> bytes option"
  app_digest_typed_name :: "uuid \<Rightarrow> uuid \<Rightarrow> bytes \<Rightarrow> bytes option"
  app_hash_password :: "nat \<Rightarrow> bytes \<Rightarrow> hashing_failure + string"
  app_verify_password :: "nat \<Rightarrow> bytes \<Rightarrow> string \<Rightarrow> hashing_failure + bool"
  app_make_totp_secret :: "nat \<Rightarrow> bytes option"
  app_find_totp_step :: "bytes \<Rightarrow> string \<Rightarrow> nat \<Rightarrow> nat option option"
  app_write_totp_enrollment :: "string \<Rightarrow> string \<Rightarrow> bytes \<Rightarrow> totp_enrollment_text option"
  app_keys_served :: bool
  app_start_enrollment :: "nat \<Rightarrow> uuid \<Rightarrow> string \<Rightarrow> bytes list \<Rightarrow> key_ceremony option"
  app_finish_enrollment :: "bytes \<Rightarrow> json \<Rightarrow> key_refusal + enrolled_key"
  app_start_proof :: "nat \<Rightarrow> bytes list \<Rightarrow> key_ceremony option"
  app_finish_proof :: "bytes \<Rightarrow> json \<Rightarrow> bytes list \<Rightarrow> key_refusal + key_proof"
  app_open_sealed :: "wrapped_data_key \<Rightarrow> seal_place \<Rightarrow> bytes \<Rightarrow> bytes option"
  app_lowercase :: "string \<Rightarrow> string"
  app_uuid_text :: "uuid \<Rightarrow> string"
  app_uuid_parse :: "string \<Rightarrow> uuid option"
  app_uuid_build :: "nat \<Rightarrow> bytes \<Rightarrow> uuid"
  app_format_instant :: "instant \<Rightarrow> string option"
  app_parse_instant :: "string \<Rightarrow> instant option"
  app_json_read :: "bytes \<Rightarrow> json option"
  app_json_write :: "json \<Rightarrow> string"
  app_base64_encode :: "bytes \<Rightarrow> string"
  app_base64_decode :: "string \<Rightarrow> bytes option"
  app_schema_form :: "compiled_schema \<Rightarrow> json"
  app_schema_read :: "json \<Rightarrow> compiled_schema option"
  app_public_origin :: string
  app_per_node :: nat
  app_per_tenant :: nat
  app_hashers_per_realm :: nat
  app_hashers_per_network :: nat

text \<open>\<open>instant::write_instant\<close> and \<open>instant::read_instant\<close>\<close>

definition write_instant :: "app \<Rightarrow> instant \<Rightarrow> string" where
  "write_instant app t = (case app_format_instant app t of None \<Rightarrow> [] | Some s \<Rightarrow> s)"

definition read_instant :: "app \<Rightarrow> string \<Rightarrow> instant option" where
  "read_instant app text = app_parse_instant app text"

text \<open>\<open>oidc::discovery::name_issuer\<close>\<close>

definition name_issuer :: "app \<Rightarrow> string \<Rightarrow> string" where
  "name_issuer app realm = app_public_origin app @ ''/realms/'' @ realm"

text \<open>
  What a use case runs over: the state committed, the outage the storage answers with when it
  has one, the unit of work in hand, how often the clock was read and the random source drawn
  from, and the shares of the point of decision held.
\<close>

record held_shares =
  held_node :: nat
  held_tenants :: "uuid \<rightharpoonup> nat"

record held_hashers =
  held_realms :: "uuid \<rightharpoonup> nat"
  held_networks :: "string \<rightharpoonup> nat"

record ctx =
  shared :: state
  outage :: "storage_unavailable option"
  opened :: "unit_of_work option"
  tick :: nat
  drawn :: nat
  shares :: held_shares
  hashing :: held_hashers
  decoy :: "string option"

type_synonym 'a use_case = "(ctx, failure, 'a) act"

text \<open>\<open>Clock::now\<close>, and \<open>App::now\<close>, which keeps whole microseconds.\<close>

definition clock_now :: "app \<Rightarrow> ctx \<Rightarrow> instant \<times> ctx" where
  "clock_now app s = (app_clock app (tick s), s\<lparr>tick := tick s + 1\<rparr>)"

definition app_now :: "app \<Rightarrow> ctx \<Rightarrow> instant \<times> ctx" where
  "app_now app s = (case clock_now app s of (t, s') \<Rightarrow> (t div 1000 * 1000, s'))"

definition now :: "app \<Rightarrow> (ctx, 'e, instant) act" where
  "now app = (\<lambda>s. case app_now app s of (t, s') \<Rightarrow> (Ok t, s'))"

definition fill_random :: "app \<Rightarrow> nat \<Rightarrow> bytes use_case" where
  "fill_random app n = (\<lambda>s.
     (ok_or (new_failure RandomUnavailable) (app_random app (drawn s) n), s\<lparr>drawn := drawn s + 1\<rparr>))"

definition mint_id :: "app \<Rightarrow> uuid use_case" where
  "mint_id app =
     and_then (fill_random app 10) (\<lambda>random s.
       case clock_now app s of (t, s') \<Rightarrow>
         (Ok (app_uuid_build app (if t < 0 then 0 else nat (t div 1000000)) random), s'))"

subsection \<open>Opening and committing\<close>

definition open_work :: "realm_scope \<Rightarrow> bool \<Rightarrow> (ctx, storage_error, unit) act" where
  "open_work scope ro = (\<lambda>s.
     case outage s of
       Some reason \<Rightarrow> (Err (Storage_Unavailable reason), s)
     | None \<Rightarrow>
         (Ok (), s\<lparr>opened := Some \<lparr>uow_scope = scope, working = shared s, failed = False, read_only = ro\<rparr>\<rparr>))"

definition begin_work :: "realm_scope \<Rightarrow> unit use_case" where
  "begin_work scope = map_err failure_of_storage (open_work scope False)"

definition begin_snapshot :: "realm_scope \<Rightarrow> unit use_case" where
  "begin_snapshot scope = map_err failure_of_storage (open_work scope True)"

text \<open>
  A call on the unit of work in hand. The types of the code leave none without one; the model
  answers it as a storage that failed.
\<close>

definition on_work_storage :: "'a work_act \<Rightarrow> (ctx, storage_error, 'a) act" where
  "on_work_storage m = (\<lambda>s.
     case opened s of
       None \<Rightarrow> (Err Storage_Failed, s)
     | Some w \<Rightarrow> (case m w of (res, w') \<Rightarrow> (res, s\<lparr>opened := Some w'\<rparr>)))"

definition on_work :: "'a work_act \<Rightarrow> 'a use_case" where
  "on_work m = map_err failure_of_storage (on_work_storage m)"

text \<open>\<open>commit\<close> takes the unit of work: whatever it answers, none is left in hand.\<close>

definition commit :: "unit use_case" where
  "commit = map_err failure_of_storage (\<lambda>s.
     case opened s of
       None \<Rightarrow> (Err Storage_Failed, s)
     | Some w \<Rightarrow>
         if failed w then (Err Storage_Failed, s\<lparr>opened := None\<rparr>)
         else (Ok (), s\<lparr>shared := working w, opened := None\<rparr>))"

definition work_scope :: "realm_scope use_case" where
  "work_scope = on_work (reading uow_scope)"

subsection \<open>Tenants and realms\<close>

definition locate_realm :: "string \<Rightarrow> realm_location option use_case" where
  "locate_realm name = map_err failure_of_storage (\<lambda>s.
     case outage s of
       Some reason \<Rightarrow> (Err (Storage_Unavailable reason), s)
     | None \<Rightarrow>
         (Ok (map_option (\<lambda>r. \<lparr>location_tenant = realm_tenant r, location_realm = realm_id r,
                location_enabled = realm_enabled r\<rparr>)
              (find (\<lambda>r. realm_name r = name) (map snd (st_realms (shared s))))), s))"

definition resolve_realm :: "string \<Rightarrow> (string \<times> realm_scope) use_case" where
  "resolve_realm name =
     (case parse_realm_name name of
        Err _ \<Rightarrow> throw (new_failure RealmNotFound)
      | Ok parsed \<Rightarrow>
          and_then (locate_realm parsed) (\<lambda>found.
            case filter_option location_enabled found of
              Some location \<Rightarrow>
                ret (parsed, \<lparr>scope_tenant = location_tenant location, scope_realm = location_realm location\<rparr>)
            | None \<Rightarrow> throw (new_failure RealmNotFound)))"

definition keep_tenant :: "tenant \<Rightarrow> unit work_act" where
  "keep_tenant t = and_then refuse_in_snapshot (\<lambda>_ w.
     if tenant_id t \<noteq> scope_tenant (uow_scope w) \<or> st_tenants (working w) (tenant_id t) \<noteq> None
     then (Err Storage_Failed, w)
     else (Ok (), w\<lparr>working := (working w)\<lparr>st_tenants := (st_tenants (working w))(tenant_id t \<mapsto> t)\<rparr>\<rparr>))"

definition keep_realm :: "realm \<Rightarrow> unit work_act" where
  "keep_realm r = and_then refuse_in_snapshot (\<lambda>_ w.
     let s = working w;
         in_scope = realm_tenant r = scope_tenant (uow_scope w) \<and> realm_id r = scope_realm (uow_scope w)
     in if \<not> in_scope \<or> st_tenants s (realm_tenant r) = None \<or> map_of (st_realms s) (realm_id r) \<noteq> None
        then (Err Storage_Failed, w)
        else if list_ex (\<lambda>known. realm_name known = realm_name r) (map snd (st_realms s))
        then (Err (Taken ''realm name''), w)
        else (Ok (), w\<lparr>working := s\<lparr>st_realms := (realm_id r, r) # st_realms s\<rparr>\<rparr>))"

definition store_insert_tenant :: "tenant \<Rightarrow> unit work_act" where
  "store_insert_tenant t = record_refusal (keep_tenant t)"

definition store_insert_realm :: "realm \<Rightarrow> unit work_act" where
  "store_insert_realm r = record_refusal (keep_realm r)"

definition store_read_realm :: "realm option work_act" where
  "store_read_realm = reading (\<lambda>w.
     filter_option (\<lambda>r. realm_tenant r = scope_tenant (uow_scope w))
       (map_of (st_realms (working w)) (uow_realm w)))"

subsection \<open>Weakest preconditions\<close>

lemma wp_reading [wp_intro, simp]: "wp (reading f) Q R w = Q (f w) w"
  by (simp add: wp_def reading_def)

lemma wp_refuse_in_snapshot [wp_intro, simp]:
  "wp refuse_in_snapshot Q R w = (if read_only w then R Storage_Failed w else Q () w)"
  by (simp add: wp_def refuse_in_snapshot_def)

lemma wp_record_refusal [wp_intro, simp]:
  "wp (record_refusal m) Q R w = wp m Q (\<lambda>e w'. R e (w'\<lparr>failed := True\<rparr>)) w"
  by (simp add: wp_def record_refusal_def split: prod.split sum.split)

lemma wp_writing [wp_intro, simp]:
  "wp (writing f) Q R w =
     (if read_only w then R Storage_Failed (w\<lparr>failed := True\<rparr>)
      else Q (fst (f w)) (w\<lparr>working := snd (f w)\<rparr>))"
  by (simp add: wp_def writing_def and_then_def record_refusal_def refuse_in_snapshot_def split_beta)

lemma wp_now [wp_intro, simp]:
  "wp (now app) Q R s = Q (app_clock app (tick s) div 1000 * 1000) (s\<lparr>tick := tick s + 1\<rparr>)"
  by (simp add: wp_def now_def app_now_def clock_now_def)

lemma wp_fill_random [wp_intro, simp]:
  "wp (fill_random app n) Q R s =
     (case app_random app (drawn s) n of
        None \<Rightarrow> R (new_failure RandomUnavailable) (s\<lparr>drawn := drawn s + 1\<rparr>)
      | Some random \<Rightarrow> Q random (s\<lparr>drawn := drawn s + 1\<rparr>))"
  by (simp add: wp_def fill_random_def split: option.split)

text \<open>An identifier is minted without touching the storage, or the random source failed.\<close>

lemma wp_mint_id [wp_intro]:
  assumes "\<And>i k d. Q i (s\<lparr>drawn := d, tick := k\<rparr>)"
    and "\<And>k d. R (new_failure RandomUnavailable) (s\<lparr>drawn := d, tick := k\<rparr>)"
  shows "wp (mint_id app) Q R s"
proof (cases "app_random app (drawn s) 10")
  case None
  have "s\<lparr>drawn := d, tick := tick s\<rparr> = s\<lparr>drawn := d\<rparr>" for d by (cases s) simp
  then show ?thesis
    using None assms(2) [where k = "tick s" and d = "Suc (drawn s)"]
    by (simp add: mint_id_def)
next
  case (Some random)
  then show ?thesis
    using assms(1) [where k = "Suc (tick s)" and d = "Suc (drawn s)"]
    by (simp add: mint_id_def) (simp add: wp_def clock_now_def)
qed

lemma wp_open_work [wp_intro, simp]:
  "wp (open_work scope ro) Q R s =
     (case outage s of
        Some reason \<Rightarrow> R (Storage_Unavailable reason) s
      | None \<Rightarrow> Q () (s\<lparr>opened := Some \<lparr>uow_scope = scope, working = shared s, failed = False, read_only = ro\<rparr>\<rparr>))"
  by (simp add: wp_def open_work_def split: option.split)

lemma wp_on_work_storage [wp_intro]:
  "wp (on_work_storage m) Q R s =
     (case opened s of
        None \<Rightarrow> R Storage_Failed s
      | Some w \<Rightarrow> wp m (\<lambda>x w'. Q x (s\<lparr>opened := Some w'\<rparr>)) (\<lambda>e w'. R e (s\<lparr>opened := Some w'\<rparr>)) w)"
  by (simp add: wp_def on_work_storage_def split: option.split prod.split sum.split)

lemma wp_on_work [wp_intro]:
  "wp (on_work m) Q R s =
     (case opened s of
        None \<Rightarrow> R (failure_of_storage Storage_Failed) s
      | Some w \<Rightarrow> wp m (\<lambda>x w'. Q x (s\<lparr>opened := Some w'\<rparr>))
                        (\<lambda>e w'. R (failure_of_storage e) (s\<lparr>opened := Some w'\<rparr>)) w)"
  by (simp add: on_work_def wp_on_work_storage)

lemma opened_same [simp]: "opened s = Some w \<Longrightarrow> s\<lparr>opened := Some w\<rparr> = s"
  by (cases s) simp

text \<open>A call that only reads leaves everything as it was.\<close>

lemma wp_on_work_reading: "opened s = Some w \<Longrightarrow> wp (on_work (reading f)) Q R s = Q (f w) s"
  by (simp add: wp_on_work)

lemma wp_on_work_storage_reading: "opened s = Some w \<Longrightarrow> wp (on_work_storage (reading f)) Q R s = Q (f w) s"
  by (simp add: wp_on_work_storage)

lemma wp_on_work_writing:
  "opened s = Some w \<Longrightarrow> \<not> read_only w \<Longrightarrow>
     wp (on_work (writing f)) Q R s = Q (fst (f w)) (s\<lparr>opened := Some (w\<lparr>working := snd (f w)\<rparr>)\<rparr>)"
  by (simp add: wp_on_work)

lemma wp_commit [wp_intro]:
  "wp commit Q R s =
     (case opened s of
        None \<Rightarrow> R (failure_of_storage Storage_Failed) s
      | Some w \<Rightarrow>
          if failed w then R (failure_of_storage Storage_Failed) (s\<lparr>opened := None\<rparr>)
          else Q () (s\<lparr>shared := working w, opened := None\<rparr>))"
  by (simp add: commit_def) (simp add: wp_def split: option.split)

lemma wp_locate_realm [wp_intro]:
  assumes "\<And>found. Q found s" and "\<And>e. R e s"
  shows "wp (locate_realm name) Q R s"
  using assms by (simp add: locate_realm_def) (simp add: wp_def split: option.split)

subsection \<open>Invariants of the state\<close>

text \<open>
  An invariant of the state holds of what is committed, and of the working copy of the unit of
  work in hand unless that unit failed, since a failed unit of work commits nothing.
\<close>

definition ctx_inv :: "(state \<Rightarrow> bool) \<Rightarrow> ctx \<Rightarrow> bool" where
  "ctx_inv I s \<longleftrightarrow>
     I (shared s) \<and> (\<forall>w. opened s = Some w \<longrightarrow> \<not> failed w \<longrightarrow> I (working w))"

definition work_inv :: "(state \<Rightarrow> bool) \<Rightarrow> unit_of_work \<Rightarrow> bool" where
  "work_inv I w \<longleftrightarrow> (\<not> failed w \<longrightarrow> I (working w))"

lemma ctx_inv_simps [simp]:
  "ctx_inv I (s\<lparr>tick := k\<rparr>) = ctx_inv I s"
  "ctx_inv I (s\<lparr>drawn := d\<rparr>) = ctx_inv I s"
  "ctx_inv I (s\<lparr>shares := h\<rparr>) = ctx_inv I s"
  "ctx_inv I (s\<lparr>opened := None\<rparr>) = I (shared s)"
  "ctx_inv I (s\<lparr>opened := Some w\<rparr>) = (I (shared s) \<and> work_inv I w)"
  by (simp_all add: ctx_inv_def work_inv_def)

lemma ctx_inv_shared: "ctx_inv I s \<Longrightarrow> I (shared s)"
  by (simp add: ctx_inv_def)

named_theorems keeps_intro \<open>what the steps of the use cases keep\<close>

lemma keeps_throw [keeps_intro, simp]: "keeps I (throw e)"
  by (simp add: keeps_def throw_def)

lemma keeps_map_err [keeps_intro]: "keeps I m \<Longrightarrow> keeps I (map_err g m)"
  by (simp add: keeps_wp)

lemma keeps_lift_result [keeps_intro, simp]: "keeps I (lift_result r)"
  by (simp add: keeps_def lift_result_def)

lemma keeps_ensure [keeps_intro, simp]: "keeps I (ensure b e)"
  by (simp add: ensure_def)

lemmas [keeps_intro] = keeps_ret keeps_and_then

lemma keeps_now [keeps_intro]: "keeps (ctx_inv I) (now app)"
  by (simp add: keeps_wp)

lemma keeps_fill_random [keeps_intro]: "keeps (ctx_inv I) (fill_random app n)"
  by (simp add: keeps_wp split: option.split)

lemma keeps_mint_id [keeps_intro]: "keeps (ctx_inv I) (mint_id app)"
  by (auto simp: keeps_wp intro!: wp_mint_id)

lemma keeps_begin_work [keeps_intro]: "keeps (ctx_inv I) (begin_work scope)"
  by (simp add: keeps_wp begin_work_def ctx_inv_shared work_inv_def split: option.split)

lemma keeps_begin_snapshot [keeps_intro]: "keeps (ctx_inv I) (begin_snapshot scope)"
  by (simp add: keeps_wp begin_snapshot_def ctx_inv_shared work_inv_def split: option.split)

lemma keeps_commit [keeps_intro]: "keeps (ctx_inv I) commit"
  by (auto simp: keeps_wp wp_commit ctx_inv_def split: option.split)

lemma keeps_on_work_storage [keeps_intro]: "keeps (work_inv I) m \<Longrightarrow> keeps (ctx_inv I) (on_work_storage m)"
proof -
  assume "keeps (work_inv I) m"
  then have "work_inv I w \<Longrightarrow> work_inv I (snd (m w))" for w by (simp add: keeps_def)
  moreover have "ctx_inv I s \<Longrightarrow> opened s = Some w \<Longrightarrow> work_inv I w" for s w
    by (simp add: ctx_inv_def work_inv_def)
  ultimately show ?thesis
    by (auto simp: keeps_def on_work_storage_def split_beta ctx_inv_shared split: option.split)
qed

lemma keeps_on_work [keeps_intro]: "keeps (work_inv I) m \<Longrightarrow> keeps (ctx_inv I) (on_work m)"
  unfolding on_work_def by (intro keeps_intro)

lemma keeps_reading [keeps_intro]: "keeps J (reading f)"
  by (simp add: keeps_wp)

lemma keeps_writing:
  "(\<And>w. I (working w) \<Longrightarrow> \<not> read_only w \<Longrightarrow> I (snd (f w))) \<Longrightarrow> keeps (work_inv I) (writing f)"
  by (simp add: keeps_wp work_inv_def)

lemma keeps_record_refusal [keeps_intro]: "keeps (work_inv I) m \<Longrightarrow> keeps (work_inv I) (record_refusal m)"
  by (auto simp: keeps_def record_refusal_def work_inv_def split_beta split: sum.split)

lemma keeps_locate_realm [keeps_intro]: "keeps J (locate_realm name)"
  by (auto simp: keeps_wp intro!: wp_locate_realm)

lemma keeps_resolve_realm [keeps_intro]: "keeps J (resolve_realm name)"
  unfolding resolve_realm_def
  by (auto intro!: keeps_intro split: sum.split option.split)

subsection \<open>A sample application\<close>

text \<open>
  An application the properties are tried on: a clock that moves one second at each reading, a
  random source that repeats itself, a digest and a signature that can be followed by hand, and
  texts of identifiers and instants that are their numbers.
\<close>

definition sample_app :: app where
  "sample_app =
     \<lparr>app_clock = (\<lambda>n. int n * 1000000000), app_random = (\<lambda>_ n. Some (replicate n CHR ''r'')),
      app_sha256 = (\<lambda>data. take 32 (data @ replicate 32 CHR ''0'')), app_equal = (=),
      app_verify = (\<lambda>_ _ message signature. Some (signature = message)), app_sign = (\<lambda>_ _ message. Some message),
      app_generate_key = (\<lambda>_ a. Some \<lparr>generated_algorithm = a, generated_kid = ''kid'', generated_private_key = ''key'',
        generated_public_jwk = JNull\<rparr>),
      app_make_data_key = (\<lambda>_ _ _ g. Some \<lparr>data_key_generation = g, data_key_wrapped = []\<rparr>),
      app_seal = (\<lambda>_ _ _ plain. Some plain), app_digest_typed_name = (\<lambda>_ _ typed. Some typed),
      app_hash_password = (\<lambda>_ password. Ok password), app_verify_password = (\<lambda>_ password hash. Ok (password = hash)),
      app_make_totp_secret = (\<lambda>_. Some ''secret''), app_find_totp_step = (\<lambda>_ _ _. Some None),
      app_write_totp_enrollment = (\<lambda>_ _ secret. Some \<lparr>totp_uri = secret, totp_typed_secret = secret\<rparr>),
      app_keys_served = False, app_start_enrollment = (\<lambda>_ _ _ _. None), app_finish_enrollment = (\<lambda>_ _. Err Key_failed),
      app_start_proof = (\<lambda>_ _. None), app_finish_proof = (\<lambda>_ _ _. Err Key_failed),
      app_open_sealed = (\<lambda>_ _ sealed. Some sealed), app_lowercase = (\<lambda>text. text), app_uuid_text = show_nat, app_uuid_parse = (\<lambda>_. None),
      app_uuid_build = (\<lambda>t _. t), app_format_instant = (\<lambda>t. Some (show_int t)), app_parse_instant = (\<lambda>_. None),
      app_json_read = (\<lambda>_. None), app_json_write = (\<lambda>_. []), app_base64_encode = (\<lambda>data. data),
      app_base64_decode = Some, app_schema_form = (\<lambda>_. JNull), app_schema_read = (\<lambda>_. None),
      app_public_origin = ''https://id.example.org'', app_per_node = 5, app_per_tenant = 2,
      app_hashers_per_realm = 2, app_hashers_per_network = 1\<rparr>"

definition sample_ctx :: ctx where
  "sample_ctx =
     \<lparr>shared = empty_state, outage = None, opened = None, tick = 0, drawn = 0,
      shares = \<lparr>held_node = 0, held_tenants = (\<lambda>_. None)\<rparr>,
      hashing = \<lparr>held_realms = (\<lambda>_. None), held_networks = (\<lambda>_. None)\<rparr>, decoy = None\<rparr>"

subsection \<open>Runs that only read\<close>

text \<open>A run that moves the clock and nothing else.\<close>

definition only_later :: "ctx \<Rightarrow> ctx \<Rightarrow> bool" where
  "only_later s t \<longleftrightarrow> (\<exists>k. t = s\<lparr>tick := k\<rparr>)"

lemma only_later_refl [simp]: "only_later s s"
  unfolding only_later_def by (rule exI [of _ "tick s"]) simp

lemma only_later_tick [simp]: "only_later s (s\<lparr>tick := k\<rparr>)"
  by (auto simp: only_later_def)

lemma only_later_trans: "only_later s t \<Longrightarrow> only_later t u \<Longrightarrow> only_later s u"
  by (auto simp: only_later_def)

lemma only_later_same:
  assumes "only_later s t"
  shows "shared t = shared s" and "opened t = opened s" and "shares t = shares s" and "outage t = outage s"
    and "drawn t = drawn s"
  using assms by (auto simp: only_later_def)

definition reads_only :: "(ctx, 'e, 'a) act \<Rightarrow> bool" where
  "reads_only m \<longleftrightarrow> (\<forall>s. only_later s (snd (m s)))"

named_theorems reads_intro \<open>what only reads\<close>

lemma reads_only_simple [reads_intro, simp]:
  "reads_only (ret x)" "reads_only (throw e)" "reads_only (lift_result r)" "reads_only (ensure b e)"
  "reads_only (now app)"
  by (simp_all add: reads_only_def ret_def throw_def lift_result_def ensure_def now_def app_now_def clock_now_def)

lemma reads_only_and_then [reads_intro]:
  assumes "reads_only m" and "\<And>x. reads_only (f x)"
  shows "reads_only (and_then m f)"
  unfolding reads_only_def
proof
  fix s
  show "only_later s (snd (and_then m f s))"
  proof (cases "m s")
    case (Pair r t)
    have "only_later s t" using assms(1) Pair by (metis reads_only_def snd_conv)
    then show ?thesis
      using assms(2) Pair by (cases r) (auto simp: and_then_def reads_only_def intro: only_later_trans)
  qed
qed

lemma reads_only_map_err [reads_intro]: "reads_only m \<Longrightarrow> reads_only (map_err g m)"
  by (auto simp: reads_only_def map_err_def split_beta split: sum.split)

lemma reads_only_on_work_storage [reads_intro]: "reads_only (on_work_storage (reading f))"
  by (auto simp: reads_only_def on_work_storage_def reading_def split: option.split)

lemma reads_only_on_work [reads_intro]: "reads_only (on_work (reading f))"
  unfolding on_work_def by (intro reads_intro)

lemma reads_only_locate_realm [reads_intro]: "reads_only (locate_realm name)"
  by (auto simp: reads_only_def locate_realm_def map_err_def split: option.split)

lemma reads_only_resolve_realm [reads_intro]: "reads_only (resolve_realm name)"
  unfolding resolve_realm_def by (auto intro!: reads_intro split: sum.split option.split)

lemma wp_reads_only: "reads_only m \<Longrightarrow> wp m (\<lambda>_. only_later s) (\<lambda>_. only_later s) s"
  by (simp add: wp_same reads_only_def)

text \<open>What such a run tells, beside leaving everything as it was.\<close>

lemma wp_and_later:
  assumes "reads_only m" and "wp m Q R s"
    and "\<And>x t. only_later s t \<Longrightarrow> Q x t \<Longrightarrow> Q' x t" and "\<And>e t. only_later s t \<Longrightarrow> R e t \<Longrightarrow> R' e t"
  shows "wp m Q' R' s"
  by (rule wp_mono [OF wp_conj [OF wp_reads_only [OF assms(1)] assms(2)]]) (use assms(3,4) in auto)

text \<open>The realm a name resolves to is an enabled realm of that name.\<close>

lemma wp_resolve_realm:
  "wp (resolve_realm name)
     (\<lambda>(known_realm, scope) t. t = s \<and> known_realm = name \<and>
        (\<exists>r \<in> snd ` set (st_realms (shared s)). realm_name r = name \<and> realm_enabled r \<and>
           scope = \<lparr>scope_tenant = realm_tenant r, scope_realm = realm_id r\<rparr>))
     (\<lambda>_ t. t = s) s"
proof -
  have "parse_realm_name name = Ok parsed \<Longrightarrow> parsed = name" for parsed
    by (auto simp: parse_realm_name_def split: if_splits)
  then show ?thesis
    by (auto simp: resolve_realm_def locate_realm_def wp_def map_err_def and_then_def ret_def throw_def
        filter_option_eq_Some split: sum.splits option.splits dest!: find_found)
qed

subsection \<open>Runs that write nothing\<close>

text \<open>A run that moves the clock and the random source, and nothing else.\<close>

definition idle :: "ctx \<Rightarrow> ctx \<Rightarrow> bool" where
  "idle s t \<longleftrightarrow> shared t = shared s \<and> opened t = opened s \<and> outage t = outage s \<and> shares t = shares s"

lemma idle_refl [simp]: "idle s s"
  by (simp add: idle_def)

lemma idle_trans: "idle s t \<Longrightarrow> idle t u \<Longrightarrow> idle s u"
  by (simp add: idle_def)

lemma idle_same: "idle s t \<Longrightarrow> shared t = shared s" "idle s t \<Longrightarrow> opened t = opened s"
  by (simp_all add: idle_def)

definition writes_nothing :: "(ctx, 'e, 'a) act \<Rightarrow> bool" where
  "writes_nothing m \<longleftrightarrow> (\<forall>s. idle s (snd (m s)))"

named_theorems idle_intro \<open>what writes nothing\<close>

lemma writes_nothing_simple [idle_intro, simp]:
  "writes_nothing (ret x)" "writes_nothing (throw e)" "writes_nothing (lift_result r)" "writes_nothing (ensure b e)"
  by (simp_all add: writes_nothing_def ret_def throw_def lift_result_def ensure_def)

lemma only_later_idle: "only_later s t \<Longrightarrow> idle s t"
  by (auto simp: only_later_def idle_def)

lemma reads_only_writes_nothing: "reads_only m \<Longrightarrow> writes_nothing m"
  by (simp add: reads_only_def writes_nothing_def only_later_idle)

lemma writes_nothing_reading [idle_intro]: "writes_nothing (now app)" "writes_nothing (on_work (reading f))"
  by (intro reads_only_writes_nothing reads_intro)+

lemma writes_nothing_and_then [idle_intro]:
  assumes "writes_nothing m" and "\<And>x. writes_nothing (f x)"
  shows "writes_nothing (and_then m f)"
  unfolding writes_nothing_def
proof
  fix s
  show "idle s (snd (and_then m f s))"
  proof (cases "m s")
    case (Pair r t)
    have "idle s t" using assms(1) Pair by (metis writes_nothing_def snd_conv)
    then show ?thesis
      using assms(2) Pair by (cases r) (auto simp: and_then_def writes_nothing_def intro: idle_trans)
  qed
qed

lemma writes_nothing_map_err [idle_intro]: "writes_nothing m \<Longrightarrow> writes_nothing (map_err g m)"
  by (auto simp: writes_nothing_def map_err_def split_beta split: sum.split)

lemma writes_nothing_draws [idle_intro]: "writes_nothing (fill_random app n)" "writes_nothing (mint_id app)"
proof -
  show filled: "writes_nothing (fill_random app n)" for n
    by (simp add: writes_nothing_def idle_def fill_random_def)
  show "writes_nothing (mint_id app)"
    unfolding mint_id_def
    by (intro writes_nothing_and_then filled) (simp add: writes_nothing_def idle_def clock_now_def)
qed

lemma wp_writes_nothing:
  assumes "writes_nothing m" and "\<And>x t. idle s t \<Longrightarrow> Q x t" and "\<And>e t. idle s t \<Longrightarrow> R e t"
  shows "wp m Q R s"
proof (cases "m s")
  case (Pair r t)
  moreover have "idle s t" using assms(1) Pair by (metis writes_nothing_def snd_conv)
  ultimately show ?thesis using assms(2,3) by (simp add: wp_def split: sum.split)
qed

text \<open>A run goes on from where a step that writes nothing left it.\<close>

lemma wp_idle_then:
  assumes "writes_nothing m" and "idle s t" and "\<And>x u. idle s u \<Longrightarrow> wp (f x) Q R u" and "\<And>e u. idle s u \<Longrightarrow> R e u"
  shows "wp (and_then m f) Q R t"
  unfolding wp_and_then
  by (rule wp_writes_nothing [OF assms(1)]) (blast intro: assms(3,4) idle_trans [OF assms(2)])+

subsection \<open>Runs that commit nothing\<close>

definition commits_nothing :: "(ctx, 'e, 'a) act \<Rightarrow> bool" where
  "commits_nothing m \<longleftrightarrow> (\<forall>s. shared (snd (m s)) = shared s)"

named_theorems uncommitted_intro \<open>what commits nothing\<close>

lemma commits_nothing_and_then [uncommitted_intro]:
  "commits_nothing m \<Longrightarrow> (\<And>x. commits_nothing (f x)) \<Longrightarrow> commits_nothing (and_then m f)"
  unfolding commits_nothing_def and_then_def by (metis (no_types, lifting) prod.case_eq_if snd_conv sum.case_eq_if)

lemma writes_nothing_commits: "writes_nothing m \<Longrightarrow> commits_nothing m"
  by (simp add: writes_nothing_def commits_nothing_def idle_def)

lemma commits_nothing_simple [uncommitted_intro]:
  "commits_nothing (ret x)" "commits_nothing (throw e)" "commits_nothing (lift_result r)"
  "commits_nothing (ensure b e)" "commits_nothing (now app)" "commits_nothing (resolve_realm name)"
  by (intro writes_nothing_commits reads_only_writes_nothing reads_intro)+

lemma commits_nothing_work [uncommitted_intro]:
  "commits_nothing (begin_work scope)" "commits_nothing (begin_snapshot scope)" "commits_nothing (on_work m)"
  by (auto simp: commits_nothing_def begin_work_def begin_snapshot_def on_work_def on_work_storage_def map_err_def
      open_work_def split_beta split: option.split sum.split)

lemma commits_nothing_cases [uncommitted_intro]:
  "commits_nothing m \<Longrightarrow> commits_nothing n \<Longrightarrow> commits_nothing (if b then m else n)"
  "commits_nothing m \<Longrightarrow> (\<And>v. commits_nothing (f v)) \<Longrightarrow> commits_nothing (case x of None \<Rightarrow> m | Some v \<Rightarrow> f v)"
  "(\<And>e. commits_nothing (g e)) \<Longrightarrow> (\<And>v. commits_nothing (f v)) \<Longrightarrow> commits_nothing (case y of Inl e \<Rightarrow> g e | Inr v \<Rightarrow> f v)"
  "(\<And>a b. commits_nothing (h a b)) \<Longrightarrow> commits_nothing (case z of (a, b) \<Rightarrow> h a b)"
  by (simp_all split: option.split sum.split prod.split)

end
