(* ===== verification/Audit_Chain.thy ===== *)
theory Audit_Chain
  imports Storage
begin

text \<open>
  The audit chain (\<open>saffui-core/src/audit/\<close>): the kinds of events, the hash that links an event to
  the one before, the appending of an event inside the unit of work of the change it records,
  and the verification of a whole chain. The chain is kept by the in-memory storage
  (\<open>saffui-core/src/testkit/memory/audit.rs\<close>). The lemmas show that appending keeps a chain intact,
  that the verification ends and says \<open>Intact\<close> exactly of an intact chain, and that two intact
  chains with one head are one chain, as far as the digest has no collision on them.
\<close>

subsection \<open>Events\<close>

datatype event_kind = RealmCreated | SigningKeyCreated | ClientCreated | TokenIssued
  | PersonCreated | PersonUnlocked | SessionOpened | SessionEnded | TokenRevoked
  | AuthenticatorEnrolled | AuthenticatorRemoved | CodesSuspended | CodesResumed
  | KeyCopySuspected | RoleCreated | RoleDeleted | GroupCreated | GroupDeleted | RoleGranted
  | RoleRevoked | MemberAdded | MemberRemoved | RelationSchemaWritten | RelationWritten
  | RelationDeleted | RelationGuardWritten | RelationGuardDeleted | PolicyCreated
  | PolicyDeleted | ConsentGranted | ConsentWithdrawn

primrec kind_name :: "event_kind \<Rightarrow> string" where
  "kind_name RealmCreated = ''realm.created''"
| "kind_name SigningKeyCreated = ''key.created''"
| "kind_name ClientCreated = ''client.created''"
| "kind_name TokenIssued = ''token.issued''"
| "kind_name PersonCreated = ''person.created''"
| "kind_name PersonUnlocked = ''person.unlocked''"
| "kind_name SessionOpened = ''session.opened''"
| "kind_name SessionEnded = ''session.ended''"
| "kind_name TokenRevoked = ''token.revoked''"
| "kind_name AuthenticatorEnrolled = ''authenticator.enrolled''"
| "kind_name AuthenticatorRemoved = ''authenticator.removed''"
| "kind_name CodesSuspended = ''authenticator.codes_suspended''"
| "kind_name CodesResumed = ''authenticator.codes_resumed''"
| "kind_name KeyCopySuspected = ''authenticator.key_copy_suspected''"
| "kind_name RoleCreated = ''role.created''"
| "kind_name RoleDeleted = ''role.deleted''"
| "kind_name GroupCreated = ''group.created''"
| "kind_name GroupDeleted = ''group.deleted''"
| "kind_name RoleGranted = ''role.granted''"
| "kind_name RoleRevoked = ''role.revoked''"
| "kind_name MemberAdded = ''group.member_added''"
| "kind_name MemberRemoved = ''group.member_removed''"
| "kind_name RelationSchemaWritten = ''relation.schema_written''"
| "kind_name RelationWritten = ''relation.written''"
| "kind_name RelationDeleted = ''relation.deleted''"
| "kind_name RelationGuardWritten = ''relation.guard_written''"
| "kind_name RelationGuardDeleted = ''relation.guard_deleted''"
| "kind_name PolicyCreated = ''policy.created''"
| "kind_name PolicyDeleted = ''policy.deleted''"
| "kind_name ConsentGranted = ''consent.granted''"
| "kind_name ConsentWithdrawn = ''consent.withdrawn''"

definition GENESIS_HASH :: bytes where
  "GENESIS_HASH = replicate 32 (char_of (0 :: nat))"

definition link_preimage :: "bytes \<Rightarrow> int \<Rightarrow> bytes \<Rightarrow> bytes" where
  "link_preimage previous seq envelope = previous @ i64_to_be_bytes seq @ envelope"

definition hash_link :: "(bytes \<Rightarrow> bytes) \<Rightarrow> bytes \<Rightarrow> int \<Rightarrow> bytes \<Rightarrow> bytes" where
  "hash_link sha256 previous seq envelope = sha256 (link_preimage previous seq envelope)"

subsection \<open>The chain in the storage\<close>

text \<open>
  \<open>read[member]\<close> of the envelope: a member that is not there reads as \<open>null\<close>, which is no text.
\<close>

definition envelope_names :: "app \<Rightarrow> json \<Rightarrow> string \<Rightarrow> uuid \<Rightarrow> bool" where
  "envelope_names app read name i \<longleftrightarrow> json_get name read = Some (JString (app_uuid_text app i))"

definition link_event :: "app \<Rightarrow> bytes \<Rightarrow> chain_position work_act" where
  "link_event app envelope = and_then refuse_in_snapshot (\<lambda>_ w.
     case app_json_read app envelope of
       None \<Rightarrow> (Err Storage_Failed, w)
     | Some read \<Rightarrow>
         if \<not> envelope_names app read ''tenant_id'' (scope_tenant (uow_scope w)) \<or>
            \<not> envelope_names app read ''realm_id'' (scope_realm (uow_scope w))
         then (Err Storage_Failed, w)
         else
           let realm = uow_realm w;
               chain = st_audit (working w) realm;
               seq = (if chain = [] then 1 else event_seq (last chain) + 1);
               previous = (if chain = [] then GENESIS_HASH else event_hash (last chain));
               hash = hash_link weak_sha256 previous seq envelope;
               event = \<lparr>event_seq = seq, event_previous_hash = previous, event_hash = hash,
                        event_envelope = envelope\<rparr>
           in (Ok \<lparr>position_seq = seq, position_hash = hash\<rparr>,
               w\<lparr>working := (working w)\<lparr>st_audit := (st_audit (working w))(realm := chain @ [event])\<rparr>\<rparr>))"

definition store_append_audit_event :: "app \<Rightarrow> bytes \<Rightarrow> chain_position work_act" where
  "store_append_audit_event app envelope = record_refusal (link_event app envelope)"

definition store_read_audit_events :: "int \<Rightarrow> nat \<Rightarrow> chained_event list work_act" where
  "store_read_audit_events after limit = reading (\<lambda>w.
     take limit (filter (\<lambda>e. event_seq e > after) (st_audit (working w) (uow_realm w))))"

definition store_read_audit_head :: "chain_position option work_act" where
  "store_read_audit_head = reading (\<lambda>w.
     let chain = st_audit (working w) (uow_realm w) in
     if chain = [] then None
     else Some \<lparr>position_seq = event_seq (last chain), position_hash = event_hash (last chain)\<rparr>)"

subsection \<open>Appending an event\<close>

definition event_envelope_of :: "app \<Rightarrow> uuid \<Rightarrow> realm_scope \<Rightarrow> event_kind \<Rightarrow> string \<Rightarrow> json \<Rightarrow> json" where
  "event_envelope_of app i scope kind ts payload = json_object
     [(''id'', JString (app_uuid_text app i)),
      (''tenant_id'', JString (app_uuid_text app (scope_tenant scope))),
      (''realm_id'', JString (app_uuid_text app (scope_realm scope))),
      (''kind'', JString (kind_name kind)),
      (''ts'', JString ts),
      (''payload'', payload)]"

definition record_event :: "app \<Rightarrow> event_kind \<Rightarrow> json \<Rightarrow> unit use_case" where
  "record_event app kind payload =
     and_then work_scope (\<lambda>scope.
     and_then (now app) (\<lambda>t.
     case app_format_instant app t of
       None \<Rightarrow> throw (failure_with_detail Internal ''an instant that cannot be written'')
     | Some ts \<Rightarrow>
         and_then (mint_id app) (\<lambda>i.
         case canonicalize (event_envelope_of app i scope kind ts payload) of
           Err e \<Rightarrow> throw (failure_with_detail Internal (canonical_error_text e))
         | Ok written \<Rightarrow>
             and_then (on_work (store_append_audit_event app written)) (\<lambda>_. ret ()))))"

subsection \<open>Verifying a chain\<close>

definition PAGE :: nat where
  "PAGE = 500"

datatype chain_break = Gap | Unlinked | Altered | HeadMismatch

datatype chain_verdict = Intact int | Broken int chain_break

definition check_link :: "app \<Rightarrow> int \<Rightarrow> bytes \<Rightarrow> chained_event \<Rightarrow> chain_break option" where
  "check_link app seq hash event =
     (if event_seq event \<noteq> seq + 1 then Some Gap
      else if event_previous_hash event \<noteq> hash then Some Unlinked
      else if \<not> app_equal app (hash_link (app_sha256 app) hash (event_seq event) (event_envelope event))
                (event_hash event)
      then Some Altered
      else None)"

text \<open>The loop over one page: where the chain breaks, or where the page leaves it.\<close>

fun check_page :: "app \<Rightarrow> int \<Rightarrow> bytes \<Rightarrow> chained_event list \<Rightarrow> chain_verdict + (int \<times> bytes)" where
  "check_page app seq hash [] = Inr (seq, hash)"
| "check_page app seq hash (event # events) =
     (case check_link app seq hash event of
        Some reason \<Rightarrow> Inl (Broken (event_seq event) reason)
      | None \<Rightarrow> check_page app (event_seq event) (event_hash event) events)"

lemma check_page_seq: "check_page app seq hash page = Inr (seq', hash') \<Longrightarrow> seq' = seq + int (length page)"
  by (induction app seq hash page rule: check_page.induct)
     (auto simp: check_link_def split: option.splits if_splits)

text \<open>
  The loop over the pages. It ends: a page that is not empty and that holds moves the number
  reached forward, and leaves fewer events after it.
\<close>

definition events_after :: "int \<Rightarrow> ctx \<Rightarrow> chained_event list" where
  "events_after seq s =
     (case opened s of
        None \<Rightarrow> []
      | Some w \<Rightarrow> filter (\<lambda>e. event_seq e > seq) (st_audit (working w) (uow_realm w)))"

lemma read_page:
  "on_work (store_read_audit_events seq limit) s = (Ok page, t) \<Longrightarrow>
     t = s \<and> page = take limit (events_after seq s)"
  by (auto simp: on_work_def on_work_storage_def map_err_def store_read_audit_events_def reading_def
      events_after_def split: option.splits prod.splits)

lemma fewer_after:
  assumes page: "page = take PAGE (events_after seq s)" and "page \<noteq> []"
    and checked: "check_page app seq hash page = Inr (seq', hash')"
  shows "length (events_after seq' s) < length (events_after seq s)"
proof -
  obtain e es where e: "page = e # es" using assms(2) by (cases page) auto
  have "event_seq e = seq + 1"
    using checked e by (auto simp: check_link_def split: option.splits if_splits)
  moreover have "seq' \<ge> seq + 1"
    using check_page_seq [OF checked] e by simp
  moreover have "e \<in> set (events_after seq s)"
    using page e by (metis in_set_takeD list.set_intros(1))
  moreover have "events_after seq' s = filter (\<lambda>e. event_seq e > seq') (events_after seq s)"
    using \<open>seq' \<ge> seq + 1\<close> by (auto simp: events_after_def intro!: filter_cong split: option.split)
  ultimately show ?thesis
    by (metis (no_types, lifting) length_filter_less not_less)
qed

function verify_pages :: "app \<Rightarrow> int \<Rightarrow> bytes \<Rightarrow> (chain_verdict + (int \<times> bytes)) use_case" where
  "verify_pages app seq hash s =
     (case on_work (store_read_audit_events seq PAGE) s of
        (Err e, t) \<Rightarrow> (Err e, t)
      | (Ok page, t) \<Rightarrow>
          if page = [] then (Ok (Inr (seq, hash)), t)
          else
            (case check_page app seq hash page of
               Inl verdict \<Rightarrow> (Ok (Inl verdict), t)
             | Inr (seq', hash') \<Rightarrow> verify_pages app seq' hash' t))"
  by pat_completeness auto

termination
  by (relation "measure (\<lambda>(app, seq, hash, s). length (events_after seq s))")
     (auto dest!: read_page [OF sym] simp: fewer_after)

declare verify_pages.simps [simp del]

definition verify_chain :: "app \<Rightarrow> realm_scope \<Rightarrow> chain_verdict use_case" where
  "verify_chain app scope =
     and_then (begin_snapshot scope) (\<lambda>_.
     and_then (verify_pages app 0 GENESIS_HASH) (\<lambda>found.
     case found of
       Inl verdict \<Rightarrow> ret verdict
     | Inr (seq, hash) \<Rightarrow>
         and_then (on_work store_read_audit_head) (\<lambda>head.
         let matches_head = (case head of
               Some h \<Rightarrow> position_seq h = seq \<and> position_hash h = hash
             | None \<Rightarrow> seq = 0)
         in ret (if matches_head then Intact seq else Broken seq HeadMismatch))))"

subsection \<open>Intact chains\<close>

text \<open>What an intact chain is: every event numbered, linked and hashed after the one before.\<close>

fun linked :: "(bytes \<Rightarrow> bytes) \<Rightarrow> int \<Rightarrow> bytes \<Rightarrow> chained_event list \<Rightarrow> bool" where
  "linked sha256 seq hash [] \<longleftrightarrow> True"
| "linked sha256 seq hash (e # es) \<longleftrightarrow>
     event_seq e = seq + 1 \<and> event_previous_hash e = hash \<and>
     event_hash e = hash_link sha256 hash (event_seq e) (event_envelope e) \<and>
     linked sha256 (event_seq e) (event_hash e) es"

definition intact :: "(bytes \<Rightarrow> bytes) \<Rightarrow> chained_event list \<Rightarrow> bool" where
  "intact sha256 chain \<longleftrightarrow> linked sha256 0 GENESIS_HASH chain"

lemma linked_append:
  "linked sha256 seq hash (c @ d) \<longleftrightarrow>
     linked sha256 seq hash c \<and>
     linked sha256 (if c = [] then seq else event_seq (last c)) (if c = [] then hash else event_hash (last c)) d"
  by (induction sha256 seq hash c rule: linked.induct) auto

lemma linked_numbers: "linked sha256 seq hash c \<Longrightarrow> i < length c \<Longrightarrow> event_seq (c ! i) = seq + 1 + int i"
  by (induction sha256 seq hash c arbitrary: i rule: linked.induct) (auto simp: nth_Cons split: nat.splits)

lemma linked_sorted: "linked sha256 seq hash c \<Longrightarrow> sorted_wrt (<) (map event_seq c) \<and> (\<forall>e \<in> set c. event_seq e > seq)"
  by (induction sha256 seq hash c rule: linked.induct) fastforce+

lemma linked_last: "linked sha256 seq hash c \<Longrightarrow> c \<noteq> [] \<Longrightarrow> event_seq (last c) = seq + int (length c)"
  by (induction sha256 seq hash c rule: linked.induct) auto

text \<open>Appending keeps every chain of the state intact.\<close>

definition chains_intact :: "state \<Rightarrow> bool" where
  "chains_intact s \<longleftrightarrow> (\<forall>realm. intact weak_sha256 (st_audit s realm))"

lemma keeps_append [keeps_intro]: "keeps (work_inv chains_intact) (store_append_audit_event app envelope)"
proof -
  have "chains_intact (working w) \<Longrightarrow> chains_intact (working (snd (link_event app envelope w)))" for w
    by (auto simp: link_event_def and_then_def refuse_in_snapshot_def chains_intact_def intact_def
        linked_append Let_def split: option.split)
  moreover have "failed (snd (link_event app envelope w)) = failed w" for w
    by (auto simp: link_event_def and_then_def refuse_in_snapshot_def Let_def split: option.split)
  ultimately have "keeps (work_inv chains_intact) (link_event app envelope)"
    by (simp add: keeps_def work_inv_def)
  then show ?thesis
    unfolding store_append_audit_event_def by (rule keeps_record_refusal)
qed

lemma keeps_record_event_chains [keeps_intro]: "keeps (ctx_inv chains_intact) (record_event app kind payload)"
  unfolding record_event_def work_scope_def
  by (auto intro!: keeps_intro split: option.split sum.split)

subsection \<open>What the verification says\<close>

text \<open>
  The rows of a chain as a table keyed by the number reads them: in order, each number once.
  Whoever alters rows, removes some or adds some leaves such a table.
\<close>

definition keyed_rows :: "chained_event list \<Rightarrow> bool" where
  "keyed_rows chain \<longleftrightarrow> sorted_wrt (<) (map event_seq chain) \<and> (\<forall>e \<in> set chain. event_seq e > 0)"

lemma check_page_append:
  "check_page app seq hash (c @ d) =
     (case check_page app seq hash c of Inl v \<Rightarrow> Inl v | Inr (seq', hash') \<Rightarrow> check_page app seq' hash' d)"
  by (induction app seq hash c rule: check_page.induct) (auto split: option.split)

lemma check_page_linked:
  assumes "app_equal app = (=)"
  shows "check_page app seq hash c = Inr r \<longleftrightarrow>
     linked (app_sha256 app) seq hash c \<and>
     r = (if c = [] then seq else event_seq (last c), if c = [] then hash else event_hash (last c))"
  using assms by (induction app seq hash c rule: check_page.induct) (auto simp: check_link_def)

lemma sorted_wrt_last: "sorted_wrt (<) (map f xs) \<Longrightarrow> x \<in> set xs \<Longrightarrow> f x \<le> (f (last xs) :: int)"
proof (induction xs rule: rev_induct)
  case (snoc y xs)
  then show ?case by (auto simp: sorted_wrt_append)
qed simp

lemma filter_drop_sorted:
  assumes "sorted_wrt (<) (map event_seq rows)" and "take n rows \<noteq> []"
    and "seq' = event_seq (last (take n rows))"
  shows "filter (\<lambda>e. event_seq e > seq') rows = drop n rows"
proof -
  have parts: "rows = take n rows @ drop n rows" by simp
  have "sorted_wrt (<) (map event_seq (take n rows @ drop n rows))" using assms(1) by simp
  then have order: "sorted_wrt (<) (map event_seq (take n rows))"
    "\<forall>x \<in> set (take n rows). \<forall>y \<in> set (drop n rows). event_seq x < event_seq y"
    by (simp_all only: map_append sorted_wrt_append) auto
  have "\<forall>x \<in> set (take n rows). \<not> seq' < event_seq x"
    using sorted_wrt_last [OF order(1)] assms(3) by (auto simp: not_less)
  moreover have "\<forall>y \<in> set (drop n rows). seq' < event_seq y"
    using order(2) assms(2, 3) last_in_set by blast
  ultimately have "filter (\<lambda>e. event_seq e > seq') (take n rows) @
      filter (\<lambda>e. event_seq e > seq') (drop n rows) = drop n rows"
    by (simp add: filter_empty_conv filter_id_conv)
  then show ?thesis by (metis filter_append parts)
qed

lemma verify_pages_checks:
  assumes "opened s = Some w" and "app_equal app = (=)"
    and "sorted_wrt (<) (map event_seq (st_audit (working w) (uow_realm w)))"
  shows "verify_pages app seq hash s = (Ok (check_page app seq hash (events_after seq s)), s)"
  using assms
proof (induction app seq hash s rule: verify_pages.induct)
  case (1 app seq hash s)
  let ?rows = "events_after seq s"
  let ?page = "take PAGE ?rows"
  have read: "on_work (store_read_audit_events seq PAGE) s = (Ok ?page, s)"
    using "1.prems"(1) by (simp add: on_work_def on_work_storage_def map_err_def
        store_read_audit_events_def reading_def events_after_def)
  have sorted: "sorted_wrt (<) (map event_seq ?rows)"
    using "1.prems"(1, 3) by (simp add: events_after_def sorted_wrt_map sorted_wrt_filter)
  show ?case
  proof (cases "?page = []")
    case True
    then have "?rows = []" by (simp add: PAGE_def)
    then show ?thesis using read by (simp add: verify_pages.simps [of app seq hash s])
  next
    case False
    show ?thesis
    proof (cases "check_page app seq hash ?page")
      case (Inl verdict)
      then have "check_page app seq hash ?rows = Inl verdict"
        using check_page_append [of app seq hash ?page "drop PAGE ?rows"] by simp
      then show ?thesis
        using read False Inl by (simp add: verify_pages.simps [of app seq hash s])
    next
      case (Inr r)
      obtain seq' hash' where r: "r = (seq', hash')" by (cases r)
      have at: "seq' = event_seq (last ?page)"
        using check_page_linked [OF "1.prems"(2), of seq hash ?page r] Inr False r by auto
      have "events_after seq' s = filter (\<lambda>e. event_seq e > seq') ?rows"
        using check_page_seq [OF Inr [unfolded r]] "1.prems"(1)
        by (auto simp: events_after_def intro!: filter_cong)
      also have "\<dots> = drop PAGE ?rows"
        by (rule filter_drop_sorted [OF sorted False at])
      finally have rest: "check_page app seq hash ?rows = check_page app seq' hash' (events_after seq' s)"
        using check_page_append [of app seq hash ?page "drop PAGE ?rows"] Inr r by simp
      have "verify_pages app seq' hash' s = (Ok (check_page app seq' hash' (events_after seq' s)), s)"
        by (rule "1.IH" [OF read [symmetric] refl False Inr r [symmetric]]) (use "1.prems" in simp_all)
      then show ?thesis
        using read False Inr r rest by (simp add: verify_pages.simps [of app seq hash s])
    qed
  qed
qed

lemma verify_chain_runs:
  assumes "outage s = None" and "app_equal app = (=)" and "chain = st_audit (shared s) (scope_realm scope)"
    and "keyed_rows chain"
  shows "\<exists>w. verify_chain app scope s =
     (Ok (case check_page app 0 GENESIS_HASH chain of
            Inl verdict \<Rightarrow> verdict
          | Inr _ \<Rightarrow> Intact (int (length chain))), s\<lparr>opened := Some w\<rparr>)"
proof -
  define w where "w = \<lparr>uow_scope = scope, working = shared s, failed = False, read_only = True\<rparr>"
  let ?t = "s\<lparr>opened := Some w\<rparr>"
  have rows: "st_audit (working w) (uow_realm w) = chain"
    by (simp add: w_def uow_realm_def assms(3))
  have all: "events_after 0 ?t = chain"
    using assms(4) rows by (simp add: events_after_def keyed_rows_def filter_id_conv)
  have begun: "begin_snapshot scope s = (Ok (), ?t)"
    using assms(1) by (simp add: begin_snapshot_def open_work_def map_err_def w_def)
  have pages: "verify_pages app 0 GENESIS_HASH ?t = (Ok (check_page app 0 GENESIS_HASH chain), ?t)"
    using verify_pages_checks [of ?t w app 0 GENESIS_HASH] assms(2, 4) rows all by (simp add: keyed_rows_def)
  have head: "on_work store_read_audit_head ?t =
      (Ok (if chain = [] then None
           else Some \<lparr>position_seq = event_seq (last chain), position_hash = event_hash (last chain)\<rparr>), ?t)"
    using rows by (simp add: on_work_def on_work_storage_def map_err_def store_read_audit_head_def reading_def Let_def)
  show ?thesis
  proof (rule exI [of _ w], cases "check_page app 0 GENESIS_HASH chain")
    case (Inl verdict)
    then show "verify_chain app scope s = (Ok (case check_page app 0 GENESIS_HASH chain of
        Inl verdict \<Rightarrow> verdict | Inr _ \<Rightarrow> Intact (int (length chain))), ?t)"
      using begun pages by (simp add: verify_chain_def and_then_def ret_def)
  next
    case (Inr r)
    have "linked (app_sha256 app) 0 GENESIS_HASH chain"
      and "r = (if chain = [] then 0 else event_seq (last chain), if chain = [] then GENESIS_HASH else event_hash (last chain))"
      using Inr check_page_linked [OF assms(2)] by blast+
    moreover have "chain \<noteq> [] \<Longrightarrow> event_seq (last chain) = int (length chain)"
      using linked_last [OF calculation(1)] by simp
    ultimately show "verify_chain app scope s = (Ok (case check_page app 0 GENESIS_HASH chain of
        Inl verdict \<Rightarrow> verdict | Inr _ \<Rightarrow> Intact (int (length chain))), ?t)"
      using begun pages head Inr by (auto simp: verify_chain_def and_then_def ret_def Let_def)
  qed
qed

text \<open>
  Where a chain breaks: at its first event that does not follow those before it, for its number, for
  the hash it names, or for its own.
\<close>

definition breaks_at :: "(bytes \<Rightarrow> bytes) \<Rightarrow> int \<Rightarrow> bytes \<Rightarrow> chained_event list \<Rightarrow> int \<Rightarrow> chain_break \<Rightarrow> bool" where
  "breaks_at sha256 seq hash chain at reason \<longleftrightarrow>
     (\<exists>before e after. chain = before @ e # after \<and> linked sha256 seq hash before \<and>
        \<not> linked sha256 seq hash (before @ [e]) \<and> at = event_seq e \<and>
        reason =
          (if event_seq e \<noteq> seq + int (length before) + 1 then Gap
           else if event_previous_hash e \<noteq> (if before = [] then hash else event_hash (last before)) then Unlinked
           else Altered))"

lemma breaks_at_not_linked: "breaks_at sha256 seq hash chain at reason \<Longrightarrow> \<not> linked sha256 seq hash chain"
  by (auto simp: breaks_at_def linked_append)

lemma breaks_later:
  assumes "breaks_at sha256 (event_seq e) (event_hash e) c at reason" and "linked sha256 seq hash [e]"
  shows "breaks_at sha256 seq hash (e # c) at reason"
proof -
  from assms(1) obtain before f after where "c = before @ f # after" "linked sha256 (event_seq e) (event_hash e) before"
      "\<not> linked sha256 (event_seq e) (event_hash e) (before @ [f])" "at = event_seq f"
      "reason = (if event_seq f \<noteq> event_seq e + int (length before) + 1 then Gap
         else if event_previous_hash f \<noteq> (if before = [] then event_hash e else event_hash (last before)) then Unlinked
         else Altered)"
    by (auto simp: breaks_at_def)
  with assms(2) show ?thesis
    unfolding breaks_at_def by (intro exI [of _ "e # before"] exI [of _ f] exI [of _ after]) simp
qed

lemma check_page_breaks:
  assumes "app_equal app = (=)" and "check_page app seq hash c = Inl verdict"
  shows "\<exists>at reason. verdict = Broken at reason \<and> breaks_at (app_sha256 app) seq hash c at reason"
  using assms(2)
proof (induction c arbitrary: seq hash)
  case (Cons e c)
  show ?case
  proof (cases "check_link app seq hash e")
    case None
    then have "linked (app_sha256 app) seq hash [e]"
      using assms(1) by (auto simp: check_link_def split: if_splits)
    with None Cons.prems show ?thesis
      using Cons.IH [of "event_seq e" "event_hash e"] breaks_later by auto
  next
    case (Some reason)
    then have "breaks_at (app_sha256 app) seq hash (e # c) (event_seq e) reason"
      using assms(1) unfolding breaks_at_def
      by (intro exI [of _ "[]"] exI [of _ e] exI [of _ c]) (auto simp: check_link_def split: if_splits)
    with Some Cons.prems show ?thesis by auto
  qed
qed simp

subsection \<open>Two chains with one head\<close>

definition preimages :: "chained_event list \<Rightarrow> bytes set" where
  "preimages chain = (\<lambda>e. link_preimage (event_previous_hash e) (event_seq e) (event_envelope e)) ` set chain"

lemma link_preimage_eq:
  assumes "length p = length q" and "i \<in> {- (2 ^ 63) ..< 2 ^ 63}" and "j \<in> {- (2 ^ 63) ..< 2 ^ 63}"
  shows "link_preimage p i e = link_preimage q j f \<longleftrightarrow> p = q \<and> i = j \<and> e = f"
  using assms i64_to_be_bytes_eq [of i j] by (auto simp: link_preimage_def)

text \<open>
  Linked rows all start from the same place and end with the same hash: walked back from the
  head, each hash gives the event it was made of.
\<close>

lemma linked_snoc_hash:
  assumes "linked sha256 seq hash (c @ [e])"
  shows "event_hash e = sha256 (link_preimage (event_previous_hash e) (event_seq e) (event_envelope e))"
    and "event_previous_hash e = (if c = [] then hash else event_hash (last c))"
  using assms by (auto simp: linked_append hash_link_def split: if_splits)

lemma chain_of_head:
  assumes "linked sha256 0 GENESIS_HASH c" and "linked sha256 0 GENESIS_HASH d" and "length c = length d"
    and "c \<noteq> [] \<Longrightarrow> event_hash (last c) = event_hash (last d)"
    and "inj_on sha256 (preimages c \<union> preimages d)" and "\<And>x. length (sha256 x) = 32"
    and "int (length c) < 2 ^ 63"
  shows "c = d"
  using assms(1-5, 7)
proof (induction c arbitrary: d rule: rev_induct)
  case Nil
  then show ?case by simp
next
  case (snoc e c)
  then obtain f d' where d: "d = d' @ [f]" by (metis append_is_Nil_conv length_0_conv list.distinct(1) rev_exhaust)
  note hashes = linked_snoc_hash [OF snoc.prems(1)] linked_snoc_hash [OF snoc.prems(2) [unfolded d]]
  have pre: "link_preimage (event_previous_hash e) (event_seq e) (event_envelope e) \<in> preimages (c @ [e])"
    "link_preimage (event_previous_hash f) (event_seq f) (event_envelope f) \<in> preimages d"
    by (auto simp: preimages_def d)
  have parts: "linked sha256 0 GENESIS_HASH c" "linked sha256 0 GENESIS_HASH d'"
    using snoc.prems(1, 2) d by (simp_all add: linked_append)
  have lengths: "length (event_previous_hash e) = length (event_previous_hash f)"
  proof -
    have "x \<noteq> [] \<Longrightarrow> linked sha256 0 GENESIS_HASH x \<Longrightarrow> length (event_hash (last x)) = 32" for x
      using linked_snoc_hash(1) [of sha256 0 GENESIS_HASH "butlast x" "last x"] assms(6) by simp
    then show ?thesis
      using hashes(2, 4) parts by (simp add: GENESIS_HASH_def)
  qed
  have seqs: "event_seq e = 1 + int (length c)" "event_seq f = 1 + int (length d')"
    using linked_numbers [OF snoc.prems(1), of "length c"] linked_numbers [OF snoc.prems(2), of "length d'"] d
    by simp_all
  have "sha256 (link_preimage (event_previous_hash e) (event_seq e) (event_envelope e)) =
      sha256 (link_preimage (event_previous_hash f) (event_seq f) (event_envelope f))"
    using hashes(1, 3) snoc.prems(4) d by simp
  then have "link_preimage (event_previous_hash e) (event_seq e) (event_envelope e) =
      link_preimage (event_previous_hash f) (event_seq f) (event_envelope f)"
    using inj_onD [OF snoc.prems(5)] pre by blast
  then have same: "event_previous_hash e = event_previous_hash f" "event_seq e = event_seq f"
    "event_envelope e = event_envelope f"
    using link_preimage_eq [OF lengths] seqs snoc.prems(3, 6) d by auto
  have "c = d'"
  proof (rule snoc.IH [OF parts])
    show "length c = length d'" using snoc.prems(3) d by simp
    then show "c \<noteq> [] \<Longrightarrow> event_hash (last c) = event_hash (last d')"
      using hashes(2, 4) same(1) by (auto split: if_splits)
    show "inj_on sha256 (preimages c \<union> preimages d')"
      by (rule inj_on_subset [OF snoc.prems(5)]) (auto simp: preimages_def d)
    show "int (length c) < 2 ^ 63" using snoc.prems(6) by simp
  qed
  moreover have "e = f"
    using same hashes(1, 3) by simp
  ultimately show ?case using d by simp
qed

subsection \<open>Properties\<close>


definition sample_event :: chained_event where
  "sample_event = \<lparr>event_seq = 1, event_previous_hash = GENESIS_HASH,
     event_hash = GENESIS_HASH, event_envelope = ''{}''\<rparr>"

definition sample_chain_ctx :: ctx where
  "sample_chain_ctx = sample_ctx\<lparr>shared := empty_state\<lparr>st_audit := (\<lambda>_. [sample_event])\<rparr>\<rparr>"


text \<open>
  C12: the head of a chain pins the whole chain. Two intact chains of one length whose last hashes
  are the same are the same chain, event by event, unless the digest collides on what they
  hash: nobody rewrites the past of a chain and keeps its head.
\<close>

theorem head_pins_the_chain:
  assumes "intact sha256 c" and "intact sha256 d" and "length c = length d" and "c \<noteq> []"
    and "event_hash (last c) = event_hash (last d)"
    and "inj_on sha256 (preimages c \<union> preimages d)" and "\<And>x. length (sha256 x) = 32"
    and "int (length c) < 2 ^ 63"
  shows "c = d"
  by (rule chain_of_head [OF assms(1, 2) [unfolded intact_def] assms(3) assms(5) assms(6, 7, 8)])

lemma sample_chain_intact: "intact (app_sha256 sample_app) [sample_event]"
  by (simp add: intact_def sample_event_def sample_app_def hash_link_def link_preimage_def GENESIS_HASH_def)

theorem head_pins_the_chain_witness: "intact (app_sha256 sample_app) [sample_event] \<and> [sample_event] = [sample_event]"
proof
  show "[sample_event] = [sample_event]"
    by (rule head_pins_the_chain [OF sample_chain_intact sample_chain_intact])
       (simp_all add: preimages_def sample_app_def)
qed (rule sample_chain_intact)

end
