(* ===== verification/Directory.thy ===== *)
theory Directory
  imports Audit_Chain
begin

text \<open>
  Clients, people and sessions: the rows the in-memory storage keeps of them
  (\<open>saffui-core/src/testkit/memory/clients.rs\<close>, \<open>keys.rs\<close> and \<open>login.rs\<close>), the authentication of
  a client (\<open>saffui-core/src/clients/authenticate.rs\<close>) and the reading of the session and the
  person behind a token (\<open>saffui-core/src/login/session.rs\<close>). The lemmas show that a client is
  only authenticated by its own secret while it is enabled, and what a live subject is.
\<close>

subsection \<open>Rows\<close>

text \<open>\<open>cut_window\<close> and the counting of rows, within 64 bits.\<close>

definition cut_window :: "list_window \<Rightarrow> 'a list \<Rightarrow> 'a list" where
  "cut_window window rows = take (window_max window) (drop (window_first window) rows)"

definition count_rows :: "'a list \<Rightarrow> nat" where
  "count_rows rows = length rows"

definition keep_client :: "client \<Rightarrow> unit work_act" where
  "keep_client c = and_then refuse_in_snapshot (\<lambda>_ w.
     let rows = st_clients (working w) (uow_realm w) in
     if list_ex (\<lambda>known. client_id known = client_id c) rows
     then (Err (Taken ''client identifier''), w)
     else (Ok (), w\<lparr>working := (working w)\<lparr>st_clients := (st_clients (working w))(uow_realm w := rows @ [c])\<rparr>\<rparr>))"

definition store_insert_client :: "client \<Rightarrow> unit work_act" where
  "store_insert_client c = record_refusal (keep_client c)"

definition store_read_client :: "string \<Rightarrow> client option work_act" where
  "store_read_client name = reading (\<lambda>w. find (\<lambda>c. client_id c = name) (st_clients (working w) (uow_realm w)))"

definition store_list_clients :: "list_window \<Rightarrow> client list work_act" where
  "store_list_clients window = reading (\<lambda>w.
     cut_window window (sort_key client_id (st_clients (working w) (uow_realm w))))"

definition store_count_clients :: "nat work_act" where
  "store_count_clients = reading (\<lambda>w. count_rows (st_clients (working w) (uow_realm w)))"

definition keep_signing_key :: "signing_key \<Rightarrow> unit work_act" where
  "keep_signing_key k = and_then refuse_in_snapshot (\<lambda>_ w.
     let rows = st_signing_keys (working w) (uow_realm w) in
     if list_ex (\<lambda>known. signing_key_id known = signing_key_id k \<or> signing_kid known = signing_kid k) rows
     then (Err Storage_Failed, w)
     else (Ok (), w\<lparr>working := (working w)\<lparr>st_signing_keys :=
            (st_signing_keys (working w))(uow_realm w := rows @ [k])\<rparr>\<rparr>))"

definition store_insert_signing_key :: "signing_key \<Rightarrow> unit work_act" where
  "store_insert_signing_key k = record_refusal (keep_signing_key k)"

definition store_list_signing_keys :: "signing_key list work_act" where
  "store_list_signing_keys = reading (\<lambda>w. st_signing_keys (working w) (uow_realm w))"

definition keep_person :: "person \<Rightarrow> unit work_act" where
  "keep_person p = and_then refuse_in_snapshot (\<lambda>_ w.
     let rows = st_persons (working w) (uow_realm w) in
     if list_ex (\<lambda>other. person_username other = person_username p) rows
     then (Err (Taken ''username''), w)
     else if person_email p \<noteq> None \<and> list_ex (\<lambda>other. person_email other = person_email p) rows
     then (Err (Taken ''email''), w)
     else (Ok (), w\<lparr>working := (working w)\<lparr>st_persons := (st_persons (working w))(uow_realm w := rows @ [p])\<rparr>\<rparr>))"

definition store_insert_person :: "person \<Rightarrow> unit work_act" where
  "store_insert_person p = record_refusal (keep_person p)"

definition store_read_person :: "uuid \<Rightarrow> person option work_act" where
  "store_read_person i = reading (\<lambda>w. find (\<lambda>p. person_id p = i) (st_persons (working w) (uow_realm w)))"

definition store_read_person_by_username :: "string \<Rightarrow> person option work_act" where
  "store_read_person_by_username name =
     reading (\<lambda>w. find (\<lambda>p. person_username p = name) (st_persons (working w) (uow_realm w)))"

definition holds_factor :: "unit_of_work \<Rightarrow> uuid \<Rightarrow> bool" where
  "holds_factor w p \<longleftrightarrow>
     is_some_and (\<lambda>known. totp_confirmed_at known \<noteq> None) (st_totp (working w) (uow_realm w, p)) \<or>
     list_ex (\<lambda>k. key_person k = p) (st_security_keys (working w) (uow_realm w))"

definition store_insert_session :: "session \<Rightarrow> unit work_act" where
  "store_insert_session x = writing (\<lambda>w.
     ((), (working w)\<lparr>st_sessions := (st_sessions (working w))(uow_realm w :=
        st_sessions (working w) (uow_realm w) @ [x])\<rparr>))"

definition store_read_session :: "uuid \<Rightarrow> read_session option work_act" where
  "store_read_session i = reading (\<lambda>w.
     map_option (\<lambda>x. \<lparr>the_session = x, person_holds_factor = holds_factor w (session_person x)\<rparr>)
       (find (\<lambda>x. session_id x = i) (st_sessions (working w) (uow_realm w))))"

text \<open>The first row that matches is changed, the others are left as they are.\<close>

fun update_first :: "('a \<Rightarrow> bool) \<Rightarrow> ('a \<Rightarrow> 'a) \<Rightarrow> 'a list \<Rightarrow> 'a list" where
  "update_first p f [] = []"
| "update_first p f (x # xs) = (if p x then f x # xs else x # update_first p f xs)"

definition store_end_session :: "uuid \<Rightarrow> bool work_act" where
  "store_end_session i = writing (\<lambda>w.
     let rows = st_sessions (working w) (uow_realm w);
         active = (\<lambda>x. session_id x = i \<and> session_state x = Session_active)
     in (list_ex active rows,
         (working w)\<lparr>st_sessions := (st_sessions (working w))(uow_realm w :=
            update_first active (\<lambda>x. x\<lparr>session_state := Session_ended\<rparr>) rows)\<rparr>))"

subsection \<open>Clients that authenticate\<close>

text \<open>\<open>read_named_client\<close>: what is not written as a client identifier names no client.\<close>

definition read_named_client :: "app \<Rightarrow> string \<Rightarrow> client option use_case" where
  "read_named_client app name =
     (case check_client_identifier (\<lambda>text. app_uuid_parse app text \<noteq> None) name of
        Err _ \<Rightarrow> ret None
      | Ok _ \<Rightarrow> on_work (store_read_client name))"

text \<open>The digest an unknown client is compared against.\<close>

definition no_digest :: bytes where
  "no_digest = replicate 32 (char_of (0 :: nat))"

definition authenticate_client :: "app \<Rightarrow> string \<Rightarrow> bytes \<Rightarrow> client use_case" where
  "authenticate_client app name presented =
     and_then (read_named_client app name) (\<lambda>found.
     let presented_digest = app_sha256 app presented;
         expected = (case found of
             Some known \<Rightarrow> (case client_secret_digest known of Some d \<Rightarrow> d | None \<Rightarrow> no_digest)
           | None \<Rightarrow> no_digest);
         matches = app_equal app presented_digest expected
     in case found of
          Some c \<Rightarrow>
            if matches \<and> client_enabled c then ret c
            else throw (new_failure ClientAuthenticationFailed)
        | None \<Rightarrow> throw (new_failure ClientAuthenticationFailed))"

definition identify_client :: "app \<Rightarrow> string \<Rightarrow> bytes option \<Rightarrow> client use_case" where
  "identify_client app name presented =
     (case presented of
        Some secret \<Rightarrow> authenticate_client app name secret
      | None \<Rightarrow>
          and_then (read_named_client app name) (\<lambda>found.
          lift_result (ok_or (new_failure ClientAuthenticationFailed)
            (filter_option (\<lambda>c. client_enabled c \<and> client_secret_digest c = None) found))))"

subsection \<open>Live subjects\<close>

text \<open>\<open>read_live_subject\<close>: the session and its person, when both still stand.\<close>

definition session_stands :: "instant \<Rightarrow> read_session \<Rightarrow> bool" where
  "session_stands t known \<longleftrightarrow>
     session_state (the_session known) = Session_active \<and>
     session_expires_at (the_session known) > t \<and> answers_for_its_person known"

definition read_live_subject :: "app \<Rightarrow> uuid \<Rightarrow> (session \<times> person) option use_case" where
  "read_live_subject app i =
     and_then (now app) (\<lambda>t.
     and_then (on_work (store_read_session i)) (\<lambda>found.
     case filter_option (session_stands t) found of
       None \<Rightarrow> ret None
     | Some known \<Rightarrow>
         and_then (on_work (store_read_person (session_person (the_session known)))) (\<lambda>p.
         ret (map_option (Pair (the_session known)) (filter_option person_enabled p)))))"

subsection \<open>What the readings tell\<close>

text \<open>A run over the unit of work in hand that only reads leaves everything as it was.\<close>

lemma wp_read_named_client:
  assumes "opened s = Some w" and "\<And>found. (\<forall>c. found = Some c \<longrightarrow> client_id c = name \<and>
      c \<in> set (st_clients (working w) (uow_realm w))) \<Longrightarrow> Q found s"
  shows "wp (read_named_client app name) Q R s"
proof (cases "check_client_identifier (\<lambda>text. app_uuid_parse app text \<noteq> None) name")
  case (Inl e)
  then show ?thesis using assms(2) by (simp add: read_named_client_def)
next
  case (Inr u)
  let ?found = "find (\<lambda>c. client_id c = name) (st_clients (working w) (uow_realm w))"
  have "\<forall>c. ?found = Some c \<longrightarrow> client_id c = name \<and> c \<in> set (st_clients (working w) (uow_realm w))"
    by (auto simp: find_Some_iff)
  from assms(2) [OF this] Inr show ?thesis
    by (simp add: read_named_client_def store_read_client_def wp_on_work_reading [OF assms(1)])
qed

lemma authenticated_client:
  assumes "authenticate_client app name presented s = (Ok c, t)" and "opened s = Some w"
    and "app_equal app = (=)"
  shows "t = s" and "c \<in> set (st_clients (working w) (uow_realm w))" and "client_id c = name"
    and "client_enabled c"
    and "client_secret_digest c = Some (app_sha256 app presented) \<or>
      client_secret_digest c = None \<and> app_sha256 app presented = no_digest"
proof -
  let ?Q = "\<lambda>c t. t = s \<and> c \<in> set (st_clients (working w) (uow_realm w)) \<and> client_id c = name \<and>
      client_enabled c \<and> (client_secret_digest c = Some (app_sha256 app presented) \<or>
      client_secret_digest c = None \<and> app_sha256 app presented = no_digest)"
  have "wp (authenticate_client app name presented) ?Q (\<lambda>_ _. True) s"
    unfolding authenticate_client_def Let_def wp_and_then
    by (rule wp_read_named_client [OF assms(2)])
       (auto simp: assms(3) split: option.splits)
  then have "?Q c t" using assms(1) by (simp add: wp_def)
  then show "t = s" and "c \<in> set (st_clients (working w) (uow_realm w))" and "client_id c = name"
    and "client_enabled c"
    and "client_secret_digest c = Some (app_sha256 app presented) \<or>
      client_secret_digest c = None \<and> app_sha256 app presented = no_digest"
    by simp_all
qed

lemma keeps_read_named_client [keeps_intro]: "keeps (ctx_inv I) (read_named_client app name)"
  unfolding read_named_client_def store_read_client_def
  by (auto intro!: keeps_intro split: sum.split)

lemma keeps_authenticate_client [keeps_intro]: "keeps (ctx_inv I) (authenticate_client app name presented)"
  unfolding authenticate_client_def Let_def by (auto intro!: keeps_intro split: option.split)

lemma keeps_identify_client [keeps_intro]: "keeps (ctx_inv I) (identify_client app name presented)"
  unfolding identify_client_def by (auto intro!: keeps_intro split: option.split)

lemma keeps_read_live_subject [keeps_intro]: "keeps (ctx_inv I) (read_live_subject app i)"
  unfolding read_live_subject_def store_read_session_def store_read_person_def
  by (auto intro!: keeps_intro split: option.split)

subsection \<open>Properties\<close>

text \<open>
  C39: a client is authenticated only by its own secret, and only while it is enabled. Whoever is let
  through is a client of the realm of the unit of work, under the name that was presented, whose
  stored digest is the one of the secret presented; nothing is written on the way. The digest of
  nothing (32 zeros) is the only way past a client without a secret.
\<close>

theorem authenticated_by_its_own_secret:
  assumes "authenticate_client app name presented s = (Ok c, t)" and "opened s = Some w"
    and "app_equal app = (=)" and "app_sha256 app presented \<noteq> no_digest"
  shows "t = s \<and> c \<in> set (st_clients (working w) (uow_realm w)) \<and> client_id c = name \<and> client_enabled c \<and>
     client_secret_digest c = Some (app_sha256 app presented)"
  using authenticated_client [OF assms(1, 2, 3)] assms(4) by auto

definition sample_client :: client where
  "sample_client = \<lparr>client_uuid = 7, client_id = ''web'', client_name = ''Web'',
     client_secret_digest = Some (app_sha256 sample_app ''secret''), allows_client_credentials = True,
     allows_authorization_code = True, redirect_uris = [], post_logout_redirect_uris = [],
     requires_consent = False, client_scopes = [''admin''], client_capabilities = [RoleWrite],
     client_enabled = True, client_created_at = 0\<rparr>"

definition sample_scope :: realm_scope where
  "sample_scope = \<lparr>scope_tenant = 1, scope_realm = 2\<rparr>"

definition sample_state :: state where
  "sample_state = empty_state\<lparr>st_clients := (\<lambda>_. [sample_client])\<rparr>"

definition sample_work :: unit_of_work where
  "sample_work = \<lparr>uow_scope = sample_scope, working = sample_state, failed = False, read_only = False\<rparr>"

definition sample_open_ctx :: ctx where
  "sample_open_ctx = sample_ctx\<lparr>shared := sample_state, opened := Some sample_work\<rparr>"

lemma web_is_an_identifier: "check_client_identifier (\<lambda>text. False) ''web'' = Ok ()"
  by (simp add: check_client_identifier_def is_ascii_alphanumeric_def is_ascii_lowercase_def less_eq_char_def)

lemma sample_uuid_parse [simp]: "app_uuid_parse sample_app text = None"
  by (simp add: sample_app_def)

lemma web_authenticates: "authenticate_client sample_app ''web'' ''secret'' sample_open_ctx = (Ok sample_client, sample_open_ctx)"
  by (simp add: authenticate_client_def read_named_client_def web_is_an_identifier store_read_client_def and_then_def
      on_work_def on_work_storage_def map_err_def reading_def sample_open_ctx_def sample_work_def
      sample_state_def sample_client_def ret_def) (simp add: sample_app_def)

lemma secret_has_a_digest: "app_sha256 sample_app ''secret'' \<noteq> no_digest"
proof -
  have "hd (app_sha256 sample_app ''secret'') \<noteq> hd no_digest"
    by (simp add: sample_app_def no_digest_def char_of_def)
  then show ?thesis by metis
qed

theorem authenticated_by_its_own_secret_witness:
  "sample_client \<in> set (st_clients (working sample_work) (uow_realm sample_work)) \<and>
   client_secret_digest sample_client = Some (app_sha256 sample_app ''secret'')"
  using authenticated_by_its_own_secret [OF web_authenticates, of sample_work] secret_has_a_digest
  by (simp add: sample_open_ctx_def sample_app_def)

lemma reads_only_directory [reads_intro]:
  "reads_only (read_named_client app name)"
  "reads_only (authenticate_client app name presented)"
  "reads_only (identify_client app name secret)"
  "reads_only (read_live_subject app i)"
proof -
  show named: "reads_only (read_named_client app name)" for name
    unfolding read_named_client_def store_read_client_def by (auto intro!: reads_intro split: sum.split)
  then show authenticated: "reads_only (authenticate_client app name presented)" for presented
    unfolding authenticate_client_def Let_def by (auto intro!: reads_intro split: option.split)
  then show "reads_only (identify_client app name secret)"
    unfolding identify_client_def by (auto intro!: reads_intro named split: option.split)
  show "reads_only (read_live_subject app i)"
    unfolding read_live_subject_def store_read_session_def store_read_person_def
    by (auto intro!: reads_intro split: option.split)
qed

text \<open>A live subject is a session and its person, both as the realm keeps them, and both standing.\<close>

lemma wp_read_live_subject:
  assumes "opened s = Some w"
  shows "wp (read_live_subject app i)
    (\<lambda>found t. only_later s t \<and> (\<forall>x p. found = Some (x, p) \<longrightarrow>
       x \<in> set (st_sessions (working w) (uow_realm w)) \<and> session_id x = i \<and>
       session_state x = Session_active \<and> app_clock app (tick s) div 1000 * 1000 < session_expires_at x \<and>
       p \<in> set (st_persons (working w) (uow_realm w)) \<and> person_id p = session_person x \<and> person_enabled p))
    (\<lambda>_ _. False) s"
proof -
  let ?t = "app_clock app (tick s) div 1000 * 1000" and ?s = "s\<lparr>tick := tick s + 1\<rparr>"
  have opened: "opened ?s = Some w" using assms by simp
  show ?thesis
    unfolding read_live_subject_def store_read_session_def store_read_person_def wp_and_then wp_now
      wp_on_work_reading [OF opened] wp_case_option wp_ret
    by (auto simp: session_stands_def filter_option_eq_Some split: option.split dest!: find_found)
qed

lemma wp_authenticate_client:
  assumes "opened s = Some w"
  shows "wp (authenticate_client app name presented)
    (\<lambda>c t. t = s \<and> c \<in> set (st_clients (working w) (uow_realm w)) \<and> client_id c = name \<and> client_enabled c)
    (\<lambda>_ t. t = s) s"
  unfolding authenticate_client_def Let_def wp_and_then
  by (rule wp_read_named_client [OF assms]) (auto split: option.splits)

lemma wp_read_named_client_eq:
  assumes "opened s = Some w"
  shows "wp (read_named_client app name) Q R s =
    Q (case check_client_identifier (\<lambda>text. app_uuid_parse app text \<noteq> None) name of
         Err _ \<Rightarrow> None
       | Ok _ \<Rightarrow> find (\<lambda>c. client_id c = name) (st_clients (working w) (uow_realm w))) s"
  using assms by (simp add: read_named_client_def store_read_client_def wp_on_work_reading split: sum.split)

end
