(* ===== verification/Walk.thy ===== *)
theory Walk
  imports Schema
begin

text \<open>
  The walk over the relations a realm keeps (\<open>saffui-core/src/authz/relations/check.rs\<close>):
  whether a subject stands in a member of an object, bounded in depth, in reads, in
  subjects read at once, in steps and in time. The walk runs over a port, the two calls
  it makes outside: the reading of the clock and \<open>list_relation_subjects\<close> of the unit of
  work. What it should answer is the inductive relation \<open>stands\<close>; the lemmas show that an
  answer found is one that stands, that an answer not found is one that does not, and
  that within the bounds the walk answers.
\<close>

subsection \<open>Bounds and answers\<close>

definition MAX_DEPTH :: nat where "MAX_DEPTH = 64"
definition MAX_READS :: nat where "MAX_READS = 1000"
definition MAX_FANOUT :: nat where "MAX_FANOUT = 1000"
definition MAX_DURATION :: duration where "MAX_DURATION = 100 * 1000000"
definition MAX_STEPS :: nat where "MAX_STEPS = 10000"

datatype walk_limit = Depth | Reads | Fanout | Duration | Cycle | Steps

datatype walk = Found | Not_Found | Undecided walk_limit

fun limit_name :: "walk_limit \<Rightarrow> string" where
  "limit_name Depth = ''depth''"
| "limit_name Reads = ''reads''"
| "limit_name Fanout = ''fanout''"
| "limit_name Duration = ''duration''"
| "limit_name Cycle = ''cycle''"
| "limit_name Steps = ''steps''"

datatype subjects = Read_subjects "subject_ref list" | Bound walk_limit

text \<open>\<open>fold_union\<close>: one found is enough; of the limits, the last one is told.\<close>

fun fold_union_from :: "walk_limit option \<Rightarrow> walk list \<Rightarrow> walk" where
  "fold_union_from undecided [] =
     (case undecided of None \<Rightarrow> Not_Found | Some limit \<Rightarrow> Undecided limit)"
| "fold_union_from undecided (walk # walks) =
     (case walk of
        Found \<Rightarrow> Found
      | Undecided limit \<Rightarrow> fold_union_from (Some limit) walks
      | Not_Found \<Rightarrow> fold_union_from undecided walks)"

definition fold_union :: "walk list \<Rightarrow> walk" where
  "fold_union walks = fold_union_from None walks"

subsection \<open>The walker\<close>

text \<open>
  What a walk is given: the clock, the reading of relations of the unit of work, the
  schema, the subject asked about and the deadline of its budget. The state of the unit of
  work is a type of its own.
\<close>

record 'w walk_env =
  env_now :: "'w \<Rightarrow> instant \<times> 'w"
  env_list :: "object_ref \<Rightarrow> string \<Rightarrow> nat \<Rightarrow> ('w, storage_error, subject_ref list) act"
  env_schema :: compiled_schema
  env_subject :: object_ref
  env_deadline :: instant

type_synonym walk_key = "object_ref \<times> string"

record 'w walker =
  work :: 'w
  reads :: nat
  steps :: nat
  known :: "walk_key \<rightharpoonup> walk"
  walking :: "walk_key set"

type_synonym ('w, 'a) walk_act = "('w walker, storage_error, 'a) act"

definition check_time :: "'w walk_env \<Rightarrow> ('w, walk_limit option) walk_act" where
  "check_time env = (\<lambda>s. case env_now env (work s) of
     (t, w) \<Rightarrow> (Ok (if t > env_deadline env then Some Duration else None), s\<lparr>work := w\<rparr>))"

definition count_read :: "('w, nat) walk_act" where
  "count_read = (\<lambda>s. (Ok (reads s + 1), s\<lparr>reads := reads s + 1\<rparr>))"

definition count_step :: "('w, nat) walk_act" where
  "count_step = (\<lambda>s. (Ok (steps s + 1), s\<lparr>steps := steps s + 1\<rparr>))"

definition list_at :: "'w walk_env \<Rightarrow> object_ref \<Rightarrow> string \<Rightarrow> nat \<Rightarrow> ('w, subject_ref list) walk_act" where
  "list_at env obj rel n = (\<lambda>s. case env_list env obj rel n (work s) of (res, w) \<Rightarrow> (res, s\<lparr>work := w\<rparr>))"

definition recall :: "walk_key \<Rightarrow> ('w, walk option) walk_act" where
  "recall key = (\<lambda>s. (Ok (known s key), s))"

text \<open>\<open>walking.insert(key)\<close>, which tells whether the key was not there.\<close>

definition enter :: "walk_key \<Rightarrow> ('w, bool) walk_act" where
  "enter key = (\<lambda>s. (Ok (key \<notin> walking s), s\<lparr>walking := insert key (walking s)\<rparr>))"

text \<open>\<open>walking.remove(key)\<close> and \<open>known.insert(key, walk)\<close>.\<close>

definition settle :: "walk_key \<Rightarrow> walk \<Rightarrow> ('w, unit) walk_act" where
  "settle key walk = (\<lambda>s. (Ok (), s\<lparr>walking := walking s - {key}, known := (known s)(key \<mapsto> walk)\<rparr>))"

definition read_subjects :: "'w walk_env \<Rightarrow> object_ref \<Rightarrow> string \<Rightarrow> ('w, subjects) walk_act" where
  "read_subjects env obj rel =
     and_then count_read (\<lambda>n.
     if n > MAX_READS then ret (Bound Reads) else
     and_then (check_time env) (\<lambda>late.
     case late of Some limit \<Rightarrow> ret (Bound limit) | None \<Rightarrow>
     and_then (list_at env obj rel (MAX_FANOUT + 1)) (\<lambda>found.
     if length found > MAX_FANOUT then ret (Bound Fanout) else
     and_then (check_time env) (\<lambda>late.
     case late of Some limit \<Rightarrow> ret (Bound limit) | None \<Rightarrow> ret (Read_subjects found)))))"

text \<open>Whether a subject is one a relation admits, and whether it is an object an arrow walks to.\<close>

definition admits :: "allowed_subject list \<Rightarrow> subject_ref \<Rightarrow> bool" where
  "admits allowed named \<longleftrightarrow>
     list_ex (\<lambda>s. allowed_type s = object_type (object named) \<and> allowed_member s = member named) allowed"

definition leads_to :: "allowed_subject list \<Rightarrow> subject_ref \<Rightarrow> bool" where
  "leads_to allowed named \<longleftrightarrow>
     member named = None \<and>
     list_ex (\<lambda>s. allowed_member s = None \<and> allowed_type s = object_type (object named)) allowed"

text \<open>The members the subjects name, in order: a subject that is an object alone names none.\<close>

definition named_members :: "subject_ref list \<Rightarrow> walk_key list" where
  "named_members named = List.map_filter (\<lambda>s. map_option (Pair (object s)) (member s)) named"

text \<open>The loop of a sum: it ends at the first found, and folds the others.\<close>

fun walk_each :: "('a \<Rightarrow> ('w, walk) walk_act) \<Rightarrow> 'a list \<Rightarrow> walk list \<Rightarrow> ('w, walk) walk_act" where
  "walk_each f [] walks = ret (fold_union walks)"
| "walk_each f (x # xs) walks =
     and_then (f x) (\<lambda>walk. if walk = Found then ret Found else walk_each f xs (walks @ [walk]))"

text \<open>The loop of an intersection: it ends at the first not found.\<close>

fun walk_every :: "('a \<Rightarrow> ('w, walk) walk_act) \<Rightarrow> 'a list \<Rightarrow> walk_limit option \<Rightarrow> ('w, walk) walk_act" where
  "walk_every f [] undecided =
     ret (case undecided of None \<Rightarrow> Found | Some limit \<Rightarrow> Undecided limit)"
| "walk_every f (x # xs) undecided =
     and_then (f x) (\<lambda>walk. case walk of
        Not_Found \<Rightarrow> ret Not_Found
      | Undecided limit \<Rightarrow> walk_every f xs (Some limit)
      | Found \<Rightarrow> walk_every f xs undecided)"

lemma and_then_cong [fundef_cong]:
  "m = m' \<Longrightarrow> (\<And>x. f x = f' x) \<Longrightarrow> and_then m f = and_then m' f'"
  by presburger

lemma walk_each_cong [fundef_cong]:
  "xs = ys \<Longrightarrow> (\<And>x. x \<in> set ys \<Longrightarrow> f x = g x) \<Longrightarrow> walks = walks' \<Longrightarrow>
     walk_each f xs walks = walk_each g ys walks'"
proof (induction xs arbitrary: ys walks walks')
  case Nil
  then show ?case by simp
next
  case (Cons x xs)
  then have "f x = g x" "\<And>walks. walk_each f xs walks = walk_each g xs walks" by auto
  with Cons.prems show ?case by (auto cong: if_cong)
qed

lemma walk_every_cong [fundef_cong]:
  "xs = ys \<Longrightarrow> (\<And>x. x \<in> set ys \<Longrightarrow> f x = g x) \<Longrightarrow> undecided = undecided' \<Longrightarrow>
     walk_every f xs undecided = walk_every g ys undecided'"
proof (induction xs arbitrary: ys undecided undecided')
  case Nil
  then show ?case by simp
next
  case (Cons x xs)
  then have "f x = g x" "\<And>undecided. walk_every f xs undecided = walk_every g xs undecided" by auto
  with Cons.prems show ?case by auto
qed

lemma size_of_term: "(rule :: rule) \<in> set rules \<Longrightarrow> size rule < Suc (size_list size rules)"
  by (induction rules) auto

function (sequential)
      walk_member :: "'w walk_env \<Rightarrow> object_ref \<Rightarrow> string \<Rightarrow> nat \<Rightarrow> ('w, walk) walk_act"
  and walk_relation :: "'w walk_env \<Rightarrow> object_ref \<Rightarrow> string \<Rightarrow> nat \<Rightarrow> ('w, walk) walk_act"
  and walk_rule :: "'w walk_env \<Rightarrow> object_ref \<Rightarrow> rule \<Rightarrow> nat \<Rightarrow> ('w, walk) walk_act" where
  "walk_member env obj m depth =
     and_then count_step (\<lambda>n.
     if n > MAX_STEPS then ret (Undecided Steps) else
     and_then (check_time env) (\<lambda>late.
     case late of Some limit \<Rightarrow> ret (Undecided limit) | None \<Rightarrow>
     if depth > MAX_DEPTH then ret (Undecided Depth) else
     and_then (recall (obj, m)) (\<lambda>walked.
     case walked of Some walk \<Rightarrow> ret walk | None \<Rightarrow>
     and_then (enter (obj, m)) (\<lambda>fresh.
     if \<not> fresh then ret (Undecided Cycle) else
     and_then
       (case find_member (env_schema env) (object_type obj) m of
          None \<Rightarrow> ret Not_Found
        | Some (Relation_member _) \<Rightarrow> walk_relation env obj m depth
        | Some (Permission_member rule) \<Rightarrow> walk_rule env obj rule depth) (\<lambda>walk.
     and_then (settle (obj, m) walk) (\<lambda>_. ret walk))))))"
| "walk_relation env obj rel depth =
     (case find_member (env_schema env) (object_type obj) rel of
        Some (Relation_member allowed) \<Rightarrow>
          and_then (read_subjects env obj rel) (\<lambda>found.
          case found of
            Bound limit \<Rightarrow> ret (Undecided limit)
          | Read_subjects named \<Rightarrow>
              let admitted = filter (admits allowed) named in
              if list_ex (\<lambda>s. member s = None \<and> object s = env_subject env) admitted
              then ret Found
              else walk_each (\<lambda>(next, m). walk_member env next m (depth + 1))
                     (named_members admitted) [])
      | _ \<Rightarrow> ret Not_Found)"
| "walk_rule env obj (Computed m) depth = walk_member env obj m (depth + 1)"
| "walk_rule env obj (Arrow rel m) depth =
     (case find_member (env_schema env) (object_type obj) rel of
        Some (Relation_member allowed) \<Rightarrow>
          and_then (read_subjects env obj rel) (\<lambda>found.
          case found of
            Bound limit \<Rightarrow> ret (Undecided limit)
          | Read_subjects named \<Rightarrow>
              walk_each (\<lambda>next. walk_member env next m (depth + 1))
                (map object (filter (leads_to allowed) named)) [])
      | _ \<Rightarrow> ret Not_Found)"
| "walk_rule env obj (Union rules) depth =
     walk_each (\<lambda>inner. walk_rule env obj inner (depth + 1)) rules []"
| "walk_rule env obj (Intersection rules) depth =
     (if rules = [] then ret Not_Found
      else walk_every (\<lambda>inner. walk_rule env obj inner (depth + 1)) rules None)"
  by pat_completeness auto

text \<open>
  The walk ends whatever the relations are: each member is entered one deeper, none below
  \<open>MAX_DEPTH\<close>, and between two members only the terms of one rule are walked.
\<close>

termination
  by (relation
      "inv_image (less_than <*lex*> less_than)
         (\<lambda>call. case call of
            Inl (env, obj, m, depth) \<Rightarrow>
              (if depth \<le> MAX_DEPTH then 3 * (MAX_DEPTH + 2 - depth) + 2 else 0, 0)
          | Inr (Inl (env, obj, rel, depth)) \<Rightarrow> (3 * (MAX_DEPTH + 2 - depth) + 1, 0)
          | Inr (Inr (env, obj, rule, depth)) \<Rightarrow> (3 * (MAX_DEPTH + 2 - depth) + 1, size rule))")
     (auto simp: MAX_DEPTH_def size_of_term)

declare walk_member.simps [simp del] walk_relation.simps [simp del] walk_rule.simps [simp del]

definition walk_relations ::
    "'w walk_env \<Rightarrow> object_ref \<Rightarrow> string \<Rightarrow> ('w, storage_error, walk) act" where
  "walk_relations env obj m = (\<lambda>w.
     case walk_member env obj m 0
            \<lparr>work = w, reads = 0, steps = 0, known = (\<lambda>_. None), walking = {}\<rparr> of
       (res, s) \<Rightarrow> (res, work s))"

subsection \<open>What a walk should answer\<close>

text \<open>
  A subject stands in a relation of an object when the relation names it, or names the
  members of a member it stands in, and in a permission when the rule of the permission is
  satisfied. The least such relation: what only a loop would support does not stand.
\<close>

inductive stands :: "compiled_schema \<Rightarrow> (object_ref \<Rightarrow> string \<Rightarrow> subject_ref set) \<Rightarrow> object_ref \<Rightarrow>
      object_ref \<Rightarrow> string \<Rightarrow> bool"
  and satisfies :: "compiled_schema \<Rightarrow> (object_ref \<Rightarrow> string \<Rightarrow> subject_ref set) \<Rightarrow> object_ref \<Rightarrow>
      object_ref \<Rightarrow> rule \<Rightarrow> bool"
  for schema kept subject where
  named: "find_member schema (object_type obj) rel = Some (Relation_member allowed) \<Longrightarrow>
    SubjectRef subject None \<in> kept obj rel \<Longrightarrow> admits allowed (SubjectRef subject None) \<Longrightarrow>
    stands schema kept subject obj rel"
| named_member: "find_member schema (object_type obj) rel = Some (Relation_member allowed) \<Longrightarrow>
    SubjectRef other (Some m) \<in> kept obj rel \<Longrightarrow> admits allowed (SubjectRef other (Some m)) \<Longrightarrow>
    stands schema kept subject other m \<Longrightarrow>
    stands schema kept subject obj rel"
| permitted: "find_member schema (object_type obj) m = Some (Permission_member rule) \<Longrightarrow>
    satisfies schema kept subject obj rule \<Longrightarrow>
    stands schema kept subject obj m"
| computed: "stands schema kept subject obj m \<Longrightarrow> satisfies schema kept subject obj (Computed m)"
| arrow: "find_member schema (object_type obj) rel = Some (Relation_member allowed) \<Longrightarrow>
    SubjectRef other None \<in> kept obj rel \<Longrightarrow> leads_to allowed (SubjectRef other None) \<Longrightarrow>
    stands schema kept subject other m \<Longrightarrow>
    satisfies schema kept subject obj (Arrow rel m)"
| union: "rule \<in> set rules \<Longrightarrow> satisfies schema kept subject obj rule \<Longrightarrow>
    satisfies schema kept subject obj (Union rules)"
| intersection: "rules \<noteq> [] \<Longrightarrow> (\<And>rule. rule \<in> set rules \<Longrightarrow> satisfies schema kept subject obj rule) \<Longrightarrow>
    satisfies schema kept subject obj (Intersection rules)"

inductive_simps satisfies_simps:
  "satisfies schema kept subject obj (Computed m)"
  "satisfies schema kept subject obj (Arrow rel m)"
  "satisfies schema kept subject obj (Union rules)"
  "satisfies schema kept subject obj (Intersection rules)"

inductive_simps stands_simps: "stands schema kept subject obj m"

lemma stands_unknown:
  "find_member schema (object_type obj) m = None \<Longrightarrow> \<not> stands schema kept subject obj m"
  by (subst stands_simps) simp

lemma stands_permission:
  "find_member schema (object_type obj) m = Some (Permission_member rule) \<Longrightarrow>
     stands schema kept subject obj m \<longleftrightarrow> satisfies schema kept subject obj rule"
  by (subst stands_simps) simp

lemma stands_relation:
  assumes "find_member schema (object_type obj) rel = Some (Relation_member allowed)"
  shows "stands schema kept subject obj rel \<longleftrightarrow>
       SubjectRef subject None \<in> Set.filter (admits allowed) (kept obj rel) \<or>
       (\<exists>other m. SubjectRef other (Some m) \<in> Set.filter (admits allowed) (kept obj rel) \<and>
          stands schema kept subject other m)"
  by (subst stands_simps) (use assms in auto)

lemma in_named_members: "(other, m) \<in> set (named_members named) \<longleftrightarrow> SubjectRef other (Some m) \<in> set named"
proof (induction named)
  case Nil
  then show ?case by (simp add: named_members_def map_filter_simps)
next
  case (Cons s named)
  then show ?case
    by (cases s; cases "member s") (auto simp: named_members_def map_filter_simps)
qed

subsection \<open>Loops of the walk\<close>

text \<open>
  What an answer tells of a statement: found, it holds; not found, it does not; undecided,
  the limit is one of those a walk may meet.
\<close>

fun tells :: "walk_limit set \<Rightarrow> bool \<Rightarrow> walk \<Rightarrow> bool" where
  "tells limits P Found = P"
| "tells limits P Not_Found = (\<not> P)"
| "tells limits P (Undecided limit) = (limit \<in> limits)"

text \<open>
  What the walks of a sum gathered so far tell: none was found, and when one of the terms
  they were made for holds, one of them is undecided.
\<close>

definition gathered :: "walk_limit set \<Rightarrow> bool \<Rightarrow> walk list \<Rightarrow> bool" where
  "gathered limits P walks \<longleftrightarrow>
     (\<forall>walk \<in> set walks. walk \<noteq> Found \<and> (\<forall>limit. walk = Undecided limit \<longrightarrow> limit \<in> limits)) \<and>
     (P \<longrightarrow> (\<exists>limit. Undecided limit \<in> set walks))"

lemma fold_union_from_cases:
  assumes "Found \<notin> set walks"
  shows "fold_union_from undecided walks = Not_Found \<longleftrightarrow>
           undecided = None \<and> (\<forall>limit. Undecided limit \<notin> set walks)"
    and "fold_union_from undecided walks = Undecided limit \<Longrightarrow>
           undecided = Some limit \<or> Undecided limit \<in> set walks"
    and "fold_union_from undecided walks \<noteq> Found"
  using assms by (induction undecided walks rule: fold_union_from.induct)
    (auto split: option.splits walk.splits)

lemma tells_fold_union:
  assumes "gathered limits P walks"
  shows "tells limits P (fold_union walks)"
proof -
  have "Found \<notin> set walks" using assms by (auto simp: gathered_def)
  note folds = fold_union_from_cases [OF this, of None]
  show ?thesis
    using assms folds by (cases "fold_union walks") (auto simp: gathered_def fold_union_def)
qed

lemma gathered_append:
  "gathered limits P walks \<Longrightarrow> tells limits Q walk \<Longrightarrow> walk \<noteq> Found \<Longrightarrow>
     gathered limits (P \<or> Q) (walks @ [walk])"
  by (cases walk) (auto simp: gathered_def)

lemma wp_walk_each:
  assumes "\<And>x s. x \<in> set xs \<Longrightarrow> I s \<Longrightarrow>
      wp (f x) (\<lambda>walk t. I t \<and> tells limits (P x) walk) (\<lambda>_ _. True) s"
    and "I s" and "gathered limits Q walks"
  shows "wp (walk_each f xs walks)
           (\<lambda>walk t. I t \<and> tells limits (Q \<or> (\<exists>x \<in> set xs. P x)) walk) (\<lambda>_ _. True) s"
  using assms
proof (induction xs arbitrary: s walks Q)
  case Nil
  then show ?case by (simp add: tells_fold_union)
next
  case (Cons x xs)
  have after: "wp (if walk = Found then ret Found else walk_each f xs (walks @ [walk]))
      (\<lambda>walk t. I t \<and> tells limits (Q \<or> (\<exists>x \<in> set (x # xs). P x)) walk) (\<lambda>_ _. True) t"
    if "I t" "tells limits (P x) walk" for walk t
  proof (cases "walk = Found")
    case False
    have "wp (walk_each f xs (walks @ [walk]))
        (\<lambda>walk t. I t \<and> tells limits ((Q \<or> P x) \<or> (\<exists>x \<in> set xs. P x)) walk) (\<lambda>_ _. True) t"
      using that False Cons.prems by (intro Cons.IH gathered_append) auto
    with False show ?thesis by (simp add: disj_assoc)
  qed (use that in simp)
  show ?case
    unfolding walk_each.simps wp_and_then
    by (rule wp_mono [OF Cons.prems(1)]) (use Cons.prems after in auto)
qed

text \<open>The same for an intersection: every term before was found, or one was undecided.\<close>

lemma wp_walk_every:
  assumes "\<And>x s. x \<in> set xs \<Longrightarrow> I s \<Longrightarrow>
      wp (f x) (\<lambda>walk t. I t \<and> tells limits (P x) walk) (\<lambda>_ _. True) s"
    and "I s" and "tells limits Q (case undecided of None \<Rightarrow> Found | Some limit \<Rightarrow> Undecided limit)"
  shows "wp (walk_every f xs undecided)
           (\<lambda>walk t. I t \<and> tells limits (Q \<and> (\<forall>x \<in> set xs. P x)) walk) (\<lambda>_ _. True) s"
  using assms
proof (induction xs arbitrary: s undecided Q)
  case Nil
  then show ?case by simp
next
  case (Cons x xs)
  have after: "wp (case walk of Not_Found \<Rightarrow> ret Not_Found
        | Undecided limit \<Rightarrow> walk_every f xs (Some limit) | Found \<Rightarrow> walk_every f xs undecided)
      (\<lambda>walk t. I t \<and> tells limits (Q \<and> (\<forall>x \<in> set (x # xs). P x)) walk) (\<lambda>_ _. True) t"
    if "I t" "tells limits (P x) walk" for walk t
  proof (cases "walk = Not_Found")
    case False
    let ?undecided = "case walk of Undecided limit \<Rightarrow> Some limit | _ \<Rightarrow> undecided"
    have "wp (walk_every f xs ?undecided)
        (\<lambda>walk t. I t \<and> tells limits ((Q \<and> P x) \<and> (\<forall>x \<in> set xs. P x)) walk) (\<lambda>_ _. True) t"
      using that False Cons.prems
      by (intro Cons.IH) (auto split: walk.splits option.splits)
    with False show ?thesis by (cases walk) (simp_all add: conj_assoc)
  qed (use that in simp)
  show ?case
    unfolding walk_every.simps wp_and_then
    by (rule wp_mono [OF Cons.prems(1)]) (use Cons.prems after in auto)
qed

subsection \<open>Relations that fit the bounds\<close>

text \<open>
  A rank of the members bounds how deep a walk goes from each: every member a relation or
  a rule leads to has a smaller one, each level of a rule counted.
\<close>

fun rule_ranked :: "compiled_schema \<Rightarrow> (object_ref \<Rightarrow> string \<Rightarrow> subject_ref set) \<Rightarrow> (walk_key \<Rightarrow> nat) \<Rightarrow>
    object_ref \<Rightarrow> nat \<Rightarrow> rule \<Rightarrow> bool" where
  "rule_ranked schema kept rank obj n (Computed m) \<longleftrightarrow> rank (obj, m) < n"
| "rule_ranked schema kept rank obj n (Arrow rel m) \<longleftrightarrow>
     (\<forall>other \<in> object ` Set.filter (\<lambda>s. member s = None) (kept obj rel). rank (other, m) < n)"
| "rule_ranked schema kept rank obj n (Union rules) \<longleftrightarrow>
     0 < n \<and> (\<forall>rule \<in> set rules. rule_ranked schema kept rank obj (n - 1) rule)"
| "rule_ranked schema kept rank obj n (Intersection rules) \<longleftrightarrow>
     0 < n \<and> (\<forall>rule \<in> set rules. rule_ranked schema kept rank obj (n - 1) rule)"

definition ranked :: "compiled_schema \<Rightarrow> (object_ref \<Rightarrow> string \<Rightarrow> subject_ref set) \<Rightarrow>
    (walk_key \<Rightarrow> nat) \<Rightarrow> bool" where
  "ranked schema kept rank \<longleftrightarrow>
     (\<forall>obj m. case find_member schema (object_type obj) m of
        None \<Rightarrow> True
      | Some (Relation_member allowed) \<Rightarrow>
          (\<forall>other m'. SubjectRef other (Some m') \<in> kept obj m \<longrightarrow> rank (other, m') < rank (obj, m))
      | Some (Permission_member rule) \<Rightarrow> rule_ranked schema kept rank obj (rank (obj, m)) rule)"

text \<open>
  What makes a limit one the walk does not meet: the clock for the duration, the lists for
  the fanout, a rank for the depth and the loops.
\<close>

definition limits_of :: "'w walk_env \<Rightarrow> (object_ref \<Rightarrow> string \<Rightarrow> subject_ref list) \<Rightarrow>
    (walk_key \<Rightarrow> nat) \<Rightarrow> walk_limit set \<Rightarrow> bool" where
  "limits_of env rows rank limits \<longleftrightarrow>
     Reads \<in> limits \<and> Steps \<in> limits \<and>
     (Duration \<in> limits \<or> (\<forall>w. fst (env_now env w) \<le> env_deadline env)) \<and>
     (Fanout \<in> limits \<or> (\<forall>obj rel. length (rows obj rel) \<le> MAX_FANOUT)) \<and>
     (Depth \<in> limits \<and> Cycle \<in> limits \<or>
        ranked (env_schema env) (\<lambda>obj rel. set (rows obj rel)) rank)"

definition member_fits :: "(walk_key \<Rightarrow> nat) \<Rightarrow> walk_limit set \<Rightarrow> walk_key set \<Rightarrow> nat \<Rightarrow> walk_key \<Rightarrow> bool" where
  "member_fits rank limits W depth key \<longleftrightarrow>
     Depth \<in> limits \<and> Cycle \<in> limits \<or>
     rank key + depth \<le> MAX_DEPTH \<and> (\<forall>other \<in> W. rank key < rank other)"

definition rule_fits :: "compiled_schema \<Rightarrow> (object_ref \<Rightarrow> string \<Rightarrow> subject_ref set) \<Rightarrow>
    (walk_key \<Rightarrow> nat) \<Rightarrow> walk_limit set \<Rightarrow> walk_key set \<Rightarrow> nat \<Rightarrow> object_ref \<Rightarrow> rule \<Rightarrow> bool" where
  "rule_fits schema kept rank limits W depth obj rule \<longleftrightarrow>
     Depth \<in> limits \<and> Cycle \<in> limits \<or>
     (\<exists>n. rule_ranked schema kept rank obj n rule \<and> n + depth \<le> MAX_DEPTH \<and>
        (\<forall>other \<in> W. n \<le> rank other))"

lemma rule_fits_simps:
  "rule_fits schema kept rank limits W depth obj (Computed m) \<Longrightarrow>
     member_fits rank limits W (depth + 1) (obj, m)"
  "rule_fits schema kept rank limits W depth obj (Arrow rel m) \<Longrightarrow>
     SubjectRef other None \<in> kept obj rel \<Longrightarrow> member_fits rank limits W (depth + 1) (other, m)"
  "rule_fits schema kept rank limits W depth obj (Union rules) \<Longrightarrow> rule \<in> set rules \<Longrightarrow>
     rule_fits schema kept rank limits W (depth + 1) obj rule"
  "rule_fits schema kept rank limits W depth obj (Intersection rules) \<Longrightarrow> rule \<in> set rules \<Longrightarrow>
     rule_fits schema kept rank limits W (depth + 1) obj rule"
proof -
  show "rule_fits schema kept rank limits W depth obj (Computed m) \<Longrightarrow>
     member_fits rank limits W (depth + 1) (obj, m)"
    by (fastforce simp: rule_fits_def member_fits_def)
  show "rule_fits schema kept rank limits W depth obj (Arrow rel m) \<Longrightarrow>
     SubjectRef other None \<in> kept obj rel \<Longrightarrow> member_fits rank limits W (depth + 1) (other, m)"
    by (fastforce simp: rule_fits_def member_fits_def)
  have deeper: "rule_ranked schema kept rank obj (n - 1) rule \<Longrightarrow> 0 < n \<Longrightarrow> n + depth \<le> MAX_DEPTH \<Longrightarrow>
      \<forall>other \<in> W. n \<le> rank other \<Longrightarrow> rule_fits schema kept rank limits W (depth + 1) obj rule" for n
    unfolding rule_fits_def by (rule disjI2, rule exI [of _ "n - 1"]) auto
  show "rule_fits schema kept rank limits W depth obj (Union rules) \<Longrightarrow> rule \<in> set rules \<Longrightarrow>
     rule_fits schema kept rank limits W (depth + 1) obj rule"
    using deeper by (auto simp: rule_fits_def)
  show "rule_fits schema kept rank limits W depth obj (Intersection rules) \<Longrightarrow> rule \<in> set rules \<Longrightarrow>
     rule_fits schema kept rank limits W (depth + 1) obj rule"
    using deeper by (auto simp: rule_fits_def)
qed

subsection \<open>The port of relations\<close>

text \<open>
  What a walk relies on: neither call changes the rows of relations kept, a list holds no
  more than the rows, and a list shorter than what was asked for holds every subject the
  relation names, and no other.
\<close>

locale relation_port =
  fixes env :: "'w walk_env"
    and rows :: "'w \<Rightarrow> object_ref \<Rightarrow> string \<Rightarrow> subject_ref list"
  assumes now_keeps: "env_now env w = (t, w') \<Longrightarrow> rows w' = rows w"
    and list_keeps: "env_list env obj rel n w = (res, w') \<Longrightarrow> rows w' = rows w"
    and list_bounded: "env_list env obj rel n w = (Ok found, w') \<Longrightarrow>
      length found \<le> length (rows w obj rel)"
    and list_complete: "env_list env obj rel n w = (Ok found, w') \<Longrightarrow> length found < n \<Longrightarrow>
      set found = set (rows w obj rel)"
begin

abbreviation standing :: "(object_ref \<Rightarrow> string \<Rightarrow> subject_ref list) \<Rightarrow> object_ref \<Rightarrow> string \<Rightarrow> bool" where
  "standing K \<equiv> stands (env_schema env) (\<lambda>obj rel. set (K obj rel)) (env_subject env)"

abbreviation satisfied :: "(object_ref \<Rightarrow> string \<Rightarrow> subject_ref list) \<Rightarrow> object_ref \<Rightarrow> rule \<Rightarrow> bool" where
  "satisfied K \<equiv> satisfies (env_schema env) (\<lambda>obj rel. set (K obj rel)) (env_subject env)"

definition walk_inv :: "walk_limit set \<Rightarrow> (object_ref \<Rightarrow> string \<Rightarrow> subject_ref list) \<Rightarrow> walk_key set \<Rightarrow>
    'w walker \<Rightarrow> bool" where
  "walk_inv limits K W s \<longleftrightarrow>
     rows (work s) = K \<and> walking s = W \<and>
     (\<forall>obj m walk. known s (obj, m) = Some walk \<longrightarrow> tells limits (standing K obj m) walk)"

lemma check_time_inv:
  assumes "walk_inv limits K W s" and "limits_of env K rank limits"
  shows "wp (check_time env)
    (\<lambda>late t. walk_inv limits K W t \<and> (\<forall>limit. late = Some limit \<longrightarrow> limit \<in> limits)) (\<lambda>_ _. True) s"
proof (cases "env_now env (work s)")
  case (Pair t w)
  have "t \<le> env_deadline env \<or> Duration \<in> limits"
    using assms(2) Pair by (auto simp: limits_of_def dest: spec [of _ "work s"])
  with Pair assms(1) now_keeps [OF Pair] show ?thesis
    by (auto simp: wp_def check_time_def walk_inv_def)
qed

lemma list_at_inv:
  assumes "walk_inv limits K W s" and "limits_of env K rank limits"
  shows "wp (list_at env obj rel (Suc MAX_FANOUT))
    (\<lambda>found t. walk_inv limits K W t \<and>
       (if length found > MAX_FANOUT then Fanout \<in> limits else set found = set (K obj rel)))
    (\<lambda>_ _. True) s"
proof (cases "env_list env obj rel (Suc MAX_FANOUT) (work s)")
  case (Pair res w)
  show ?thesis
  proof (cases res)
    case (Inr found)
    have "length found \<le> length (K obj rel)"
      using assms(1) list_bounded [OF Pair [unfolded Inr]] by (simp add: walk_inv_def)
    moreover have "length (K obj rel) \<le> MAX_FANOUT \<or> Fanout \<in> limits"
      using assms(2) by (auto simp: limits_of_def)
    ultimately show ?thesis
      using Pair Inr assms(1) list_keeps [OF Pair] list_complete [OF Pair [unfolded Inr]]
      by (auto simp: wp_def list_at_def walk_inv_def)
  qed (use Pair in \<open>simp add: wp_def list_at_def\<close>)
qed

lemma read_subjects_inv:
  assumes "walk_inv limits K W s" and "limits_of env K rank limits"
  shows "wp (read_subjects env obj rel)
    (\<lambda>found t. walk_inv limits K W t \<and>
       (case found of Bound limit \<Rightarrow> limit \<in> limits | Read_subjects named \<Rightarrow> set named = set (K obj rel)))
    (\<lambda>_ _. True) s"
proof -
  have counted: "wp count_read (\<lambda>_. walk_inv limits K W) (\<lambda>_ _. True) s"
    using assms(1) by (simp add: wp_def count_read_def walk_inv_def)
  have "Reads \<in> limits" using assms(2) by (simp add: limits_of_def)
  then show ?thesis
    unfolding read_subjects_def
    by (auto intro!: wp_mono [OF counted] wp_mono [OF check_time_inv [OF _ assms(2)]]
        wp_mono [OF list_at_inv [OF _ assms(2)]] split: option.splits if_splits)
qed

lemma member_fits_relation:
  assumes "limits_of env K rank limits" and "member_fits rank limits W depth (obj, rel)"
    and "find_member (env_schema env) (object_type obj) rel = Some (Relation_member allowed)"
    and "SubjectRef other (Some m) \<in> set (K obj rel)"
  shows "member_fits rank limits (insert (obj, rel) W) (depth + 1) (other, m)"
proof (cases "Depth \<in> limits \<and> Cycle \<in> limits")
  case False
  then have "ranked (env_schema env) (\<lambda>obj rel. set (K obj rel)) rank"
    using assms(1) by (auto simp: limits_of_def)
  then have "rank (other, m) < rank (obj, rel)"
    using assms(3, 4) unfolding ranked_def by (fastforce dest: spec [of _ obj] spec [of _ rel])
  with False assms(2) show ?thesis by (auto simp: member_fits_def)
qed (simp add: member_fits_def)

lemma member_fits_permission:
  assumes "limits_of env K rank limits" and "member_fits rank limits W depth (obj, m)"
    and "find_member (env_schema env) (object_type obj) m = Some (Permission_member rule)"
  shows "rule_fits (env_schema env) (\<lambda>obj rel. set (K obj rel)) rank limits
           (insert (obj, m) W) depth obj rule"
proof (cases "Depth \<in> limits \<and> Cycle \<in> limits")
  case False
  then have "ranked (env_schema env) (\<lambda>obj rel. set (K obj rel)) rank"
    using assms(1) by (auto simp: limits_of_def)
  then have "rule_ranked (env_schema env) (\<lambda>obj rel. set (K obj rel)) rank obj (rank (obj, m)) rule"
    using assms(3) unfolding ranked_def by (fastforce dest: spec [of _ obj] spec [of _ m])
  with False assms(2) show ?thesis
    unfolding rule_fits_def member_fits_def by (auto intro!: exI [of _ "rank (obj, m)"] less_imp_le)
qed (simp add: rule_fits_def)

abbreviation member_spec :: "(walk_key \<Rightarrow> nat) \<Rightarrow> walk_limit set \<Rightarrow> (object_ref \<Rightarrow> string \<Rightarrow> subject_ref list) \<Rightarrow>
    object_ref \<Rightarrow> string \<Rightarrow> nat \<Rightarrow> bool" where
  "member_spec rank limits K obj m depth \<equiv>
     (\<forall>W s. walk_inv limits K W s \<longrightarrow> member_fits rank limits W depth (obj, m) \<longrightarrow>
        wp (walk_member env obj m depth)
          (\<lambda>walk t. walk_inv limits K W t \<and> tells limits (standing K obj m) walk) (\<lambda>_ _. True) s)"

abbreviation rule_spec :: "(walk_key \<Rightarrow> nat) \<Rightarrow> walk_limit set \<Rightarrow> (object_ref \<Rightarrow> string \<Rightarrow> subject_ref list) \<Rightarrow>
    object_ref \<Rightarrow> rule \<Rightarrow> nat \<Rightarrow> bool" where
  "rule_spec rank limits K obj rule depth \<equiv>
     (\<forall>W s. walk_inv limits K W s \<longrightarrow>
        rule_fits (env_schema env) (\<lambda>obj rel. set (K obj rel)) rank limits W depth obj rule \<longrightarrow>
        wp (walk_rule env obj rule depth)
          (\<lambda>walk t. walk_inv limits K W t \<and> tells limits (satisfied K obj rule) walk) (\<lambda>_ _. True) s)"

text \<open>A relation: the subjects it names, then the members they name.\<close>

lemma walk_relation_inv:
  assumes limits: "limits_of env K rank limits" and inv: "walk_inv limits K W s"
    and member: "find_member (env_schema env) (object_type obj) rel = Some (Relation_member allowed)"
    and deeper: "\<And>other m t. SubjectRef other (Some m) \<in> set (K obj rel) \<Longrightarrow> walk_inv limits K W t \<Longrightarrow>
       wp (walk_member env other m (Suc depth))
         (\<lambda>walk t. walk_inv limits K W t \<and> tells limits (standing K other m) walk) (\<lambda>_ _. True) t"
  shows "wp (walk_relation env obj rel depth)
    (\<lambda>walk t. walk_inv limits K W t \<and> tells limits (standing K obj rel) walk) (\<lambda>_ _. True) s"
proof -
  have loop: "wp (walk_each (\<lambda>(next, m). walk_member env next m (Suc depth))
        (named_members (filter (admits allowed) named)) [])
      (\<lambda>walk t. walk_inv limits K W t \<and> tells limits (standing K obj rel) walk) (\<lambda>_ _. True) t"
    if named: "set named = set (K obj rel)" and inv_t: "walk_inv limits K W t"
      and none: "\<not> list_ex (\<lambda>s. member s = None \<and> object s = env_subject env) (filter (admits allowed) named)"
    for named t
  proof -
    let ?keys = "named_members (filter (admits allowed) named)"
    have keys: "(other, m) \<in> set ?keys \<longleftrightarrow>
        SubjectRef other (Some m) \<in> set (K obj rel) \<and> admits allowed (SubjectRef other (Some m))" for other m
      using named by (auto simp: in_named_members)
    have not_named: "SubjectRef (env_subject env) None \<notin> Set.filter (admits allowed) (set (K obj rel))"
      using none named by (auto simp: list_ex_iff)
    have "standing K obj rel \<longleftrightarrow> (\<exists>key \<in> set ?keys. standing K (fst key) (snd key))"
      unfolding stands_relation [OF member] using keys not_named by (auto simp: Bex_def)
    moreover have "wp (walk_each (\<lambda>(next, m). walk_member env next m (Suc depth)) ?keys [])
        (\<lambda>walk t. walk_inv limits K W t \<and>
           tells limits (False \<or> (\<exists>key \<in> set ?keys. standing K (fst key) (snd key))) walk) (\<lambda>_ _. True) t"
      using inv_t keys by (intro wp_walk_each) (auto intro!: deeper simp: gathered_def)
    ultimately show ?thesis by simp
  qed
  have direct: "standing K obj rel"
    if named: "set named = set (K obj rel)"
      and has: "list_ex (\<lambda>s. member s = None \<and> object s = env_subject env) (filter (admits allowed) named)"
    for named
  proof -
    obtain s where "s \<in> set named" "admits allowed s" "member s = None" "object s = env_subject env"
      using has by (auto simp: list_ex_iff)
    with named show ?thesis by (cases s) (auto simp: stands_relation [OF member])
  qed
  show ?thesis
    unfolding walk_relation.simps member
    by (auto simp: Let_def intro!: wp_mono [OF read_subjects_inv [OF inv limits]] loop direct
        split: subjects.splits)
qed

text \<open>An arrow: the objects the relation names, and the member of each.\<close>

lemma walk_arrow_inv:
  assumes limits: "limits_of env K rank limits" and inv: "walk_inv limits K W s"
    and deeper: "\<And>other t. SubjectRef other None \<in> set (K obj rel) \<Longrightarrow> walk_inv limits K W t \<Longrightarrow>
       wp (walk_member env other m (Suc depth))
         (\<lambda>walk t. walk_inv limits K W t \<and> tells limits (standing K other m) walk) (\<lambda>_ _. True) t"
  shows "wp (walk_rule env obj (Arrow rel m) depth)
    (\<lambda>walk t. walk_inv limits K W t \<and> tells limits (satisfied K obj (Arrow rel m)) walk) (\<lambda>_ _. True) s"
proof (cases "\<exists>allowed. find_member (env_schema env) (object_type obj) rel = Some (Relation_member allowed)")
  case True
  then obtain allowed where member: "find_member (env_schema env) (object_type obj) rel = Some (Relation_member allowed)"
    by blast
  have loop: "wp (walk_each (\<lambda>next. walk_member env next m (Suc depth))
        (map object (filter (leads_to allowed) named)) [])
      (\<lambda>walk t. walk_inv limits K W t \<and> tells limits (satisfied K obj (Arrow rel m)) walk) (\<lambda>_ _. True) t"
    if named: "set named = set (K obj rel)" and inv_t: "walk_inv limits K W t" for named t
  proof -
    let ?objects = "map object (filter (leads_to allowed) named)"
    have objects: "other \<in> set ?objects \<longleftrightarrow>
        SubjectRef other None \<in> set (K obj rel) \<and> leads_to allowed (SubjectRef other None)" for other
    proof -
      have "leads_to allowed s \<Longrightarrow> s = SubjectRef (object s) None" for s
        by (cases s) (simp add: leads_to_def)
      then show ?thesis using named by force
    qed
    have "satisfied K obj (Arrow rel m) \<longleftrightarrow> (\<exists>other \<in> set ?objects. standing K other m)"
      unfolding satisfies_simps objects using member by (auto simp: objects simp del: set_map)
    moreover have "wp (walk_each (\<lambda>next. walk_member env next m (Suc depth)) ?objects [])
        (\<lambda>walk t. walk_inv limits K W t \<and>
           tells limits (False \<or> (\<exists>other \<in> set ?objects. standing K other m)) walk) (\<lambda>_ _. True) t"
      using inv_t objects by (intro wp_walk_each) (auto intro!: deeper simp: gathered_def simp del: set_map)
    ultimately show ?thesis by simp
  qed
  show ?thesis
    unfolding walk_rule.simps member
    by (auto intro!: wp_mono [OF read_subjects_inv [OF inv limits]] loop split: subjects.splits)
next
  case False
  then show ?thesis
    using inv by (auto simp: walk_rule.simps satisfies_simps split: option.splits member_kind.splits)
qed

text \<open>A member: what is known of it, else what its kind says, kept for the next time.\<close>

lemma walk_member_inv:
  assumes limits: "limits_of env K rank limits" and inv: "walk_inv limits K W s"
    and fits: "member_fits rank limits W depth (obj, m)"
    and relation: "\<And>allowed t. depth \<le> MAX_DEPTH \<Longrightarrow> walk_inv limits K (insert (obj, m) W) t \<Longrightarrow>
      find_member (env_schema env) (object_type obj) m = Some (Relation_member allowed) \<Longrightarrow>
      wp (walk_relation env obj m depth)
        (\<lambda>walk t. walk_inv limits K (insert (obj, m) W) t \<and> tells limits (standing K obj m) walk) (\<lambda>_ _. True) t"
    and permission: "\<And>rule t. depth \<le> MAX_DEPTH \<Longrightarrow> walk_inv limits K (insert (obj, m) W) t \<Longrightarrow>
      find_member (env_schema env) (object_type obj) m = Some (Permission_member rule) \<Longrightarrow>
      wp (walk_rule env obj rule depth)
        (\<lambda>walk t. walk_inv limits K (insert (obj, m) W) t \<and> tells limits (satisfied K obj rule) walk) (\<lambda>_ _. True) t"
  shows "wp (walk_member env obj m depth)
    (\<lambda>walk t. walk_inv limits K W t \<and> tells limits (standing K obj m) walk) (\<lambda>_ _. True) s"
proof -
  have counted: "wp count_step (\<lambda>_. walk_inv limits K W) (\<lambda>_ _. True) s"
    using inv by (simp add: wp_def count_step_def walk_inv_def)
  have "Steps \<in> limits" using limits by (simp add: limits_of_def)
  have deep: "Depth \<in> limits" if "MAX_DEPTH < depth"
    using fits that by (auto simp: member_fits_def)
  have recalled: "wp (recall (obj, m)) (\<lambda>walked t. walk_inv limits K W t \<and>
      (\<forall>walk. walked = Some walk \<longrightarrow> tells limits (standing K obj m) walk)) (\<lambda>_ _. True) t"
    if "walk_inv limits K W t" for t
    using that by (simp add: wp_def recall_def walk_inv_def)
  have entered: "wp (enter (obj, m)) (\<lambda>fresh t. walk_inv limits K (insert (obj, m) W) t \<and>
      (if fresh then (obj, m) \<notin> W else Cycle \<in> limits \<and> insert (obj, m) W = W)) (\<lambda>_ _. True) t"
    if "walk_inv limits K W t" for t
    using that fits by (auto simp: wp_def enter_def walk_inv_def member_fits_def)
  define body where "body = (case find_member (env_schema env) (object_type obj) m of
          None \<Rightarrow> ret Not_Found
        | Some (Relation_member _) \<Rightarrow> walk_relation env obj m depth
        | Some (Permission_member rule) \<Rightarrow> walk_rule env obj rule depth)"
  have kind: "wp body (\<lambda>walk t. walk_inv limits K (insert (obj, m) W) t \<and> tells limits (standing K obj m) walk)
      (\<lambda>_ _. True) t"
    if "walk_inv limits K (insert (obj, m) W) t" "\<not> MAX_DEPTH < depth" for t
    using that relation [of t] permission [of t]
    by (auto simp: body_def stands_unknown stands_permission split: option.splits member_kind.splits)
  have settled: "wp (settle (obj, m) walk) (\<lambda>_. walk_inv limits K W) (\<lambda>_ _. True) t"
    if "walk_inv limits K (insert (obj, m) W) t" "tells limits (standing K obj m) walk" "(obj, m) \<notin> W"
    for walk t
    using that by (auto simp: wp_def settle_def walk_inv_def)
  show ?thesis
    unfolding walk_member.simps body_def [symmetric] using \<open>Steps \<in> limits\<close>
    by (auto intro!: deep wp_mono [OF counted] wp_mono [OF check_time_inv [OF _ limits]]
        wp_mono [OF recalled] wp_mono [OF entered] wp_mono [OF kind] wp_mono [OF settled]
        split: option.splits if_splits)
qed

text \<open>A rule, when every member deeper than it answers as it should.\<close>

lemma walk_rule_inv:
  assumes limits: "limits_of env K rank limits"
    and "\<And>deeper obj m. depth < deeper \<Longrightarrow> member_spec rank limits K obj m deeper"
  shows "rule_spec rank limits K obj rule depth"
  using assms(2)
proof (induction rule arbitrary: depth)
  case (Computed m)
  show ?case
    using Computed [of "Suc depth"] rule_fits_simps(1)
    by (fastforce simp: walk_rule.simps satisfies_simps)
next
  case (Arrow rel m)
  show ?case
  proof (intro allI impI)
    fix W s
    assume inv: "walk_inv limits K W s"
      and fits: "rule_fits (env_schema env) (\<lambda>obj rel. set (K obj rel)) rank limits W depth obj (Arrow rel m)"
    show "wp (walk_rule env obj (Arrow rel m) depth)
      (\<lambda>walk t. walk_inv limits K W t \<and> tells limits (satisfied K obj (Arrow rel m)) walk) (\<lambda>_ _. True) s"
      by (rule walk_arrow_inv [OF limits inv])
         (use Arrow [of "Suc depth"] rule_fits_simps(2) [OF fits] in simp)
  qed
next
  case (Union rules)
  show ?case
  proof (intro allI impI)
    fix W s
    assume inv: "walk_inv limits K W s"
      and fits: "rule_fits (env_schema env) (\<lambda>obj rel. set (K obj rel)) rank limits W depth obj (Union rules)"
    have "wp (walk_each (\<lambda>inner. walk_rule env obj inner (Suc depth)) rules [])
      (\<lambda>walk t. walk_inv limits K W t \<and> tells limits (False \<or> (\<exists>rule \<in> set rules. satisfied K obj rule)) walk)
      (\<lambda>_ _. True) s"
      using inv Union rule_fits_simps(3) [OF fits]
      by (intro wp_walk_each) (auto simp: gathered_def)
    moreover have "satisfied K obj (Union rules) \<longleftrightarrow> (\<exists>rule \<in> set rules. satisfied K obj rule)"
      by (auto simp: satisfies_simps)
    ultimately show "wp (walk_rule env obj (Union rules) depth)
      (\<lambda>walk t. walk_inv limits K W t \<and> tells limits (satisfied K obj (Union rules)) walk) (\<lambda>_ _. True) s"
      by (simp add: walk_rule.simps)
  qed
next
  case (Intersection rules)
  show ?case
  proof (intro allI impI)
    fix W s
    assume inv: "walk_inv limits K W s"
      and fits: "rule_fits (env_schema env) (\<lambda>obj rel. set (K obj rel)) rank limits W depth obj (Intersection rules)"
    have "wp (walk_every (\<lambda>inner. walk_rule env obj inner (Suc depth)) rules None)
      (\<lambda>walk t. walk_inv limits K W t \<and> tells limits (True \<and> (\<forall>rule \<in> set rules. satisfied K obj rule)) walk)
      (\<lambda>_ _. True) s"
      using inv Intersection rule_fits_simps(4) [OF fits] by (intro wp_walk_every) auto
    moreover have "satisfied K obj (Intersection rules) \<longleftrightarrow>
        rules \<noteq> [] \<and> (\<forall>rule \<in> set rules. satisfied K obj rule)"
      by (auto simp: satisfies_simps)
    ultimately show "wp (walk_rule env obj (Intersection rules) depth)
      (\<lambda>walk t. walk_inv limits K W t \<and> tells limits (satisfied K obj (Intersection rules)) walk) (\<lambda>_ _. True) s"
      using inv by (simp add: walk_rule.simps)
  qed
qed

lemma walk_member_spec:
  assumes limits: "limits_of env K rank limits"
  shows "member_spec rank limits K obj m depth"
proof (induction "Suc MAX_DEPTH - depth" arbitrary: depth obj m rule: less_induct)
  case less
  have deeper: "member_spec rank limits K obj m deeper" if "depth < deeper" "depth \<le> MAX_DEPTH" for deeper obj m
    by (rule less) (use that in auto)
  show ?case
  proof (intro allI impI, rule walk_member_inv [OF limits], assumption, assumption)
    fix W s
    assume fits: "member_fits rank limits W depth (obj, m)"
    show "wp (walk_relation env obj m depth)
        (\<lambda>walk t. walk_inv limits K (insert (obj, m) W) t \<and> tells limits (standing K obj m) walk) (\<lambda>_ _. True) t"
      if "depth \<le> MAX_DEPTH" and inv: "walk_inv limits K (insert (obj, m) W) t"
        and member: "find_member (env_schema env) (object_type obj) m = Some (Relation_member allowed)" for allowed t
      by (rule walk_relation_inv [OF limits inv member])
         (use deeper [of "Suc depth"] that(1) member_fits_relation [OF limits fits member] in auto)
    show "wp (walk_rule env obj rule depth)
        (\<lambda>walk t. walk_inv limits K (insert (obj, m) W) t \<and> tells limits (satisfied K obj rule) walk) (\<lambda>_ _. True) t"
      if "depth \<le> MAX_DEPTH" and "walk_inv limits K (insert (obj, m) W) t"
        and "find_member (env_schema env) (object_type obj) m = Some (Permission_member rule)" for rule t
      using walk_rule_inv [OF limits, of depth] deeper that member_fits_permission [OF limits fits that(3)]
      by blast
  qed
qed

text \<open>
  What a walk answers from its start. Without a rank the limits may be any; with one, and
  with lists that fit and a clock that does not pass the deadline, only the counters are left.
\<close>

theorem walk_relations_tells:
  assumes "limits_of env (rows w) rank limits" and "member_fits rank limits {} 0 (obj, m)"
    and "walk_relations env obj m w = (Ok walk, w')"
  shows "rows w' = rows w" and "tells limits (standing (rows w) obj m) walk"
proof -
  let ?s = "\<lparr>work = w, reads = 0, steps = 0, known = (\<lambda>_. None), walking = {}\<rparr>"
  have "walk_inv limits (rows w) {} ?s" by (simp add: walk_inv_def)
  then have "wp (walk_member env obj m 0)
      (\<lambda>walk t. walk_inv limits (rows w) {} t \<and> tells limits (standing (rows w) obj m) walk) (\<lambda>_ _. True) ?s"
    using walk_member_spec [OF assms(1), where obj = obj and m = m and depth = 0] assms(2) by blast
  moreover obtain t where "walk_member env obj m 0 ?s = (Ok walk, t)" "w' = work t"
    using assms(3) by (auto simp: walk_relations_def split: prod.splits)
  ultimately show "rows w' = rows w" "tells limits (standing (rows w) obj m) walk"
    by (auto simp: wp_def walk_inv_def)
qed

lemma walk_found_stands:
  assumes "walk_relations env obj m w = (Ok Found, w')"
  shows "standing (rows w) obj m"
  using walk_relations_tells(2) [of w "\<lambda>_. 0" UNIV, OF _ _ assms]
  by (simp add: limits_of_def member_fits_def)

lemma walk_not_found:
  assumes "walk_relations env obj m w = (Ok Not_Found, w')"
  shows "\<not> standing (rows w) obj m"
  using walk_relations_tells(2) [of w "\<lambda>_. 0" UNIV, OF _ _ assms]
  by (simp add: limits_of_def member_fits_def)

lemma walk_within_bounds:
  assumes "ranked (env_schema env) (\<lambda>obj rel. set (rows w obj rel)) rank" and "rank (obj, m) \<le> MAX_DEPTH"
    and "\<And>obj rel. length (rows w obj rel) \<le> MAX_FANOUT"
    and "\<And>w. fst (env_now env w) \<le> env_deadline env"
    and "walk_relations env obj m w = (Ok (Undecided limit), w')"
  shows "limit = Reads \<or> limit = Steps"
  using walk_relations_tells(2) [of w rank "{Reads, Steps}", OF _ _ assms(5)] assms
  by (simp add: limits_of_def member_fits_def)

end

subsection \<open>What a walk keeps, and how often it reads\<close>

lemma keeps_walk_each: "(\<And>x. x \<in> set xs \<Longrightarrow> keeps I (f x)) \<Longrightarrow> keeps I (walk_each f xs walks)"
  by (induction xs arbitrary: walks) (auto intro!: keeps_and_then)

lemma keeps_walk_every: "(\<And>x. x \<in> set xs \<Longrightarrow> keeps I (f x)) \<Longrightarrow> keeps I (walk_every f xs undecided)"
  by (induction xs arbitrary: undecided) (auto intro!: keeps_and_then split: walk.split)

text \<open>What each of its own steps keeps, a whole walk keeps, however it ends.\<close>

lemma keeps_walk_rule:
  assumes reads: "\<And>obj rel. keeps I (read_subjects env obj rel)"
    and "\<And>deeper obj m. depth < deeper \<Longrightarrow> keeps I (walk_member env obj m deeper)"
  shows "keeps I (walk_rule env obj rule depth)"
  using assms(2)
  by (induction rule arbitrary: depth)
     (auto simp: walk_rule.simps intro!: keeps_and_then reads keeps_walk_each keeps_walk_every
       split: option.split member_kind.split subjects.split)

lemma keeps_walk_relation:
  assumes reads: "\<And>obj rel. keeps I (read_subjects env obj rel)"
    and "\<And>obj m. keeps I (walk_member env obj m (Suc depth))"
  shows "keeps I (walk_relation env obj rel depth)"
  using assms(2)
  by (auto simp: walk_relation.simps Let_def intro!: keeps_and_then reads keeps_walk_each
      split: option.split member_kind.split subjects.split)

lemma keeps_walk_member:
  assumes "keeps I count_step" and "keeps I (check_time env)"
    and reads: "\<And>obj rel. keeps I (read_subjects env obj rel)"
    and "\<And>key. keeps I (enter key)" and "\<And>key walk. keeps I (settle key walk)"
  shows "keeps I (walk_member env obj m depth)"
proof (induction "Suc MAX_DEPTH - depth" arbitrary: depth obj m rule: less_induct)
  case less
  have recall: "keeps I (recall key)" for key
    by (simp add: keeps_def recall_def)
  have deeper: "keeps I (walk_member env obj m deeper)" if "depth < deeper" "depth \<le> MAX_DEPTH" for deeper obj m
    by (rule less) (use that in auto)
  show ?case
    by (auto simp: walk_member.simps
        intro!: assms recall keeps_and_then keeps_walk_rule [OF reads] keeps_walk_relation [OF reads] deeper
        split: option.split member_kind.split)
qed

text \<open>
  Whatever the unit of work counts for a reading of relations, a walk spends at most
  \<open>MAX_READS\<close> of it, whether it answers or fails.
\<close>

lemma read_cost:
  fixes spent :: nat
  assumes now: "\<And>w. cost (snd (env_now env w)) = (cost w :: nat)"
    and list: "\<And>obj rel n w. cost (snd (env_list env obj rel n w)) \<le> Suc (cost w)"
  defines "I \<equiv> \<lambda>s. cost (work s) \<le> spent + min (reads s) MAX_READS"
  shows "keeps I (check_time env)" and "keeps I (read_subjects env obj rel)"
proof -
  let ?J = "\<lambda>s. cost (work s) < spent + min (reads s) MAX_READS"
  have time: "cost (work (snd (check_time env s))) = cost (work s) \<and> reads (snd (check_time env s)) = reads s" for s
    using now [of "work s"] by (auto simp: check_time_def split: prod.splits)
  then show timely: "keeps I (check_time env)"
    by (simp add: keeps_def I_def)
  have "keeps ?J (check_time env)" using time by (simp add: keeps_def)
  then have early: "?J s \<Longrightarrow> wp (check_time env) (\<lambda>_. ?J) (\<lambda>_. ?J) s" for s
    by (simp add: keeps_wp)
  have listed: "?J s \<Longrightarrow> wp (list_at env obj rel n) (\<lambda>_. I) (\<lambda>_. I) s" for s n
    using list [of obj rel n "work s"] by (auto simp: wp_def list_at_def I_def split: prod.splits sum.splits)
  have late: "I s \<Longrightarrow> wp (check_time env) (\<lambda>_. I) (\<lambda>_. I) s" for s
    using timely by (simp add: keeps_wp)
  have weaken: "?J s \<Longrightarrow> I s" for s by (simp add: I_def)
  have counted: "I s \<Longrightarrow> wp count_read (\<lambda>n t. if n > MAX_READS then I t else ?J t) (\<lambda>_. I) s" for s
    by (auto simp: wp_def count_read_def I_def)
  have last: "I s \<Longrightarrow> wp (and_then (check_time env) (\<lambda>late. case late of
      Some limit \<Rightarrow> ret (Bound limit) | None \<Rightarrow> ret (Read_subjects found))) (\<lambda>_. I) (\<lambda>_. I) s" for s found
    by (auto intro!: wp_mono [OF late] split: option.split)
  have rest: "?J s \<Longrightarrow> wp (and_then (list_at env obj rel n) (\<lambda>found.
      if length found > MAX_FANOUT then ret (Bound Fanout) else
      and_then (check_time env) (\<lambda>late. case late of
        Some limit \<Rightarrow> ret (Bound limit) | None \<Rightarrow> ret (Read_subjects found)))) (\<lambda>_. I) (\<lambda>_. I) s" for s n
    using last by (auto intro!: wp_mono [OF listed] simp del: wp_and_then simp: wp_and_then [of "list_at env obj rel n"])
  show "keeps I (read_subjects env obj rel)"
    unfolding keeps_wp read_subjects_def wp_and_then [of count_read]
    using rest weaken
    by (auto intro!: wp_mono [OF counted] wp_mono [OF early] simp del: wp_and_then
        simp: wp_and_then [of "check_time env"] split: option.splits if_splits)
qed

lemma walk_relations_cost:
  assumes now: "\<And>w. cost (snd (env_now env w)) = (cost w :: nat)"
    and list: "\<And>obj rel n w. cost (snd (env_list env obj rel n w)) \<le> Suc (cost w)"
  shows "cost (snd (walk_relations env obj m w)) \<le> cost w + MAX_READS"
proof -
  let ?I = "\<lambda>s. cost (work s) \<le> cost w + min (reads s) MAX_READS"
  let ?s = "\<lparr>work = w, reads = 0, steps = 0, known = (\<lambda>_. None), walking = {}\<rparr>"
  have "keeps ?I (walk_member env obj m 0)"
    using read_cost [OF now list]
    by (intro keeps_walk_member) (auto simp: keeps_def count_step_def enter_def settle_def)
  then have "?I (snd (walk_member env obj m 0 ?s))"
    unfolding keeps_def by (elim allE [of _ ?s]) simp
  then show ?thesis
    by (auto simp: walk_relations_def split: prod.splits)
qed

subsection \<open>Properties\<close>

text \<open>A port that counts how often it is asked for the subjects of a relation.\<close>

definition counting :: "'w walk_env \<Rightarrow> ('w \<times> nat) walk_env" where
  "counting env =
     \<lparr>env_now = (\<lambda>(w, n). case env_now env w of (t, w') \<Rightarrow> (t, w', n)),
      env_list = (\<lambda>obj rel limit (w, n). case env_list env obj rel limit w of (res, w') \<Rightarrow> (res, w', n + 1)),
      env_schema = env_schema env, env_subject = env_subject env, env_deadline = env_deadline env\<rparr>"

text \<open>
  C28: a walk asks the storage for the subjects of a relation at most \<open>MAX_READS\<close> times, whatever the
  schema, the relations and the clock, and however it ends.
\<close>

theorem walks_read_within_their_bound:
  "snd (snd (walk_relations (counting env) obj m (w, 0))) \<le> MAX_READS"
  using walk_relations_cost [of snd "counting env" obj m "(w, 0)"]
  by (simp add: counting_def split_beta)

end
