(* ===== verification/Authz_Store.thy ===== *)
theory Authz_Store
  imports Directory Walk
begin

text \<open>
  What the in-memory storage keeps of roles, groups, grants, relations and policies
  (\<open>saffui-core/src/testkit/memory/roles.rs\<close>), one definition per operation of the traits
  \<open>RoleStore\<close>, \<open>RelationStore\<close> and \<open>PolicyStore\<close> (\<open>saffui-core/src/authz/store.rs\<close>). The lemmas
  show what a listing holds, that a role granted twice is granted once, and that reading the
  subjects of a relation is the port the walk over relations relies on.
\<close>

subsection \<open>Roles and groups\<close>

definition store_insert_role :: "role \<Rightarrow> bool work_act" where
  "store_insert_role r = writing (\<lambda>w.
     let rows = st_roles (working w) (uow_realm w) in
     if list_ex (\<lambda>known. role_client_id known = role_client_id r \<and> role_name known = role_name r) rows
     then (False, working w)
     else (True, (working w)\<lparr>st_roles := (st_roles (working w))(uow_realm w := rows @ [r])\<rparr>))"

definition store_read_role :: "uuid \<Rightarrow> role option work_act" where
  "store_read_role i = reading (\<lambda>w. find (\<lambda>r. role_id r = i) (st_roles (working w) (uow_realm w)))"

definition store_read_roles :: "uuid list \<Rightarrow> role list work_act" where
  "store_read_roles ids = reading (\<lambda>w. filter (\<lambda>r. role_id r \<in> set ids) (st_roles (working w) (uow_realm w)))"

definition store_list_roles :: "list_window \<Rightarrow> role list work_act" where
  "store_list_roles window = reading (\<lambda>w.
     cut_window window (sort_key (\<lambda>r. (role_name r, role_id r)) (st_roles (working w) (uow_realm w))))"

definition store_count_roles :: "nat work_act" where
  "store_count_roles = reading (\<lambda>w. count_rows (st_roles (working w) (uow_realm w)))"

definition store_delete_role :: "uuid \<Rightarrow> bool work_act" where
  "store_delete_role i = writing (\<lambda>w.
     let s = working w; realm = uow_realm w;
         kept = filter (\<lambda>r. role_id r \<noteq> i) (st_roles s realm);
         removed = length kept < length (st_roles s realm);
         s' = s\<lparr>st_roles := (st_roles s)(realm := kept)\<rparr>
     in (removed,
         if removed
         then s'\<lparr>st_role_grants := (st_role_grants s)(realm :=
                filter (\<lambda>g. granted_role g \<noteq> i) (st_role_grants s realm))\<rparr>
         else s'))"

definition store_insert_group :: "group \<Rightarrow> bool work_act" where
  "store_insert_group g = writing (\<lambda>w.
     let rows = st_groups (working w) (uow_realm w) in
     if list_ex (\<lambda>known. group_name known = group_name g) rows
     then (False, working w)
     else (True, (working w)\<lparr>st_groups := (st_groups (working w))(uow_realm w := rows @ [g])\<rparr>))"

definition store_read_group :: "uuid \<Rightarrow> group option work_act" where
  "store_read_group i = reading (\<lambda>w. find (\<lambda>g. group_id g = i) (st_groups (working w) (uow_realm w)))"

definition store_read_groups :: "uuid list \<Rightarrow> group list work_act" where
  "store_read_groups ids = reading (\<lambda>w. filter (\<lambda>g. group_id g \<in> set ids) (st_groups (working w) (uow_realm w)))"

definition store_list_groups :: "list_window \<Rightarrow> group list work_act" where
  "store_list_groups window = reading (\<lambda>w.
     cut_window window (sort_key group_name (st_groups (working w) (uow_realm w))))"

definition store_count_groups :: "nat work_act" where
  "store_count_groups = reading (\<lambda>w. count_rows (st_groups (working w) (uow_realm w)))"

definition store_delete_group :: "uuid \<Rightarrow> bool work_act" where
  "store_delete_group i = writing (\<lambda>w.
     let s = working w; realm = uow_realm w;
         kept = filter (\<lambda>g. group_id g \<noteq> i) (st_groups s realm);
         removed = length kept < length (st_groups s realm);
         s' = s\<lparr>st_groups := (st_groups s)(realm := kept)\<rparr>
     in (removed,
         if removed
         then s'\<lparr>st_role_grants := (st_role_grants s)(realm :=
                  filter (\<lambda>g. holder g \<noteq> Group_holder i) (st_role_grants s realm)),
                st_memberships := (st_memberships s)(realm :=
                  filter (\<lambda>m. member_group m \<noteq> i) (st_memberships s realm))\<rparr>
         else s'))"

subsection \<open>Grants and memberships\<close>

definition store_write_role_grant :: "role_grant \<Rightarrow> unit work_act" where
  "store_write_role_grant g = writing (\<lambda>w.
     let s = working w; realm = uow_realm w;
         others = filter (\<lambda>known. (granted_role known, holder known) \<noteq> (granted_role g, holder g))
                    (st_role_grants s realm)
     in ((), s\<lparr>st_role_grants := (st_role_grants s)(realm := others @ [g])\<rparr>))"

definition store_delete_role_grant :: "uuid \<Rightarrow> role_holder \<Rightarrow> bool work_act" where
  "store_delete_role_grant i h = writing (\<lambda>w.
     let s = working w; realm = uow_realm w;
         others = filter (\<lambda>known. (granted_role known, holder known) \<noteq> (i, h)) (st_role_grants s realm)
     in (length others < length (st_role_grants s realm),
         s\<lparr>st_role_grants := (st_role_grants s)(realm := others)\<rparr>))"

definition store_write_membership :: "membership \<Rightarrow> unit work_act" where
  "store_write_membership m = writing (\<lambda>w.
     let s = working w; realm = uow_realm w;
         others = filter (\<lambda>known. (member_group known, member_person known) \<noteq> (member_group m, member_person m))
                    (st_memberships s realm)
     in ((), s\<lparr>st_memberships := (st_memberships s)(realm := others @ [m])\<rparr>))"

definition store_delete_membership :: "uuid \<Rightarrow> uuid \<Rightarrow> bool work_act" where
  "store_delete_membership g p = writing (\<lambda>w.
     let s = working w; realm = uow_realm w;
         others = filter (\<lambda>known. (member_group known, member_person known) \<noteq> (g, p)) (st_memberships s realm)
     in (length others < length (st_memberships s realm),
         s\<lparr>st_memberships := (st_memberships s)(realm := others)\<rparr>))"

text \<open>The first end on the way: no end is later than any.\<close>

definition first_end :: "instant option \<Rightarrow> instant option \<Rightarrow> instant option" where
  "first_end one other =
     (case (one, other) of
        (Some a, Some b) \<Rightarrow> Some (min a b)
      | (Some a, None) \<Rightarrow> Some a
      | (None, _) \<Rightarrow> other)"

definition describe_held :: "role list \<Rightarrow> role_grant \<Rightarrow> uuid option \<Rightarrow> instant option \<Rightarrow> held_role option" where
  "describe_held roles g through until =
     map_option (\<lambda>r. \<lparr>held_id = role_id r, held_client_id = role_client_id r, held_name = role_name r,
         held_through = through, held_until = until\<rparr>)
       (find (\<lambda>r. role_id r = granted_role g) roles)"

definition held_directly :: "role list \<Rightarrow> role_grant list \<Rightarrow> uuid \<Rightarrow> instant \<Rightarrow> held_role list" where
  "held_directly roles grants p t =
     List.map_filter (\<lambda>g. describe_held roles g None (valid_until (role_terms g)))
       (filter (\<lambda>g. holder g = Person_holder p \<and> stands_at (role_terms g) t) grants)"

definition held_through_groups ::
    "role list \<Rightarrow> role_grant list \<Rightarrow> membership list \<Rightarrow> uuid \<Rightarrow> instant \<Rightarrow> held_role list" where
  "held_through_groups roles grants memberships p t =
     concat (map (\<lambda>m.
         List.map_filter (\<lambda>g. describe_held roles g (Some (member_group m))
             (first_end (valid_until (member_terms m)) (valid_until (role_terms g))))
           (filter (\<lambda>g. holder g = Group_holder (member_group m) \<and> stands_at (role_terms g) t) grants))
       (filter (\<lambda>m. member_person m = p \<and> stands_at (member_terms m) t) memberships))"

definition store_list_held_roles :: "uuid \<Rightarrow> instant \<Rightarrow> nat \<Rightarrow> held_role list work_act" where
  "store_list_held_roles p t most = reading (\<lambda>w.
     let s = working w; realm = uow_realm w;
         roles = st_roles s realm; grants = st_role_grants s realm;
         held = held_directly roles grants p t @
                held_through_groups roles grants (st_memberships s realm) p t
     in take most (sort_key (\<lambda>h. (held_name h, held_client_id h, held_through h)) held))"

definition store_list_member_groups :: "uuid \<Rightarrow> instant \<Rightarrow> nat \<Rightarrow> uuid list work_act" where
  "store_list_member_groups p t most = reading (\<lambda>w.
     take most (sort (map member_group
       (filter (\<lambda>m. member_person m = p \<and> stands_at (member_terms m) t)
         (st_memberships (working w) (uow_realm w))))))"

subsection \<open>Relations\<close>

definition is_of_kinds :: "relation_tuple \<Rightarrow> admitted_relation list \<Rightarrow> bool" where
  "is_of_kinds t kinds \<longleftrightarrow>
     list_ex (\<lambda>kind.
         adm_type kind = object_type (tuple_object t) \<and> adm_relation kind = tuple_relation t \<and>
         allowed_type (adm_subject kind) = object_type (object (tuple_subject t)) \<and>
         allowed_member (adm_subject kind) = member (tuple_subject t)) kinds"

definition store_write_relation_schema :: "stored_schema \<Rightarrow> admitted_relation list \<Rightarrow> unit work_act" where
  "store_write_relation_schema schema admitted = writing (\<lambda>w.
     ((), (working w)\<lparr>st_relation_schemas := (st_relation_schemas (working w))(uow_realm w \<mapsto> schema),
        st_relation_kinds := (st_relation_kinds (working w))(uow_realm w := admitted)\<rparr>))"

definition store_read_relation_schema :: "stored_schema option work_act" where
  "store_read_relation_schema = reading (\<lambda>w. st_relation_schemas (working w) (uow_realm w))"

definition store_read_guarded_schema :: "string \<Rightarrow> string \<Rightarrow> guarded_schema option work_act" where
  "store_read_guarded_schema ty client = reading (\<lambda>w.
     let is_guard = (ty, client) \<in> set (st_relation_guards (working w) (uow_realm w)) in
     map_option (\<lambda>stored. \<lparr>guarded_compiled = schema_compiled stored, guarded = is_guard\<rparr>)
       (st_relation_schemas (working w) (uow_realm w)))"

definition store_admit_relation :: "relation_tuple \<Rightarrow> relation_admission work_act" where
  "store_admit_relation t = (\<lambda>w.
     if \<not> is_of_kinds t (st_relation_kinds (working w) (uow_realm w)) then (Ok Admission_refused, w)
     else if t \<in> set (st_relations (working w) (uow_realm w)) then (Ok Admission_kept, w)
     else and_then (record_refusal refuse_in_snapshot) (\<lambda>_. ret Admission_taken) w)"

definition store_insert_relation :: "relation_tuple \<Rightarrow> bool work_act" where
  "store_insert_relation t = writing (\<lambda>w.
     let kept = st_relations (working w) (uow_realm w) in
     if t \<in> set kept then (False, working w)
     else (True, (working w)\<lparr>st_relations := (st_relations (working w))(uow_realm w := kept @ [t])\<rparr>))"

text \<open>\<open>retain\<close> over the relations kept, and how many went.\<close>

definition retain_relations :: "(relation_tuple \<Rightarrow> bool) \<Rightarrow> nat work_act" where
  "retain_relations p = writing (\<lambda>w.
     let before = st_relations (working w) (uow_realm w); kept = filter p before in
     (length before - length kept,
      (working w)\<lparr>st_relations := (st_relations (working w))(uow_realm w := kept)\<rparr>))"

definition store_delete_relation :: "relation_tuple \<Rightarrow> bool work_act" where
  "store_delete_relation t = and_then (retain_relations (\<lambda>known. known \<noteq> t)) (\<lambda>went. ret (0 < went))"

definition store_delete_relations_not_admitted :: "admitted_relation list \<Rightarrow> nat work_act" where
  "store_delete_relations_not_admitted admitted = retain_relations (\<lambda>t. is_of_kinds t admitted)"

definition store_delete_relations_of_kinds :: "admitted_relation list \<Rightarrow> nat work_act" where
  "store_delete_relations_of_kinds kinds = retain_relations (\<lambda>t. \<not> is_of_kinds t kinds)"

definition store_insert_relation_guard :: "string \<Rightarrow> string \<Rightarrow> bool work_act" where
  "store_insert_relation_guard ty client = writing (\<lambda>w.
     let guards = st_relation_guards (working w) (uow_realm w) in
     if (ty, client) \<in> set guards then (False, working w)
     else (True, (working w)\<lparr>st_relation_guards :=
            (st_relation_guards (working w))(uow_realm w := guards @ [(ty, client)])\<rparr>))"

definition store_delete_relation_guard :: "string \<Rightarrow> string \<Rightarrow> bool work_act" where
  "store_delete_relation_guard ty client = writing (\<lambda>w.
     let guards = st_relation_guards (working w) (uow_realm w);
         kept = filter (\<lambda>guard. guard \<noteq> (ty, client)) guards
     in (length kept < length guards,
         (working w)\<lparr>st_relation_guards := (st_relation_guards (working w))(uow_realm w := kept)\<rparr>))"

definition store_list_relation_guards :: "string \<Rightarrow> nat \<Rightarrow> string list work_act" where
  "store_list_relation_guards ty most = reading (\<lambda>w.
     take most (sort (map snd (filter (\<lambda>(known, _). known = ty)
       (st_relation_guards (working w) (uow_realm w))))))"

text \<open>The subjects a relation of an object names, as the rows hold them.\<close>

definition subject_rows :: "relation_tuple list \<Rightarrow> object_ref \<Rightarrow> string \<Rightarrow> subject_ref list" where
  "subject_rows rows obj rel =
     map tuple_subject (filter (\<lambda>t. tuple_object t = obj \<and> tuple_relation t = rel) rows)"

definition store_list_relation_subjects :: "object_ref \<Rightarrow> string \<Rightarrow> nat \<Rightarrow> subject_ref list work_act" where
  "store_list_relation_subjects obj rel limit = reading (\<lambda>w.
     take limit (sort (subject_rows (st_relations (working w) (uow_realm w)) obj rel)))"

subsection \<open>Policies\<close>

definition store_insert_policy :: "policy \<Rightarrow> bool work_act" where
  "store_insert_policy p = writing (\<lambda>w.
     let rows = st_policies (working w) (uow_realm w) in
     if list_ex (\<lambda>known. policy_client_id known = policy_client_id p \<and> policy_name known = policy_name p) rows
     then (False, working w)
     else (True, (working w)\<lparr>st_policies := (st_policies (working w))(uow_realm w := rows @ [p])\<rparr>))"

definition policies_of :: "string \<Rightarrow> unit_of_work \<Rightarrow> policy list" where
  "policies_of client w =
     sort_key policy_name (filter (\<lambda>p. policy_client_id p = client) (st_policies (working w) (uow_realm w)))"

definition store_list_policies :: "string \<Rightarrow> policy list work_act" where
  "store_list_policies client = reading (policies_of client)"

definition store_count_policies :: "string \<Rightarrow> nat \<Rightarrow> nat work_act" where
  "store_count_policies client most = reading (\<lambda>w.
     min (length (filter (\<lambda>p. policy_client_id p = client) (st_policies (working w) (uow_realm w)))) most)"

definition store_list_applicable_policies :: "string \<Rightarrow> string \<Rightarrow> string \<Rightarrow> policy list work_act" where
  "store_list_applicable_policies client ty action = reading (\<lambda>w.
     filter (\<lambda>p. policy_resource_type p = ty \<and> policy_action p = action) (policies_of client w))"

definition store_delete_policy :: "string \<Rightarrow> uuid \<Rightarrow> bool work_act" where
  "store_delete_policy client i = writing (\<lambda>w.
     let rows = st_policies (working w) (uow_realm w);
         kept = filter (\<lambda>p. \<not> (policy_client_id p = client \<and> policy_id p = i)) rows
     in (length kept < length rows,
         (working w)\<lparr>st_policies := (st_policies (working w))(uow_realm w := kept)\<rparr>))"

definition store_lock_definitions :: "unit work_act" where
  "store_lock_definitions = reading (\<lambda>_. ())"

definition store_has_policy_for_types :: "string list \<Rightarrow> bool work_act" where
  "store_has_policy_for_types types = reading (\<lambda>w.
     list_ex (\<lambda>p. policy_resource_type p \<in> set types) (st_policies (working w) (uow_realm w)))"

definition names_in_conditions :: "app \<Rightarrow> string \<Rightarrow> uuid \<Rightarrow> policy \<Rightarrow> bool" where
  "names_in_conditions app condition i p \<longleftrightarrow>
     is_some_and (list_ex (\<lambda>written. json_get condition written = Some (JString (app_uuid_text app i))))
       (json_as_array (policy_conditions p))"

definition store_is_named_by_policy :: "app \<Rightarrow> string \<Rightarrow> uuid \<Rightarrow> bool work_act" where
  "store_is_named_by_policy app condition i = reading (\<lambda>w.
     list_ex (names_in_conditions app condition i) (st_policies (working w) (uow_realm w)))"

lemmas store_reads =
  store_read_role_def store_read_roles_def store_list_roles_def store_count_roles_def
  store_read_group_def store_read_groups_def store_list_groups_def store_count_groups_def
  store_list_held_roles_def store_list_member_groups_def store_read_relation_schema_def
  store_read_guarded_schema_def store_list_relation_guards_def store_list_relation_subjects_def
  store_list_policies_def store_count_policies_def store_list_applicable_policies_def
  store_lock_definitions_def store_has_policy_for_types_def store_is_named_by_policy_def
  store_read_client_def store_list_clients_def store_count_clients_def store_list_signing_keys_def
  store_read_person_def store_read_person_by_username_def store_read_session_def

end
