(* ===== verification/Audited.thy ===== *)
theory Audited
  imports Authz_Store
begin

text \<open>
  Changes that are said in the chain. A use case of the administration plane opens a unit of work,
  reads and writes, appends one event and commits. This theory states that contract as a locale,
  with what a client of it may rely on, and gives the rules that follow a use case through its
  phases: before the unit of work, with the unit of work in hand and so many events appended,
  and after the commit.
\<close>

subsection \<open>The contract\<close>

text \<open>The state committed is the one before, with one event more on the chain of one realm.\<close>

definition one_event_more :: "uuid \<Rightarrow> state \<Rightarrow> state \<Rightarrow> bool" where
  "one_event_more realm before after \<longleftrightarrow>
     (\<exists>e. st_audit after = (st_audit before)(realm := st_audit before realm @ [e]))"

locale audited_use_case =
  fixes run :: "(ctx, 'e, 'a) act" and realm :: uuid
  assumes recorded: "run s = (res, t) \<Longrightarrow> shared t \<noteq> shared s \<Longrightarrow> one_event_more realm (shared s) (shared t)"
    and refused: "run s = (Err e, t) \<Longrightarrow> shared t = shared s"
begin

lemma chain_only_grows:
  assumes "run s = (res, t)"
  shows "prefix (st_audit (shared s) r) (st_audit (shared t) r)"
  using recorded [OF assms] by (cases "shared t = shared s") (auto simp: one_event_more_def)

lemma unrecorded_changes_nothing:
  assumes "run s = (res, t)" and "st_audit (shared t) realm = st_audit (shared s) realm"
  shows "shared t = shared s"
proof (rule ccontr)
  assume "shared t \<noteq> shared s"
  from recorded [OF assms(1) this] assms(2) show False by (auto simp: one_event_more_def)
qed

lemma other_chains_stand:
  assumes "run s = (res, t)" and "r \<noteq> realm"
  shows "st_audit (shared t) r = st_audit (shared s) r"
  using recorded [OF assms(1)] assms(2) by (cases "shared t = shared s") (auto simp: one_event_more_def)

end

subsection \<open>The phases of a use case\<close>

definition untouched :: "ctx \<Rightarrow> ctx \<Rightarrow> bool" where
  "untouched s0 s \<longleftrightarrow> shared s = shared s0"

definition appended :: "ctx \<Rightarrow> uuid \<Rightarrow> nat \<Rightarrow> unit_of_work \<Rightarrow> bool" where
  "appended s0 realm n w \<longleftrightarrow>
     uow_realm w = realm \<and>
     (failed w \<or> (\<exists>es. length es = n \<and>
        st_audit (working w) = (st_audit (shared s0))(realm := st_audit (shared s0) realm @ es)))"

definition in_hand :: "ctx \<Rightarrow> uuid \<Rightarrow> nat \<Rightarrow> ctx \<Rightarrow> bool" where
  "in_hand s0 realm n s \<longleftrightarrow>
     shared s = shared s0 \<and> (\<exists>w. opened s = Some w \<and> appended s0 realm n w)"

definition recorded :: "ctx \<Rightarrow> uuid \<Rightarrow> ctx \<Rightarrow> bool" where
  "recorded s0 realm s \<longleftrightarrow> shared s = shared s0 \<or> one_event_more realm (shared s0) (shared s)"

text \<open>A step leads from a phase to another, and leaves the state committed as it was when it fails.\<close>

definition leads :: "ctx \<Rightarrow> (ctx \<Rightarrow> bool) \<Rightarrow> (ctx, 'e, 'a) act \<Rightarrow> (ctx \<Rightarrow> bool) \<Rightarrow> bool" where
  "leads s0 P m Q \<longleftrightarrow> (\<forall>s. P s \<longrightarrow> wp m (\<lambda>_. Q) (\<lambda>_. untouched s0) s)"

text \<open>A step that leaves the phase as it is.\<close>

definition steady :: "(ctx, 'e, 'a) act \<Rightarrow> bool" where
  "steady m \<longleftrightarrow> (\<forall>s0 realm n. leads s0 (in_hand s0 realm n) m (in_hand s0 realm n) \<and>
     leads s0 (untouched s0) m (untouched s0))"

named_theorems steady_intro \<open>steps that leave the phase of a use case as it is\<close>

lemma in_hand_simps [simp]:
  "in_hand s0 realm n (s\<lparr>tick := k\<rparr>) = in_hand s0 realm n s"
  "in_hand s0 realm n (s\<lparr>drawn := d\<rparr>) = in_hand s0 realm n s"
  "untouched s0 (s\<lparr>tick := k\<rparr>) = untouched s0 s"
  "untouched s0 (s\<lparr>drawn := d\<rparr>) = untouched s0 s"
  by (simp_all add: in_hand_def untouched_def)

lemma in_hand_untouched: "in_hand s0 realm n s \<Longrightarrow> untouched s0 s"
  by (simp add: in_hand_def untouched_def)

lemma leads_and_then: "leads s0 P m Q \<Longrightarrow> (\<And>x. leads s0 Q (f x) R) \<Longrightarrow> leads s0 P (and_then m f) R"
  by (auto simp: leads_def elim!: wp_mono)

lemma steady_and_then [steady_intro]: "steady m \<Longrightarrow> (\<And>x. steady (f x)) \<Longrightarrow> steady (and_then m f)"
  unfolding steady_def by (blast intro: leads_and_then)

lemma steady_ret [steady_intro]: "steady (ret x)"
  by (simp add: steady_def leads_def)

lemma steady_throw [steady_intro]: "steady (throw e)"
  by (auto simp: steady_def leads_def in_hand_untouched)

lemma steady_lift_result [steady_intro]: "steady (lift_result r)"
  by (auto simp: steady_def leads_def in_hand_untouched split: sum.split)

lemma steady_ensure [steady_intro]: "steady (ensure b e)"
  by (auto simp: steady_def leads_def in_hand_untouched)

lemma steady_map_err [steady_intro]: "steady m \<Longrightarrow> steady (map_err g m)"
  by (simp add: steady_def leads_def)

lemma steady_if [steady_intro]: "steady m \<Longrightarrow> steady n \<Longrightarrow> steady (if b then m else n)"
  by simp

lemma steady_case_option [steady_intro]:
  "steady m \<Longrightarrow> (\<And>v. steady (f v)) \<Longrightarrow> steady (case x of None \<Rightarrow> m | Some v \<Rightarrow> f v)"
  by (simp split: option.split)

lemma steady_case_sum [steady_intro]:
  "(\<And>e. steady (f e)) \<Longrightarrow> (\<And>v. steady (g v)) \<Longrightarrow> steady (case x of Inl e \<Rightarrow> f e | Inr v \<Rightarrow> g v)"
  by (simp split: sum.split)

lemma steady_case_prod [steady_intro]: "(\<And>a b. steady (f a b)) \<Longrightarrow> steady (case x of (a, b) \<Rightarrow> f a b)"
  by (simp split: prod.split)

lemma steady_now [steady_intro]: "steady (now app)"
  by (simp add: steady_def leads_def)

lemma steady_fill_random [steady_intro]: "steady (fill_random app n)"
  by (auto simp: steady_def leads_def in_hand_untouched split: option.split)

lemma steady_mint_id [steady_intro]: "steady (mint_id app)"
  by (auto simp: steady_def leads_def intro!: wp_mint_id dest: in_hand_untouched)

text \<open>The steps that move from a phase to the next, and the ends of a use case.\<close>

lemma leads_steady: "steady m \<Longrightarrow> (\<And>x. leads s0 (in_hand s0 realm n) (f x) R) \<Longrightarrow>
    leads s0 (in_hand s0 realm n) (and_then m f) R"
  "steady m \<Longrightarrow> (\<And>x. leads s0 (untouched s0) (f x) R) \<Longrightarrow> leads s0 (untouched s0) (and_then m f) R"
  unfolding steady_def by (blast intro: leads_and_then)+

lemma leads_begin_work:
  assumes "\<And>x. leads s0 (in_hand s0 (scope_realm scope) 0) (f x) R"
  shows "leads s0 (untouched s0) (and_then (begin_work scope) f) R"
proof (rule leads_and_then)
  show "leads s0 (untouched s0) (begin_work scope) (in_hand s0 (scope_realm scope) 0)"
    by (auto simp: leads_def begin_work_def untouched_def in_hand_def appended_def uow_realm_def
        split: option.split)
qed (rule assms)

lemma leads_commit: "leads s0 (in_hand s0 realm (Suc 0)) commit (recorded s0 realm)"
proof -
  have "wp commit (\<lambda>_. recorded s0 realm) (\<lambda>_. untouched s0) s" if "in_hand s0 realm (Suc 0) s" for s
    using that
    by (auto simp: wp_commit in_hand_def appended_def recorded_def one_event_more_def untouched_def
        length_Suc_conv)
  then show ?thesis by (simp add: leads_def)
qed

lemma leads_commit_ret:
  "leads s0 (in_hand s0 realm (Suc 0)) (and_then commit (\<lambda>_. ret (v x))) (recorded s0 realm)"
  by (rule leads_and_then [OF leads_commit]) (simp add: leads_def)

lemma leads_end:
  "leads s0 (in_hand s0 realm n) (ret x) (recorded s0 realm)"
  "leads s0 (untouched s0) (ret x) (recorded s0 realm)"
  "leads s0 (in_hand s0 realm n) (throw e) Q"
  "leads s0 (untouched s0) (throw e) Q"
  by (auto simp: leads_def recorded_def in_hand_def untouched_def)

lemma leads_map_err: "leads s0 P m Q \<Longrightarrow> leads s0 P (map_err g m) Q"
  by (simp add: leads_def)

lemma leads_if: "leads s0 P m Q \<Longrightarrow> leads s0 P n Q \<Longrightarrow> leads s0 P (if b then m else n) Q"
  by simp

lemma leads_case_option:
  "leads s0 P m Q \<Longrightarrow> (\<And>v. leads s0 P (f v) Q) \<Longrightarrow> leads s0 P (case x of None \<Rightarrow> m | Some v \<Rightarrow> f v) Q"
  by (simp split: option.split)

lemma leads_case_sum:
  "(\<And>e. leads s0 P (f e) Q) \<Longrightarrow> (\<And>v. leads s0 P (g v) Q) \<Longrightarrow>
     leads s0 P (case x of Inl e \<Rightarrow> f e | Inr v \<Rightarrow> g v) Q"
  by (simp split: sum.split)

subsection \<open>Calls on the unit of work\<close>

text \<open>An operation that leaves the chains, the scope and a failure as they are.\<close>

definition quiet :: "unit_of_work \<Rightarrow> unit_of_work \<Rightarrow> bool" where
  "quiet w w' \<longleftrightarrow> uow_scope w' = uow_scope w \<and> (failed w \<longrightarrow> failed w') \<and>
     st_audit (working w') = st_audit (working w)"

lemma quiet_trans: "quiet w w' \<Longrightarrow> quiet w' w'' \<Longrightarrow> quiet w w''"
  by (simp add: quiet_def)

definition silent :: "'a work_act \<Rightarrow> bool" where
  "silent m \<longleftrightarrow> (\<forall>w. quiet w (snd (m w)))"

named_theorems silent_intro \<open>operations of the storage that say nothing in the chain\<close>

lemma silent_reading [silent_intro]: "silent (reading f)"
  by (simp add: silent_def quiet_def reading_def)

lemma silent_writing:
  "(\<And>w. st_audit (snd (f w)) = st_audit (working w)) \<Longrightarrow> silent (writing f)"
  by (auto simp: silent_def quiet_def writing_def and_then_def record_refusal_def refuse_in_snapshot_def split_beta)

lemma silent_and_then [silent_intro]: "silent m \<Longrightarrow> (\<And>x. silent (f x)) \<Longrightarrow> silent (and_then m f)"
proof -
  assume m: "silent m" and f: "\<And>x. silent (f x)"
  have "quiet w (snd (and_then m f w))" for w
  proof (cases "m w")
    case (Pair res w')
    have "quiet w w'" using m Pair by (simp add: silent_def) (metis snd_conv)
    moreover have "quiet w' (snd (f x w'))" for x using f by (simp add: silent_def)
    ultimately show ?thesis
      using Pair by (auto simp: and_then_def intro: quiet_trans split: sum.split)
  qed
  then show ?thesis by (simp add: silent_def)
qed

lemma silent_ret [silent_intro]: "silent (ret x)"
  by (simp add: silent_def quiet_def ret_def)

lemma steady_on_work [steady_intro]:
  assumes "silent m"
  shows "steady (on_work m)"
proof -
  have step: "appended s0 realm n w \<Longrightarrow> appended s0 realm n (snd (m w))" for s0 realm n w
    using assms by (auto simp: silent_def quiet_def appended_def uow_realm_def)
  have "wp (on_work m) (\<lambda>_. in_hand s0 realm n) (\<lambda>_. untouched s0) s"
    if "in_hand s0 realm n s" for s0 realm n s
  proof -
    from that obtain w where w: "opened s = Some w" "appended s0 realm n w" "shared s = shared s0"
      by (auto simp: in_hand_def)
    with step [OF w(2)] show ?thesis
      by (simp add: wp_on_work) (auto simp: wp_def in_hand_def untouched_def split: prod.split sum.split)
  qed
  moreover have "wp (on_work m) (\<lambda>_. untouched s0) (\<lambda>_. untouched s0) s" if "untouched s0 s" for s0 s
    using that
    by (auto simp: wp_same on_work_def on_work_storage_def map_err_def untouched_def split_beta
        split: option.split sum.split)
  ultimately show ?thesis by (simp add: steady_def leads_def)
qed

text \<open>Appending an event adds exactly one.\<close>

lemma link_event_Ok:
  assumes "link_event app envelope w = (Ok pos, w')"
  shows "\<exists>e. w' = w\<lparr>working := (working w)\<lparr>st_audit := (st_audit (working w))(uow_realm w :=
    st_audit (working w) (uow_realm w) @ [e])\<rparr>\<rparr>"
  using assms unfolding link_event_def and_then_def refuse_in_snapshot_def Let_def
  by (auto split: option.splits if_splits)

lemma append_appends:
  assumes "appended s0 realm n w" and "store_append_audit_event app envelope w = (Ok pos, w')"
  shows "appended s0 realm (Suc n) w'"
proof -
  have "link_event app envelope w = (Ok pos, w')"
    using assms(2) by (auto simp: store_append_audit_event_def record_refusal_def split: prod.splits sum.splits)
  then obtain e where w': "w' = w\<lparr>working := (working w)\<lparr>st_audit := (st_audit (working w))(uow_realm w :=
      st_audit (working w) (uow_realm w) @ [e])\<rparr>\<rparr>"
    using link_event_Ok by blast
  show ?thesis
  proof (cases "failed w")
    case True
    then show ?thesis using assms(1) w' by (simp add: appended_def uow_realm_def)
  next
    case False
    then obtain es where "length es = n" "uow_realm w = realm"
      "st_audit (working w) = (st_audit (shared s0))(realm := st_audit (shared s0) realm @ es)"
      using assms(1) by (auto simp: appended_def)
    then show ?thesis
      using w' by (auto simp: appended_def uow_realm_def intro!: exI [of _ "es @ [e]"])
  qed
qed

lemma leads_append:
  "leads s0 (in_hand s0 realm n) (on_work (store_append_audit_event app envelope)) (in_hand s0 realm (Suc n))"
proof -
  have "wp (on_work (store_append_audit_event app envelope)) (\<lambda>_. in_hand s0 realm (Suc n)) (\<lambda>_. untouched s0) s"
    if "in_hand s0 realm n s" for s
  proof -
    from that obtain w where w: "opened s = Some w" "appended s0 realm n w" "shared s = shared s0"
      by (auto simp: in_hand_def)
    with append_appends [OF w(2)] show ?thesis
      by (simp add: wp_on_work) (auto simp: wp_def in_hand_def untouched_def split: prod.split sum.split)
  qed
  then show ?thesis by (simp add: leads_def)
qed

lemma leads_append_end:
  "leads s0 (in_hand s0 realm n) (and_then (on_work (store_append_audit_event app envelope)) (\<lambda>_. ret ()))
     (in_hand s0 realm (Suc n))"
  by (rule leads_and_then [OF leads_append]) (simp add: leads_def)

lemma leads_record:
  "leads s0 (in_hand s0 realm n) (record_event app kind payload) (in_hand s0 realm (Suc n))"
  unfolding record_event_def work_scope_def
  by (intro leads_append_end leads_steady leads_end leads_case_option leads_case_sum steady_intro silent_intro)

lemma leads_record_event:
  assumes "\<And>x. leads s0 (in_hand s0 realm (Suc n)) (f x) R"
  shows "leads s0 (in_hand s0 realm n) (and_then (record_event app kind payload) f) R"
  by (rule leads_and_then [OF leads_record]) (rule assms)

lemma leads_case_prod: "(\<And>a b. leads s0 P (f a b) Q) \<Longrightarrow> leads s0 P (case x of (a, b) \<Rightarrow> f a b) Q"
  by (simp split: prod.split)

text \<open>The rules a use case is followed with: first those that move, then those that stay.\<close>

lemmas phase_moves = leads_begin_work leads_record_event leads_commit_ret leads_commit leads_end
lemmas phase_steps = leads_steady leads_if leads_case_option leads_case_sum leads_map_err

text \<open>What a use case whose steps lead to the record of its change promises.\<close>

lemma audited_by_phases:
  assumes "\<And>s0. leads s0 (untouched s0) run (recorded s0 realm)"
  shows "audited_use_case run realm"
proof
  fix s res t
  have run: "wp run (\<lambda>_. recorded s realm) (\<lambda>_. untouched s) s"
    using assms [of s] by (simp add: leads_def untouched_def)
  show "one_event_more realm (shared s) (shared t)" if "run s = (res, t)" "shared t \<noteq> shared s"
    using run that by (auto simp: wp_def recorded_def untouched_def split: sum.splits)
  show "shared t = shared s" if "run s = (Err e, t)" for e
    using run that by (simp add: wp_def untouched_def)
qed

subsection \<open>The operations of the storage say nothing themselves\<close>

lemma silent_store_reads [silent_intro]:
  "silent (store_read_role i)" "silent (store_read_roles ids)" "silent (store_read_group i)"
  "silent (store_read_groups ids)" "silent (store_read_person i)" "silent (store_read_client name)"
  "silent store_lock_definitions" "silent (store_is_named_by_policy app condition i)"
  "silent store_read_relation_schema" "silent (store_has_policy_for_types types)"
  "silent (store_count_policies client most)" "silent (store_list_applicable_policies client ty action)"
  "silent store_list_signing_keys"
  by (simp_all add: store_reads silent_reading)

lemma silent_role_writes [silent_intro]:
  "silent (store_insert_role r)" "silent (store_delete_role i)" "silent (store_insert_group g)"
  "silent (store_delete_group i)" "silent (store_write_role_grant rg)" "silent (store_delete_role_grant i h)"
  "silent (store_write_membership m)" "silent (store_delete_membership i p)"
  unfolding store_insert_role_def store_delete_role_def store_insert_group_def store_delete_group_def
    store_write_role_grant_def store_delete_role_grant_def store_write_membership_def
    store_delete_membership_def
  by (auto intro!: silent_writing simp: Let_def)

lemma silent_relation_writes [silent_intro]:
  "silent (store_write_relation_schema schema kinds)" "silent (store_insert_relation t)"
  "silent (store_delete_relation t)" "silent (store_delete_relations_not_admitted kinds)"
  "silent (store_delete_relations_of_kinds kinds)" "silent (store_insert_relation_guard ty client)"
  "silent (store_delete_relation_guard ty client)"
  unfolding store_write_relation_schema_def store_insert_relation_def store_delete_relation_def
    store_delete_relations_not_admitted_def store_delete_relations_of_kinds_def retain_relations_def
    store_insert_relation_guard_def store_delete_relation_guard_def
  by (auto intro!: silent_writing silent_and_then silent_ret simp: Let_def)

lemma silent_policy_writes [silent_intro]:
  "silent (store_insert_policy p)" "silent (store_delete_policy client i)"
  unfolding store_insert_policy_def store_delete_policy_def
  by (auto intro!: silent_writing simp: Let_def)

lemma silent_admit_relation [silent_intro]: "silent (store_admit_relation t)"
  by (auto simp: silent_def quiet_def store_admit_relation_def and_then_def record_refusal_def
      refuse_in_snapshot_def ret_def)

lemma steady_read_named_client [steady_intro]: "steady (read_named_client app name)"
  unfolding read_named_client_def by (intro steady_intro silent_intro)

subsection \<open>What a use case leaves\<close>

text \<open>
  The rules that run a use case to its end: every read is of the state committed before, and what
  is committed is that state with the writes made, and an event more.
\<close>

definition same_but_chain :: "state \<Rightarrow> state \<Rightarrow> bool" where
  "same_but_chain after before \<longleftrightarrow> (\<exists>chain. after = before\<lparr>st_audit := chain\<rparr>)"

lemma same_but_chain_update [simp]: "same_but_chain (s\<lparr>st_audit := chain\<rparr>) s"
  by (auto simp: same_but_chain_def)

abbreviation home :: "admin_caller \<Rightarrow> uuid" where
  "home caller \<equiv> scope_realm (caller_scope caller)"

lemma wp_mint_id_eq:
  "wp (mint_id app) Q R s =
     (case app_random app (drawn s) 10 of
        None \<Rightarrow> R (new_failure RandomUnavailable) (s\<lparr>drawn := drawn s + 1\<rparr>)
      | Some random \<Rightarrow>
          Q (app_uuid_build app (if app_clock app (tick s) < 0 then 0 else nat (app_clock app (tick s) div 1000000)) random)
            (s\<lparr>drawn := drawn s + 1, tick := tick s + 1\<rparr>))"
  by (simp add: mint_id_def split: option.split) (simp add: wp_def clock_now_def)

lemma wp_append_event:
  assumes "opened s = Some w"
    and "\<And>pos chain. Q pos (s\<lparr>opened := Some (w\<lparr>working := (working w)\<lparr>st_audit := chain\<rparr>\<rparr>)\<rparr>)"
    and "\<And>e t. shared t = shared s \<Longrightarrow> R e t"
  shows "wp (on_work (store_append_audit_event app envelope)) Q R s"
proof -
  have "wp (store_append_audit_event app envelope)
      (\<lambda>pos w'. \<exists>chain. w' = w\<lparr>working := (working w)\<lparr>st_audit := chain\<rparr>\<rparr>) (\<lambda>_ _. True) w"
    using link_event_Ok [of app envelope w]
    by (auto simp: store_append_audit_event_def) (auto simp: wp_def split: prod.split sum.split)
  then have "wp (store_append_audit_event app envelope)
      (\<lambda>pos w'. Q pos (s\<lparr>opened := Some w'\<rparr>)) (\<lambda>e w'. R (failure_of_storage e) (s\<lparr>opened := Some w'\<rparr>)) w"
    by (rule wp_mono) (auto simp: assms)
  then show ?thesis using assms(1) by (simp add: wp_on_work)
qed

lemma wp_record_event:
  assumes w: "opened s = Some w"
    and Q: "\<And>chain k d. Q () (s\<lparr>tick := k, drawn := d, opened := Some (w\<lparr>working := (working w)\<lparr>st_audit := chain\<rparr>\<rparr>)\<rparr>)"
    and R: "\<And>e t. shared t = shared s \<Longrightarrow> R e t"
  shows "wp (record_event app kind payload) Q R s"
proof -
  have append: "wp (and_then (on_work (store_append_audit_event app envelope)) (\<lambda>_. ret ())) Q R
      (s\<lparr>tick := k, drawn := d\<rparr>)" for envelope k d
    unfolding wp_and_then wp_ret by (rule wp_append_event [where w = w]) (auto simp: w Q R)
  have swap: "s\<lparr>tick := k, drawn := d, tick := k'\<rparr> = s\<lparr>tick := k', drawn := d\<rparr>" for k k' d
    by (cases s) simp
  show ?thesis
    using append unfolding record_event_def work_scope_def
    by (simp add: wp_on_work_reading [OF w] wp_mint_id_eq R swap split: option.split sum.split)
qed

lemma wp_commit_some:
  "opened s = Some w \<Longrightarrow> \<not> failed w \<Longrightarrow> wp commit Q R s = Q () (s\<lparr>shared := working w, opened := None\<rparr>)"
  by (simp add: wp_commit)

lemmas run_simps = begin_work_def wp_on_work_reading wp_on_work_writing wp_mint_id_eq wp_commit_some
  Let_def uow_realm_def

text \<open>
  An invariant that does not look at the chains is kept by a use case that keeps it in the state it
  leaves, the chains aside.
\<close>

definition blind_to_chains :: "(state \<Rightarrow> bool) \<Rightarrow> bool" where
  "blind_to_chains I \<longleftrightarrow> (\<forall>s chain. I (s\<lparr>st_audit := chain\<rparr>) = I s)"

lemma same_but_chain_refl [simp]: "same_but_chain s s"
  unfolding same_but_chain_def by (rule exI [of _ "st_audit s"]) simp

lemma leaves_keep:
  assumes "wp run (\<lambda>x t. same_but_chain (shared t) (after x) \<and> guard x) (\<lambda>_ t. shared t = shared s) s"
    and "blind_to_chains I" and "I (shared s)" and "\<And>x. guard x \<Longrightarrow> I (after x)"
  shows "wp run (\<lambda>_ t. I (shared t)) (\<lambda>_ t. I (shared t)) s"
  using assms by (auto elim!: wp_mono simp: same_but_chain_def blind_to_chains_def)

lemma steady_on_work_storage [steady_intro]:
  assumes "silent m"
  shows "steady (map_err g (on_work_storage m))"
proof -
  have "steady (on_work m)" using assms by (rule steady_on_work)
  then show ?thesis by (simp add: steady_def leads_def on_work_def)
qed

lemma silent_record_refusal [silent_intro]: "silent m \<Longrightarrow> silent (record_refusal m)"
  by (auto simp: silent_def quiet_def record_refusal_def split_beta split: sum.split)

text \<open>A step that looks at neither the storage nor the unit of work in hand leaves the phase as it is.\<close>

lemma steady_writes_nothing: "writes_nothing m \<Longrightarrow> steady m"
proof -
  assume "writes_nothing m"
  then have "wp m (\<lambda>_. in_hand s0 realm n) (\<lambda>_. untouched s0) s" if "in_hand s0 realm n s" for s0 realm n s
    by (rule wp_writes_nothing) (use that in \<open>auto simp: in_hand_def untouched_def idle_def\<close>)
  moreover have "wp m (\<lambda>_. untouched s0) (\<lambda>_. untouched s0) s" if "untouched s0 s" for s0 s
    by (rule wp_writes_nothing [OF \<open>writes_nothing m\<close>]) (use that in \<open>auto simp: untouched_def idle_def\<close>)
  ultimately show ?thesis by (simp add: steady_def leads_def)
qed

subsection \<open>A program that records\<close>

text \<open>The ports of an application whose envelopes read back as those of the scope they are written for.\<close>

definition sample_recording_app :: app where
  "sample_recording_app = sample_app\<lparr>app_uuid_text := \<lambda>_. ''u'', app_format_instant := \<lambda>_. Some ''t'',
     app_json_read := \<lambda>_. Some (json_object [(''tenant_id'', JString ''u''), (''realm_id'', JString ''u'')])\<rparr>"

lemma sample_ports: "app_format_instant sample_recording_app t = Some ''t''" "app_random sample_recording_app k n = Some (replicate n CHR ''r'')"
  by (simp_all add: sample_recording_app_def sample_app_def)

lemma wp_sample_records:
  assumes "opened s = Some w" and "\<not> read_only w" and "safe_json payload"
    and "\<And>chain k d. Q () (s\<lparr>tick := k, drawn := d, opened := Some (w\<lparr>working := (working w)\<lparr>st_audit := chain\<rparr>\<rparr>)\<rparr>)"
  shows "wp (record_event sample_recording_app kind payload) Q R s"
proof -
  have swap: "s\<lparr>tick := k, drawn := d, tick := k'\<rparr> = s\<lparr>tick := k', drawn := d\<rparr>" for k k' d
    by (cases s) simp
  have "\<exists>written. canonicalize (event_envelope_of sample_recording_app i scope kind ''t'' payload) = Ok written" for i scope
    using assms(3) by (intro canonicalize_safe) (auto simp: event_envelope_of_def intro!: safe_json_object)
  then obtain written where written:
    "\<And>i scope. canonicalize (event_envelope_of sample_recording_app i scope kind ''t'' payload) = Ok (written i scope)"
    by metis
  have "\<exists>chain pos. link_event sample_recording_app envelope w =
      (Ok pos, w\<lparr>working := (working w)\<lparr>st_audit := chain\<rparr>\<rparr>)" for envelope
    using assms(2) by (auto simp: link_event_def and_then_def refuse_in_snapshot_def sample_recording_app_def envelope_names_def
        json_get_object Let_def)
  then obtain chain pos where appended: "\<And>envelope. link_event sample_recording_app envelope w =
      (Ok (pos envelope), w\<lparr>working := (working w)\<lparr>st_audit := chain envelope\<rparr>\<rparr>)"
    by metis
  have "wp (link_event sample_recording_app envelope) Q R w =
      Q (pos envelope) (w\<lparr>working := (working w)\<lparr>st_audit := chain envelope\<rparr>\<rparr>)" for envelope Q R
    by (simp add: wp_def appended)
  then have "wp (record_event sample_recording_app kind payload) (\<lambda>_ t. \<exists>chain k d.
      t = s\<lparr>tick := k, drawn := d, opened := Some (w\<lparr>working := (working w)\<lparr>st_audit := chain\<rparr>\<rparr>)\<rparr>) (\<lambda>_ _. False) s"
    unfolding record_event_def work_scope_def using assms(1)
    by (simp add: wp_on_work_reading [OF assms(1)] wp_mint_id_eq swap sample_ports written wp_on_work store_append_audit_event_def)
       (cases s; auto)
  then show ?thesis by (rule wp_mono) (auto intro: assms(4))
qed

end
