(* ===== verification/Roles.thy ===== *)
theory Roles
  imports Audited
begin

text \<open>
  Roles and groups, and who holds them (\<open>saffui-core/src/authz/roles.rs\<close> and
  \<open>saffui-core/src/authz/grants.rs\<close>): every use case of the two files over the application, and
  what a token says of the roles of a person. The lemmas show how long a settled grant stands,
  which roles a person holds at an instant, and that a token never says a role past its end.
\<close>

subsection \<open>Roles\<close>

definition describe_actor :: "admin_caller \<Rightarrow> json" where
  "describe_actor caller = json_object [(''client_id'', JString (client_id (caller_client caller)))]"

record new_role =
  wanted_role_name :: string
  wanted_role_client_id :: "string option"
  wanted_role_description :: "string option"

definition require_named_client :: "app \<Rightarrow> string option \<Rightarrow> unit use_case" where
  "require_named_client app name =
     (case name of
        None \<Rightarrow> ret ()
      | Some c \<Rightarrow>
          and_then (read_named_client app c) (\<lambda>found.
          ensure (found \<noteq> None) (new_failure ClientNotFound)))"

definition create_role :: "app \<Rightarrow> admin_caller \<Rightarrow> new_role \<Rightarrow> role use_case" where
  "create_role app caller wanted =
     and_then (ensure (is_role_name (wanted_role_name wanted)) (new_failure RoleNameInvalid)) (\<lambda>_.
     and_then (lift_result (read_role_text (wanted_role_description wanted))) (\<lambda>description.
     and_then (begin_work (caller_scope caller)) (\<lambda>_.
     and_then (require_named_client app (wanted_role_client_id wanted)) (\<lambda>_.
     and_then (mint_id app) (\<lambda>i.
     and_then (now app) (\<lambda>t.
     let r = \<lparr>role_id = i, role_client_id = wanted_role_client_id wanted,
              role_name = wanted_role_name wanted, role_description = description, role_created_at = t\<rparr> in
     and_then (on_work (store_insert_role r)) (\<lambda>inserted.
     and_then (ensure inserted (new_failure RoleNameTaken)) (\<lambda>_.
     and_then (record_event app RoleCreated (json_object
         [(''actor'', describe_actor caller),
          (''client_id'', json_text_option (role_client_id r)),
          (''name'', JString (role_name r)),
          (''role_id'', JString (app_uuid_text app (role_id r)))])) (\<lambda>_.
     and_then commit (\<lambda>_. ret r))))))))))"

definition list_roles :: "realm_scope \<Rightarrow> list_window \<Rightarrow> bool \<Rightarrow> (role list \<times> nat option) use_case" where
  "list_roles scope window counted =
     and_then (begin_work scope) (\<lambda>_.
     and_then (on_work (store_list_roles window)) (\<lambda>roles.
     if counted
     then and_then (on_work store_count_roles) (\<lambda>total. ret (roles, Some total))
     else ret (roles, None)))"

definition delete_role :: "app \<Rightarrow> admin_caller \<Rightarrow> uuid \<Rightarrow> unit use_case" where
  "delete_role app caller i =
     and_then (begin_work (caller_scope caller)) (\<lambda>_.
     and_then (on_work store_lock_definitions) (\<lambda>_.
     and_then (on_work (store_is_named_by_policy app ''role'' i)) (\<lambda>is_named.
     and_then (ensure (\<not> is_named) (new_failure NamedByPolicy)) (\<lambda>_.
     and_then (on_work (store_delete_role i)) (\<lambda>removed.
     and_then (ensure removed (new_failure RoleNotFound)) (\<lambda>_.
     and_then (record_event app RoleDeleted (json_object
         [(''actor'', describe_actor caller), (''role_id'', JString (app_uuid_text app i))])) (\<lambda>_.
     commit)))))))"

record new_group =
  wanted_group_name :: string
  wanted_group_description :: "string option"

definition create_group :: "app \<Rightarrow> admin_caller \<Rightarrow> new_group \<Rightarrow> group use_case" where
  "create_group app caller wanted =
     and_then (ensure (is_role_name (wanted_group_name wanted)) (new_failure GroupNameInvalid)) (\<lambda>_.
     and_then (mint_id app) (\<lambda>i.
     and_then (lift_result (read_role_text (wanted_group_description wanted))) (\<lambda>description.
     and_then (now app) (\<lambda>t.
     let g = \<lparr>group_id = i, group_name = wanted_group_name wanted, group_description = description,
              group_created_at = t\<rparr> in
     and_then (begin_work (caller_scope caller)) (\<lambda>_.
     and_then (on_work (store_insert_group g)) (\<lambda>inserted.
     and_then (ensure inserted (new_failure GroupNameTaken)) (\<lambda>_.
     and_then (record_event app GroupCreated (json_object
         [(''actor'', describe_actor caller),
          (''group_id'', JString (app_uuid_text app (group_id g))),
          (''name'', JString (group_name g))])) (\<lambda>_.
     and_then commit (\<lambda>_. ret g)))))))))"

definition list_groups :: "realm_scope \<Rightarrow> list_window \<Rightarrow> bool \<Rightarrow> (group list \<times> nat option) use_case" where
  "list_groups scope window counted =
     and_then (begin_work scope) (\<lambda>_.
     and_then (on_work (store_list_groups window)) (\<lambda>groups.
     if counted
     then and_then (on_work store_count_groups) (\<lambda>total. ret (groups, Some total))
     else ret (groups, None)))"

definition delete_group :: "app \<Rightarrow> admin_caller \<Rightarrow> uuid \<Rightarrow> unit use_case" where
  "delete_group app caller i =
     and_then (begin_work (caller_scope caller)) (\<lambda>_.
     and_then (on_work store_lock_definitions) (\<lambda>_.
     and_then (on_work (store_is_named_by_policy app ''group'' i)) (\<lambda>is_named.
     and_then (ensure (\<not> is_named) (new_failure NamedByPolicy)) (\<lambda>_.
     and_then (on_work (store_delete_group i)) (\<lambda>removed.
     and_then (ensure removed (new_failure GroupNotFound)) (\<lambda>_.
     and_then (record_event app GroupDeleted (json_object
         [(''actor'', describe_actor caller), (''group_id'', JString (app_uuid_text app i))])) (\<lambda>_.
     commit)))))))"

subsection \<open>Grants\<close>

record grant_terms =
  terms_valid_from :: "instant option"
  terms_valid_until :: "instant option"
  terms_reason :: "string option"

definition settle_grant :: "admin_caller \<Rightarrow> grant_terms \<Rightarrow> instant \<Rightarrow> failure + grant" where
  "settle_grant caller terms t =
     (let start = (case terms_valid_from terms of None \<Rightarrow> t | Some f \<Rightarrow> max f t) in
      if is_some_and (\<lambda>until. until \<le> start) (terms_valid_until terms)
      then Err (new_failure GrantPeriodInvalid)
      else
        (case read_role_text (terms_reason terms) of
           Err e \<Rightarrow> Err e
         | Ok reason \<Rightarrow>
             Ok \<lparr>valid_from = start, valid_until = terms_valid_until terms,
                 granted_by = client_id (caller_client caller), grant_reason = reason, granted_at = t\<rparr>))"

definition describe_holder :: "app \<Rightarrow> role_holder \<Rightarrow> json" where
  "describe_holder app h =
     (case h of
        Person_holder p \<Rightarrow> json_object [(''person_id'', JString (app_uuid_text app p))]
      | Group_holder g \<Rightarrow> json_object [(''group_id'', JString (app_uuid_text app g))])"

definition describe_grant :: "app \<Rightarrow> grant \<Rightarrow> json" where
  "describe_grant app g = json_object
     [(''reason'', json_text_option (grant_reason g)),
      (''valid_from'', JString (write_instant app (valid_from g))),
      (''valid_until'', json_text_option (map_option (write_instant app) (valid_until g)))]"

definition require_person :: "uuid \<Rightarrow> unit use_case" where
  "require_person p = and_then (on_work (store_read_person p)) (\<lambda>found.
     ensure (found \<noteq> None) (new_failure PersonNotFound))"

definition require_group :: "uuid \<Rightarrow> unit use_case" where
  "require_group g = and_then (on_work (store_read_group g)) (\<lambda>found.
     ensure (found \<noteq> None) (new_failure GroupNotFound))"

definition require_holder :: "role_holder \<Rightarrow> unit use_case" where
  "require_holder h = (case h of Person_holder p \<Rightarrow> require_person p | Group_holder g \<Rightarrow> require_group g)"

definition grant_role :: "app \<Rightarrow> admin_caller \<Rightarrow> uuid \<Rightarrow> role_holder \<Rightarrow> grant_terms \<Rightarrow> grant use_case" where
  "grant_role app caller i h terms =
     and_then (now app) (\<lambda>t.
     and_then (lift_result (settle_grant caller terms t)) (\<lambda>g.
     and_then (begin_work (caller_scope caller)) (\<lambda>_.
     and_then (on_work (store_read_role i)) (\<lambda>found.
     and_then (ensure (found \<noteq> None) (new_failure RoleNotFound)) (\<lambda>_.
     and_then (require_holder h) (\<lambda>_.
     let given = \<lparr>granted_role = i, holder = h, role_terms = g\<rparr> in
     and_then (on_work (store_write_role_grant given)) (\<lambda>_.
     and_then (record_event app RoleGranted (json_object
         [(''actor'', describe_actor caller),
          (''grant'', describe_grant app g),
          (''holder'', describe_holder app h),
          (''role_id'', JString (app_uuid_text app i))])) (\<lambda>_.
     and_then commit (\<lambda>_. ret g)))))))))"

definition revoke_role :: "app \<Rightarrow> admin_caller \<Rightarrow> uuid \<Rightarrow> role_holder \<Rightarrow> unit use_case" where
  "revoke_role app caller i h =
     and_then (begin_work (caller_scope caller)) (\<lambda>_.
     and_then (on_work (store_delete_role_grant i h)) (\<lambda>removed.
     and_then (ensure removed (new_failure RoleGrantNotFound)) (\<lambda>_.
     and_then (record_event app RoleRevoked (json_object
         [(''actor'', describe_actor caller),
          (''holder'', describe_holder app h),
          (''role_id'', JString (app_uuid_text app i))])) (\<lambda>_.
     commit))))"

definition add_member :: "app \<Rightarrow> admin_caller \<Rightarrow> uuid \<Rightarrow> uuid \<Rightarrow> grant_terms \<Rightarrow> grant use_case" where
  "add_member app caller grp p terms =
     and_then (now app) (\<lambda>t.
     and_then (lift_result (settle_grant caller terms t)) (\<lambda>g.
     and_then (begin_work (caller_scope caller)) (\<lambda>_.
     and_then (require_group grp) (\<lambda>_.
     and_then (require_person p) (\<lambda>_.
     and_then (on_work (store_write_membership \<lparr>member_group = grp, member_person = p, member_terms = g\<rparr>)) (\<lambda>_.
     and_then (record_event app MemberAdded (json_object
         [(''actor'', describe_actor caller),
          (''grant'', describe_grant app g),
          (''group_id'', JString (app_uuid_text app grp)),
          (''person_id'', JString (app_uuid_text app p))])) (\<lambda>_.
     and_then commit (\<lambda>_. ret g))))))))"

definition remove_member :: "app \<Rightarrow> admin_caller \<Rightarrow> uuid \<Rightarrow> uuid \<Rightarrow> unit use_case" where
  "remove_member app caller grp p =
     and_then (begin_work (caller_scope caller)) (\<lambda>_.
     and_then (on_work (store_delete_membership grp p)) (\<lambda>removed.
     and_then (ensure removed (new_failure MembershipNotFound)) (\<lambda>_.
     and_then (record_event app MemberRemoved (json_object
         [(''actor'', describe_actor caller),
          (''group_id'', JString (app_uuid_text app grp)),
          (''person_id'', JString (app_uuid_text app p))])) (\<lambda>_.
     commit))))"

subsection \<open>What is held\<close>

definition MAX_HELD :: nat where
  "MAX_HELD = 1000"

definition read_held_roles :: "uuid \<Rightarrow> instant \<Rightarrow> held_role list use_case" where
  "read_held_roles p t =
     and_then (on_work (store_list_held_roles p t (MAX_HELD + 1))) (\<lambda>held.
     if length held > MAX_HELD then throw (new_failure HeldTooMany) else ret held)"

definition read_member_groups :: "uuid \<Rightarrow> instant \<Rightarrow> uuid list use_case" where
  "read_member_groups p t =
     and_then (on_work (store_list_member_groups p t (MAX_HELD + 1))) (\<lambda>groups.
     if length groups > MAX_HELD then throw (new_failure HeldTooMany) else ret groups)"

definition list_held_roles :: "app \<Rightarrow> realm_scope \<Rightarrow> uuid \<Rightarrow> held_role list use_case" where
  "list_held_roles app scope p =
     and_then (begin_work scope) (\<lambda>_.
     and_then (require_person p) (\<lambda>_.
     and_then (now app) (\<lambda>t.
     read_held_roles p t)))"

subsection \<open>What a token says of roles\<close>

record role_claims =
  claimed_realm :: "string list"
  claimed_client :: "string list"
  claimed_until :: "instant option"

definition is_said :: "string \<Rightarrow> held_role \<Rightarrow> bool" where
  "is_said client way \<longleftrightarrow> is_none_or (\<lambda>owner. owner = client) (held_client_id way)"

text \<open>Of two ways to hold one role, the longer counts: no end wins over any.\<close>

definition longer_end :: "instant option \<Rightarrow> instant option \<Rightarrow> instant option" where
  "longer_end one other =
     (case (one, other) of (Some a, Some b) \<Rightarrow> Some (max a b) | _ \<Rightarrow> None)"

definition gather_way ::
    "(uuid \<times> held_role \<times> instant option) list \<Rightarrow> held_role \<Rightarrow> (uuid \<times> held_role \<times> instant option) list" where
  "gather_way lasting way =
     (case map_of lasting (held_id way) of
        Some (first, until) \<Rightarrow> bt_insert (held_id way) (first, longer_end until (held_until way)) lasting
      | None \<Rightarrow> bt_insert (held_id way) (way, held_until way) lasting)"

definition claim_role :: "role_claims \<Rightarrow> held_role \<times> instant option \<Rightarrow> role_claims" where
  "claim_role claims entry =
     (case entry of (r, until) \<Rightarrow>
       let told = (if held_client_id r \<noteq> None
                   then claims\<lparr>claimed_client := claimed_client claims @ [held_name r]\<rparr>
                   else claims\<lparr>claimed_realm := claimed_realm claims @ [held_name r]\<rparr>)
       in case until of
            None \<Rightarrow> told
          | Some u \<Rightarrow> told\<lparr>claimed_until :=
              Some (case claimed_until claims of None \<Rightarrow> u | Some first \<Rightarrow> min first u)\<rparr>)"

definition gather_roles :: "held_role list \<Rightarrow> string \<Rightarrow> role_claims" where
  "gather_roles held client =
     (let lasting = foldl gather_way [] (filter (is_said client) held);
          claims = foldl claim_role \<lparr>claimed_realm = [], claimed_client = [], claimed_until = None\<rparr>
                     (map snd lasting)
      in claims\<lparr>claimed_realm := sort (claimed_realm claims),
                claimed_client := sort (claimed_client claims)\<rparr>)"

definition write_realm_access :: "role_claims \<Rightarrow> json" where
  "write_realm_access claims = json_object [(''roles'', JArray (map JString (claimed_realm claims)))]"

definition write_resource_access :: "role_claims \<Rightarrow> string \<Rightarrow> json" where
  "write_resource_access claims client = json_object
     [(client, json_object [(''roles'', JArray (map JString (claimed_client claims)))])]"

definition read_role_claims :: "uuid \<Rightarrow> string \<Rightarrow> instant \<Rightarrow> role_claims use_case" where
  "read_role_claims p client t =
     and_then (read_held_roles p t) (\<lambda>held. ret (gather_roles held client))"

subsection \<open>Every change is said in the chain\<close>

lemma steady_require [steady_intro]:
  "steady (require_named_client app name)" "steady (require_holder h)" "steady (require_person p)"
  "steady (require_group g)"
  unfolding require_named_client_def require_holder_def require_person_def require_group_def
  by (auto intro!: steady_intro silent_intro split: role_holder.split)

interpretation role_creation: audited_use_case "create_role app caller wanted" "scope_realm (caller_scope caller)"
  for app caller wanted
  unfolding create_role_def Let_def
  by (rule audited_by_phases) (rule phase_moves | rule phase_steps | intro steady_intro silent_intro)+

interpretation role_deletion: audited_use_case "delete_role app caller i" "scope_realm (caller_scope caller)"
  for app caller i
  unfolding delete_role_def
  by (rule audited_by_phases) (rule phase_moves | rule phase_steps | intro steady_intro silent_intro)+

interpretation group_creation: audited_use_case "create_group app caller wanted" "scope_realm (caller_scope caller)"
  for app caller wanted
  unfolding create_group_def Let_def
  by (rule audited_by_phases) (rule phase_moves | rule phase_steps | intro steady_intro silent_intro)+

interpretation group_deletion: audited_use_case "delete_group app caller i" "scope_realm (caller_scope caller)"
  for app caller i
  unfolding delete_group_def
  by (rule audited_by_phases) (rule phase_moves | rule phase_steps | intro steady_intro silent_intro)+

interpretation role_grant: audited_use_case "grant_role app caller i h terms" "scope_realm (caller_scope caller)"
  for app caller i h terms
  unfolding grant_role_def Let_def
  by (rule audited_by_phases) (rule phase_moves | rule phase_steps | intro steady_intro silent_intro)+

interpretation role_revocation: audited_use_case "revoke_role app caller i h" "scope_realm (caller_scope caller)"
  for app caller i h
  unfolding revoke_role_def
  by (rule audited_by_phases) (rule phase_moves | rule phase_steps | intro steady_intro silent_intro)+

interpretation member_addition: audited_use_case "add_member app caller grp p terms" "scope_realm (caller_scope caller)"
  for app caller grp p terms
  unfolding add_member_def Let_def
  by (rule audited_by_phases) (rule phase_moves | rule phase_steps | intro steady_intro silent_intro)+

interpretation member_removal: audited_use_case "remove_member app caller grp p" "scope_realm (caller_scope caller)"
  for app caller grp p
  unfolding remove_member_def
  by (rule audited_by_phases) (rule phase_moves | rule phase_steps | intro steady_intro silent_intro)+

subsection \<open>What each use case leaves\<close>

lemma wp_require_named_client:
  assumes "opened s = Some w" and "Q () s" and "\<And>e. R e s"
  shows "wp (require_named_client app name) Q R s"
  using assms unfolding require_named_client_def
  by (auto split: option.split intro!: wp_read_named_client [where w = w])

lemma create_role_leaves: "wp (create_role app caller wanted)
    (\<lambda>r t. same_but_chain (shared t) ((shared s)\<lparr>st_roles := (st_roles (shared s))(home caller :=
         st_roles (shared s) (home caller) @ [r])\<rparr>) \<and>
       role_name r = wanted_role_name wanted \<and> role_client_id r = wanted_role_client_id wanted \<and>
       (\<forall>known \<in> set (st_roles (shared s) (home caller)).
          role_client_id known = role_client_id r \<longrightarrow> role_name known \<noteq> role_name r))
    (\<lambda>_ t. shared t = shared s) s"
  unfolding create_role_def store_insert_role_def
  by (auto simp: run_simps list_ex_iff intro!: wp_record_event wp_require_named_client
      split: option.split sum.split)

lemma create_group_leaves: "wp (create_group app caller wanted)
    (\<lambda>g t. same_but_chain (shared t) ((shared s)\<lparr>st_groups := (st_groups (shared s))(home caller :=
         st_groups (shared s) (home caller) @ [g])\<rparr>) \<and>
       (\<forall>known \<in> set (st_groups (shared s) (home caller)). group_name known \<noteq> group_name g))
    (\<lambda>_ t. shared t = shared s) s"
  unfolding create_group_def store_insert_group_def
  by (auto simp: run_simps list_ex_iff intro!: wp_record_event split: option.split sum.split)

lemma delete_role_leaves: "wp (delete_role app caller i)
    (\<lambda>_ t. same_but_chain (shared t) ((shared s)\<lparr>
        st_roles := (st_roles (shared s))(home caller := filter (\<lambda>r. role_id r \<noteq> i) (st_roles (shared s) (home caller))),
        st_role_grants := (st_role_grants (shared s))(home caller :=
          filter (\<lambda>g. granted_role g \<noteq> i) (st_role_grants (shared s) (home caller)))\<rparr>) \<and>
       \<not> list_ex (names_in_conditions app ''role'' i) (st_policies (shared s) (home caller)))
    (\<lambda>_ t. shared t = shared s) s"
  unfolding delete_role_def store_reads store_delete_role_def
  by (auto simp: run_simps intro!: wp_record_event split: option.split)

lemma delete_group_leaves: "wp (delete_group app caller i)
    (\<lambda>_ t. same_but_chain (shared t) ((shared s)\<lparr>
        st_groups := (st_groups (shared s))(home caller := filter (\<lambda>g. group_id g \<noteq> i) (st_groups (shared s) (home caller))),
        st_role_grants := (st_role_grants (shared s))(home caller :=
          filter (\<lambda>g. holder g \<noteq> Group_holder i) (st_role_grants (shared s) (home caller))),
        st_memberships := (st_memberships (shared s))(home caller :=
          filter (\<lambda>m. member_group m \<noteq> i) (st_memberships (shared s) (home caller)))\<rparr>) \<and>
       \<not> list_ex (names_in_conditions app ''group'' i) (st_policies (shared s) (home caller)))
    (\<lambda>_ t. shared t = shared s) s"
  unfolding delete_group_def store_reads store_delete_group_def
  by (auto simp: run_simps intro!: wp_record_event split: option.split)

text \<open>Whether a holder is known: a person or a group of the realm.\<close>

definition is_known_holder :: "state \<Rightarrow> uuid \<Rightarrow> role_holder \<Rightarrow> bool" where
  "is_known_holder s realm h =
     (case h of
        Person_holder p \<Rightarrow> p \<in> person_id ` set (st_persons s realm)
      | Group_holder g \<Rightarrow> g \<in> group_id ` set (st_groups s realm))"

lemma grant_role_leaves: "wp (grant_role app caller i h terms)
    (\<lambda>g t. same_but_chain (shared t) ((shared s)\<lparr>st_role_grants := (st_role_grants (shared s))(home caller :=
         filter (\<lambda>known. (granted_role known, holder known) \<noteq> (i, h)) (st_role_grants (shared s) (home caller)) @
         [\<lparr>granted_role = i, holder = h, role_terms = g\<rparr>])\<rparr>) \<and>
       (\<exists>r \<in> set (st_roles (shared s) (home caller)). role_id r = i) \<and>
       is_known_holder (shared s) (home caller) h)
    (\<lambda>_ t. shared t = shared s) s"
  unfolding grant_role_def require_holder_def require_person_def require_group_def store_reads
    store_write_role_grant_def
  by (auto simp: run_simps is_known_holder_def intro!: wp_record_event dest!: find_found
      split: option.split sum.split role_holder.split)

lemma revoke_role_leaves: "wp (revoke_role app caller i h)
    (\<lambda>_ t. same_but_chain (shared t) ((shared s)\<lparr>st_role_grants := (st_role_grants (shared s))(home caller :=
         filter (\<lambda>known. (granted_role known, holder known) \<noteq> (i, h)) (st_role_grants (shared s) (home caller)))\<rparr>) \<and>
       length (filter (\<lambda>known. (granted_role known, holder known) \<noteq> (i, h)) (st_role_grants (shared s) (home caller)))
         < length (st_role_grants (shared s) (home caller)))
    (\<lambda>_ t. shared t = shared s) s"
  unfolding revoke_role_def store_delete_role_grant_def
  by (auto simp: run_simps intro!: wp_record_event split: option.split)

lemma add_member_leaves: "wp (add_member app caller grp p terms)
    (\<lambda>g t. same_but_chain (shared t) ((shared s)\<lparr>st_memberships := (st_memberships (shared s))(home caller :=
         filter (\<lambda>known. (member_group known, member_person known) \<noteq> (grp, p)) (st_memberships (shared s) (home caller)) @
         [\<lparr>member_group = grp, member_person = p, member_terms = g\<rparr>])\<rparr>) \<and>
       is_known_holder (shared s) (home caller) (Group_holder grp) \<and>
       is_known_holder (shared s) (home caller) (Person_holder p))
    (\<lambda>_ t. shared t = shared s) s"
  unfolding add_member_def require_group_def require_person_def store_reads store_write_membership_def
  by (auto simp: run_simps is_known_holder_def intro!: wp_record_event dest!: find_found
      split: option.split sum.split)

lemma remove_member_leaves: "wp (remove_member app caller grp p)
    (\<lambda>_ t. same_but_chain (shared t) ((shared s)\<lparr>st_memberships := (st_memberships (shared s))(home caller :=
         filter (\<lambda>known. (member_group known, member_person known) \<noteq> (grp, p)) (st_memberships (shared s) (home caller)))\<rparr>) \<and>
       length (filter (\<lambda>known. (member_group known, member_person known) \<noteq> (grp, p)) (st_memberships (shared s) (home caller)))
         < length (st_memberships (shared s) (home caller)))
    (\<lambda>_ t. shared t = shared s) s"
  unfolding remove_member_def store_delete_membership_def
  by (auto simp: run_simps intro!: wp_record_event split: option.split)

subsection \<open>The ways to hold a role\<close>

text \<open>What a way is, and the ways the storage lists before they are sorted and cut.\<close>

definition is_way :: "state \<Rightarrow> uuid \<Rightarrow> uuid \<Rightarrow> instant \<Rightarrow> held_role \<Rightarrow> bool" where
  "is_way s realm p t h \<longleftrightarrow>
     (\<exists>g \<in> set (st_role_grants s realm). stands_at (role_terms g) t \<and>
        (holder g = Person_holder p \<and>
           describe_held (st_roles s realm) g None (valid_until (role_terms g)) = Some h \<or>
         (\<exists>m \<in> set (st_memberships s realm). member_person m = p \<and> stands_at (member_terms m) t \<and>
            holder g = Group_holder (member_group m) \<and>
            describe_held (st_roles s realm) g (Some (member_group m))
              (first_end (valid_until (member_terms m)) (valid_until (role_terms g))) = Some h)))"

definition ways :: "state \<Rightarrow> uuid \<Rightarrow> uuid \<Rightarrow> instant \<Rightarrow> held_role list" where
  "ways s realm p t =
     held_directly (st_roles s realm) (st_role_grants s realm) p t @
     held_through_groups (st_roles s realm) (st_role_grants s realm) (st_memberships s realm) p t"

lemma in_ways: "h \<in> set (ways s realm p t) \<longleftrightarrow> is_way s realm p t h"
  by (auto simp: ways_def is_way_def held_directly_def held_through_groups_def in_map_filter)

lemma described_until: "describe_held roles g through until = Some h \<Longrightarrow> held_until h = until"
  by (auto simp: describe_held_def)

lemma first_end_later:
  "is_none_or (\<lambda>u. t < u) a \<Longrightarrow> is_none_or (\<lambda>u. t < u) b \<Longrightarrow> is_none_or (\<lambda>u. t < u) (first_end a b)"
  by (auto simp: first_end_def split: option.split)

lemma way_ends_later: "is_way s realm p t h \<Longrightarrow> is_none_or (\<lambda>u. t < u) (held_until h)"
  by (auto simp: is_way_def stands_at_def first_end_later dest!: described_until)

lemma wp_read_held_roles:
  assumes "opened s = Some w"
  shows "wp (read_held_roles p t)
    (\<lambda>held s'. s' = s \<and> length held \<le> MAX_HELD \<and> (\<forall>h. h \<in> set held \<longleftrightarrow> is_way (working w) (uow_realm w) p t h))
    (\<lambda>e s'. s' = s \<and> e = new_failure HeldTooMany \<and> length (ways (working w) (uow_realm w) p t) > MAX_HELD) s"
proof -
  let ?all = "sort_key (\<lambda>h. (held_name h, held_client_id h, held_through h)) (ways (working w) (uow_realm w) p t)"
  have "set ?all = {h. is_way (working w) (uow_realm w) p t h}" by (auto simp: in_ways)
  moreover have "length (take (Suc MAX_HELD) ?all) \<le> MAX_HELD \<Longrightarrow> take (Suc MAX_HELD) ?all = ?all" by simp
  ultimately show ?thesis
    using assms
    by (auto simp: read_held_roles_def store_list_held_roles_def wp_on_work_reading Let_def
        ways_def [symmetric] in_ways)
qed

subsection \<open>What claims say\<close>

text \<open>What the loop over the ways has gathered: one row per role, with an end that is one of its ways'.\<close>

lemma longer_end_cases: "longer_end a b = a \<or> longer_end a b = b"
  by (auto simp: longer_end_def max_def split: option.split)

definition gathered_from :: "held_role list \<Rightarrow> (uuid \<times> held_role \<times> instant option) list \<Rightarrow> bool" where
  "gathered_from held lasting \<longleftrightarrow> bt_sorted lasting \<and>
     fst ` set lasting = held_id ` set held \<and>
     (\<forall>(i, first, until) \<in> set lasting. first \<in> set held \<and> held_id first = i \<and>
        (\<exists>way \<in> set held. held_id way = i \<and> held_until way = until))"

lemma gather_way_gathers:
  assumes "gathered_from held lasting"
  shows "gathered_from (held @ [way]) (gather_way lasting way)"
proof -
  have sorted: "bt_sorted lasting" and keys: "fst ` set lasting = held_id ` set held"
    and rows: "\<And>i first until. (i, first, until) \<in> set lasting \<Longrightarrow> first \<in> set held \<and> held_id first = i \<and>
        (\<exists>way \<in> set held. held_id way = i \<and> held_until way = until)"
    using assms by (auto simp: gathered_from_def)
  obtain first until where gathered: "gather_way lasting way = bt_insert (held_id way) (first, until) lasting"
    and first: "first \<in> set (held @ [way])" "held_id first = held_id way"
    and until: "\<exists>x \<in> set (held @ [way]). held_id x = held_id way \<and> held_until x = until"
  proof (cases "map_of lasting (held_id way)")
    case None
    then show ?thesis using that by (simp add: gather_way_def)
  next
    case (Some entry)
    obtain first until where entry: "entry = (first, until)" by (cases entry)
    have "(held_id way, first, until) \<in> set lasting" using Some entry by (simp add: map_of_SomeD)
    note row = rows [OF this]
    show ?thesis
    proof (rule that)
      show "gather_way lasting way = bt_insert (held_id way) (first, longer_end until (held_until way)) lasting"
        using Some entry by (simp add: gather_way_def)
    qed (use row longer_end_cases [of until "held_until way"] in auto)
  qed
  have "bt_sorted (gather_way lasting way)"
    using sorted by (simp add: gathered bt_sorted_insert)
  moreover have "fst ` set (gather_way lasting way) = held_id ` set (held @ [way])"
    using keys by (simp add: gathered fst_set_bt_insert)
  moreover have "x \<in> set (held @ [way]) \<and> held_id x = i \<and>
      (\<exists>y \<in> set (held @ [way]). held_id y = i \<and> held_until y = u)"
    if "(i, x, u) \<in> set (gather_way lasting way)" for i x u
  proof (cases "i = held_id way")
    case True
    then have "x = first" "u = until" using that sorted by (auto simp: gathered bt_insert_entries)
    then show ?thesis using True first until by simp
  next
    case False
    then have "(i, x, u) \<in> set lasting" using that sorted by (auto simp: gathered bt_insert_entries)
    from rows [OF this] show ?thesis by auto
  qed
  ultimately show ?thesis by (auto simp: gathered_from_def)
qed

lemma gather_ways: "gathered_from held (foldl gather_way [] held)"
proof (induction held rule: rev_induct)
  case Nil
  then show ?case by (simp add: gathered_from_def)
next
  case (snoc way held)
  then show ?case by (simp add: gather_way_gathers)
qed

lemma claimed_until_step:
  "claimed_until (claim_role claims (r, until)) =
     (case until of None \<Rightarrow> claimed_until claims
      | Some u \<Rightarrow> Some (case claimed_until claims of None \<Rightarrow> u | Some first \<Rightarrow> min first u))"
  by (simp add: claim_role_def Let_def split: option.split)

lemma claimed_names_step:
  "claimed_realm (claim_role claims (r, until)) =
     claimed_realm claims @ (if held_client_id r = None then [held_name r] else [])"
  "claimed_client (claim_role claims (r, until)) =
     claimed_client claims @ (if held_client_id r = None then [] else [held_name r])"
  by (simp_all add: claim_role_def Let_def split: option.split)

definition no_claims :: role_claims where
  "no_claims = \<lparr>claimed_realm = [], claimed_client = [], claimed_until = None\<rparr>"

lemma claimed_names:
  "claimed_realm (foldl claim_role no_claims entries) =
     map held_name (filter (\<lambda>r. held_client_id r = None) (map fst entries))"
  "claimed_client (foldl claim_role no_claims entries) =
     map held_name (filter (\<lambda>r. held_client_id r \<noteq> None) (map fst entries))"
proof (induction entries rule: rev_induct)
  case Nil
  { case 1 then show ?case by (simp add: no_claims_def) next case 2 then show ?case by (simp add: no_claims_def) }
next
  case (snoc entry entries)
  { case 1 then show ?case using snoc by (cases entry) (simp add: claimed_names_step)
  next case 2 then show ?case using snoc by (cases entry) (simp add: claimed_names_step) }
qed

lemma claimed_until_first:
  "(r, Some u) \<in> set entries \<Longrightarrow> \<exists>v \<le> u. claimed_until (foldl claim_role no_claims entries) = Some v"
proof (induction entries rule: rev_induct)
  case (snoc entry entries)
  then show ?case
    by (cases entry) (force simp: claimed_until_step split: option.splits)
qed simp

text \<open>What \<open>gather_roles\<close> says of the ways to hold roles.\<close>

lemma gather_roles_says:
  fixes held client
  defines "claims \<equiv> gather_roles held client"
  shows "name \<in> set (claimed_realm claims) \<longleftrightarrow> (\<exists>(i, r, until) \<in> set (foldl gather_way [] (filter (is_said client) held)).
           held_name r = name \<and> held_client_id r = None)"
    and "name \<in> set (claimed_client claims) \<longleftrightarrow> (\<exists>(i, r, until) \<in> set (foldl gather_way [] (filter (is_said client) held)).
           held_name r = name \<and> held_client_id r \<noteq> None)"
    and "(i, r, Some u) \<in> set (foldl gather_way [] (filter (is_said client) held)) \<Longrightarrow>
           \<exists>v \<le> u. claimed_until claims = Some v"
proof -
  let ?lasting = "foldl gather_way [] (filter (is_said client) held)"
  have claims: "claims = (foldl claim_role no_claims (map snd ?lasting))
      \<lparr>claimed_realm := sort (claimed_realm (foldl claim_role no_claims (map snd ?lasting))),
       claimed_client := sort (claimed_client (foldl claim_role no_claims (map snd ?lasting)))\<rparr>"
    by (simp add: claims_def gather_roles_def no_claims_def Let_def)
  show "name \<in> set (claimed_realm claims) \<longleftrightarrow> (\<exists>(i, r, until) \<in> set ?lasting. held_name r = name \<and> held_client_id r = None)"
    "name \<in> set (claimed_client claims) \<longleftrightarrow> (\<exists>(i, r, until) \<in> set ?lasting. held_name r = name \<and> held_client_id r \<noteq> None)"
    unfolding claims by (force simp: claimed_names)+
  show "\<exists>v \<le> u. claimed_until claims = Some v" if "(i, r, Some u) \<in> set ?lasting"
    using claimed_until_first [of r u "map snd ?lasting"] that unfolding claims by force
qed

lemma claims_stand:
  assumes "name \<in> set (claimed_realm (gather_roles held client)) \<or> name \<in> set (claimed_client (gather_roles held client))"
  obtains r way where "r \<in> set held" and "held_name r = name" and "is_said client r"
    and "way \<in> set held" and "held_id way = held_id r" and "is_said client way"
    and "\<And>u. held_until way = Some u \<Longrightarrow> \<exists>v \<le> u. claimed_until (gather_roles held client) = Some v"
proof -
  obtain i r until where row: "(i, r, until) \<in> set (foldl gather_way [] (filter (is_said client) held))"
    and r: "held_name r = name"
    using assms gather_roles_says(1, 2) [of name held client] by blast
  with gather_ways [of "filter (is_said client) held"]
  obtain way where "r \<in> set held" "is_said client r" "held_id r = i" "way \<in> set held" "is_said client way"
    "held_id way = i" "held_until way = until"
    by (fastforce simp: gathered_from_def)
  with that [of r way] r row gather_roles_says(3) [of i r _ client held] show ?thesis by metis
qed

subsection \<open>Referential integrity\<close>

text \<open>
  Every grant is of a role of the realm to a person or a group of it, every membership joins a
  group and a person of it; a role is granted to a holder once, and a person is a member of a
  group once; two roles of one owner, or two groups, do not share a name.
\<close>

definition grants_ok :: "state \<Rightarrow> uuid \<Rightarrow> bool" where
  "grants_ok s realm \<longleftrightarrow>
     (\<forall>g \<in> set (st_role_grants s realm).
        granted_role g \<in> role_id ` set (st_roles s realm) \<and> is_known_holder s realm (holder g)) \<and>
     distinct (map (\<lambda>g. (granted_role g, holder g)) (st_role_grants s realm))"

definition memberships_ok :: "state \<Rightarrow> uuid \<Rightarrow> bool" where
  "memberships_ok s realm \<longleftrightarrow>
     (\<forall>m \<in> set (st_memberships s realm).
        is_known_holder s realm (Group_holder (member_group m)) \<and>
        is_known_holder s realm (Person_holder (member_person m))) \<and>
     distinct (map (\<lambda>m. (member_group m, member_person m)) (st_memberships s realm))"

definition names_ok :: "state \<Rightarrow> uuid \<Rightarrow> bool" where
  "names_ok s realm \<longleftrightarrow>
     distinct (map (\<lambda>r. (role_client_id r, role_name r)) (st_roles s realm)) \<and>
     distinct (map group_name (st_groups s realm))"

definition roles_inv :: "state \<Rightarrow> bool" where
  "roles_inv s \<longleftrightarrow> (\<forall>realm. grants_ok s realm \<and> memberships_ok s realm \<and> names_ok s realm)"

lemmas roles_inv_defs = roles_inv_def grants_ok_def memberships_ok_def names_ok_def is_known_holder_def

lemma roles_inv_chain: "same_but_chain s' s \<Longrightarrow> roles_inv s' = roles_inv s"
  by (auto simp: same_but_chain_def roles_inv_defs split: role_holder.split)

text \<open>A use case whose success leaves a state, the chain aside, keeps what that state keeps.\<close>

lemma leaves_roles_inv:
  assumes "wp run (\<lambda>x t. same_but_chain (shared t) (after x) \<and> guard x) (\<lambda>_ t. shared t = shared s) s"
    and "roles_inv (shared s)" and "\<And>x. guard x \<Longrightarrow> roles_inv (after x)"
  shows "wp run (\<lambda>_ t. roles_inv (shared t)) (\<lambda>_ t. roles_inv (shared t)) s"
  using assms by (auto elim!: wp_mono simp: roles_inv_chain)

text \<open>Each use case on roles, groups, grants and memberships keeps the integrity.\<close>

lemma keys_without: "f ` {x \<in> S. f x \<noteq> i} = f ` S - {i}"
  by auto

lemma create_role_inv:
  assumes "roles_inv (shared s)"
  shows "wp (create_role app caller wanted) (\<lambda>_ t. roles_inv (shared t)) (\<lambda>_ t. roles_inv (shared t)) s"
  by (rule leaves_roles_inv [OF create_role_leaves assms])
     (use assms in \<open>auto simp: roles_inv_defs split: role_holder.splits\<close>)

lemma create_group_inv:
  assumes "roles_inv (shared s)"
  shows "wp (create_group app caller wanted) (\<lambda>_ t. roles_inv (shared t)) (\<lambda>_ t. roles_inv (shared t)) s"
  by (rule leaves_roles_inv [OF create_group_leaves assms])
     (use assms in \<open>auto simp: roles_inv_defs split: role_holder.splits\<close>)

lemma delete_role_inv:
  assumes "roles_inv (shared s)"
  shows "wp (delete_role app caller i) (\<lambda>_ t. roles_inv (shared t)) (\<lambda>_ t. roles_inv (shared t)) s"
  by (rule leaves_roles_inv [OF delete_role_leaves assms])
     (use assms in \<open>auto simp: roles_inv_defs distinct_map_filter keys_without split: role_holder.splits\<close>)

lemma delete_group_inv:
  assumes "roles_inv (shared s)"
  shows "wp (delete_group app caller i) (\<lambda>_ t. roles_inv (shared t)) (\<lambda>_ t. roles_inv (shared t)) s"
  by (rule leaves_roles_inv [OF delete_group_leaves assms])
     (use assms in \<open>auto simp: roles_inv_defs distinct_map_filter keys_without split: role_holder.splits\<close>)

lemma grant_role_inv:
  assumes "roles_inv (shared s)"
  shows "wp (grant_role app caller i h terms) (\<lambda>_ t. roles_inv (shared t)) (\<lambda>_ t. roles_inv (shared t)) s"
  by (rule leaves_roles_inv [OF grant_role_leaves assms])
     (use assms in \<open>auto simp: roles_inv_defs distinct_map_filter split: role_holder.splits\<close>)

lemma revoke_role_inv:
  assumes "roles_inv (shared s)"
  shows "wp (revoke_role app caller i h) (\<lambda>_ t. roles_inv (shared t)) (\<lambda>_ t. roles_inv (shared t)) s"
  by (rule leaves_roles_inv [OF revoke_role_leaves assms])
     (use assms in \<open>auto simp: roles_inv_defs distinct_map_filter split: role_holder.splits\<close>)

lemma add_member_inv:
  assumes "roles_inv (shared s)"
  shows "wp (add_member app caller grp p terms) (\<lambda>_ t. roles_inv (shared t)) (\<lambda>_ t. roles_inv (shared t)) s"
  by (rule leaves_roles_inv [OF add_member_leaves assms])
     (use assms in \<open>auto simp: roles_inv_defs distinct_map_filter split: role_holder.splits\<close>)

lemma remove_member_inv:
  assumes "roles_inv (shared s)"
  shows "wp (remove_member app caller grp p) (\<lambda>_ t. roles_inv (shared t)) (\<lambda>_ t. roles_inv (shared t)) s"
  by (rule leaves_roles_inv [OF remove_member_leaves assms])
     (use assms in \<open>auto simp: roles_inv_defs distinct_map_filter split: role_holder.splits\<close>)

text \<open>
  C37: the roles a person holds are exactly those granted to them, or to a group they are a member
  of, whose grants and memberships stand at the instant they are asked for. None is past its end,
  none is left out, and past the bound the question is refused rather than cut; asking changes
  nothing.
\<close>

theorem held_roles_exactly_those_that_stand:
  "wp (list_held_roles app scope p)
     (\<lambda>held t. shared t = shared s \<and> length held \<le> MAX_HELD \<and>
        set held = {h. is_way (shared s) (scope_realm scope) p (app_clock app (tick s) div 1000 * 1000) h} \<and>
        list_all (\<lambda>h. is_none_or (\<lambda>u. app_clock app (tick s) div 1000 * 1000 < u) (held_until h)) held)
     (\<lambda>e t. shared t = shared s \<and> code e \<in> {StorageUnavailable, PersonNotFound, HeldTooMany}) s"
proof -
  define w where "w = \<lparr>uow_scope = scope, working = shared s, failed = False, read_only = False\<rparr>"
  define now_t where "now_t = app_clock app (tick s) div 1000 * 1000"
  let ?s = "s\<lparr>opened := Some w, tick := tick s + 1\<rparr>"
  have "wp (read_held_roles p now_t)
      (\<lambda>held t. shared t = shared s \<and> length held \<le> MAX_HELD \<and>
         set held = {h. is_way (shared s) (scope_realm scope) p now_t h} \<and>
         list_all (\<lambda>h. is_none_or (\<lambda>u. now_t < u) (held_until h)) held)
      (\<lambda>e t. shared t = shared s \<and> code e \<in> {StorageUnavailable, PersonNotFound, HeldTooMany}) ?s"
    by (rule wp_mono [OF wp_read_held_roles [of ?s w p now_t]])
       (auto simp: w_def uow_realm_def list_all_iff new_failure_def dest: way_ends_later)
  then show ?thesis
    unfolding list_held_roles_def require_person_def store_reads now_t_def
    by (auto simp: begin_work_def wp_on_work_reading w_def new_failure_def failure_with_detail_def split: option.split)
qed

text \<open>
  C38: a token that says a role lives no longer than the role. Whatever name the claims say, some way
  to hold a role of that name was told to this client, and a way to hold that very role either has
  no end, or the claims end no later than it does.
\<close>

theorem claims_end_with_their_roles:
  "set (claimed_realm (gather_roles held client)) \<union> set (claimed_client (gather_roles held client)) \<subseteq>
     {held_name r | r way. r \<in> set held \<and> is_said client r \<and>
        way \<in> set held \<and> is_said client way \<and> held_id way = held_id r \<and>
        (case held_until way of
           None \<Rightarrow> True
         | Some u \<Rightarrow> is_some_and (\<lambda>v. v \<le> u) (claimed_until (gather_roles held client)))}"
proof
  fix name
  assume "name \<in> set (claimed_realm (gather_roles held client)) \<union> set (claimed_client (gather_roles held client))"
  then show "name \<in> {held_name r | r way. r \<in> set held \<and> is_said client r \<and>
        way \<in> set held \<and> is_said client way \<and> held_id way = held_id r \<and>
        (case held_until way of None \<Rightarrow> True
         | Some u \<Rightarrow> is_some_and (\<lambda>v. v \<le> u) (claimed_until (gather_roles held client)))}"
    by (elim UnE claims_stand [OF disjI1] claims_stand [OF disjI2]; fastforce split: option.split)
qed

text \<open>
  A grant is never dated back and never ends before it starts. A grant settled starts at the
  instant it is given or later, ends after its start when it ends, and names the client that gave
  it; terms that cannot be met are refused as such.
\<close>

theorem grants_are_settled_forward:
  "case settle_grant caller terms t of
     Err e \<Rightarrow> code e \<in> {GrantPeriodInvalid, RoleTextInvalid}
   | Ok g \<Rightarrow> t \<le> valid_from g \<and> is_none_or (\<lambda>u. valid_from g < u) (valid_until g) \<and>
       valid_until g = terms_valid_until terms \<and> granted_at g = t \<and>
       granted_by g = client_id (caller_client caller)"
  by (cases "terms_valid_until terms")
     (auto simp: settle_grant_def Let_def read_role_text_def new_failure_def split: option.split sum.split if_splits)

end
