(* ===== verification/Compiler.thy ===== *)
theory Compiler
  imports Schema Json
begin

text \<open>
  The compiler of schemas of relations (\<open>saffui-core/src/authz/relations/schema.rs\<close>): the reading
  of a source into lexemes, the parser with its recovery after a fault, and the compiler that
  checks the names, compiles the expressions and refuses a permission computed from itself. The
  lemmas show that the parser always ends, that a schema that compiles is keyed in order, admits
  only subjects of types it defines, and has no permission computed from itself.
\<close>

subsection \<open>Faults\<close>

definition SCHEMA_MAX_BYTES :: nat where "SCHEMA_MAX_BYTES = 64 * 1024"
definition SCHEMA_COMPILED_MAX_BYTES :: nat where "SCHEMA_COMPILED_MAX_BYTES = 4 * SCHEMA_MAX_BYTES"
definition MAX_FAULTS_SHOWN :: nat where "MAX_FAULTS_SHOWN = 100"
definition MAX_NESTING :: nat where "MAX_NESTING = 16"

record schema_fault =
  fault_line :: nat
  fault_message :: string

record schema_faults =
  faults_shown :: "schema_fault list"
  faults_not_shown :: nat

definition no_faults :: schema_faults where
  "no_faults = \<lparr>faults_shown = [], faults_not_shown = 0\<rparr>"

definition note_fault :: "schema_fault \<Rightarrow> schema_faults \<Rightarrow> schema_faults" where
  "note_fault fault faults =
     (if length (faults_shown faults) < MAX_FAULTS_SHOWN
      then faults\<lparr>faults_shown := faults_shown faults @ [fault]\<rparr>
      else faults\<lparr>faults_not_shown := faults_not_shown faults + 1\<rparr>)"

definition one_fault :: "schema_fault \<Rightarrow> schema_faults" where
  "one_fault fault = \<lparr>faults_shown = [fault], faults_not_shown = 0\<rparr>"

definition fault_at :: "nat \<Rightarrow> string \<Rightarrow> schema_fault" where
  "fault_at n message = \<lparr>fault_line = n, fault_message = message\<rparr>"

definition quoted :: "string \<Rightarrow> string" where
  "quoted text = ''`'' @ text @ ''`''"

subsection \<open>Lexemes\<close>

datatype token = Name string | Mark nat

record lexeme =
  lexeme_token :: token
  lexeme_line :: nat

text \<open>
  \<open>source.lines()\<close> on code points: a line ends at a line feed, with the carriage return before it
  if there is one; nothing after the last line feed is no line.
\<close>

definition strip_return :: "nat list \<Rightarrow> nat list" where
  "strip_return line = (if line \<noteq> [] \<and> last line = 13 then butlast line else line)"

fun text_lines :: "nat list \<Rightarrow> nat list \<Rightarrow> nat list list" where
  "text_lines acc [] = (if acc = [] then [] else [rev acc])"
| "text_lines acc (c # cs) =
     (if c = 10 then strip_return (rev acc) # text_lines [] cs else text_lines (c # acc) cs)"

text \<open>\<open>text.split_once("//")\<close>: what comes before a comment.\<close>

fun before_comment :: "nat list \<Rightarrow> nat list" where
  "before_comment [] = []"
| "before_comment [c] = [c]"
| "before_comment (c # d # cs) = (if c = 47 \<and> d = 47 then [] else c # before_comment (d # cs))"

definition hex_upper :: "nat \<Rightarrow> char" where
  "hex_upper n = (if n < 10 then byte (48 + n) else byte (55 + n))"

fun show_hex :: "nat \<Rightarrow> string" where
  "show_hex n = (if n < 16 then [hex_upper n] else show_hex (n div 16) @ [hex_upper (n mod 16)])"

declare show_hex.simps [simp del]

text \<open>\<open>\{:04X\}\<close>\<close>

definition show_hex4 :: "nat \<Rightarrow> string" where
  "show_hex4 n = replicate (4 - length (show_hex n)) CHR ''0'' @ show_hex n"

definition marks :: "nat list" where
  "marks = map byte_of ''{}():|#+&=''"

definition is_name_char :: "nat \<Rightarrow> bool" where
  "is_name_char c \<longleftrightarrow>
     48 \<le> c \<and> c \<le> 57 \<or> 65 \<le> c \<and> c \<le> 90 \<or> 97 \<le> c \<and> c \<le> 122 \<or> c = 95"

function lex_line :: "nat \<Rightarrow> nat list \<Rightarrow> schema_fault + lexeme list" where
  "lex_line n [] = Ok []"
| "lex_line n (c # cs) =
     (if is_whitespace c then lex_line n cs
      else if c \<in> set marks then
        map_ok (Cons \<lparr>lexeme_token = Mark c, lexeme_line = n\<rparr>) (lex_line n cs)
      else if \<not> is_name_char c then
        Err (fault_at n (quoted (encode_char c) @ '' has no meaning here''))
      else
        map_ok (Cons \<lparr>lexeme_token = Name (encode_chars (c # takeWhile is_name_char cs)), lexeme_line = n\<rparr>)
          (lex_line n (dropWhile is_name_char cs)))"
  by pat_completeness auto

termination
  by (relation "measure (\<lambda>(n, cs). length cs)") (auto simp: length_dropWhile_le le_imp_less_Suc)

fun lex_lines :: "nat \<Rightarrow> nat list list \<Rightarrow> schema_fault + lexeme list" where
  "lex_lines n [] = Ok []"
| "lex_lines n (text # texts) =
     (case find is_unshowable text of
        Some c \<Rightarrow> Err (fault_at n (''U+'' @ show_hex4 c @ '' cannot be shown''))
      | None \<Rightarrow>
          (case lex_line n (before_comment text) of
             Err fault \<Rightarrow> Err fault
           | Ok here \<Rightarrow> map_ok (append here) (lex_lines (n + 1) texts)))"

definition read_lexemes :: "string \<Rightarrow> schema_fault + lexeme list" where
  "read_lexemes source = lex_lines 1 (text_lines [] (chars source))"

subsection \<open>The parser\<close>

datatype expression =
    Member_term string nat
  | Arrow_term string string nat
  | Union_term "expression list"
  | Intersection_term "expression list"

type_synonym written_subject = "string \<times> string option \<times> nat"

datatype declared =
    Relation_declared string nat "written_subject list"
  | Permission_declared string nat expression

record type_definition =
  def_name :: string
  def_line :: nat
  def_declarations :: "declared list"

record parser =
  lexemes :: "lexeme list"
  position :: nat
  nesting :: nat

text \<open>
  A fault keeps the parser where it stood: the recovery goes on from there. The loops of the
  parser run on fuel; running out of it is an error of its own, shown never to happen.
\<close>

datatype parse_error = Fault schema_fault | Out_of_fuel

type_synonym 'a parse = "(parser, parse_error, 'a) act"

definition peek :: "parser \<Rightarrow> lexeme option" where
  "peek p = (if position p < length (lexemes p) then Some (lexemes p ! position p) else None)"

definition parser_line :: "parser \<Rightarrow> nat" where
  "parser_line p =
     (case peek p of
        Some l \<Rightarrow> lexeme_line l
      | None \<Rightarrow> if lexemes p = [] then 1 else lexeme_line (last (lexemes p)))"

definition fault :: "string \<Rightarrow> 'a parse" where
  "fault message = (\<lambda>p. (Err (Fault (fault_at (parser_line p) message)), p))"

definition advance :: "unit parse" where
  "advance = (\<lambda>p. (Ok (), p\<lparr>position := position p + 1\<rparr>))"

definition take_name :: "string \<Rightarrow> (string \<times> nat) parse" where
  "take_name what = (\<lambda>p.
     case peek p of
       Some l \<Rightarrow>
         (case lexeme_token l of
            Name name \<Rightarrow> (Ok (name, lexeme_line l), p\<lparr>position := position p + 1\<rparr>)
          | Mark _ \<Rightarrow> fault (what @ '' is expected'') p)
     | None \<Rightarrow> fault (what @ '' is expected'') p)"

definition is_mark :: "char \<Rightarrow> parser \<Rightarrow> bool" where
  "is_mark mark p \<longleftrightarrow> is_some_and (\<lambda>l. lexeme_token l = Mark (byte_of mark)) (peek p)"

definition is_word :: "string \<Rightarrow> parser \<Rightarrow> bool" where
  "is_word word p \<longleftrightarrow> is_some_and (\<lambda>l. lexeme_token l = Name word) (peek p)"

definition take_mark :: "char \<Rightarrow> unit parse" where
  "take_mark mark = (\<lambda>p. if is_mark mark p then advance p else fault (quoted [mark] @ '' is expected'') p)"

text \<open>A choice on where the parser stands, and the step back before a fault.\<close>

definition asks :: "(parser \<Rightarrow> 'a) \<Rightarrow> 'a parse" where
  "asks f = (\<lambda>p. (Ok (f p), p))"

definition step_back :: "unit parse" where
  "step_back = (\<lambda>p. (Ok (), p\<lparr>position := position p - 1\<rparr>))"

definition set_nesting :: "(nat \<Rightarrow> nat) \<Rightarrow> unit parse" where
  "set_nesting f = (\<lambda>p. (Ok (), p\<lparr>nesting := f (nesting p)\<rparr>))"

definition read_written_subject :: "written_subject parse" where
  "read_written_subject =
     and_then (take_name ''the type of a subject'') (\<lambda>(ty, n).
     and_then (asks (is_mark CHR ''#'')) (\<lambda>has_member.
     if has_member
     then and_then advance (\<lambda>_.
          and_then (take_name ''a member after `#`'') (\<lambda>(m, _). ret (ty, Some m, n)))
     else ret (ty, None, n)))"

text \<open>The terms after the first of a sum or an intersection, all joined by one mark.\<close>

fun read_expression :: "nat \<Rightarrow> expression parse"
  and read_term :: "nat \<Rightarrow> expression parse"
  and read_joined :: "nat \<Rightarrow> char \<Rightarrow> expression list \<Rightarrow> expression list parse" where
  "read_expression 0 = throw Out_of_fuel"
| "read_expression (Suc n) =
     and_then (read_term n) (\<lambda>first.
     and_then (asks (\<lambda>p. if is_mark CHR ''+'' p then Some CHR ''+''
                         else if is_mark CHR ''&'' p then Some CHR ''&'' else None)) (\<lambda>joined.
     case joined of
       None \<Rightarrow> ret first
     | Some mark \<Rightarrow>
         and_then (read_joined n mark [first]) (\<lambda>terms.
         and_then (asks (\<lambda>p. is_mark CHR ''+'' p \<or> is_mark CHR ''&'' p)) (\<lambda>mixed.
         if mixed then fault ''`+` and `&` do not mix without parentheses''
         else ret (if mark = CHR ''+'' then Union_term terms else Intersection_term terms)))))"
| "read_term 0 = throw Out_of_fuel"
| "read_term (Suc n) =
     and_then (asks (is_mark CHR ''('')) (\<lambda>opens.
     if opens
     then
       and_then (asks nesting) (\<lambda>depth.
       if depth = MAX_NESTING
       then fault (''parentheses nest at most '' @ show_nat MAX_NESTING @ '' deep'')
       else
         and_then advance (\<lambda>_.
         and_then (set_nesting (\<lambda>d. d + 1)) (\<lambda>_.
         and_then (read_expression n) (\<lambda>inner.
         and_then (take_mark CHR '')'') (\<lambda>_.
         and_then (set_nesting (\<lambda>d. d - 1)) (\<lambda>_. ret inner))))))
     else
       and_then (take_name ''a member'') (\<lambda>(name, line).
       and_then (asks (is_word ''from'')) (\<lambda>walks.
       if walks
       then and_then advance (\<lambda>_.
            and_then (take_name ''a relation after `from`'') (\<lambda>(rel, _). ret (Arrow_term name rel line)))
       else ret (Member_term name line))))"
| "read_joined 0 mark terms = throw Out_of_fuel"
| "read_joined (Suc n) mark terms =
     and_then (asks (is_mark mark)) (\<lambda>continues.
     if continues
     then and_then advance (\<lambda>_.
          and_then (read_term n) (\<lambda>t.
          read_joined n mark (terms @ [t])))
     else ret terms)"

fun read_subjects_joined :: "nat \<Rightarrow> written_subject list \<Rightarrow> written_subject list parse" where
  "read_subjects_joined 0 subjects = throw Out_of_fuel"
| "read_subjects_joined (Suc n) subjects =
     and_then (asks (is_mark CHR ''|'')) (\<lambda>continues.
     if continues
     then and_then advance (\<lambda>_.
          and_then read_written_subject (\<lambda>s.
          read_subjects_joined n (subjects @ [s])))
     else ret subjects)"

definition read_declaration :: "nat \<Rightarrow> declared parse" where
  "read_declaration fuel =
     and_then (take_name ''`relation` or `permission`'') (\<lambda>(keyword, _).
     if keyword = ''relation'' then
       and_then (take_name ''the name of a relation'') (\<lambda>(name, line).
       and_then (take_mark CHR '':'') (\<lambda>_.
       and_then read_written_subject (\<lambda>first.
       and_then (read_subjects_joined fuel [first]) (\<lambda>subjects.
       ret (Relation_declared name line subjects)))))
     else if keyword = ''permission'' then
       and_then (take_name ''the name of a permission'') (\<lambda>(name, line).
       and_then (take_mark CHR ''='') (\<lambda>_.
       and_then (read_expression fuel) (\<lambda>e.
       ret (Permission_declared name line e))))
     else
       and_then step_back (\<lambda>_. fault ''`relation` or `permission` is expected''))"

fun read_declarations :: "nat \<Rightarrow> nat \<Rightarrow> declared list \<Rightarrow> declared list parse" where
  "read_declarations fuel 0 declarations = throw Out_of_fuel"
| "read_declarations fuel (Suc n) declarations =
     and_then (asks (\<lambda>p. (is_mark CHR ''}'' p, peek p = None))) (\<lambda>(closes, ends).
     if closes then ret declarations
     else if ends then fault ''`}` is expected''
     else and_then (read_declaration fuel) (\<lambda>d.
          read_declarations fuel n (declarations @ [d])))"

definition read_definition :: "nat \<Rightarrow> type_definition parse" where
  "read_definition fuel =
     and_then (take_name ''`definition`'') (\<lambda>(keyword, _).
     if keyword \<noteq> ''definition''
     then and_then step_back (\<lambda>_. fault ''`definition` is expected'')
     else
       and_then (take_name ''the name of a type'') (\<lambda>(name, line).
       and_then (take_mark CHR ''{'') (\<lambda>_.
       and_then (read_declarations fuel fuel []) (\<lambda>declarations.
       and_then (take_mark CHR ''}'') (\<lambda>_.
       ret \<lparr>def_name = name, def_line = line, def_declarations = declarations\<rparr>)))))"

text \<open>\<open>skip_to_next_definition\<close>: past the lexeme of the fault, to a \<open>definition\<close> outside of braces.\<close>

fun skip_lexemes :: "nat \<Rightarrow> lexeme list \<Rightarrow> nat" where
  "skip_lexemes depth [] = 0"
| "skip_lexemes depth (l # ls) =
     (case lexeme_token l of
        Mark m \<Rightarrow>
          if m = byte_of CHR ''{'' then Suc (skip_lexemes (depth + 1) ls)
          else if m = byte_of CHR ''}'' then Suc (skip_lexemes (depth - 1) ls)
          else Suc (skip_lexemes depth ls)
      | Name name \<Rightarrow>
          if name = ''definition'' \<and> depth = 0 then 0 else Suc (skip_lexemes depth ls))"

definition skip_to_next_definition :: "parser \<Rightarrow> parser" where
  "skip_to_next_definition p =
     p\<lparr>position := position p + 1 + skip_lexemes 0 (drop (position p + 1) (lexemes p)), nesting := 0\<rparr>"

text \<open>The loop of \<open>compile_schema\<close> over the definitions of the source.\<close>

fun read_definitions :: "nat \<Rightarrow> nat \<Rightarrow> type_definition list \<Rightarrow> schema_faults \<Rightarrow> parser \<Rightarrow>
    (type_definition list \<times> schema_faults) option" where
  "read_definitions fuel 0 definitions faults p = None"
| "read_definitions fuel (Suc n) definitions faults p =
     (if peek p = None then Some (definitions, faults)
      else
        (case read_definition fuel p of
           (Ok d, p') \<Rightarrow> read_definitions fuel n (definitions @ [d]) faults p'
         | (Err (Fault f), p') \<Rightarrow>
             read_definitions fuel n definitions (note_fault f faults) (skip_to_next_definition p')
         | (Err Out_of_fuel, p') \<Rightarrow> None))"

definition parse_source :: "lexeme list \<Rightarrow> (type_definition list \<times> schema_faults) option" where
  "parse_source ls =
     read_definitions (2 * length ls + 2) (length ls + 2) [] no_faults \<lparr>lexemes = ls, position = 0, nesting = 0\<rparr>"

subsection \<open>The compiler\<close>

definition note_at :: "nat \<Rightarrow> string \<Rightarrow> schema_faults \<Rightarrow> schema_faults" where
  "note_at n message faults = note_fault (fault_at n message) faults"

definition find_definition :: "type_definition list \<Rightarrow> string \<Rightarrow> type_definition option" where
  "find_definition definitions ty = find (\<lambda>d. def_name d = ty) definitions"

fun declared_name :: "declared \<Rightarrow> string" where
  "declared_name (Relation_declared name _ _) = name"
| "declared_name (Permission_declared name _ _) = name"

fun declared_line :: "declared \<Rightarrow> nat" where
  "declared_line (Relation_declared _ n _) = n"
| "declared_line (Permission_declared _ n _) = n"

definition has_member :: "type_definition \<Rightarrow> string \<Rightarrow> bool" where
  "has_member d m \<longleftrightarrow> list_ex (\<lambda>x. declared_name x = m) (def_declarations d)"

fun first_relation :: "declared list \<Rightarrow> string \<Rightarrow> written_subject list option" where
  "first_relation [] rel = None"
| "first_relation (Relation_declared name _ subjects # ds) rel =
     (if name = rel then Some subjects else first_relation ds rel)"
| "first_relation (Permission_declared _ _ _ # ds) rel = first_relation ds rel"

definition find_relation :: "type_definition \<Rightarrow> string \<Rightarrow> written_subject list option" where
  "find_relation d rel = first_relation (def_declarations d) rel"

definition no_member_text :: "string \<Rightarrow> string \<Rightarrow> string" where
  "no_member_text ty m = quoted ty @ '' has no member '' @ quoted m"

text \<open>The faults of an arrow: no relation to walk, no object at its end, a member an end lacks.\<close>

definition check_arrow :: "type_definition list \<Rightarrow> type_definition \<Rightarrow> string \<Rightarrow> string \<Rightarrow> nat \<Rightarrow>
    schema_faults \<Rightarrow> schema_faults" where
  "check_arrow definitions d m rel n faults =
     (case find_relation d rel of
        None \<Rightarrow> note_at n (quoted (def_name d) @ '' has no relation '' @ quoted rel @ '' to walk'') faults
      | Some subjects \<Rightarrow>
          let objects = map fst (filter (\<lambda>(_, member, _). member = None) subjects);
              faults' = (if objects = [] then note_at n (quoted rel @ '' names no object to walk to'') faults
                         else faults)
          in foldl (\<lambda>fs ty.
                 if is_some_and (\<lambda>target. \<not> has_member target m) (find_definition definitions ty)
                 then note_at n (no_member_text ty m) fs else fs)
               faults' objects)"

fun compile_expression :: "type_definition list \<Rightarrow> type_definition \<Rightarrow> expression \<Rightarrow> schema_faults \<Rightarrow>
      rule \<times> schema_faults"
  and compile_terms :: "type_definition list \<Rightarrow> type_definition \<Rightarrow> expression list \<Rightarrow> rule list \<Rightarrow>
      schema_faults \<Rightarrow> rule list \<times> schema_faults" where
  "compile_expression definitions d (Member_term name n) faults =
     (Computed name,
      if has_member d name then faults else note_at n (no_member_text (def_name d) name) faults)"
| "compile_expression definitions d (Arrow_term m rel n) faults =
     (Arrow rel m, check_arrow definitions d m rel n faults)"
| "compile_expression definitions d (Union_term terms) faults =
     (case compile_terms definitions d terms [] faults of (rules, fs) \<Rightarrow> (Union rules, fs))"
| "compile_expression definitions d (Intersection_term terms) faults =
     (case compile_terms definitions d terms [] faults of (rules, fs) \<Rightarrow> (Intersection rules, fs))"
| "compile_terms definitions d [] rules faults = (rules, faults)"
| "compile_terms definitions d (t # ts) rules faults =
     (case compile_expression definitions d t faults of (r, fs) \<Rightarrow>
        compile_terms definitions d ts (if r \<in> set rules then rules else rules @ [r]) fs)"

text \<open>The faults of the subjects of a relation, one after the other.\<close>

definition check_subject :: "type_definition list \<Rightarrow> schema_faults \<Rightarrow> written_subject \<Rightarrow> schema_faults" where
  "check_subject definitions faults subject =
     (case subject of (ty, m, n) \<Rightarrow>
       (case (find_definition definitions ty, m) of
          (None, _) \<Rightarrow> note_at n (''no type is named '' @ quoted ty) faults
        | (Some target, Some name) \<Rightarrow>
            if has_member target name then faults else note_at n (no_member_text ty name) faults
        | (Some target, None) \<Rightarrow> faults))"

definition allowed_of :: "written_subject list \<Rightarrow> allowed_subject list" where
  "allowed_of subjects = sort (remdups (map (\<lambda>(ty, m, _). AllowedSubject ty m) subjects))"

record type_progress =
  made :: object_type_form
  seen_names :: "string list"
  made_faults :: schema_faults

definition compile_declared :: "type_definition list \<Rightarrow> type_definition \<Rightarrow> type_progress \<Rightarrow> declared \<Rightarrow> type_progress" where
  "compile_declared definitions d so_far x =
     (let name = declared_name x; n = declared_line x;
          f1 = (if is_schema_name name then made_faults so_far
                else note_at n (quoted name @ '' cannot name a member'') (made_faults so_far));
          f2 = (if name \<in> set (seen_names so_far)
                then note_at n (quoted (def_name d) @ '' declares '' @ quoted name @ '' twice'') f1 else f1);
          so_far' = so_far\<lparr>seen_names := name # seen_names so_far\<rparr>
      in case x of
           Relation_declared _ _ subjects \<Rightarrow>
             so_far'\<lparr>made := (made so_far)\<lparr>form_relations := bt_insert name (allowed_of subjects) (form_relations (made so_far))\<rparr>,
                     made_faults := foldl (check_subject definitions) f2 subjects\<rparr>
         | Permission_declared _ _ e \<Rightarrow>
             (case compile_expression definitions d e f2 of (r, fs) \<Rightarrow>
                so_far'\<lparr>made := (made so_far)\<lparr>form_permissions := bt_insert name r (form_permissions (made so_far))\<rparr>,
                        made_faults := fs\<rparr>))"

definition compile_type :: "type_definition list \<Rightarrow> type_definition \<Rightarrow> schema_faults \<Rightarrow>
    object_type_form \<times> schema_faults" where
  "compile_type definitions d faults =
     (let result = foldl (compile_declared definitions d)
            \<lparr>made = \<lparr>form_relations = [], form_permissions = []\<rparr>, seen_names = [], made_faults = faults\<rparr>
            (def_declarations d)
      in (made result, made_faults result))"

subsection \<open>Permissions computed from themselves\<close>

fun collect_computed :: "rule \<Rightarrow> string list" where
  "collect_computed (Computed m) = [m]"
| "collect_computed (Arrow rel m) = []"
| "collect_computed (Union rules) = concat (map (\<lambda>r. collect_computed r) rules)"
| "collect_computed (Intersection rules) = concat (map (\<lambda>r. collect_computed r) rules)"

definition push_new :: "string list \<times> string set \<Rightarrow> string \<Rightarrow> string list \<times> string set" where
  "push_new work m = (case work of (stack, seen) \<Rightarrow> if m \<in> seen then (stack, seen) else (m # stack, insert m seen))"

definition all_computed :: "(string \<times> rule) list \<Rightarrow> string set" where
  "all_computed permissions = set (concat (map (\<lambda>(_, r). collect_computed r) permissions))"

lemma push_all:
  assumes "foldl push_new (stack, seen) ms = (stack', seen')"
  shows "seen' = seen \<union> set ms" and "set stack' = set stack \<union> (set ms - seen)"
    and "set ms \<subseteq> seen \<Longrightarrow> stack' = stack"
  using assms
  by (induction ms arbitrary: stack seen) (auto simp: push_new_def split: if_splits)

lemma finite_all_computed: "finite (all_computed permissions)"
  unfolding all_computed_def by (rule finite_set)

lemma push_decreases:
  assumes "map_of permissions m = Some r" and pushed: "foldl push_new (stack, seen) (collect_computed r) = (stack', seen')"
  shows "card (all_computed permissions - seen') < card (all_computed permissions - seen) \<or>
    seen' = seen \<and> stack' = stack"
proof (cases "set (collect_computed r) \<subseteq> seen")
  case True
  then show ?thesis
    using push_all(3) [OF pushed] push_all(1) [OF pushed] by auto
next
  case False
  have "(m, r) \<in> set permissions" using assms(1) by (rule map_of_SomeD)
  then have "set (collect_computed r) \<subseteq> all_computed permissions" by (auto simp: all_computed_def)
  then have "all_computed permissions - seen' \<subset> all_computed permissions - seen"
    using push_all(1) [OF pushed] False by auto
  then show ?thesis
    by (simp add: psubset_card_mono finite_all_computed)
qed

text \<open>The search: a stack of members to look at, the ones met already, and where it started.\<close>

function finds_itself :: "(string \<times> rule) list \<Rightarrow> string \<Rightarrow> string list \<Rightarrow> string set \<Rightarrow> bool" where
  "finds_itself permissions start [] seen = False"
| "finds_itself permissions start (m # stack) seen =
     (case map_of permissions m of
        None \<Rightarrow> finds_itself permissions start stack seen
      | Some r \<Rightarrow>
          if start \<in> set (collect_computed r) then True
          else
            (case foldl push_new (stack, seen) (collect_computed r) of
               (stack', seen') \<Rightarrow> finds_itself permissions start stack' seen'))"
  by pat_completeness auto

termination
proof (relation "inv_image (less_than <*lex*> less_than)
    (\<lambda>(permissions, start, stack, seen). (card (all_computed permissions - seen), length stack))")
  fix permissions and start m :: string and stack seen r stack' seen'
  assume found: "map_of permissions m = Some r"
    and "(stack', seen') = foldl push_new (stack, seen) (collect_computed r)"
  then have "foldl push_new (stack, seen) (collect_computed r) = (stack', seen')" by simp
  from push_decreases [OF found this]
  show "((permissions, start, stack', seen'), permissions, start, m # stack, seen)
    \<in> inv_image (less_than <*lex*> less_than)
        (\<lambda>(permissions, start, stack, seen). (card (all_computed permissions - seen), length stack))"
    by auto
qed auto

definition check_cycle :: "object_type_form \<Rightarrow> schema_faults \<Rightarrow> declared \<Rightarrow> schema_faults" where
  "check_cycle form faults x =
     (case x of
        Relation_declared _ _ _ \<Rightarrow> faults
      | Permission_declared start n _ \<Rightarrow>
          if finds_itself (form_permissions form) start [start] {}
          then note_at n (quoted start @ '' is computed from itself'') faults
          else faults)"

definition find_cycles :: "type_definition \<Rightarrow> object_type_form \<Rightarrow> schema_faults \<Rightarrow> schema_faults" where
  "find_cycles d form faults = foldl (check_cycle form) faults (def_declarations d)"

subsection \<open>Compiling a source\<close>

definition compile_definition :: "type_definition list \<Rightarrow> (string \<times> object_type_form) list \<times> schema_faults \<Rightarrow>
    type_definition \<Rightarrow> (string \<times> object_type_form) list \<times> schema_faults" where
  "compile_definition definitions so_far d =
     (case so_far of (types, faults) \<Rightarrow>
       let f1 = (if is_schema_name (def_name d) then faults
                 else note_at (def_line d) (quoted (def_name d) @ '' cannot name a type'') faults)
       in case compile_type definitions d f1 of (form, f2) \<Rightarrow>
            let f3 = find_cycles d form f2;
                f4 = (if map_of types (def_name d) \<noteq> None
                      then note_at (def_line d) (quoted (def_name d) @ '' is defined twice'') f3 else f3)
            in (bt_insert (def_name d) form types, f4))"

text \<open>
  \<open>compile_schema\<close>. How many bytes a compiled form takes as compact JSON is asked of \<open>serde_json\<close>.
\<close>

definition compile_schema :: "(compiled_schema \<Rightarrow> nat) \<Rightarrow> string \<Rightarrow> schema_faults + compiled_schema" where
  "compile_schema written_bytes source =
     (if length source > SCHEMA_MAX_BYTES
      then Err (one_fault (fault_at 1 (''a schema is at most '' @ show_nat SCHEMA_MAX_BYTES @ '' bytes'')))
      else
        (case read_lexemes source of
           Err f \<Rightarrow> Err (one_fault f)
         | Ok ls \<Rightarrow>
             (case parse_source ls of
                None \<Rightarrow> Err no_faults
              | Some (definitions, faults) \<Rightarrow>
                  (case foldl (compile_definition definitions) ([], faults) definitions of
                     (types, faults') \<Rightarrow>
                       if faults_shown faults' \<noteq> []
                       then Err (faults'\<lparr>faults_shown := sort_key fault_line (faults_shown faults')\<rparr>)
                       else
                         let schema = \<lparr>schema_version = COMPILED_VERSION, schema_types = types\<rparr> in
                         if written_bytes schema > SCHEMA_COMPILED_MAX_BYTES
                         then Err (one_fault (fault_at 1
                                (''a schema compiles to at most '' @ show_nat SCHEMA_COMPILED_MAX_BYTES @ '' bytes'')))
                         else Ok schema))))"

subsection \<open>The parser never runs out of fuel\<close>

text \<open>How many lexemes are left, and that a step of the parser goes on, or ends in a fault.\<close>

definition left_of :: "parser \<Rightarrow> nat" where
  "left_of p = length (lexemes p) - position p"

definition goes_on :: "nat \<Rightarrow> parser \<Rightarrow> parser \<Rightarrow> bool" where
  "goes_on n p p' \<longleftrightarrow> lexemes p' = lexemes p \<and> position p + n \<le> position p' \<and> position p' \<le> max (position p) (length (lexemes p))"

definition parses :: "nat \<Rightarrow> 'a parse \<Rightarrow> parser \<Rightarrow> bool" where
  "parses n m p \<longleftrightarrow> wp m (\<lambda>_. goes_on n p) (\<lambda>e p'. e \<noteq> Out_of_fuel \<and> goes_on 0 p p') p"

lemma goes_on_refl [simp]: "goes_on 0 p p"
  by (simp add: goes_on_def)

lemma goes_on_trans: "goes_on n p q \<Longrightarrow> goes_on k q r \<Longrightarrow> goes_on (n + k) p r"
  by (auto simp: goes_on_def)

lemma goes_on_less: "goes_on n p q \<Longrightarrow> k \<le> n \<Longrightarrow> goes_on k p q"
  by (auto simp: goes_on_def)

lemma goes_on_left: "goes_on n p q \<Longrightarrow> left_of q \<le> left_of p - n"
  by (auto simp: goes_on_def left_of_def)

lemma parses_ret: "parses 0 (ret x) p"
  by (simp add: parses_def)

lemma parses_less: "parses n m p \<Longrightarrow> k \<le> n \<Longrightarrow> parses k m p"
  unfolding parses_def by (erule wp_mono) (auto elim: goes_on_less)

lemma parses_and_then:
  assumes "parses n m p" and "\<And>x q. goes_on n p q \<Longrightarrow> parses k (f x) q"
  shows "parses (n + k) (and_then m f) p"
  unfolding parses_def wp_and_then
proof (rule wp_mono [OF assms(1) [unfolded parses_def]])
  fix x q
  assume q: "goes_on n p q"
  show "wp (f x) (\<lambda>_. goes_on (n + k) p) (\<lambda>e p'. e \<noteq> Out_of_fuel \<and> goes_on 0 p p') q"
    by (rule wp_mono [OF assms(2) [OF q, unfolded parses_def]])
       (auto dest: goes_on_trans [OF q] elim: goes_on_less)
qed simp

lemma parses_seq:
  assumes "parses n m p" and "\<And>x q. goes_on n p q \<Longrightarrow> parses (k - n) (f x) q"
  shows "parses k (and_then m f) p"
  by (rule parses_less [OF parses_and_then [OF assms]]) simp_all

lemma parses_asks: "(\<And>x. x = f p \<Longrightarrow> parses n (g x) p) \<Longrightarrow> parses n (and_then (asks f) g) p"
  unfolding parses_def by (simp add: asks_def wp_def and_then_def)

lemma parses_fault [simp]: "parses n (fault message) p"
  by (simp add: parses_def fault_def wp_def)

lemma parses_take_name: "parses 1 (take_name what) p"
  by (auto simp: parses_def take_name_def wp_def fault_def peek_def goes_on_def split: option.split token.split)

lemma parses_advance: "peek p \<noteq> None \<Longrightarrow> parses 1 advance p"
  by (auto simp: parses_def advance_def wp_def peek_def goes_on_def split: if_splits)

lemma is_mark_peek: "is_mark m p \<Longrightarrow> peek p \<noteq> None"
  by (cases "peek p") (simp_all add: is_mark_def)

lemma is_word_peek: "is_word m p \<Longrightarrow> peek p \<noteq> None"
  by (cases "peek p") (simp_all add: is_word_def)

lemma parses_take_mark: "parses 1 (take_mark m) p"
  unfolding take_mark_def
  using parses_advance [of p] is_mark_peek [of m p] by (auto simp: parses_def fault_def wp_def)

lemma parses_set_nesting: "parses 0 (set_nesting f) p"
  by (simp add: parses_def set_nesting_def wp_def goes_on_def)

lemma parses_if: "(b \<Longrightarrow> parses n m p) \<Longrightarrow> (\<not> b \<Longrightarrow> parses n m' p) \<Longrightarrow> parses n (if b then m else m') p"
  by simp

lemma parses_case_prod: "(\<And>a b. x = (a, b) \<Longrightarrow> parses n (f a b) p) \<Longrightarrow> parses n (case x of (a, b) \<Rightarrow> f a b) p"
  by (cases x) simp

lemma parses_step_back:
  assumes "goes_on 1 p q"
  shows "wp (and_then step_back (\<lambda>_. fault message)) (\<lambda>_. goes_on n p) (\<lambda>e p'. e \<noteq> Out_of_fuel \<and> goes_on 0 p p') q"
  using assms by (auto simp: wp_def and_then_def step_back_def fault_def goes_on_def)

lemma parses_written_subject: "parses 1 read_written_subject p"
  unfolding read_written_subject_def
  by (rule parses_seq [OF parses_take_name], rule parses_case_prod, rule parses_asks, rule parses_if,
      rule parses_seq [OF parses_advance], simp add: is_mark_peek, rule parses_seq [OF parses_take_name])
     (auto intro!: parses_case_prod parses_ret)

text \<open>
  An expression takes two of the fuel for each lexeme left, and two more: one for the term it
  starts with and one for the parenthesis the term may open.
\<close>

lemma parses_expression:
  "2 * left_of p + 2 \<le> n \<Longrightarrow> parses 1 (read_expression n) p"
  "2 * left_of p + 1 \<le> n \<Longrightarrow> parses 1 (read_term n) p"
  "2 * left_of p + 1 \<le> n \<Longrightarrow> parses 0 (read_joined n mark terms) p"
proof (induction n and n and n mark terms arbitrary: p and p and p rule: read_expression_read_term_read_joined.induct)
  case (2 n)
  show ?case
    unfolding read_expression.simps
  proof (rule parses_seq [OF 2(1)])
    show "2 * left_of p + 1 \<le> n" using 2(3) by simp
    fix first q
    assume q: "goes_on 1 p q"
    have "2 * left_of q + 1 \<le> n" using goes_on_left [OF q] 2(3) by simp
    then show "parses (1 - 1) (and_then (asks (\<lambda>p. if is_mark CHR ''+'' p then Some CHR ''+''
          else if is_mark CHR ''&'' p then Some CHR ''&'' else None)) (\<lambda>joined.
        case joined of
          None \<Rightarrow> ret first
        | Some mark \<Rightarrow>
            and_then (read_joined n mark [first]) (\<lambda>terms.
            and_then (asks (\<lambda>p. is_mark CHR ''+'' p \<or> is_mark CHR ''&'' p)) (\<lambda>mixed.
            if mixed then fault ''`+` and `&` do not mix without parentheses''
            else ret (if mark = CHR ''+'' then Union_term terms else Intersection_term terms))))) q"
      using 2(2)
      by (auto intro!: parses_asks parses_ret parses_seq [where n = 0] split: option.split)
  qed
next
  case (4 n)
  have inner: "parses 1 (read_expression n) r" if "is_mark CHR ''('' p" "goes_on 1 p q" "goes_on 0 q r" for q r
  proof (rule 4(1) [where x = True and xa = "Suc MAX_NESTING"])
    have "left_of p \<noteq> 0" using is_mark_peek [OF that(1)] by (simp add: peek_def left_of_def split: if_splits)
    then show "2 * left_of r + 2 \<le> n"
      using goes_on_left [OF that(2)] goes_on_left [OF that(3)] 4(2) by simp
  qed simp_all
  show ?case
    unfolding read_term.simps
    apply (rule parses_asks, rule parses_if)
     apply (rule parses_asks, rule parses_if, rule parses_fault)
     apply (rule parses_seq [OF parses_advance], simp add: is_mark_peek)
     apply (rule parses_seq [OF parses_set_nesting])
     apply (rule parses_seq [OF inner], simp, assumption, assumption)
     apply (rule parses_seq [OF parses_take_mark], rule parses_seq [OF parses_set_nesting], simp add: parses_ret)
    apply (rule parses_seq [OF parses_take_name], rule parses_case_prod)
    apply (rule parses_asks, rule parses_if)
     apply (rule parses_seq [OF parses_advance], simp add: is_word_peek)
     apply (rule parses_seq [OF parses_take_name], rule parses_case_prod)
     apply (simp_all add: parses_ret)
    done
next
  case (6 n mark terms)
  have inner: "parses 1 (read_term n) q" if "is_mark mark p" "goes_on 1 p q" for q
  proof (rule 6(1) [where x = True])
    have "left_of p \<noteq> 0" using is_mark_peek [OF that(1)] by (simp add: peek_def left_of_def split: if_splits)
    then show "2 * left_of q + 1 \<le> n" using goes_on_left [OF that(2)] 6(3) by simp
  qed simp
  have rest: "parses 0 (read_joined n mark (terms @ [t])) r" if "is_mark mark p" "goes_on 1 p q" "goes_on 1 q r" for q r t
  proof (rule 6(2) [where x = True])
    have "2 * left_of r + 1 \<le> n"
      using goes_on_left [OF that(2)] goes_on_left [OF that(3)] 6(3) is_mark_peek [OF that(1)]
      by (simp add: peek_def left_of_def split: if_splits)
    then show "2 * left_of r + 1 \<le> n" .
  qed simp
  show ?case
    unfolding read_joined.simps
    apply (rule parses_asks, rule parses_if)
     apply (rule parses_seq [OF parses_advance], simp add: is_mark_peek)
     apply (rule parses_seq [OF inner], simp, assumption)
     apply (simp add: rest)
    apply (simp add: parses_ret)
    done
qed simp_all

lemma parses_subjects_joined: "left_of p + 1 \<le> n \<Longrightarrow> parses 0 (read_subjects_joined n subjects) p"
proof (induction n subjects arbitrary: p rule: read_subjects_joined.induct)
  case (2 n subjects)
  have rest: "parses 0 (read_subjects_joined n (subjects @ [s])) r" if "is_mark CHR ''|'' p" "goes_on 1 p q" "goes_on 1 q r" for q r s
  proof (rule 2(1) [where x = True])
    show "left_of r + 1 \<le> n"
      using goes_on_left [OF that(2)] goes_on_left [OF that(3)] 2(2) is_mark_peek [OF that(1)]
      by (simp add: peek_def left_of_def split: if_splits)
  qed simp
  show ?case
    unfolding read_subjects_joined.simps
    apply (rule parses_asks, rule parses_if)
     apply (rule parses_seq [OF parses_advance], simp add: is_mark_peek)
     apply (rule parses_seq [OF parses_written_subject])
     apply (simp_all add: rest parses_ret)
    done
qed simp

lemma parses_keyword:
  assumes "\<And>x q. goes_on 1 p q \<Longrightarrow> parses 0 (f x) q \<or> (\<exists>message. f x = and_then step_back (\<lambda>_. fault message))"
  shows "parses 1 (and_then (take_name what) f) p"
  unfolding parses_def
proof (rule wp_seq, rule wp_mono [OF parses_take_name [unfolded parses_def]])
  fix x q
  assume q: "goes_on 1 p q"
  show "wp (f x) (\<lambda>_. goes_on 1 p) (\<lambda>e p'. e \<noteq> Out_of_fuel \<and> goes_on 0 p p') q"
  proof (cases "parses 0 (f x) q")
    case True
    then show ?thesis
      unfolding parses_def by (rule wp_mono) (auto dest: goes_on_trans [OF q] elim: goes_on_less)
  next
    case False
    with assms [OF q, of x] obtain message where "f x = and_then step_back (\<lambda>_. fault message)" by blast
    then show ?thesis using parses_step_back [OF q] by simp
  qed
qed simp

lemma parses_declaration:
  assumes fuel: "2 * left_of p + 2 \<le> fuel"
  shows "parses 1 (read_declaration fuel) p"
proof -
  have left: "left_of q \<le> left_of p" if "goes_on n p q" for n q using goes_on_left [OF that] by simp
  have joined: "parses 0 (read_subjects_joined fuel subjects) q" if "left_of q \<le> left_of p" for q subjects
    using parses_subjects_joined that fuel by simp
  have expression: "parses 0 (read_expression fuel) q" if "left_of q \<le> left_of p" for q
    by (rule parses_less [OF parses_expression(1)]) (use that fuel in simp_all)
  have relation: "parses 0 (and_then (take_name what) (\<lambda>(name, line). and_then (take_mark m) (\<lambda>_.
       and_then read_written_subject (\<lambda>first. and_then (read_subjects_joined fuel [first]) (\<lambda>subjects.
       ret (Relation_declared name line subjects)))))) q" if "goes_on 1 p q" for what m q
    apply (rule parses_seq [OF parses_take_name], rule parses_case_prod)
    apply (rule parses_seq [OF parses_take_mark], rule parses_seq [OF parses_written_subject])
    apply (rule parses_seq [OF joined])
     apply (use left that in \<open>fastforce dest: goes_on_left\<close>)
    apply (simp add: parses_ret)
    done
  have permission: "parses 0 (and_then (take_name what) (\<lambda>(name, line). and_then (take_mark m) (\<lambda>_.
       and_then (read_expression fuel) (\<lambda>e. ret (Permission_declared name line e))))) q" if "goes_on 1 p q" for what m q
    apply (rule parses_seq [OF parses_take_name], rule parses_case_prod)
    apply (rule parses_seq [OF parses_take_mark], rule parses_seq [OF expression])
     apply (use left that in \<open>fastforce dest: goes_on_left\<close>)
    apply (simp add: parses_ret)
    done
  show ?thesis
    unfolding read_declaration_def
    by (rule parses_keyword) (use relation permission in \<open>auto simp: split_beta\<close>)
qed

lemma parses_declarations:
  assumes "2 * left_of p + 2 \<le> fuel" and "left_of p + 1 \<le> n"
  shows "parses 0 (read_declarations fuel n declarations) p"
  using assms
proof (induction n arbitrary: p declarations)
  case (Suc n)
  have rest: "parses 0 (read_declarations fuel n (declarations @ [d])) q" if "goes_on 1 p q" "peek p \<noteq> None" for q d
    by (rule Suc.IH) (use goes_on_left [OF that(1)] that(2) Suc.prems in \<open>simp_all add: peek_def left_of_def split: if_splits\<close>)
  show ?case
    unfolding read_declarations.simps
    apply (rule parses_asks, rule parses_case_prod, rule parses_if, rule parses_ret)
    apply (rule parses_if, rule parses_fault, rule parses_seq [OF parses_declaration])
     apply (use Suc.prems rest in simp_all)
    done
qed simp

lemma parses_definition:
  assumes "2 * left_of p + 2 \<le> fuel"
  shows "parses 1 (read_definition fuel) p"
proof -
  have named: "parses 0 (and_then (take_name what) (\<lambda>(name, line). and_then (take_mark m) (\<lambda>_.
      and_then (read_declarations fuel fuel []) (\<lambda>declarations. and_then (take_mark m') (\<lambda>_.
      ret \<lparr>def_name = name, def_line = line, def_declarations = declarations\<rparr>))))) q" if "goes_on 1 p q" for what m m' q
    apply (rule parses_seq [OF parses_take_name], rule parses_case_prod)
    apply (rule parses_seq [OF parses_take_mark], rule parses_seq [OF parses_declarations])
      apply (use that assms in \<open>fastforce dest: goes_on_left\<close>)
     apply (use that assms in \<open>fastforce dest: goes_on_left\<close>)
    apply (rule parses_seq [OF parses_take_mark])
    apply (simp add: parses_ret)
    done
  show ?thesis
    unfolding read_definition_def
    by (rule parses_keyword) (use named in \<open>auto simp: split_beta\<close>)
qed

text \<open>Each definition, and each fault, takes at least one lexeme.\<close>

lemma read_definitions_ends:
  assumes "2 * length (lexemes p) + 2 \<le> fuel" and "left_of p + 1 \<le> n"
  shows "\<exists>result. read_definitions fuel n definitions faults p = Some result"
  using assms
proof (induction n arbitrary: p definitions faults)
  case (Suc n)
  have "2 * left_of p + 2 \<le> fuel" using Suc.prems(1) by (simp add: left_of_def)
  note parsed = parses_definition [OF this]
  have next_fits: "2 * length (lexemes q) + 2 \<le> fuel" "left_of q + 1 \<le> n"
    if "lexemes q = lexemes p" "position p < position q" "peek p \<noteq> None" for q
    using that Suc.prems by (auto simp: left_of_def peek_def split: if_splits)
  show ?case
  proof (cases "peek p")
    case (Some l)
    show ?thesis
    proof (cases "read_definition fuel p")
      case (Pair r q)
      with parsed have "case r of Ok _ \<Rightarrow> goes_on 1 p q | Err e \<Rightarrow> e \<noteq> Out_of_fuel \<and> goes_on 0 p q"
        by (cases r) (simp_all add: parses_def wp_def)
      moreover have "\<exists>result. read_definitions fuel n (definitions @ [d]) faults q = Some result" if "goes_on 1 p q" for d
        using that Some by (intro Suc.IH next_fits) (auto simp: goes_on_def)
      moreover have "\<exists>result. read_definitions fuel n definitions faults' (skip_to_next_definition q) = Some result"
        if "goes_on 0 p q" for faults'
        using that Some by (intro Suc.IH next_fits) (auto simp: goes_on_def skip_to_next_definition_def)
      ultimately show ?thesis
        using Some Pair by (cases r) (auto split: parse_error.split)
    qed
  qed simp
qed simp

lemma parse_source_ends: "\<exists>definitions faults. parse_source ls = Some (definitions, faults)"
proof -
  have "\<exists>result. read_definitions (2 * length ls + 2) (length ls + 2) [] no_faults
      \<lparr>lexemes = ls, position = 0, nesting = 0\<rparr> = Some result"
    by (rule read_definitions_ends) (simp_all add: left_of_def)
  then show ?thesis unfolding parse_source_def by (metis surj_pair)
qed

subsection \<open>The search for cycles\<close>

text \<open>One permission is computed from another when its rule names it without an arrow.\<close>

definition computes :: "(string \<times> rule) list \<Rightarrow> (string \<times> string) set" where
  "computes permissions =
     {(m, m'). \<exists>r. map_of permissions m = Some r \<and> m' \<in> set (collect_computed r)}"

text \<open>
  Where the search stands: what is on the stack is reached from the start, and whatever was met
  and is not on the stack leads to members met, none of them the start.
\<close>

definition search_inv :: "(string \<times> rule) list \<Rightarrow> string \<Rightarrow> string list \<Rightarrow> string set \<Rightarrow> bool" where
  "search_inv permissions start stack seen \<longleftrightarrow>
     set stack \<subseteq> (computes permissions)\<^sup>* `` {start} \<and>
     (\<forall>m \<in> insert start seen - set stack. computes permissions `` {m} \<subseteq> seen - {start})"

lemma search_done:
  assumes "search_inv permissions start [] seen"
  shows "(start, start) \<notin> (computes permissions)\<^sup>+"
proof
  assume "(start, start) \<in> (computes permissions)\<^sup>+"
  moreover have "m \<in> seen - {start}" if "(start, m) \<in> (computes permissions)\<^sup>+" for m
    using that by induction (use assms in \<open>auto simp: search_inv_def\<close>)
  ultimately show False by blast
qed

lemma finds_itself_iff_reached:
  "search_inv permissions start stack seen \<Longrightarrow>
     finds_itself permissions start stack seen \<longleftrightarrow> (start, start) \<in> (computes permissions)\<^sup>+"
proof (induction permissions start stack seen rule: finds_itself.induct)
  case (1 permissions start seen)
  then show ?case using search_done by simp
next
  case (2 permissions start m stack seen)
  show ?case
  proof (cases "map_of permissions m")
    case None
    then have "computes permissions `` {m} = {}" by (auto simp: computes_def)
    with 2(3) have "search_inv permissions start stack seen" by (auto simp: search_inv_def)
    with 2(1) None show ?thesis by simp
  next
    case (Some r)
    then have next_of: "computes permissions `` {m} = set (collect_computed r)" by (auto simp: computes_def)
    have reached: "(start, m) \<in> (computes permissions)\<^sup>*" using 2(3) by (simp add: search_inv_def)
    show ?thesis
    proof (cases "start \<in> set (collect_computed r)")
      case True
      then have "(m, start) \<in> computes permissions" using next_of by blast
      with reached have "(start, start) \<in> (computes permissions)\<^sup>+" by (rule rtrancl_into_trancl1)
      with True Some show ?thesis by simp
    next
      case False
      obtain stack' seen' where pushed: "foldl push_new (stack, seen) (collect_computed r) = (stack', seen')"
        by (cases "foldl push_new (stack, seen) (collect_computed r)")
      note after = push_all(1,2) [OF pushed]
      have "set (collect_computed r) \<subseteq> (computes permissions)\<^sup>* `` {start}"
        using rtrancl_into_rtrancl [OF reached] next_of by blast
      then have "set stack' \<subseteq> (computes permissions)\<^sup>* `` {start}"
        using 2(3) after(2) by (auto simp: search_inv_def)
      moreover have "computes permissions `` {x} \<subseteq> seen' - {start}" if x: "x \<in> insert start seen' - set stack'" for x
      proof (cases "x = m")
        case True
        with next_of False after(1) show ?thesis by auto
      next
        case False
        with x after have "x \<in> insert start seen - set (m # stack)" by auto
        with 2(3) have "computes permissions `` {x} \<subseteq> seen - {start}" unfolding search_inv_def by blast
        with after(1) show ?thesis by blast
      qed
      ultimately have "search_inv permissions start stack' seen'" by (simp add: search_inv_def)
      with 2(2) [OF Some False] Some False pushed show ?thesis by simp
    qed
  qed
qed

lemma finds_itself_iff: "finds_itself permissions start [start] {} \<longleftrightarrow> (start, start) \<in> (computes permissions)\<^sup>+"
  by (rule finds_itself_iff_reached) (simp add: search_inv_def)

subsection \<open>What a schema that compiles holds\<close>

definition faultless :: "schema_faults \<Rightarrow> bool" where
  "faultless faults \<longleftrightarrow> faults_shown faults = []"

lemma note_at_faults [simp]: "\<not> faultless (note_at n message faults)"
  by (auto simp: faultless_def note_at_def note_fault_def MAX_FAULTS_SHOWN_def)

text \<open>What the compiler asks of a rule and of the subjects of a relation, over the definitions.\<close>

fun rule_resolves :: "type_definition list \<Rightarrow> type_definition \<Rightarrow> rule \<Rightarrow> bool" where
  "rule_resolves definitions d (Computed m) \<longleftrightarrow> has_member d m"
| "rule_resolves definitions d (Arrow rel m) \<longleftrightarrow>
     (\<exists>subjects. find_relation d rel = Some subjects \<and> (\<exists>ty n. (ty, None, n) \<in> set subjects) \<and>
        (\<forall>ty n. (ty, None, n) \<in> set subjects \<longrightarrow> is_none_or (\<lambda>target. has_member target m) (find_definition definitions ty)))"
| "rule_resolves definitions d (Union rules) \<longleftrightarrow> list_all (\<lambda>r. rule_resolves definitions d r) rules"
| "rule_resolves definitions d (Intersection rules) \<longleftrightarrow> list_all (\<lambda>r. rule_resolves definitions d r) rules"

definition subject_resolves :: "type_definition list \<Rightarrow> written_subject \<Rightarrow> bool" where
  "subject_resolves definitions subject \<longleftrightarrow>
     (case subject of (ty, m, _) \<Rightarrow>
        is_some_and (\<lambda>target. is_none_or (has_member target) m) (find_definition definitions ty))"

lemma check_arrow_faultless:
  "faultless (check_arrow definitions d m rel n faults) \<longleftrightarrow> faultless faults \<and> rule_resolves definitions d (Arrow rel m)"
proof -
  have walked: "faultless (foldl (\<lambda>fs ty. if is_some_and (\<lambda>target. \<not> has_member target m) (find_definition definitions ty)
        then note_at n (no_member_text ty m) fs else fs) fs types) \<longleftrightarrow>
      faultless fs \<and> (\<forall>ty \<in> set types. is_none_or (\<lambda>target. has_member target m) (find_definition definitions ty))" for fs types
    by (induction types arbitrary: fs) (auto simp: is_some_and_def is_none_or_def split: option.splits)
  show ?thesis
    by (auto simp: check_arrow_def walked Let_def filter_empty_conv split: option.split; force)
qed

lemma compile_expression_faultless:
  "faultless (snd (compile_expression definitions d e faults)) \<Longrightarrow>
     faultless faults \<and> rule_resolves definitions d (fst (compile_expression definitions d e faults))"
  "faultless (snd (compile_terms definitions d ts rules faults)) \<Longrightarrow>
     faultless faults \<and> (list_all (rule_resolves definitions d) rules \<longrightarrow>
       list_all (rule_resolves definitions d) (fst (compile_terms definitions d ts rules faults)))"
proof (induction definitions d e faults and definitions d ts rules faults rule: compile_expression_compile_terms.induct)
  case (2 definitions d m rel n faults)
  then show ?case by (simp add: check_arrow_faultless del: rule_resolves.simps)
next
  case (6 definitions d t ts rules faults)
  then show ?case by (auto split: prod.splits if_splits)
qed (auto split: if_splits prod.splits)

text \<open>The rule of an expression does not depend on the faults noted before it.\<close>

lemma compile_expression_rule:
  "fst (compile_expression definitions d e faults) = fst (compile_expression definitions d e faults')"
  "fst (compile_terms definitions d ts rules faults) = fst (compile_terms definitions d ts rules faults')"
proof (induction definitions d e faults and definitions d ts rules faults arbitrary: faults' and faults'
    rule: compile_expression_compile_terms.induct)
  case (6 definitions d t ts rules faults)
  obtain r fs where made: "compile_expression definitions d t faults = (r, fs)" by fastforce
  obtain r' fs' where made': "compile_expression definitions d t faults' = (r', fs')" by fastforce
  have "r' = r" using 6(1) [of faults'] made made' by simp
  with 6(2) [OF made [symmetric], of fs'] made made' show ?case by simp
qed (simp_all add: split_beta)

definition rule_of :: "type_definition list \<Rightarrow> type_definition \<Rightarrow> expression \<Rightarrow> rule" where
  "rule_of definitions d e = fst (compile_expression definitions d e no_faults)"

lemma compile_expression_rule_of: "fst (compile_expression definitions d e faults) = rule_of definitions d e"
  unfolding rule_of_def by (rule compile_expression_rule(1))

lemma check_subjects_faultless:
  "faultless (foldl (check_subject definitions) faults subjects) \<longleftrightarrow>
     faultless faults \<and> list_all (subject_resolves definitions) subjects"
proof (induction subjects arbitrary: faults)
  case (Cons subject subjects)
  have "faultless (check_subject definitions faults subject) \<longleftrightarrow> faultless faults \<and> subject_resolves definitions subject"
    by (auto simp: check_subject_def subject_resolves_def split: prod.split option.split)
  with Cons show ?case by auto
qed simp

text \<open>What the declarations of a type compile to, when none of them is at fault.\<close>

definition declared_ok :: "type_definition list \<Rightarrow> type_definition \<Rightarrow> declared \<Rightarrow> bool" where
  "declared_ok definitions d x \<longleftrightarrow> is_schema_name (declared_name x) \<and>
     (case x of
        Relation_declared _ _ subjects \<Rightarrow> list_all (subject_resolves definitions) subjects
      | Permission_declared _ _ e \<Rightarrow> rule_resolves definitions d (rule_of definitions d e))"

definition form_fits :: "type_definition list \<Rightarrow> type_definition \<Rightarrow> declared list \<Rightarrow> object_type_form \<Rightarrow> bool" where
  "form_fits definitions d ds form \<longleftrightarrow>
     bt_sorted (form_relations form) \<and> bt_sorted (form_permissions form) \<and>
     (distinct (map declared_name ds) \<longrightarrow>
        (\<forall>name allowed. map_of (form_relations form) name = Some allowed \<longleftrightarrow>
           (\<exists>n subjects. Relation_declared name n subjects \<in> set ds \<and> allowed = allowed_of subjects)) \<and>
        (\<forall>name r. map_of (form_permissions form) name = Some r \<longleftrightarrow>
           (\<exists>n e. Permission_declared name n e \<in> set ds \<and> r = rule_of definitions d e)))"

lemma compile_declared_faultless:
  assumes "faultless (made_faults (compile_declared definitions d so_far x))"
  shows "faultless (made_faults so_far) \<and> declared_name x \<notin> set (seen_names so_far) \<and> declared_ok definitions d x"
proof (cases x)
  case (Relation_declared name n subjects)
  with assms show ?thesis
    by (auto simp: compile_declared_def Let_def check_subjects_faultless declared_ok_def split: if_splits)
next
  case (Permission_declared name n e)
  let ?faults = "if name \<in> set (seen_names so_far)
    then note_at n (quoted (def_name d) @ '' declares '' @ quoted name @ '' twice'')
      (if is_schema_name name then made_faults so_far else note_at n (quoted name @ '' cannot name a member'') (made_faults so_far))
    else if is_schema_name name then made_faults so_far
    else note_at n (quoted name @ '' cannot name a member'') (made_faults so_far)"
  from assms Permission_declared have "faultless (snd (compile_expression definitions d e ?faults))"
    by (simp add: compile_declared_def Let_def split_beta)
  from compile_expression_faultless(1) [OF this] Permission_declared show ?thesis
    by (auto simp: declared_ok_def compile_expression_rule_of split: if_splits)
qed

lemma in_declared:
  "Relation_declared name n subjects \<in> set ds \<Longrightarrow> name \<in> declared_name ` set ds"
  "Permission_declared name n e \<in> set ds \<Longrightarrow> name \<in> declared_name ` set ds"
  by force+

lemma compile_declared_fits:
  assumes "form_fits definitions d ds (made so_far)"
  shows "form_fits definitions d (ds @ [x]) (made (compile_declared definitions d so_far x))"
proof (cases x)
  case (Relation_declared name n subjects)
  with assms show ?thesis
    by (auto simp: form_fits_def compile_declared_def Let_def map_of_bt_insert bt_sorted_insert dest: in_declared)
next
  case (Permission_declared name n e)
  have "made (compile_declared definitions d so_far x) = (made so_far)\<lparr>form_permissions :=
      bt_insert name (rule_of definitions d e) (form_permissions (made so_far))\<rparr>"
    by (simp add: Permission_declared compile_declared_def Let_def split_beta compile_expression_rule_of)
  with assms Permission_declared show ?thesis
    by (auto simp: form_fits_def map_of_bt_insert bt_sorted_insert dest: in_declared)
qed

lemma seen_declared: "set (seen_names (compile_declared definitions d so_far x)) = insert (declared_name x) (set (seen_names so_far))"
  by (auto simp: compile_declared_def Let_def split: declared.split prod.split)

lemma compile_type_fits:
  "form_fits definitions d (def_declarations d) (fst (compile_type definitions d faults))"
  "faultless (snd (compile_type definitions d faults)) \<Longrightarrow> faultless faults \<and>
     distinct (map declared_name (def_declarations d)) \<and> list_all (declared_ok definitions d) (def_declarations d)"
proof -
  let ?start = "\<lparr>made = \<lparr>form_relations = [], form_permissions = []\<rparr>, seen_names = [], made_faults = faults\<rparr>"
  have "form_fits definitions d ds (made (foldl (compile_declared definitions d) ?start ds)) \<and>
      set (seen_names (foldl (compile_declared definitions d) ?start ds)) = declared_name ` set ds \<and>
      (faultless (made_faults (foldl (compile_declared definitions d) ?start ds)) \<longrightarrow>
         faultless faults \<and> distinct (map declared_name ds) \<and> list_all (declared_ok definitions d) ds)" for ds
  proof (induction ds rule: rev_induct)
    case Nil
    then show ?case by (simp add: form_fits_def)
  next
    case (snoc x ds)
    let ?so_far = "foldl (compile_declared definitions d) ?start ds"
    from snoc show ?case
      using compile_declared_fits [of definitions d ds ?so_far x] compile_declared_faultless [of definitions d ?so_far x]
      by (simp add: seen_declared)
  qed
  from this [of "def_declarations d"] show
    "form_fits definitions d (def_declarations d) (fst (compile_type definitions d faults))"
    "faultless (snd (compile_type definitions d faults)) \<Longrightarrow> faultless faults \<and>
       distinct (map declared_name (def_declarations d)) \<and> list_all (declared_ok definitions d) (def_declarations d)"
    by (simp_all add: compile_type_def Let_def)
qed

lemma find_cycles_faultless:
  "faultless (find_cycles d form faults) \<longleftrightarrow> faultless faults \<and>
     (\<forall>name n e. Permission_declared name n e \<in> set (def_declarations d) \<longrightarrow>
        (name, name) \<notin> (computes (form_permissions form))\<^sup>+)"
proof -
  have one: "faultless (check_cycle form faults x) \<longleftrightarrow> faultless faults \<and>
      (\<forall>name n e. x = Permission_declared name n e \<longrightarrow> (name, name) \<notin> (computes (form_permissions form))\<^sup>+)" for faults x
    by (cases x) (simp_all add: check_cycle_def finds_itself_iff del: finds_itself.simps)
  have "faultless (foldl (check_cycle form) faults ds) \<longleftrightarrow> faultless faults \<and>
     (\<forall>name n e. Permission_declared name n e \<in> set ds \<longrightarrow> (name, name) \<notin> (computes (form_permissions form))\<^sup>+)" for ds
  proof (induction ds arbitrary: faults)
    case (Cons x ds)
    then show ?case by (simp add: one) blast
  qed simp
  then show ?thesis by (simp add: find_cycles_def)
qed

text \<open>What the definitions of a source compile to, when none of them is at fault.\<close>

definition definition_ok :: "type_definition list \<Rightarrow> type_definition \<Rightarrow> object_type_form \<Rightarrow> bool" where
  "definition_ok definitions d form \<longleftrightarrow>
     is_schema_name (def_name d) \<and> form_fits definitions d (def_declarations d) form \<and>
     distinct (map declared_name (def_declarations d)) \<and> list_all (declared_ok definitions d) (def_declarations d) \<and>
     (\<forall>name. (name, name) \<notin> (computes (form_permissions form))\<^sup>+)"

lemma compile_definition_faultless:
  assumes "compile_definition definitions (types, faults) d = (types', faults')" and "faultless faults'"
  shows "\<exists>form. types' = bt_insert (def_name d) form types \<and> faultless faults \<and> map_of types (def_name d) = None \<and>
    definition_ok definitions d form"
proof -
  define f1 where "f1 = (if is_schema_name (def_name d) then faults
    else note_at (def_line d) (quoted (def_name d) @ '' cannot name a type'') faults)"
  define form where "form = fst (compile_type definitions d f1)"
  define f2 where "f2 = snd (compile_type definitions d f1)"
  have "compile_definition definitions (types, faults) d = (bt_insert (def_name d) form types, if map_of types (def_name d) \<noteq> None
       then note_at (def_line d) (quoted (def_name d) @ '' is defined twice'') (find_cycles d form f2) else find_cycles d form f2)"
    by (simp add: compile_definition_def Let_def split_beta f1_def form_def f2_def)
  with assms(1) have made: "types' = bt_insert (def_name d) form types"
    "faults' = (if map_of types (def_name d) \<noteq> None
       then note_at (def_line d) (quoted (def_name d) @ '' is defined twice'') (find_cycles d form f2) else find_cycles d form f2)"
    by simp_all
  with assms(2) have new: "map_of types (def_name d) = None" and cycles: "faultless (find_cycles d form f2)"
    by (auto split: if_splits)
  from cycles have "faultless f2" by (simp add: find_cycles_faultless)
  from compile_type_fits(2) [OF this [unfolded f2_def]] have ok: "faultless f1"
    "distinct (map declared_name (def_declarations d))" "list_all (declared_ok definitions d) (def_declarations d)" by simp_all
  then have named: "is_schema_name (def_name d)" "faultless faults" by (auto simp: f1_def split: if_splits)
  have fits: "form_fits definitions d (def_declarations d) form" unfolding form_def by (rule compile_type_fits(1))
  have "(name, name) \<notin> (computes (form_permissions form))\<^sup>+" for name
  proof
    assume itself: "(name, name) \<in> (computes (form_permissions form))\<^sup>+"
    then obtain r where "map_of (form_permissions form) name = Some r"
      by (auto dest!: tranclD simp: computes_def)
    with fits ok(2) obtain n e where "Permission_declared name n e \<in> set (def_declarations d)"
      by (auto simp: form_fits_def)
    with cycles itself show False by (auto simp: find_cycles_faultless)
  qed
  with made(1) new named fits ok show ?thesis by (auto simp: definition_ok_def)
qed

lemma compile_definitions_sorted:
  "foldl (compile_definition definitions) ([], faults) ds = (types, faults') \<Longrightarrow> bt_sorted types"
proof (induction ds arbitrary: types faults' rule: rev_induct)
  case (snoc d ds)
  obtain types0 faults0 where before: "foldl (compile_definition definitions) ([], faults) ds = (types0, faults0)" by fastforce
  with snoc.prems have "compile_definition definitions (types0, faults0) d = (types, faults')" by simp
  with snoc.IH [OF before] show ?case
    by (auto simp: compile_definition_def Let_def split_beta bt_sorted_insert)
qed simp

lemma compile_definitions_faultless:
  assumes "foldl (compile_definition definitions) ([], faults) ds = (types, faults')" and "faultless faults'"
  shows "faultless faults \<and> dom (map_of types) = def_name ` set ds \<and>
    distinct (map def_name ds) \<and> (\<forall>d \<in> set ds. \<exists>form. map_of types (def_name d) = Some form \<and> definition_ok definitions d form)"
  using assms
proof (induction ds arbitrary: types faults' rule: rev_induct)
  case (snoc d ds)
  obtain types0 faults0 where before: "foldl (compile_definition definitions) ([], faults) ds = (types0, faults0)" by fastforce
  with snoc.prems have step: "compile_definition definitions (types0, faults0) d = (types, faults')" by simp
  from compile_definition_faultless [OF step snoc.prems(2)] obtain form where
    made: "types = bt_insert (def_name d) form types0" "faultless faults0" "map_of types0 (def_name d) = None"
      "definition_ok definitions d form" by blast
  from snoc.IH [OF before made(2)] have IH: "faultless faults" "dom (map_of types0) = def_name ` set ds" "distinct (map def_name ds)"
    "\<forall>d \<in> set ds. \<exists>form. map_of types0 (def_name d) = Some form \<and> definition_ok definitions d form" by blast+
  have new: "def_name d \<notin> def_name ` set ds" using IH(2) made(3) by (metis domIff)
  have "\<exists>form. map_of types (def_name x) = Some form \<and> definition_ok definitions x form" if "x \<in> set ds" for x
  proof -
    have "def_name x \<noteq> def_name d" using that new by (metis imageI)
    with IH(4) that made(1) show ?thesis by (simp add: map_of_bt_insert)
  qed
  moreover have "map_of types (def_name d) = Some form" using made(1) by (simp add: map_of_bt_insert)
  moreover have "dom (map_of types) = insert (def_name d) (def_name ` set ds)" using IH(2) made(1) by (simp add: map_of_bt_insert)
  ultimately show ?case using IH(1,3) new made(4) by auto
qed simp

subsection \<open>Schemas that are sound\<close>

text \<open>
  A schema without a fault, over its compiled form alone: its maps are keyed once and in order,
  its names are names, no relation is a permission too, every subject a relation admits and every
  member a rule names is there, an arrow walks a relation that leads to an object, and no
  permission is computed from itself.
\<close>

definition members_of :: "object_type_form \<Rightarrow> string set" where
  "members_of form = dom (map_of (form_relations form)) \<union> dom (map_of (form_permissions form))"

fun rule_sound :: "(string \<times> object_type_form) list \<Rightarrow> object_type_form \<Rightarrow> rule \<Rightarrow> bool" where
  "rule_sound types form (Computed m) \<longleftrightarrow> m \<in> members_of form"
| "rule_sound types form (Arrow rel m) \<longleftrightarrow>
     (\<exists>allowed. map_of (form_relations form) rel = Some allowed \<and> (\<exists>ty. AllowedSubject ty None \<in> set allowed) \<and>
        (\<forall>ty target. AllowedSubject ty None \<in> set allowed \<longrightarrow> map_of types ty = Some target \<longrightarrow> m \<in> members_of target))"
| "rule_sound types form (Union rules) \<longleftrightarrow> list_all (\<lambda>r. rule_sound types form r) rules"
| "rule_sound types form (Intersection rules) \<longleftrightarrow> list_all (\<lambda>r. rule_sound types form r) rules"

definition form_sound :: "(string \<times> object_type_form) list \<Rightarrow> object_type_form \<Rightarrow> bool" where
  "form_sound types form \<longleftrightarrow>
     (\<forall>m \<in> members_of form. is_schema_name m) \<and>
     dom (map_of (form_relations form)) \<inter> dom (map_of (form_permissions form)) = {} \<and>
     (\<forall>allowed \<in> ran (map_of (form_relations form)). \<forall>ty m. AllowedSubject ty m \<in> set allowed \<longrightarrow>
        (\<exists>target. map_of types ty = Some target \<and> is_none_or (\<lambda>name. name \<in> members_of target) m)) \<and>
     (\<forall>r \<in> ran (map_of (form_permissions form)). rule_sound types form r) \<and>
     (\<forall>name. (name, name) \<notin> (computes (form_permissions form))\<^sup>+)"

definition sound_schema :: "compiled_schema \<Rightarrow> bool" where
  "sound_schema schema \<longleftrightarrow>
     schema_version schema = COMPILED_VERSION \<and> well_keyed schema \<and>
     (\<forall>(ty, form) \<in> set (schema_types schema). is_schema_name ty \<and> form_sound (schema_types schema) form)"

lemma first_relation_in: "first_relation ds rel = Some subjects \<Longrightarrow> \<exists>n. Relation_declared rel n subjects \<in> set ds"
  by (induction ds rel rule: first_relation.induct) (auto split: if_splits)

lemma in_allowed_of: "AllowedSubject ty m \<in> set (allowed_of subjects) \<longleftrightarrow> (\<exists>n. (ty, m, n) \<in> set subjects)"
  by (force simp: allowed_of_def)

lemma form_maps:
  assumes "definition_ok definitions d form"
  shows "map_of (form_relations form) name = Some allowed \<longleftrightarrow>
      (\<exists>n subjects. Relation_declared name n subjects \<in> set (def_declarations d) \<and> allowed = allowed_of subjects)"
    and "map_of (form_permissions form) name = Some r \<longleftrightarrow>
      (\<exists>n e. Permission_declared name n e \<in> set (def_declarations d) \<and> r = rule_of definitions d e)"
  using assms by (auto simp: definition_ok_def form_fits_def)

lemma form_members:
  assumes "definition_ok definitions d form"
  shows "m \<in> members_of form \<longleftrightarrow> has_member d m"
proof -
  have "has_member d m \<longleftrightarrow> (\<exists>n subjects. Relation_declared m n subjects \<in> set (def_declarations d)) \<or>
      (\<exists>n e. Permission_declared m n e \<in> set (def_declarations d))"
  proof
    assume "has_member d m"
    then obtain x where "x \<in> set (def_declarations d)" "declared_name x = m" by (auto simp: has_member_def list_ex_iff)
    then show "(\<exists>n subjects. Relation_declared m n subjects \<in> set (def_declarations d)) \<or>
        (\<exists>n e. Permission_declared m n e \<in> set (def_declarations d))"
      by (cases x rule: declared.exhaust) auto
  qed (auto simp: has_member_def list_ex_iff dest: in_declared)
  then show ?thesis
    unfolding members_of_def dom_def using form_maps [OF assms] by auto
qed

definition types_fit :: "type_definition list \<Rightarrow> (string \<times> object_type_form) list \<Rightarrow> bool" where
  "types_fit definitions types \<longleftrightarrow> dom (map_of types) = def_name ` set definitions \<and>
     (\<forall>d \<in> set definitions. \<exists>form. map_of types (def_name d) = Some form \<and> definition_ok definitions d form)"

lemma defined_type:
  assumes "types_fit definitions types" and "find_definition definitions ty = Some d"
  shows "\<exists>form. map_of types ty = Some form \<and> definition_ok definitions d form"
  using assms find_found [of _ definitions d] by (force simp: types_fit_def find_definition_def)

lemma type_defined:
  assumes "types_fit definitions types" and "map_of types ty = Some form"
  shows "\<exists>d. find_definition definitions ty = Some d \<and> definition_ok definitions d form"
proof -
  from assms have "ty \<in> def_name ` set definitions" unfolding types_fit_def by (metis domI)
  then have "find_definition definitions ty \<noteq> None" by (auto simp: find_definition_def find_None_iff)
  then obtain d where d: "find_definition definitions ty = Some d" by blast
  from defined_type [OF assms(1) d] assms(2) d show ?thesis by auto
qed

lemma rule_of_sound:
  assumes fit: "types_fit definitions types"
    and ok: "definition_ok definitions d form" and "rule_resolves definitions d r"
  shows "rule_sound types form r"
  using assms(3)
proof (induction r)
  case (Computed m)
  then show ?case using form_members [OF ok] by simp
next
  case (Arrow rel m)
  then obtain subjects where subjects: "find_relation d rel = Some subjects" "\<exists>ty n. (ty, None, n) \<in> set subjects"
    "\<And>ty n. (ty, None, n) \<in> set subjects \<Longrightarrow> is_none_or (\<lambda>target. has_member target m) (find_definition definitions ty)" by auto
  from first_relation_in [OF subjects(1) [unfolded find_relation_def]]
  have "map_of (form_relations form) rel = Some (allowed_of subjects)" using form_maps(1) [OF ok] by blast
  moreover have "m \<in> members_of target" if "AllowedSubject ty None \<in> set (allowed_of subjects)" "map_of types ty = Some target" for ty target
  proof -
    from that(1) obtain n where "(ty, None, n) \<in> set subjects" by (auto simp: in_allowed_of)
    from subjects(3) [OF this] type_defined [OF fit that(2)] show ?thesis by (auto simp: form_members)
  qed
  ultimately show ?case using subjects(2) by (auto simp: in_allowed_of)
qed (auto simp: list_all_iff)

lemma definition_ok_sound:
  assumes fit: "types_fit definitions types" and ok: "definition_ok definitions d form"
  shows "form_sound types form"
proof -
  have declared: "declared_ok definitions d x" if "x \<in> set (def_declarations d)" for x
    using ok that by (simp add: definition_ok_def list_all_iff)
  have "is_schema_name m" if "m \<in> members_of form" for m
    using that declared by (auto simp: form_members [OF ok] has_member_def list_ex_iff declared_ok_def)
  moreover have "dom (map_of (form_relations form)) \<inter> dom (map_of (form_permissions form)) = {}"
  proof -
    have "inj_on declared_name (set (def_declarations d))" using ok by (simp add: definition_ok_def distinct_map)
    then have "\<not> (Relation_declared name n subjects \<in> set (def_declarations d) \<and> Permission_declared name k e \<in> set (def_declarations d))"
      for name n subjects k e
      by (metis declared.distinct(1) declared_name.simps inj_onD)
    then show ?thesis using form_maps [OF ok] by (auto simp: dom_def)
  qed
  moreover have "\<exists>target. map_of types ty = Some target \<and> is_none_or (\<lambda>name. name \<in> members_of target) m"
    if "allowed \<in> ran (map_of (form_relations form))" "AllowedSubject ty m \<in> set allowed" for allowed ty m
  proof -
    from that obtain name n subjects k where "Relation_declared name n subjects \<in> set (def_declarations d)" "(ty, m, k) \<in> set subjects"
      by (auto simp: ran_def form_maps(1) [OF ok] in_allowed_of)
    from declared [OF this(1)] this(2) obtain target where
      "find_definition definitions ty = Some target" "is_none_or (has_member target) m"
      by (force simp: declared_ok_def list_all_iff subject_resolves_def is_some_and_def split: option.splits)
    with defined_type [OF fit] show ?thesis by (fastforce simp: form_members is_none_or_def split: option.splits)
  qed
  moreover have "rule_sound types form r" if "r \<in> ran (map_of (form_permissions form))" for r
  proof -
    from that obtain name n e where "Permission_declared name n e \<in> set (def_declarations d)" "r = rule_of definitions d e"
      by (auto simp: ran_def form_maps(2) [OF ok])
    with declared [OF this(1)] show ?thesis by (auto simp: declared_ok_def intro: rule_of_sound [OF fit ok])
  qed
  moreover have "(name, name) \<notin> (computes (form_permissions form))\<^sup>+" for name
    using ok by (simp add: definition_ok_def)
  ultimately show ?thesis unfolding form_sound_def by blast
qed

lemma compiled_types_sound:
  assumes "foldl (compile_definition definitions) ([], faults) definitions = (types, faults')" and "faultless faults'"
  shows "sound_schema \<lparr>schema_version = COMPILED_VERSION, schema_types = types\<rparr>"
proof -
  note all = compile_definitions_faultless [OF assms] and keyed = compile_definitions_sorted [OF assms(1)]
  then have fit: "types_fit definitions types" by (simp add: types_fit_def)
  have each: "is_schema_name ty \<and> form_sound types form \<and> bt_sorted (form_relations form) \<and> bt_sorted (form_permissions form)"
    if "(ty, form) \<in> set types" for ty form
  proof -
    have "map_of types ty = Some form" using that keyed by (simp add: bt_sorted_distinct)
    from type_defined [OF fit this] obtain d where
      "find_definition definitions ty = Some d" and ok: "definition_ok definitions d form" by blast
    then have "def_name d = ty" by (auto simp: find_definition_def dest: find_found)
    with ok definition_ok_sound [OF fit ok] show ?thesis by (auto simp: definition_ok_def form_fits_def)
  qed
  with keyed show ?thesis by (auto simp: sound_schema_def well_keyed_def)
qed

subsection \<open>Properties\<close>

text \<open>
  C23: whatever it is given, the parser ends: the fuel it runs on, two for each lexeme and two more,
  is never used up, so it answers definitions and faults for every source.
\<close>

theorem parser_ends: "\<exists>definitions faults. parse_source ls = Some (definitions, faults)"
  by (rule parse_source_ends)

text \<open>
  C24: the search for permissions computed from themselves finds exactly those that are: from a
  permission, by one or more steps from a rule to a member it computes, one comes back to it.
\<close>

theorem cycles_are_found:
  "finds_itself permissions start [start] {} \<longleftrightarrow> (start, start) \<in> (computes permissions)\<^sup>+"
  by (rule finds_itself_iff)

text \<open>
  C14: a source compiles to a sound schema within its bound, or is refused with at least one fault
  shown. A sound schema names only what it defines, admits only subjects of its types, walks only
  relations that lead to objects, and computes no permission from itself.
\<close>

theorem schemas_compile_soundly:
  "case compile_schema written_bytes source of
     Ok schema \<Rightarrow> sound_schema schema \<and> written_bytes schema \<le> SCHEMA_COMPILED_MAX_BYTES \<and> length source \<le> SCHEMA_MAX_BYTES
   | Err faults \<Rightarrow> faults_shown faults \<noteq> []"
proof (cases "read_lexemes source")
  case (Inr ls)
  obtain definitions faults where parsed: "parse_source ls = Some (definitions, faults)"
    using parse_source_ends by blast
  obtain types faults' where compiled: "foldl (compile_definition definitions) ([], faults) definitions = (types, faults')"
    by fastforce
  have sorted_nil: "sort_key fault_line fs = [] \<longleftrightarrow> fs = []" for fs
    by (metis length_0_conv length_sort)
  show ?thesis
    using Inr parsed compiled compiled_types_sound [OF compiled]
    by (auto simp: compile_schema_def one_fault_def Let_def faultless_def sorted_nil)
qed (simp add: compile_schema_def one_fault_def)

end
