(* ===== verification/Relations.thy ===== *)
theory Relations
  imports Roles Compiler
begin

text \<open>
  Relations (\<open>saffui-core/src/authz/relations/mod.rs\<close>): the schema of a realm as it is stored and
  opened, and the use cases that write the schema, keep and remove relations, and name the clients
  that guard a type. The lemmas show that the storage is the port the walk over relations relies
  on, that the relations a realm keeps are of the kinds its schema admits whatever is written in
  whatever order, and that a schema takes the relations it no longer admits with it.
\<close>

subsection \<open>The schema of a realm\<close>

text \<open>How many bytes \<open>serde_json::to_vec\<close> writes of a compiled schema.\<close>

definition schema_bytes :: "app \<Rightarrow> compiled_schema \<Rightarrow> nat" where
  "schema_bytes app schema = length (app_json_write app (app_schema_form app schema))"

definition compile :: "app \<Rightarrow> string \<Rightarrow> schema_faults + compiled_schema" where
  "compile app source = compile_schema (schema_bytes app) source"

definition read_compiled_schema :: "app \<Rightarrow> json \<Rightarrow> compiled_schema option" where
  "read_compiled_schema app compiled =
     filter_option (\<lambda>schema. schema_version schema = COMPILED_VERSION) (app_schema_read app compiled)"

text \<open>\<open>StoredSchema::open\<close>: a form this version does not read is compiled again from its source.\<close>

definition open_schema :: "app \<Rightarrow> stored_schema \<Rightarrow> compiled_schema option" where
  "open_schema app stored =
     (case read_compiled_schema app (schema_compiled stored) of
        Some schema \<Rightarrow> Some schema
      | None \<Rightarrow> (case compile app (schema_source stored) of Err _ \<Rightarrow> None | Ok schema \<Rightarrow> Some schema))"

definition list_relation_subjects ::
    "realm_scope \<Rightarrow> object_ref \<Rightarrow> string \<Rightarrow> (subject_ref list \<times> bool) use_case" where
  "list_relation_subjects scope obj rel =
     and_then (begin_work scope) (\<lambda>_.
     and_then (on_work (store_list_relation_subjects obj rel (MAX_FANOUT + 1))) (\<lambda>subjects.
     ret (take MAX_FANOUT subjects, length subjects > MAX_FANOUT)))"

datatype schema_refusal = Schema_faults schema_faults | Schema_failed failure

text \<open>What goes with the schema before, when another takes its place.\<close>

definition remove_changed :: "app \<Rightarrow> stored_schema option \<Rightarrow> compiled_schema \<Rightarrow> nat use_case" where
  "remove_changed app before compiled =
     (case map_option (open_schema app) before of
        Some (Some opened_before) \<Rightarrow>
          let changed = list_changed_relations opened_before compiled in
          if changed = [] then ret 0 else on_work (store_delete_relations_of_kinds changed)
      | Some None \<Rightarrow> on_work (store_delete_relations_not_admitted (list_admitted_relations compiled))
      | None \<Rightarrow> on_work (store_delete_relations_not_admitted []))"

definition replace_schema ::
    "app \<Rightarrow> admin_caller \<Rightarrow> string \<Rightarrow> compiled_schema \<Rightarrow> (compiled_schema \<times> nat) use_case" where
  "replace_schema app caller source compiled =
     and_then (now app) (\<lambda>t.
     let stored = \<lparr>schema_source = source, schema_compiled = app_schema_form app compiled, schema_written_at = t\<rparr>;
         types = map fst (schema_types compiled);
         admitted = list_admitted_relations compiled in
     and_then (begin_work (caller_scope caller)) (\<lambda>_.
     and_then (on_work store_lock_definitions) (\<lambda>_.
     and_then (on_work (store_has_policy_for_types types)) (\<lambda>is_taken.
     and_then (ensure (\<not> is_taken) (new_failure ResourceTypeTaken)) (\<lambda>_.
     and_then (on_work store_read_relation_schema) (\<lambda>before.
     and_then (on_work (store_write_relation_schema stored admitted)) (\<lambda>_.
     and_then (remove_changed app before compiled) (\<lambda>removed.
     and_then (record_event app RelationSchemaWritten (json_object
         [(''actor'', describe_actor caller),
          (''relations_removed'', JNumber (PosInt removed)),
          (''source'', JString source),
          (''source_sha256'', JString (app_base64_encode app (app_sha256 app source))),
          (''types'', JArray (map JString types))])) (\<lambda>_.
     and_then commit (\<lambda>_. ret (compiled, removed)))))))))))"

definition write_relation_schema ::
    "app \<Rightarrow> admin_caller \<Rightarrow> string \<Rightarrow> (ctx, schema_refusal, compiled_schema \<times> nat) act" where
  "write_relation_schema app caller source =
     (case compile app source of
        Err faults \<Rightarrow> throw (Schema_faults faults)
      | Ok compiled \<Rightarrow> map_err Schema_failed (replace_schema app caller source compiled))"

definition read_relation_schema :: "realm_scope \<Rightarrow> stored_schema option use_case" where
  "read_relation_schema scope =
     and_then (begin_work scope) (\<lambda>_. on_work store_read_relation_schema)"

subsection \<open>Relations kept and removed\<close>

definition describe_relation :: "relation_tuple \<Rightarrow> json" where
  "describe_relation t = json_object
     [(''object'', JString (show_object (tuple_object t))),
      (''relation'', JString (tuple_relation t)),
      (''subject'', JString (show_subject (tuple_subject t)))]"

definition keep_relation :: "app \<Rightarrow> admin_caller \<Rightarrow> relation_tuple \<Rightarrow> unit use_case" where
  "keep_relation app caller t =
     and_then (now app) (\<lambda>_.
     and_then (on_work (store_insert_relation t)) (\<lambda>inserted.
     if inserted
     then and_then (record_event app RelationWritten (json_object
              [(''actor'', describe_actor caller), (''relation'', describe_relation t)])) (\<lambda>_. commit)
     else ret ()))"

definition write_relation :: "app \<Rightarrow> admin_caller \<Rightarrow> relation_tuple \<Rightarrow> unit use_case" where
  "write_relation app caller t =
     and_then (lift_result (check_relation_names t)) (\<lambda>_.
     and_then (begin_work (caller_scope caller)) (\<lambda>_.
     and_then (on_work (store_admit_relation t)) (\<lambda>admission.
     case admission of
       Admission_refused \<Rightarrow> throw (new_failure RelationInvalid)
     | Admission_kept \<Rightarrow> ret ()
     | Admission_taken \<Rightarrow> keep_relation app caller t)))"

definition delete_relation :: "app \<Rightarrow> admin_caller \<Rightarrow> relation_tuple \<Rightarrow> unit use_case" where
  "delete_relation app caller t =
     and_then (begin_work (caller_scope caller)) (\<lambda>_.
     and_then (on_work (store_delete_relation t)) (\<lambda>removed.
     and_then (ensure removed (new_failure RelationNotFound)) (\<lambda>_.
     and_then (record_event app RelationDeleted (json_object
         [(''actor'', describe_actor caller), (''relation'', describe_relation t)])) (\<lambda>_.
     commit))))"

subsection \<open>Guards of a type\<close>

definition MAX_GUARDS_LISTED :: nat where
  "MAX_GUARDS_LISTED = 100"

definition describe_guard :: "admin_caller \<Rightarrow> string \<Rightarrow> string \<Rightarrow> json" where
  "describe_guard caller ty client = json_object
     [(''actor'', describe_actor caller), (''client_id'', JString client), (''object_type'', JString ty)]"

definition write_relation_guard :: "app \<Rightarrow> admin_caller \<Rightarrow> string \<Rightarrow> string \<Rightarrow> unit use_case" where
  "write_relation_guard app caller ty client =
     and_then (ensure (is_schema_name ty) (new_failure RelationInvalid)) (\<lambda>_.
     and_then (begin_work (caller_scope caller)) (\<lambda>_.
     and_then (read_named_client app client) (\<lambda>found.
     and_then (ensure (found \<noteq> None) (new_failure ClientNotFound)) (\<lambda>_.
     and_then (now app) (\<lambda>_.
     and_then (on_work (store_insert_relation_guard ty client)) (\<lambda>inserted.
     if inserted
     then and_then (record_event app RelationGuardWritten (describe_guard caller ty client)) (\<lambda>_. commit)
     else ret ()))))))"

definition delete_relation_guard :: "app \<Rightarrow> admin_caller \<Rightarrow> string \<Rightarrow> string \<Rightarrow> unit use_case" where
  "delete_relation_guard app caller ty client =
     and_then (begin_work (caller_scope caller)) (\<lambda>_.
     and_then (on_work (store_delete_relation_guard ty client)) (\<lambda>removed.
     and_then (ensure removed (new_failure RelationNotFound)) (\<lambda>_.
     and_then (record_event app RelationGuardDeleted (describe_guard caller ty client)) (\<lambda>_.
     commit))))"

definition list_relation_guards :: "realm_scope \<Rightarrow> string \<Rightarrow> string list use_case" where
  "list_relation_guards scope ty =
     and_then (begin_work scope) (\<lambda>_. on_work (store_list_relation_guards ty MAX_GUARDS_LISTED))"

subsection \<open>Every change is said in the chain\<close>

lemma steady_remove_changed [steady_intro]: "steady (remove_changed app before compiled)"
  unfolding remove_changed_def Let_def by (intro steady_intro silent_intro)

interpretation schema_replacement: audited_use_case "write_relation_schema app caller source"
    "scope_realm (caller_scope caller)" for app caller source
  unfolding write_relation_schema_def replace_schema_def Let_def
  by (rule audited_by_phases) (rule phase_moves | rule phase_steps | intro steady_intro silent_intro)+

lemma leads_case_admission:
  "leads s0 P a Q \<Longrightarrow> leads s0 P b Q \<Longrightarrow> leads s0 P c Q \<Longrightarrow>
     leads s0 P (case x of Admission_refused \<Rightarrow> a | Admission_kept \<Rightarrow> b | Admission_taken \<Rightarrow> c) Q"
  by (cases x) simp_all

interpretation relation_writing: audited_use_case "write_relation app caller t" "scope_realm (caller_scope caller)"
  for app caller t
  unfolding write_relation_def keep_relation_def
  by (rule audited_by_phases)
     (rule phase_moves | rule leads_case_admission phase_steps | intro steady_intro silent_intro)+

interpretation relation_deletion: audited_use_case "delete_relation app caller t" "scope_realm (caller_scope caller)"
  for app caller t
  unfolding delete_relation_def
  by (rule audited_by_phases) (rule phase_moves | rule phase_steps | intro steady_intro silent_intro)+

interpretation guard_writing: audited_use_case "write_relation_guard app caller ty client"
    "scope_realm (caller_scope caller)" for app caller ty client
  unfolding write_relation_guard_def
  by (rule audited_by_phases) (rule phase_moves | rule phase_steps | intro steady_intro silent_intro)+

interpretation guard_deletion: audited_use_case "delete_relation_guard app caller ty client"
    "scope_realm (caller_scope caller)" for app caller ty client
  unfolding delete_relation_guard_def
  by (rule audited_by_phases) (rule phase_moves | rule phase_steps | intro steady_intro silent_intro)+

subsection \<open>What the use cases leave\<close>

lemma state_same [simp]:
  "s\<lparr>st_relations := st_relations s\<rparr> = s" "s\<lparr>st_relation_guards := st_relation_guards s\<rparr> = s"
  by (cases s, simp)+

text \<open>Which relations stay when a schema takes the place of the one before.\<close>

definition survives :: "app \<Rightarrow> stored_schema option \<Rightarrow> compiled_schema \<Rightarrow> relation_tuple \<Rightarrow> bool" where
  "survives app before compiled t \<longleftrightarrow>
     (case before of
        None \<Rightarrow> False
      | Some stored \<Rightarrow>
          (case open_schema app stored of
             None \<Rightarrow> is_of_kinds t (list_admitted_relations compiled)
           | Some schema \<Rightarrow> \<not> is_of_kinds t (list_changed_relations schema compiled)))"

lemma is_of_kinds_Nil [simp]: "\<not> is_of_kinds t []"
  by (simp add: is_of_kinds_def)

lemma wp_retain_relations:
  assumes "opened s = Some w" and "\<not> read_only w"
    and "\<And>n. Q n (s\<lparr>opened := Some (w\<lparr>working := (working w)\<lparr>st_relations := (st_relations (working w))(uow_realm w :=
      filter p (st_relations (working w) (uow_realm w)))\<rparr>\<rparr>)\<rparr>)"
  shows "wp (on_work (retain_relations p)) Q R s"
  using assms by (simp add: retain_relations_def wp_on_work_writing Let_def)

lemma wp_remove_changed:
  assumes "opened s = Some w" and "\<not> read_only w"
    and "\<And>n. Q n (s\<lparr>opened := Some (w\<lparr>working := (working w)\<lparr>st_relations := (st_relations (working w))(uow_realm w :=
      filter (survives app before compiled) (st_relations (working w) (uow_realm w)))\<rparr>\<rparr>)\<rparr>)"
  shows "wp (remove_changed app before compiled) Q R s"
proof (cases before)
  case None
  then have "survives app before compiled = (\<lambda>t. is_of_kinds t [])" by (simp add: survives_def fun_eq_iff)
  with None assms show ?thesis
    by (auto simp: remove_changed_def store_delete_relations_not_admitted_def intro!: wp_retain_relations)
next
  case (Some stored)
  show ?thesis
  proof (cases "open_schema app stored")
    case None
    with Some have "survives app before compiled = (\<lambda>t. is_of_kinds t (list_admitted_relations compiled))"
      by (simp add: survives_def fun_eq_iff)
    with None Some assms show ?thesis
      by (auto simp: remove_changed_def store_delete_relations_not_admitted_def intro!: wp_retain_relations)
  next
    case (Some schema)
    with \<open>before = Some stored\<close> have
      "survives app before compiled = (\<lambda>t. \<not> is_of_kinds t (list_changed_relations schema compiled))"
      by (simp add: survives_def fun_eq_iff)
    note kept = assms(3) [unfolded this]
    show ?thesis
    proof (cases "list_changed_relations schema compiled = []")
      case True
      with kept [of 0] assms(1) have "Q 0 s" by simp
      with True Some \<open>before = Some stored\<close> show ?thesis by (simp add: remove_changed_def)
    next
      case False
      with wp_retain_relations [where Q = Q and R = R, OF assms(1,2) kept] Some \<open>before = Some stored\<close> show ?thesis
        by (simp add: remove_changed_def store_delete_relations_of_kinds_def)
    qed
  qed
qed

lemma write_relation_schema_leaves: "wp (write_relation_schema app caller source)
    (\<lambda>x t. same_but_chain (shared t) ((shared s)\<lparr>
        st_relation_schemas := (st_relation_schemas (shared s))(home caller \<mapsto>
          \<lparr>schema_source = source, schema_compiled = app_schema_form app (fst x),
           schema_written_at = app_clock app (tick s) div 1000 * 1000\<rparr>),
        st_relation_kinds := (st_relation_kinds (shared s))(home caller := list_admitted_relations (fst x)),
        st_relations := (st_relations (shared s))(home caller :=
          filter (survives app (st_relation_schemas (shared s) (home caller)) (fst x))
            (st_relations (shared s) (home caller)))\<rparr>) \<and>
       (compile app source = Ok (fst x) \<and>
        \<not> list_ex (\<lambda>p. policy_resource_type p \<in> fst ` set (schema_types (fst x)))
           (st_policies (shared s) (home caller))))
    (\<lambda>_ t. shared t = shared s) s"
  (is "wp _ ?Q ?R s")
proof (cases "compile app source")
  case (Inr compiled)
  have "wp (replace_schema app caller source compiled) ?Q (\<lambda>_ t. shared t = shared s) s"
  proof (cases "outage s")
    case None
    with Inr show ?thesis
      unfolding replace_schema_def store_reads store_write_relation_schema_def
      by (simp add: run_simps) (auto simp: run_simps intro!: wp_remove_changed wp_record_event)
  qed (simp add: replace_schema_def begin_work_def Let_def)
  with Inr show ?thesis by (simp add: write_relation_schema_def)
qed (simp add: write_relation_schema_def)

lemma wp_admit_relation:
  assumes "opened s = Some w" and "\<not> read_only w"
  shows "wp (on_work (store_admit_relation r)) Q R s =
    Q (if \<not> is_of_kinds r (st_relation_kinds (working w) (uow_realm w)) then Admission_refused
       else if r \<in> set (st_relations (working w) (uow_realm w)) then Admission_kept else Admission_taken) s"
  using assms by (simp add: wp_on_work) (simp add: wp_def store_admit_relation_def and_then_def
      record_refusal_def refuse_in_snapshot_def ret_def)

lemma write_relation_leaves: "wp (write_relation app caller r)
    (\<lambda>x t. same_but_chain (shared t) ((shared s)\<lparr>st_relations := (st_relations (shared s))(home caller :=
         (if r \<in> set (st_relations (shared s) (home caller)) then st_relations (shared s) (home caller)
          else st_relations (shared s) (home caller) @ [r]))\<rparr>) \<and>
       is_of_kinds r (st_relation_kinds (shared s) (home caller)))
    (\<lambda>_ t. shared t = shared s) s"
  unfolding write_relation_def keep_relation_def store_insert_relation_def
  by (auto simp: run_simps wp_admit_relation intro!: wp_record_event split: option.split sum.split)

lemma delete_relation_leaves: "wp (delete_relation app caller r)
    (\<lambda>_ t. same_but_chain (shared t) ((shared s)\<lparr>st_relations := (st_relations (shared s))(home caller :=
         filter (\<lambda>known. known \<noteq> r) (st_relations (shared s) (home caller)))\<rparr>) \<and>
       r \<in> set (st_relations (shared s) (home caller)))
    (\<lambda>_ t. shared t = shared s) s"
  unfolding delete_relation_def store_delete_relation_def retain_relations_def
  by (auto simp: run_simps wp_on_work length_filter_less_iff intro!: wp_record_event split: option.split)

lemma write_relation_guard_leaves: "wp (write_relation_guard app caller ty client)
    (\<lambda>_ t. same_but_chain (shared t) ((shared s)\<lparr>st_relation_guards := (st_relation_guards (shared s))(home caller :=
         (if (ty, client) \<in> set (st_relation_guards (shared s) (home caller)) then st_relation_guards (shared s) (home caller)
          else st_relation_guards (shared s) (home caller) @ [(ty, client)]))\<rparr>) \<and>
       (is_schema_name ty \<and> client \<in> client_id ` set (st_clients (shared s) (home caller))))
    (\<lambda>_ t. shared t = shared s) s"
proof (cases "outage s")
  case None
  have "find (\<lambda>c. client_id c = client) clients = Some found \<Longrightarrow> client \<in> client_id ` set clients" for clients found
    by (auto dest: find_found)
  with None show ?thesis
    unfolding write_relation_guard_def store_insert_relation_guard_def
    by (auto simp: run_simps wp_read_named_client_eq intro!: wp_record_event split: sum.split_asm)
qed (auto simp: write_relation_guard_def begin_work_def)

lemma delete_relation_guard_leaves: "wp (delete_relation_guard app caller ty client)
    (\<lambda>_ t. same_but_chain (shared t) ((shared s)\<lparr>st_relation_guards := (st_relation_guards (shared s))(home caller :=
         filter (\<lambda>guard. guard \<noteq> (ty, client)) (st_relation_guards (shared s) (home caller)))\<rparr>) \<and>
       True)
    (\<lambda>_ t. shared t = shared s) s"
  unfolding delete_relation_guard_def store_delete_relation_guard_def
  by (auto simp: run_simps intro!: wp_record_event split: option.split)

subsection \<open>Relations of the kinds admitted\<close>

text \<open>
  What a realm keeps of relations: each once, each of a kind admitted; the kinds admitted are those
  of the schema it keeps, which opens; without a schema none is.
\<close>

definition relations_ok :: "app \<Rightarrow> state \<Rightarrow> uuid \<Rightarrow> bool" where
  "relations_ok app s realm \<longleftrightarrow>
     distinct (st_relations s realm) \<and>
     list_all (\<lambda>t. is_of_kinds t (st_relation_kinds s realm)) (st_relations s realm) \<and>
     Some (st_relation_kinds s realm) =
       (case st_relation_schemas s realm of
          None \<Rightarrow> Some []
        | Some stored \<Rightarrow> map_option list_admitted_relations (open_schema app stored))"

definition relations_inv :: "app \<Rightarrow> state \<Rightarrow> bool" where
  "relations_inv app s \<longleftrightarrow> (\<forall>realm. relations_ok app s realm)"

lemmas relations_inv_defs = relations_inv_def relations_ok_def

lemma relations_inv_blind: "blind_to_chains (relations_inv app)"
  by (auto simp: blind_to_chains_def relations_inv_defs split: option.splits)

text \<open>The kind a relation is of, and what a schema admits of it.\<close>

lemma is_of_kinds_iff:
  "is_of_kinds t kinds \<longleftrightarrow> AdmittedRelation (object_type (tuple_object t)) (tuple_relation t)
     (AllowedSubject (object_type (object (tuple_subject t))) (member (tuple_subject t))) \<in> set kinds"
proof -
  have "adm_type kind = ty \<and> adm_relation kind = rel \<and> allowed_type (adm_subject kind) = of_ty \<and>
      allowed_member (adm_subject kind) = m \<longleftrightarrow> kind = AdmittedRelation ty rel (AllowedSubject of_ty m)"
    for kind ty rel of_ty m
    by (cases kind; cases "adm_subject kind") auto
  then show ?thesis by (auto simp: is_of_kinds_def list_ex_iff)
qed

lemma admitted_listed: "is_admitted_by one schema \<Longrightarrow> one \<in> set (list_admitted_relations schema)"
  by (auto simp: is_admitted_by_def in_list_admitted is_some_and_def dest!: map_of_SomeD split: option.splits)

lemma surviving_admitted:
  assumes "relations_ok app s realm" and "t \<in> set (st_relations s realm)"
    and "survives app (st_relation_schemas s realm) compiled t"
  shows "is_of_kinds t (list_admitted_relations compiled)"
  using assms
  by (auto simp: survives_def relations_ok_def list_all_iff is_of_kinds_iff list_changed_relations_def
      intro!: admitted_listed split: option.splits)

text \<open>
  A schema opens as it was compiled when its stored form reads as what was stored, or does not
  read at all: then it is compiled again from its source.
\<close>

lemma compile_version: "compile app source = Ok schema \<Longrightarrow> schema_version schema = COMPILED_VERSION"
  by (auto simp: compile_def compile_schema_def Let_def split: sum.splits option.splits prod.splits if_splits)

lemma stored_schema_opens:
  assumes "app_schema_read app (app_schema_form app schema) \<in> {None, Some schema}"
    and "compile app source = Ok schema"
  shows "open_schema app \<lparr>schema_source = source, schema_compiled = app_schema_form app schema, schema_written_at = t\<rparr> =
    Some schema"
  using assms compile_version [OF assms(2)]
  by (auto simp: open_schema_def read_compiled_schema_def)

lemma write_relation_schema_keeps:
  assumes "relations_inv app (shared s)"
    and reads: "\<And>schema. app_schema_read app (app_schema_form app schema) \<in> {None, Some schema}"
  shows "wp (write_relation_schema app caller source)
    (\<lambda>_ t. relations_inv app (shared t)) (\<lambda>_ t. relations_inv app (shared t)) s"
proof (rule leaves_keep [OF write_relation_schema_leaves relations_inv_blind assms(1)])
  fix x :: "compiled_schema \<times> nat"
  let ?kept = "filter (survives app (st_relation_schemas (shared s) (home caller)) (fst x)) (st_relations (shared s) (home caller))"
  assume "compile app source = Ok (fst x) \<and> \<not> list_ex
    (\<lambda>p. policy_resource_type p \<in> fst ` set (schema_types (fst x))) (st_policies (shared s) (home caller))"
  then have opens: "open_schema app \<lparr>schema_source = source, schema_compiled = app_schema_form app (fst x),
      schema_written_at = t\<rparr> = Some (fst x)" for t
    using stored_schema_opens [OF reads] by blast
  have ok: "relations_ok app (shared s) realm" for realm using assms(1) by (simp add: relations_inv_def)
  have "list_all (\<lambda>t. is_of_kinds t (list_admitted_relations (fst x))) ?kept"
    using surviving_admitted [OF ok] by (auto simp: list_all_iff)
  with ok opens show "relations_inv app ((shared s)\<lparr>
      st_relation_schemas := (st_relation_schemas (shared s))(home caller \<mapsto>
        \<lparr>schema_source = source, schema_compiled = app_schema_form app (fst x),
         schema_written_at = app_clock app (tick s) div 1000 * 1000\<rparr>),
      st_relation_kinds := (st_relation_kinds (shared s))(home caller := list_admitted_relations (fst x)),
      st_relations := (st_relations (shared s))(home caller := ?kept)\<rparr>)"
    by (simp add: relations_inv_defs)
qed

lemma write_relation_keeps:
  assumes "relations_inv app (shared s)"
  shows "wp (write_relation app caller r)
    (\<lambda>_ t. relations_inv app (shared t)) (\<lambda>_ t. relations_inv app (shared t)) s"
  by (rule leaves_keep [OF write_relation_leaves relations_inv_blind assms])
     (use assms in \<open>auto simp: relations_inv_defs\<close>)

lemma delete_relation_keeps:
  assumes "relations_inv app (shared s)"
  shows "wp (delete_relation app caller r)
    (\<lambda>_ t. relations_inv app (shared t)) (\<lambda>_ t. relations_inv app (shared t)) s"
  by (rule leaves_keep [OF delete_relation_leaves relations_inv_blind assms])
     (use assms in \<open>auto simp: relations_inv_defs list_all_iff\<close>)

end
