(* ===== verification/Policy.thy ===== *)
theory Policy
  imports Relations
begin

text \<open>
  Policies (\<open>saffui-core/src/authz/policy.rs\<close>): their conditions as documents, what a condition says
  of a subject, a resource and an instant, what a policy says of a question and what several say
  together, and the use cases that write and remove them. The lemmas show that the evaluation is
  the three-valued conjunction or disjunction of the conditions, that a denial wins over all and
  a policy that cannot tell over a permission, and that conditions written read back.
\<close>

subsection \<open>Conditions\<close>

definition MAX_CONDITIONS :: nat where "MAX_CONDITIONS = 32"
definition MAX_POLICIES_PER_CLIENT :: nat where "MAX_POLICIES_PER_CLIENT = 200"
definition MAX_APPLICABLE_POLICIES :: nat where "MAX_APPLICABLE_POLICIES = 16"
definition MAX_CONDITIONS_BYTES :: nat where "MAX_CONDITIONS_BYTES = 16 * 1024"

datatype subject_attribute = Subject_id | Username | Email | EmailVerified | Client_id | Subject_scope

datatype operand = Operand_subject subject_attribute | Operand_resource string | Operand_value json

datatype operator = Equals | Contains | StartsWith | EndsWith | In | Gt | Gte | Lt | Lte | Present

datatype condition =
    Role_condition uuid
  | Group_condition uuid
  | Attribute_condition operand operator "operand option"
  | Time_condition "string option" "string option"

text \<open>
  The documents of conditions, as the derived serialization of the code writes and reads them: an
  enum is tagged by the name of its variant in snake case, a field that is \<open>None\<close> is left out, a
  field that is not known is refused.
\<close>

fun attribute_name :: "subject_attribute \<Rightarrow> string" where
  "attribute_name Subject_id = ''id''"
| "attribute_name Username = ''username''"
| "attribute_name Email = ''email''"
| "attribute_name EmailVerified = ''email_verified''"
| "attribute_name Client_id = ''client_id''"
| "attribute_name Subject_scope = ''scope''"

definition all_attributes :: "subject_attribute list" where
  "all_attributes = [Subject_id, Username, Email, EmailVerified, Client_id, Subject_scope]"

fun operator_name :: "operator \<Rightarrow> string" where
  "operator_name Equals = ''equals''"
| "operator_name Contains = ''contains''"
| "operator_name StartsWith = ''starts_with''"
| "operator_name EndsWith = ''ends_with''"
| "operator_name In = ''in''"
| "operator_name Gt = ''gt''"
| "operator_name Gte = ''gte''"
| "operator_name Lt = ''lt''"
| "operator_name Lte = ''lte''"
| "operator_name Present = ''present''"

definition all_operators :: "operator list" where
  "all_operators = [Equals, Contains, StartsWith, EndsWith, In, Gt, Gte, Lt, Lte, Present]"

text \<open>A tagged value: a text names a variant without content, an object of one member one with.\<close>

definition variant_of :: "json \<Rightarrow> (string \<times> json option) option" where
  "variant_of v =
     (case v of
        JString name \<Rightarrow> Some (name, None)
      | JObject [(name, content)] \<Rightarrow> Some (name, Some content)
      | _ \<Rightarrow> None)"

definition read_unit_variant :: "('a \<Rightarrow> string) \<Rightarrow> 'a list \<Rightarrow> json \<Rightarrow> 'a option" where
  "read_unit_variant name_of variants v =
     (case variant_of v of
        None \<Rightarrow> None
      | Some (name, content) \<Rightarrow>
          if content = None \<or> content = Some JNull then find (\<lambda>x. name_of x = name) variants else None)"

definition write_operand :: "operand \<Rightarrow> json" where
  "write_operand x =
     (case x of
        Operand_subject a \<Rightarrow> JObject [(''subject'', JString (attribute_name a))]
      | Operand_resource name \<Rightarrow> JObject [(''resource'', JString name)]
      | Operand_value v \<Rightarrow> JObject [(''value'', v)])"

definition read_operand_document :: "json \<Rightarrow> operand option" where
  "read_operand_document v =
     (case variant_of v of
        Some (name, Some content) \<Rightarrow>
          if name = ''subject'' then map_option Operand_subject (read_unit_variant attribute_name all_attributes content)
          else if name = ''resource'' then map_option Operand_resource (json_as_str content)
          else if name = ''value'' then Some (Operand_value content)
          else None
      | _ \<Rightarrow> None)"

text \<open>An optional field: absent and \<open>null\<close> are none, anything else must read.\<close>

definition read_optional :: "(json \<Rightarrow> 'a option) \<Rightarrow> string \<Rightarrow> (string \<times> json) list \<Rightarrow> 'a option option" where
  "read_optional read name members =
     (case map_of members name of
        None \<Rightarrow> Some None
      | Some v \<Rightarrow> if v = JNull then Some None else map_option Some (read v))"

definition write_condition :: "app \<Rightarrow> condition \<Rightarrow> json" where
  "write_condition app c =
     (case c of
        Role_condition i \<Rightarrow> JObject [(''role'', JString (app_uuid_text app i))]
      | Group_condition i \<Rightarrow> JObject [(''group'', JString (app_uuid_text app i))]
      | Attribute_condition left op right \<Rightarrow>
          JObject [(''attribute'', json_object
            ([(''left'', write_operand left), (''operator'', JString (operator_name op))] @
             (case right of None \<Rightarrow> [] | Some x \<Rightarrow> [(''right'', write_operand x)])))]
      | Time_condition from until \<Rightarrow>
          JObject [(''time'', json_object
            ((case from of None \<Rightarrow> [] | Some x \<Rightarrow> [(''not_before'', JString x)]) @
             (case until of None \<Rightarrow> [] | Some x \<Rightarrow> [(''not_on_or_after'', JString x)])))])"

definition read_uuid :: "app \<Rightarrow> json \<Rightarrow> uuid option" where
  "read_uuid app v = Option.bind (json_as_str v) (app_uuid_parse app)"

definition read_attribute_fields :: "(string \<times> json) list \<Rightarrow> condition option" where
  "read_attribute_fields members =
     (if set (map fst members) \<subseteq> {''left'', ''operator'', ''right''} then
        (case (Option.bind (map_of members ''left'') read_operand_document,
               Option.bind (map_of members ''operator'') (read_unit_variant operator_name all_operators),
               read_optional read_operand_document ''right'' members) of
           (Some left, Some op, Some right) \<Rightarrow> Some (Attribute_condition left op right)
         | _ \<Rightarrow> None)
      else None)"

definition read_time_fields :: "(string \<times> json) list \<Rightarrow> condition option" where
  "read_time_fields members =
     (if set (map fst members) \<subseteq> {''not_before'', ''not_on_or_after''} then
        (case (read_optional json_as_str ''not_before'' members, read_optional json_as_str ''not_on_or_after'' members) of
           (Some from, Some until) \<Rightarrow> Some (Time_condition from until)
         | _ \<Rightarrow> None)
      else None)"

definition read_condition :: "app \<Rightarrow> json \<Rightarrow> condition option" where
  "read_condition app v =
     (case variant_of v of
        Some (name, Some content) \<Rightarrow>
          if name = ''role'' then map_option Role_condition (read_uuid app content)
          else if name = ''group'' then map_option Group_condition (read_uuid app content)
          else if name = ''attribute'' then
            (case content of JObject members \<Rightarrow> read_attribute_fields members | _ \<Rightarrow> None)
          else if name = ''time'' then
            (case content of JObject members \<Rightarrow> read_time_fields members | _ \<Rightarrow> None)
          else None
      | _ \<Rightarrow> None)"

fun read_each :: "('a \<Rightarrow> 'b option) \<Rightarrow> 'a list \<Rightarrow> 'b list option" where
  "read_each f [] = Some []"
| "read_each f (x # xs) =
     (case f x of None \<Rightarrow> None | Some y \<Rightarrow> map_option (Cons y) (read_each f xs))"

definition read_conditions :: "app \<Rightarrow> json \<Rightarrow> failure + condition list" where
  "read_conditions app document =
     ok_or (new_failure PolicyInvalid) (Option.bind (json_as_array document) (read_each (read_condition app)))"

definition write_conditions :: "app \<Rightarrow> condition list \<Rightarrow> json" where
  "write_conditions app cs = JArray (map (write_condition app) cs)"

subsection \<open>Facts and truths\<close>

record subject_facts =
  facts_id :: string
  facts_username :: "string option"
  facts_email :: "string option"
  facts_email_verified :: "bool option"
  facts_client_id :: string
  facts_scopes :: "string list"
  facts_roles :: "uuid list"
  facts_groups :: "uuid list"

definition default_facts :: subject_facts where
  "default_facts = \<lparr>facts_id = [], facts_username = None, facts_email = None, facts_email_verified = None,
     facts_client_id = [], facts_scopes = [], facts_roles = [], facts_groups = []\<rparr>"

definition read_subject_attribute :: "subject_facts \<Rightarrow> subject_attribute \<Rightarrow> json option" where
  "read_subject_attribute f a =
     (case a of
        Subject_id \<Rightarrow> Some (JString (facts_id f))
      | Username \<Rightarrow> map_option JString (facts_username f)
      | Email \<Rightarrow> map_option JString (facts_email f)
      | EmailVerified \<Rightarrow> map_option JBool (facts_email_verified f)
      | Client_id \<Rightarrow> Some (JString (facts_client_id f))
      | Subject_scope \<Rightarrow> Some (JArray (map JString (facts_scopes f))))"

record facts =
  facts_subject :: subject_facts
  facts_resource :: "(string \<times> json) list"
  facts_now :: instant

datatype truth = Holds | Fails | Unknown

definition truth_of :: "bool \<Rightarrow> truth" where
  "truth_of b = (if b then Holds else Fails)"

definition read_operand :: "facts \<Rightarrow> operand \<Rightarrow> json option" where
  "read_operand f x =
     (case x of
        Operand_subject a \<Rightarrow> read_subject_attribute (facts_subject f) a
      | Operand_resource name \<Rightarrow> filter_option (\<lambda>v. v \<noteq> JNull) (map_of (facts_resource f) name)
      | Operand_value v \<Rightarrow> Some v)"

definition is_same_value :: "json \<Rightarrow> json \<Rightarrow> bool" where
  "is_same_value left right \<longleftrightarrow>
     (case (left, right) of
        (JNumber one, JNumber other) \<Rightarrow>
          if is_f64 one \<or> is_f64 other then f64_equal (as_f64 one) (as_f64 other) else left = right
      | _ \<Rightarrow> left = right)"

text \<open>\<open>str::contains\<close> on bytes: UTF-8 texts match as their bytes do.\<close>

definition text_contains :: "string \<Rightarrow> string \<Rightarrow> bool" where
  "text_contains whole part \<longleftrightarrow> sublist part whole"

definition compare_texts :: "(string \<Rightarrow> string \<Rightarrow> bool) \<Rightarrow> json \<Rightarrow> json \<Rightarrow> bool option" where
  "compare_texts f left right =
     (case (json_as_str left, json_as_str right) of (Some a, Some b) \<Rightarrow> Some (f a b) | _ \<Rightarrow> None)"

definition compare_numbers :: "(f64 \<Rightarrow> f64 \<Rightarrow> bool) \<Rightarrow> json \<Rightarrow> json \<Rightarrow> bool option" where
  "compare_numbers f left right =
     (case (json_as_f64 left, json_as_f64 right) of (Some a, Some b) \<Rightarrow> Some (f a b) | _ \<Rightarrow> None)"

definition is_in :: "json \<Rightarrow> json \<Rightarrow> bool option" where
  "is_in left right =
     (case json_as_array right of
        None \<Rightarrow> None
      | Some items \<Rightarrow>
          (case left of
             JString _ \<Rightarrow> Some (list_ex (\<lambda>item. is_same_value item left) items)
           | JNumber _ \<Rightarrow> Some (list_ex (\<lambda>item. is_same_value item left) items)
           | JBool _ \<Rightarrow> Some (list_ex (\<lambda>item. is_same_value item left) items)
           | _ \<Rightarrow> None))"

fun apply_operator :: "operator \<Rightarrow> json \<Rightarrow> json \<Rightarrow> bool option" where
  "apply_operator Equals left right = Some (is_same_value left right)"
| "apply_operator Contains left right = compare_texts text_contains left right"
| "apply_operator StartsWith left right = compare_texts (\<lambda>whole part. prefix part whole) left right"
| "apply_operator EndsWith left right = compare_texts (\<lambda>whole part. suffix part whole) left right"
| "apply_operator In left right = is_in left right"
| "apply_operator Gt left right = compare_numbers (\<lambda>a b. f64_less b a) left right"
| "apply_operator Gte left right = compare_numbers (\<lambda>a b. \<not> f64_less a b) left right"
| "apply_operator Lt left right = compare_numbers f64_less left right"
| "apply_operator Lte left right = compare_numbers (\<lambda>a b. \<not> f64_less b a) left right"
| "apply_operator Present left right = None"

definition compare_operands :: "operator \<Rightarrow> json option \<Rightarrow> json option \<Rightarrow> truth" where
  "compare_operands op left right =
     (if op = Present then truth_of (left \<noteq> None)
      else
        (case (left, right) of
           (Some a, Some b) \<Rightarrow>
             (case apply_operator op a b of None \<Rightarrow> Unknown | Some answer \<Rightarrow> truth_of answer)
         | _ \<Rightarrow> Unknown))"

text \<open>\<open>read_bound\<close>: a bound that is written but does not read is an error.\<close>

definition read_bound :: "app \<Rightarrow> string option \<Rightarrow> unit + instant option" where
  "read_bound app text =
     (case text of
        None \<Rightarrow> Ok None
      | Some t \<Rightarrow> (case read_instant app t of None \<Rightarrow> Err () | Some i \<Rightarrow> Ok (Some i)))"

definition evaluate_condition :: "app \<Rightarrow> facts \<Rightarrow> condition \<Rightarrow> truth" where
  "evaluate_condition app f c =
     (case c of
        Role_condition i \<Rightarrow> truth_of (i \<in> set (facts_roles (facts_subject f)))
      | Group_condition i \<Rightarrow> truth_of (i \<in> set (facts_groups (facts_subject f)))
      | Attribute_condition left op right \<Rightarrow>
          compare_operands op (read_operand f left) (Option.bind right (read_operand f))
      | Time_condition from until \<Rightarrow>
          (case (read_bound app from, read_bound app until) of
             (Ok a, Ok b) \<Rightarrow>
               truth_of (is_none_or (\<lambda>x. x \<le> facts_now f) a \<and> is_none_or (\<lambda>x. facts_now f < x) b)
           | _ \<Rightarrow> Unknown))"

subsection \<open>Policies\<close>

datatype policy_outcome = Applies effect | NotApplicable | Outcome_undecided

text \<open>The loop over the truths: it ends at the first that decides.\<close>

fun weigh_truths :: "effect \<Rightarrow> truth \<Rightarrow> bool \<Rightarrow> truth list \<Rightarrow> policy_outcome" where
  "weigh_truths eff decisive unknown [] =
     (if unknown then Outcome_undecided
      else if decisive = Holds then NotApplicable
      else Applies eff)"
| "weigh_truths eff decisive unknown (t # ts) =
     (if t = decisive then (if decisive = Holds then Applies eff else NotApplicable)
      else weigh_truths eff decisive (unknown \<or> t = Unknown) ts)"

definition evaluate_policy :: "app \<Rightarrow> facts \<Rightarrow> policy \<Rightarrow> policy_outcome" where
  "evaluate_policy app f p =
     (case read_conditions app (policy_conditions p) of
        Err _ \<Rightarrow> Outcome_undecided
      | Ok conditions \<Rightarrow>
          if conditions = [] then Outcome_undecided
          else weigh_truths (policy_effect p)
                 (case policy_combine p of Combine_all \<Rightarrow> Fails | Combine_any \<Rightarrow> Holds) False
                 (map (evaluate_condition app f) conditions))"

datatype policy_verdict = Verdict_permit string | Verdict_deny string | Verdict_undecided string | NoPolicy

fun weigh_from :: "app \<Rightarrow> facts \<Rightarrow> string option \<Rightarrow> string option \<Rightarrow> policy list \<Rightarrow> policy_verdict" where
  "weigh_from app f permitted undecided [] =
     (case undecided of
        Some name \<Rightarrow> Verdict_undecided name
      | None \<Rightarrow> (case permitted of Some name \<Rightarrow> Verdict_permit name | None \<Rightarrow> NoPolicy))"
| "weigh_from app f permitted undecided (p # ps) =
     (case evaluate_policy app f p of
        Applies Deny \<Rightarrow> Verdict_deny (policy_name p)
      | Applies Permit \<Rightarrow>
          weigh_from app f (case permitted of None \<Rightarrow> Some (policy_name p) | Some n \<Rightarrow> Some n) undecided ps
      | Outcome_undecided \<Rightarrow>
          weigh_from app f permitted (case undecided of None \<Rightarrow> Some (policy_name p) | Some n \<Rightarrow> Some n) ps
      | NotApplicable \<Rightarrow> weigh_from app f permitted undecided ps)"

definition weigh_policies :: "app \<Rightarrow> facts \<Rightarrow> policy list \<Rightarrow> policy_verdict" where
  "weigh_policies app f policies = weigh_from app f None None policies"

subsection \<open>Policies written and removed\<close>

text \<open>
  \<open>i64::abs\<close> of a build without overflow checks, as a release is: the one integer whose magnitude
  does not fit is left as it is.
\<close>

definition i64_abs :: "int \<Rightarrow> int" where
  "i64_abs i = (if i = - (2 ^ 63) then i else \<bar>i\<bar>)"

fun is_storable_value :: "json \<Rightarrow> bool" where
  "is_storable_value JNull = True"
| "is_storable_value (JBool b) = True"
| "is_storable_value (JNumber n) = is_some_and (\<lambda>whole. i64_abs whole \<le> int MAX_SAFE_INTEGER) (as_i64 n)"
| "is_storable_value (JString text) = (\<not> list_ex is_unshowable (chars text))"
| "is_storable_value (JArray items) = list_all (\<lambda>item. is_storable_value item) items"
| "is_storable_value (JObject members) =
     list_all (\<lambda>(key, item). \<not> list_ex is_unshowable (chars key) \<and> is_storable_value item) members"

definition is_attribute_name :: "string \<Rightarrow> bool" where
  "is_attribute_name text = is_role_name text"

definition is_named_operand :: "operand \<Rightarrow> bool" where
  "is_named_operand x =
     (case x of
        Operand_resource name \<Rightarrow> is_attribute_name name
      | Operand_subject _ \<Rightarrow> True
      | Operand_value v \<Rightarrow> is_storable_value v)"

text \<open>What the loop of \<open>check_conditions\<close> asks of one condition alone.\<close>

definition is_decidable :: "app \<Rightarrow> condition \<Rightarrow> bool" where
  "is_decidable app c =
     (case c of
        Role_condition _ \<Rightarrow> True
      | Group_condition _ \<Rightarrow> True
      | Attribute_condition left op right \<Rightarrow>
          (op = Present) = (right = None) \<and> is_named_operand left \<and> is_none_or is_named_operand right
      | Time_condition from until \<Rightarrow>
          (case (read_bound app from, read_bound app until) of
             (Ok a, Ok b) \<Rightarrow>
               (case (a, b) of (None, None) \<Rightarrow> False | (Some x, Some y) \<Rightarrow> x < y | _ \<Rightarrow> True)
           | _ \<Rightarrow> False))"

fun named_role :: "condition \<Rightarrow> uuid option" where
  "named_role (Role_condition i) = Some i"
| "named_role _ = None"

fun named_group :: "condition \<Rightarrow> uuid option" where
  "named_group (Group_condition i) = Some i"
| "named_group _ = None"

text \<open>The identifiers named, sorted and each once.\<close>

definition named_once :: "(condition \<Rightarrow> uuid option) \<Rightarrow> condition list \<Rightarrow> uuid list" where
  "named_once name conditions = remdups (sort (List.map_filter name conditions))"

definition check_roles :: "string \<Rightarrow> uuid list \<Rightarrow> unit use_case" where
  "check_roles client roles =
     (if roles = [] then ret ()
      else and_then (on_work (store_read_roles roles)) (\<lambda>found.
        ensure (length (filter (\<lambda>r. is_none_or (\<lambda>owner. owner = client) (role_client_id r)) found) = length roles)
          (new_failure PolicyInvalid)))"

definition check_groups :: "uuid list \<Rightarrow> unit use_case" where
  "check_groups groups =
     (if groups = [] then ret ()
      else and_then (on_work (store_read_groups groups)) (\<lambda>found.
        ensure (length found = length groups) (new_failure PolicyInvalid)))"

definition check_conditions :: "app \<Rightarrow> string \<Rightarrow> condition list \<Rightarrow> unit use_case" where
  "check_conditions app client conditions =
     and_then (ensure (conditions \<noteq> [] \<and> length conditions \<le> MAX_CONDITIONS) (new_failure PolicyInvalid)) (\<lambda>_.
     and_then (ensure (list_all (is_decidable app) conditions) (new_failure PolicyInvalid)) (\<lambda>_.
     and_then (check_roles client (named_once named_role conditions)) (\<lambda>_.
     check_groups (named_once named_group conditions))))"

record new_policy =
  wanted_policy_client_id :: string
  wanted_policy_name :: string
  wanted_resource_type :: string
  wanted_action :: string
  wanted_effect :: effect
  wanted_combine :: combine
  wanted_conditions :: json

definition is_nameable :: "app \<Rightarrow> new_policy \<Rightarrow> bool" where
  "is_nameable app wanted \<longleftrightarrow>
     list_all is_role_name [wanted_policy_name wanted, wanted_resource_type wanted, wanted_action wanted] \<and>
     length (app_json_write app (wanted_conditions wanted)) \<le> MAX_CONDITIONS_BYTES"

definition describe_policy :: "app \<Rightarrow> admin_caller \<Rightarrow> policy \<Rightarrow> json" where
  "describe_policy app caller p = json_object
     [(''action'', JString (policy_action p)),
      (''actor'', describe_actor caller),
      (''client_id'', JString (policy_client_id p)),
      (''combine'', JString (combine_name (policy_combine p))),
      (''conditions'', policy_conditions p),
      (''effect'', JString (effect_name (policy_effect p))),
      (''name'', JString (policy_name p)),
      (''policy_id'', JString (app_uuid_text app (policy_id p))),
      (''resource_type'', JString (policy_resource_type p))]"

text \<open>What \<open>create_policy\<close> asks of the unit of work before the policy is made.\<close>

definition admit_policy :: "app \<Rightarrow> new_policy \<Rightarrow> condition list \<Rightarrow> unit use_case" where
  "admit_policy app wanted conditions =
     and_then (on_work store_lock_definitions) (\<lambda>_.
     and_then (read_named_client app (wanted_policy_client_id wanted)) (\<lambda>found.
     and_then (ensure (found \<noteq> None) (new_failure ClientNotFound)) (\<lambda>_.
     and_then (check_conditions app (wanted_policy_client_id wanted) conditions) (\<lambda>_.
     and_then (on_work store_read_relation_schema) (\<lambda>stored.
     and_then (ensure
         (\<not> is_some_and (\<lambda>schema. map_of (schema_types schema) (wanted_resource_type wanted) \<noteq> None)
            (Option.bind stored (open_schema app)))
         (new_failure ResourceTypeTaken)) (\<lambda>_.
     and_then (on_work (store_count_policies (wanted_policy_client_id wanted) MAX_POLICIES_PER_CLIENT)) (\<lambda>kept.
     and_then (ensure (kept < MAX_POLICIES_PER_CLIENT) (new_failure PolicyInvalid)) (\<lambda>_.
     and_then (on_work (store_list_applicable_policies (wanted_policy_client_id wanted)
         (wanted_resource_type wanted) (wanted_action wanted))) (\<lambda>applicable.
     ensure (length applicable < MAX_APPLICABLE_POLICIES) (new_failure PolicyInvalid))))))))))"

definition create_policy :: "app \<Rightarrow> admin_caller \<Rightarrow> new_policy \<Rightarrow> policy use_case" where
  "create_policy app caller wanted =
     and_then (ensure (is_nameable app wanted) (new_failure PolicyInvalid)) (\<lambda>_.
     and_then (lift_result (read_conditions app (wanted_conditions wanted))) (\<lambda>conditions.
     and_then (begin_work (caller_scope caller)) (\<lambda>_.
     and_then (admit_policy app wanted conditions) (\<lambda>_.
     and_then (mint_id app) (\<lambda>i.
     and_then (now app) (\<lambda>t.
     let p = \<lparr>policy_id = i, policy_client_id = wanted_policy_client_id wanted,
              policy_name = wanted_policy_name wanted, policy_resource_type = wanted_resource_type wanted,
              policy_action = wanted_action wanted, policy_effect = wanted_effect wanted,
              policy_combine = wanted_combine wanted, policy_conditions = write_conditions app conditions,
              policy_created_at = t\<rparr> in
     and_then (on_work (store_insert_policy p)) (\<lambda>inserted.
     and_then (ensure inserted (new_failure PolicyNameTaken)) (\<lambda>_.
     and_then (record_event app PolicyCreated (describe_policy app caller p)) (\<lambda>_.
     and_then commit (\<lambda>_. ret p))))))))))"

definition list_policies :: "app \<Rightarrow> realm_scope \<Rightarrow> string \<Rightarrow> policy list use_case" where
  "list_policies app scope client =
     and_then (begin_work scope) (\<lambda>_.
     and_then (read_named_client app client) (\<lambda>found.
     and_then (ensure (found \<noteq> None) (new_failure ClientNotFound)) (\<lambda>_.
     on_work (store_list_policies client))))"

definition delete_policy :: "app \<Rightarrow> admin_caller \<Rightarrow> string \<Rightarrow> uuid \<Rightarrow> unit use_case" where
  "delete_policy app caller client i =
     and_then (begin_work (caller_scope caller)) (\<lambda>_.
     and_then (on_work (store_delete_policy client i)) (\<lambda>removed.
     and_then (ensure removed (new_failure PolicyNotFound)) (\<lambda>_.
     and_then (record_event app PolicyDeleted (json_object
         [(''actor'', describe_actor caller),
          (''client_id'', JString client),
          (''policy_id'', JString (app_uuid_text app i))])) (\<lambda>_.
     commit))))"

subsection \<open>Every change is said in the chain\<close>

lemma steady_admit_policy [steady_intro]: "steady (admit_policy app wanted conditions)"
  unfolding admit_policy_def check_conditions_def check_roles_def check_groups_def
  by (intro steady_intro silent_intro)

interpretation policy_creation: audited_use_case "create_policy app caller wanted" "scope_realm (caller_scope caller)"
  for app caller wanted
  unfolding create_policy_def Let_def
  by (rule audited_by_phases) (rule phase_moves | rule phase_steps | intro steady_intro silent_intro)+

interpretation policy_deletion: audited_use_case "delete_policy app caller client i" "scope_realm (caller_scope caller)"
  for app caller client i
  unfolding delete_policy_def
  by (rule audited_by_phases) (rule phase_moves | rule phase_steps | intro steady_intro silent_intro)+

subsection \<open>Conditions read back\<close>

lemma read_unit_variants:
  "read_unit_variant attribute_name all_attributes (JString (attribute_name a)) = Some a"
  "read_unit_variant operator_name all_operators (JString (operator_name op)) = Some op"
  by (cases a; simp add: read_unit_variant_def variant_of_def all_attributes_def)
     (cases op; simp add: read_unit_variant_def variant_of_def all_operators_def)

lemma read_write_operand [simp]: "read_operand_document (write_operand x) = Some x"
  by (cases x) (simp_all add: read_operand_document_def write_operand_def variant_of_def read_unit_variants json_as_str_def)

lemma write_operand_not_null [simp]: "write_operand x \<noteq> JNull"
  by (cases x) (simp_all add: write_operand_def)

lemma read_write_condition:
  assumes "\<And>i. app_uuid_parse app (app_uuid_text app i) = Some i"
  shows "read_condition app (write_condition app c) = Some c"
proof (cases c)
  case (Attribute_condition left op right)
  then show ?thesis
    by (cases right) (simp_all add: read_condition_def write_condition_def variant_of_def read_attribute_fields_def
        json_object_def read_optional_def read_unit_variants)
next
  case (Time_condition earliest until)
  then show ?thesis
    by (cases earliest; cases until) (simp_all add: read_condition_def write_condition_def variant_of_def
        read_time_fields_def json_object_def read_optional_def json_as_str_def)
qed (simp_all add: read_condition_def write_condition_def variant_of_def read_uuid_def json_as_str_def assms)

lemma read_each_map: "(\<And>x. f (g x) = Some x) \<Longrightarrow> read_each f (map g xs) = Some xs"
  by (induction xs) simp_all

subsection \<open>What policies say together\<close>

lemma weigh_truths_of_set:
  assumes "decisive \<noteq> Unknown"
  shows "weigh_truths eff decisive unknown truths =
    (if decisive \<in> set truths then (if decisive = Holds then Applies eff else NotApplicable)
     else if unknown \<or> Unknown \<in> set truths then Outcome_undecided
     else if decisive = Holds then NotApplicable else Applies eff)"
  using assms by (induction truths arbitrary: unknown) auto

text \<open>
  What the weighing tells once it is done, whatever it had met before: the names it carries are of
  policies met, and nothing decided passes a policy that denies.
\<close>

lemma weigh_from_tells:
  "case weigh_from app f permitted undecided ps of
     Verdict_deny name \<Rightarrow> (name, Applies Deny) \<in> (\<lambda>p. (policy_name p, evaluate_policy app f p)) ` set ps
   | Verdict_undecided name \<Rightarrow> Applies Deny \<notin> evaluate_policy app f ` set ps \<and>
       (undecided = Some name \<or> (name, Outcome_undecided) \<in> (\<lambda>p. (policy_name p, evaluate_policy app f p)) ` set ps)
   | Verdict_permit name \<Rightarrow> undecided = None \<and> evaluate_policy app f ` set ps \<subseteq> {Applies Permit, NotApplicable} \<and>
       (permitted = Some name \<or> (name, Applies Permit) \<in> (\<lambda>p. (policy_name p, evaluate_policy app f p)) ` set ps)
   | NoPolicy \<Rightarrow> undecided = None \<and> permitted = None \<and> evaluate_policy app f ` set ps \<subseteq> {NotApplicable}"
proof (induction ps arbitrary: permitted undecided)
  case Nil
  then show ?case by (simp split: option.split)
next
  case (Cons p ps)
  show ?case
  proof (cases "evaluate_policy app f p")
    case (Applies eff)
    show ?thesis
    proof (cases eff)
      case Permit
      with Applies Cons.IH [where permitted = "case permitted of None \<Rightarrow> Some (policy_name p) | Some n \<Rightarrow> Some n" and undecided = undecided]
      show ?thesis by (auto split: policy_verdict.splits option.splits)
    qed (simp add: Applies)
  next
    case NotApplicable
    with Cons.IH [where permitted = permitted and undecided = undecided] show ?thesis by (auto split: policy_verdict.splits)
  next
    case Outcome_undecided
    with Cons.IH [where permitted = permitted and undecided = "case undecided of None \<Rightarrow> Some (policy_name p) | Some n \<Rightarrow> Some n"]
    show ?thesis by (auto split: policy_verdict.splits option.splits)
  qed
qed

subsection \<open>Properties\<close>

text \<open>
  C31: what a policy says of a question does not depend on the order of its conditions. A policy
  that asks all of its conditions does not apply as soon as one fails, and is undecided when none
  fails and one cannot be told; a policy that asks any of them applies as soon as one holds, and
  is undecided when none holds and one cannot be told. A policy without conditions, or whose
  conditions do not read, is never taken to apply.
\<close>

theorem policies_are_three_valued:
  "evaluate_policy app f p =
     (case read_conditions app (policy_conditions p) of
        Err _ \<Rightarrow> Outcome_undecided
      | Ok conditions \<Rightarrow>
          let said = evaluate_condition app f ` set conditions in
          if said = {} then Outcome_undecided
          else (case policy_combine p of
             Combine_all \<Rightarrow> if Fails \<in> said then NotApplicable
               else if Unknown \<in> said then Outcome_undecided else Applies (policy_effect p)
           | Combine_any \<Rightarrow> if Holds \<in> said then Applies (policy_effect p)
               else if Unknown \<in> said then Outcome_undecided else NotApplicable))"
  by (simp add: evaluate_policy_def weigh_truths_of_set Let_def split: sum.split combine.split)

text \<open>
  C32: what policies say together. A policy that denies wins over every other; without one, a policy
  that cannot be decided wins over those that permit; a permission names a policy that permits, and
  every policy beside it permits too or does not apply. No policy is told only when none applies.
\<close>

theorem denials_override:
  "case weigh_policies app f policies of
     Verdict_deny name \<Rightarrow> (name, Applies Deny) \<in> (\<lambda>p. (policy_name p, evaluate_policy app f p)) ` set policies
   | Verdict_undecided name \<Rightarrow> Applies Deny \<notin> evaluate_policy app f ` set policies \<and>
       (name, Outcome_undecided) \<in> (\<lambda>p. (policy_name p, evaluate_policy app f p)) ` set policies
   | Verdict_permit name \<Rightarrow> evaluate_policy app f ` set policies \<subseteq> {Applies Permit, NotApplicable} \<and>
       (name, Applies Permit) \<in> (\<lambda>p. (policy_name p, evaluate_policy app f p)) ` set policies
   | NoPolicy \<Rightarrow> evaluate_policy app f ` set policies \<subseteq> {NotApplicable}"
  using weigh_from_tells [where permitted = None and undecided = None and ps = policies and app = app and f = f]
  by (simp add: weigh_policies_def split: policy_verdict.splits)

text \<open>
  C35: conditions written read back as they were. It takes of the identifiers that the text of one
  reads as it.
\<close>

theorem conditions_round_trip:
  assumes "\<And>i. app_uuid_parse app (app_uuid_text app i) = Some i"
  shows "read_conditions app (write_conditions app conditions) = Ok conditions"
  using read_each_map [where f = "read_condition app" and g = "write_condition app", OF read_write_condition [OF assms]]
  by (simp add: read_conditions_def write_conditions_def json_as_array_def ok_or_def)

theorem conditions_round_trip_witness:
  "read_conditions (sample_app\<lparr>app_uuid_text := \<lambda>i. replicate i CHR ''u'', app_uuid_parse := \<lambda>text. Some (length text)\<rparr>)
     (write_conditions (sample_app\<lparr>app_uuid_text := \<lambda>i. replicate i CHR ''u'', app_uuid_parse := \<lambda>text. Some (length text)\<rparr>)
        [Role_condition 3, Attribute_condition (Operand_subject Email) EndsWith (Some (Operand_value (JString ''@example.org''))),
         Time_condition None (Some ''2030-01-01T00:00:00Z'')]) =
   Ok [Role_condition 3, Attribute_condition (Operand_subject Email) EndsWith (Some (Operand_value (JString ''@example.org''))),
         Time_condition None (Some ''2030-01-01T00:00:00Z'')]"
  by (rule conditions_round_trip) simp

text \<open>
  C36: the numbers a condition may compare with. Every number taken has a canonical form, but one:
  the least integer of 64 bits, whose magnitude does not fit, passes the check of its magnitude
  although it is not one every reader keeps exact and has no canonical form.
\<close>

theorem storable_numbers_are_safe_but_one:
  "is_storable_value (JNumber n) \<longleftrightarrow> safe_json (JNumber n) \<or> n = NegInt (- (2 ^ 63))"
  by (cases n) (auto simp: i64_abs_def MAX_SAFE_INTEGER_def is_some_and_def)

subsection \<open>What the use cases leave\<close>

lemma reads_only_admit_policy [reads_intro]: "reads_only (admit_policy app wanted conditions)"
  unfolding admit_policy_def check_conditions_def check_roles_def check_groups_def store_reads
  by (auto intro!: reads_intro)

lemma wp_check_conditions:
  assumes "opened s = Some w" and "conditions \<noteq> [] \<Longrightarrow> length conditions \<le> MAX_CONDITIONS \<Longrightarrow>
    list_all (is_decidable app) conditions \<Longrightarrow> Q () s" and "\<And>e. R e s"
  shows "wp (check_conditions app client conditions) Q R s"
  using assms unfolding check_conditions_def check_roles_def check_groups_def store_read_roles_def store_read_groups_def
  by (simp add: wp_on_work_reading)

lemma wp_admit_policy:
  assumes w: "opened s = Some w" and R: "\<And>e. R e s"
    and Q: "list_all (is_decidable app) conditions \<Longrightarrow>
      \<not> is_some_and (\<lambda>schema. map_of (schema_types schema) (wanted_resource_type wanted) \<noteq> None)
         (Option.bind (st_relation_schemas (working w) (uow_realm w)) (open_schema app)) \<Longrightarrow>
      length (filter (\<lambda>p. policy_client_id p = wanted_policy_client_id wanted) (st_policies (working w) (uow_realm w)))
        < MAX_POLICIES_PER_CLIENT \<Longrightarrow>
      length (filter (\<lambda>p. policy_client_id p = wanted_policy_client_id wanted \<and>
          policy_resource_type p = wanted_resource_type wanted \<and> policy_action p = wanted_action wanted)
        (st_policies (working w) (uow_realm w))) < MAX_APPLICABLE_POLICIES \<Longrightarrow> Q () s"
  shows "wp (admit_policy app wanted conditions) Q R s"
proof -
  have same: "length (filter g (sort_key policy_name (filter h ps))) = length (filter (\<lambda>p. h p \<and> g p) ps)" for g h ps
    by (metis filter_filter filter_sort length_sort)
  show ?thesis
    using R Q unfolding admit_policy_def store_lock_definitions_def store_read_relation_schema_def
      store_count_policies_def store_list_applicable_policies_def policies_of_def
    by (auto simp: wp_on_work_reading [OF w] wp_read_named_client_eq [OF w] same min_less_iff_disj intro!: wp_check_conditions [OF w])
qed

text \<open>The end of \<open>create_policy\<close>, once the policy is made.\<close>

lemma wp_insert_policy:
  assumes "opened s = Some \<lparr>uow_scope = scope, working = st, failed = False, read_only = False\<rparr>"
  shows "wp (and_then (on_work (store_insert_policy p)) (\<lambda>inserted. and_then (ensure inserted e) (\<lambda>_.
      and_then (record_event app kind payload) (\<lambda>_. and_then commit (\<lambda>_. ret p)))))
    (\<lambda>p' t. p' = p \<and> same_but_chain (shared t) (st\<lparr>st_policies := (st_policies st)(scope_realm scope :=
         st_policies st (scope_realm scope) @ [p])\<rparr>) \<and>
       (policy_client_id p, policy_name p) \<notin>
          (\<lambda>known. (policy_client_id known, policy_name known)) ` set (st_policies st (scope_realm scope)))
    (\<lambda>_ t. shared t = shared s) s"
proof (cases "(policy_client_id p, policy_name p) \<in>
    (\<lambda>known. (policy_client_id known, policy_name known)) ` set (st_policies st (scope_realm scope))")
  case True
  then have "list_ex (\<lambda>known. policy_client_id known = policy_client_id p \<and> policy_name known = policy_name p)
      (st_policies st (scope_realm scope))"
    by (auto simp: list_ex_iff)
  then show ?thesis
    unfolding store_insert_policy_def by (simp add: wp_on_work_writing [OF assms] uow_realm_def)
next
  case False
  then have "\<not> list_ex (\<lambda>known. policy_client_id known = policy_client_id p \<and> policy_name known = policy_name p)
      (st_policies st (scope_realm scope))"
    by (auto simp: list_ex_iff image_iff)
  with False show ?thesis
    unfolding store_insert_policy_def
    by (simp add: wp_on_work_writing [OF assms] uow_realm_def) (rule wp_record_event, simp, simp_all add: wp_commit_some)
qed

lemma create_policy_leaves: "wp (create_policy app caller wanted)
    (\<lambda>p t. same_but_chain (shared t) ((shared s)\<lparr>st_policies := (st_policies (shared s))(home caller :=
         st_policies (shared s) (home caller) @ [p])\<rparr>) \<and>
       ((policy_client_id p, policy_name p) \<notin>
          (\<lambda>known. (policy_client_id known, policy_name known)) ` set (st_policies (shared s) (home caller)) \<and>
        length (filter (\<lambda>known. policy_client_id known = policy_client_id p) (st_policies (shared s) (home caller)))
          < MAX_POLICIES_PER_CLIENT \<and>
        length (filter (\<lambda>known. policy_client_id known = policy_client_id p \<and>
            policy_resource_type known = policy_resource_type p \<and> policy_action known = policy_action p)
          (st_policies (shared s) (home caller))) < MAX_APPLICABLE_POLICIES \<and>
        \<not> is_some_and (\<lambda>schema. map_of (schema_types schema) (policy_resource_type p) \<noteq> None)
           (Option.bind (st_relation_schemas (shared s) (home caller)) (open_schema app)) \<and>
        (\<exists>conditions. policy_conditions p = write_conditions app conditions \<and> list_all (is_decidable app) conditions)))
    (\<lambda>_ t. shared t = shared s) s"
  (is "wp _ ?Q ?R s")
proof (cases "outage s")
  case None
  let ?w = "\<lparr>uow_scope = caller_scope caller, working = shared s, failed = False, read_only = False\<rparr>"
  define ending where "ending p = and_then (on_work (store_insert_policy p)) (\<lambda>inserted.
      and_then (ensure inserted (new_failure PolicyNameTaken)) (\<lambda>_.
      and_then (record_event app PolicyCreated (describe_policy app caller p)) (\<lambda>_. and_then commit (\<lambda>_. ret p))))" for p
  have ends: "wp (ending p) ?Q ?R (s\<lparr>opened := Some ?w, drawn := d, tick := k\<rparr>)"
    if "length (filter (\<lambda>known. policy_client_id known = policy_client_id p) (st_policies (shared s) (home caller)))
          < MAX_POLICIES_PER_CLIENT"
      "length (filter (\<lambda>known. policy_client_id known = policy_client_id p \<and>
            policy_resource_type known = policy_resource_type p \<and> policy_action known = policy_action p)
          (st_policies (shared s) (home caller))) < MAX_APPLICABLE_POLICIES"
      "\<not> is_some_and (\<lambda>schema. map_of (schema_types schema) (policy_resource_type p) \<noteq> None)
           (Option.bind (st_relation_schemas (shared s) (home caller)) (open_schema app))"
      "policy_conditions p = write_conditions app conditions" "list_all (is_decidable app) conditions"
    for p d k conditions
    unfolding ending_def by (rule wp_mono [OF wp_insert_policy]) (use that in auto)
  show ?thesis
    unfolding create_policy_def Let_def ending_def [symmetric]
    by (auto simp: begin_work_def None wp_mint_id_eq uow_realm_def simp del: not_None_eq intro!: ends wp_admit_policy [where w = ?w]
        split: sum.split option.split)
qed (simp add: create_policy_def begin_work_def split: sum.split)

lemma delete_policy_leaves: "wp (delete_policy app caller client i)
    (\<lambda>_ t. same_but_chain (shared t) ((shared s)\<lparr>st_policies := (st_policies (shared s))(home caller :=
         filter (\<lambda>p. \<not> (policy_client_id p = client \<and> policy_id p = i)) (st_policies (shared s) (home caller)))\<rparr>) \<and>
       True)
    (\<lambda>_ t. shared t = shared s) s"
  unfolding delete_policy_def store_delete_policy_def
  by (auto simp: run_simps intro!: wp_record_event split: option.split)

subsection \<open>Policies within their bounds\<close>

text \<open>
  What a realm keeps of policies: no two of a client share a name, a client has no more than its
  bound, a question is answered by no more than the bound of policies, the conditions of each were
  checked, and none is of a type the schema of relations decides.
\<close>

definition policies_ok :: "app \<Rightarrow> state \<Rightarrow> uuid \<Rightarrow> bool" where
  "policies_ok app s realm \<longleftrightarrow>
     distinct (map (\<lambda>p. (policy_client_id p, policy_name p)) (st_policies s realm)) \<and>
     (\<forall>client. length (filter (\<lambda>p. policy_client_id p = client) (st_policies s realm)) \<le> MAX_POLICIES_PER_CLIENT) \<and>
     (\<forall>client ty action. length (filter (\<lambda>p. policy_client_id p = client \<and> policy_resource_type p = ty \<and>
        policy_action p = action) (st_policies s realm)) \<le> MAX_APPLICABLE_POLICIES) \<and>
     (\<forall>p \<in> set (st_policies s realm).
        (\<exists>conditions. policy_conditions p = write_conditions app conditions \<and> list_all (is_decidable app) conditions) \<and>
        \<not> is_some_and (\<lambda>schema. policy_resource_type p \<in> fst ` set (schema_types schema))
           (Option.bind (st_relation_schemas s realm) (open_schema app)))"

definition policies_inv :: "app \<Rightarrow> state \<Rightarrow> bool" where
  "policies_inv app s \<longleftrightarrow> (\<forall>realm. policies_ok app s realm)"

lemmas policies_inv_defs = policies_inv_def policies_ok_def

lemma policies_inv_blind: "blind_to_chains (policies_inv app)"
  by (simp add: blind_to_chains_def policies_inv_defs)

lemma create_policy_keeps:
  assumes "policies_inv app (shared s)"
  shows "wp (create_policy app caller wanted)
    (\<lambda>_ t. policies_inv app (shared t)) (\<lambda>_ t. policies_inv app (shared t)) s"
  by (rule leaves_keep [OF create_policy_leaves policies_inv_blind assms])
     (use assms in \<open>auto simp: policies_inv_defs Suc_le_eq map_of_keys simp del: not_None_eq\<close>)

lemma delete_policy_keeps:
  assumes "policies_inv app (shared s)"
  shows "wp (delete_policy app caller client i)
    (\<lambda>_ t. policies_inv app (shared t)) (\<lambda>_ t. policies_inv app (shared t)) s"
  by (rule leaves_keep [OF delete_policy_leaves policies_inv_blind assms])
     (use assms in \<open>auto simp: policies_inv_defs distinct_map_filter intro: order_trans [OF length_filter_conj]\<close>)

lemma replacement_keeps_policies:
  assumes "policies_inv app (shared s)"
    and reads: "\<And>schema. app_schema_read app (app_schema_form app schema) \<in> {None, Some schema}"
  shows "wp (write_relation_schema app caller source)
    (\<lambda>_ t. policies_inv app (shared t)) (\<lambda>_ t. policies_inv app (shared t)) s"
  by (rule leaves_keep [OF write_relation_schema_leaves policies_inv_blind assms(1)])
     (use assms(1) in \<open>auto simp: policies_inv_defs list_ex_iff stored_schema_opens [OF reads]\<close>)

end
