(* ===== verification/Tokens.thy ===== *)
theory Tokens
  imports Roles "HOL-Library.Countable"
begin

text \<open>
  Tokens: the compact form of what a realm signs (\<open>saffui-core/src/tokens/jws.rs\<close>), the reading of
  an access token and of an identity hint (\<open>tokens/verify.rs\<close>), the key of a realm opened to sign
  (\<open>keys/jwks.rs\<close>) and the minting of tokens (\<open>tokens/mint.rs\<close>). The lemmas show that a token is
  believed only under a key of the realm and within its time, that a token signed reads back, and
  that a token that says roles expires with them.
\<close>

subsection \<open>The compact form\<close>

text \<open>\<open>text.split(mark)\<close>\<close>

fun split_at :: "char \<Rightarrow> string \<Rightarrow> string list" where
  "split_at c [] = [[]]"
| "split_at c (x # xs) =
     (if x = c then [] # split_at c xs
      else (case split_at c xs of [] \<Rightarrow> [[x]] | part # parts \<Rightarrow> (x # part) # parts))"

definition sign_compact :: "app \<Rightarrow> signing_key \<Rightarrow> bytes \<Rightarrow> string \<Rightarrow> json \<Rightarrow> string option" where
  "sign_compact app k private_key token_type claims =
     (let header = json_object
            [(''alg'', JString (algorithm_name (signing_algorithm k))), (''kid'', JString (signing_kid k)),
             (''typ'', JString token_type)];
          input = app_base64_encode app (app_json_write app header) @ ''.'' @
                  app_base64_encode app (app_json_write app claims)
      in map_option (\<lambda>signature. input @ ''.'' @ app_base64_encode app signature)
           (app_sign app (signing_algorithm k) private_key input))"

record verified_token =
  verified_type :: "string option"
  verified_claims :: json

definition read_part :: "app \<Rightarrow> string \<Rightarrow> json option" where
  "read_part app part = Option.bind (app_base64_decode app part) (app_json_read app)"

text \<open>\<open>value[name].as_str()\<close>\<close>

definition text_member :: "string \<Rightarrow> json \<Rightarrow> string option" where
  "text_member name v = Option.bind (json_get name v) json_as_str"

definition check_signature :: "app \<Rightarrow> signing_key \<Rightarrow> json \<Rightarrow> string \<Rightarrow> string \<Rightarrow> bool" where
  "check_signature app k header input signature \<longleftrightarrow>
     Option.bind (text_member ''alg'' header) parse_algorithm = Some (signing_algorithm k) \<and>
     is_some_and (\<lambda>decoded. app_verify app (signing_algorithm k) (signing_public_jwk k) input decoded = Some True)
       (app_base64_decode app signature)"

definition verify_compact :: "app \<Rightarrow> string \<Rightarrow> signing_key list \<Rightarrow> verified_token option" where
  "verify_compact app token keys =
     (case split_at CHR ''.'' token of
        [header, claims, signature] \<Rightarrow>
          (case read_part app header of
             None \<Rightarrow> None
           | Some read_header \<Rightarrow>
               (case find (\<lambda>k. text_member ''kid'' read_header = Some (signing_kid k)) keys of
                  None \<Rightarrow> None
                | Some k \<Rightarrow>
                    if check_signature app k read_header (take (length header + 1 + length claims) token) signature
                    then map_option (\<lambda>read_claims.
                           \<lparr>verified_type = text_member ''typ'' read_header, verified_claims = read_claims\<rparr>)
                         (read_part app claims)
                    else None))
      | _ \<Rightarrow> None)"

subsection \<open>Reading a token\<close>

definition CLOCK_SKEW_SECONDS :: int where "CLOCK_SKEW_SECONDS = 30"
definition ACCESS_TOKEN_TYPE :: string where "ACCESS_TOKEN_TYPE = ''at+jwt''"
definition IDENTITY_TOKEN_TYPE :: string where "IDENTITY_TOKEN_TYPE = ''JWT''"
definition ACCESS_TOKEN_LIFETIME_SECONDS :: int where "ACCESS_TOKEN_LIFETIME_SECONDS = 300"
definition IDENTITY_TOKEN_LIFETIME_SECONDS :: int where "IDENTITY_TOKEN_LIFETIME_SECONDS = 300"

text \<open>\<open>instant.unix_timestamp()\<close>: whole seconds, rounded down.\<close>

definition unix_timestamp :: "instant \<Rightarrow> int" where
  "unix_timestamp t = t div 1000000000"

record access_token_claims =
  claims_subject :: string
  claims_client_id :: string
  claims_scopes :: "string list"
  claims_token_id :: string
  claims_issued_at :: int
  claims_expires_at :: int
  claims_session :: "uuid option"

definition integer_member :: "string \<Rightarrow> json \<Rightarrow> int option" where
  "integer_member name v =
     (case json_get name v of Some (JNumber n) \<Rightarrow> as_i64 n | _ \<Rightarrow> None)"

text \<open>The session a token names: none when it names none, and no token at all when it does not read.\<close>

definition read_session_claim :: "app \<Rightarrow> json \<Rightarrow> uuid option option" where
  "read_session_claim app claims =
     (case json_get ''sid'' claims of
        None \<Rightarrow> Some None
      | Some v \<Rightarrow> map_option Some (Option.bind (json_as_str v) (app_uuid_parse app)))"

definition read_claims :: "app \<Rightarrow> string \<Rightarrow> int \<Rightarrow> json \<Rightarrow> access_token_claims option" where
  "read_claims app issuer t claims =
     (case (integer_member ''exp'' claims, integer_member ''iat'' claims) of
        (Some expires_at, Some issued_at) \<Rightarrow>
          if text_member ''iss'' claims \<noteq> Some issuer \<or> expires_at \<le> t \<or> issued_at > t + CLOCK_SKEW_SECONDS
          then None
          else
            (case (text_member ''sub'' claims, text_member ''client_id'' claims, text_member ''scope'' claims,
                   text_member ''jti'' claims, read_session_claim app claims) of
               (Some subject, Some client, Some scope, Some token_id, Some session) \<Rightarrow>
                 Some \<lparr>claims_subject = subject, claims_client_id = client,
                       claims_scopes = filter (\<lambda>x. x \<noteq> []) (split_at CHR '' '' scope),
                       claims_token_id = token_id, claims_issued_at = issued_at,
                       claims_expires_at = expires_at, claims_session = session\<rparr>
             | _ \<Rightarrow> None)
      | _ \<Rightarrow> None)"

definition verify_access_token :: "app \<Rightarrow> string \<Rightarrow> string \<Rightarrow> access_token_claims use_case" where
  "verify_access_token app issuer token =
     and_then (on_work store_list_signing_keys) (\<lambda>keys.
     case filter_option (\<lambda>v. verified_type v = Some ACCESS_TOKEN_TYPE) (verify_compact app token keys) of
       None \<Rightarrow> throw (new_failure TokenInvalid)
     | Some verified \<Rightarrow>
         and_then (now app) (\<lambda>t.
         lift_result (ok_or (new_failure TokenInvalid)
           (read_claims app issuer (unix_timestamp t) (verified_claims verified)))))"

record identity_hint =
  hint_client_id :: string
  hint_session :: uuid
  hint_subject :: string

definition read_hint :: "app \<Rightarrow> string \<Rightarrow> verified_token \<Rightarrow> identity_hint option" where
  "read_hint app issuer verified =
     (let claims = verified_claims verified in
      if verified_type verified \<noteq> Some IDENTITY_TOKEN_TYPE \<or> text_member ''iss'' claims \<noteq> Some issuer then None
      else
        (case (text_member ''aud'' claims, Option.bind (text_member ''sid'' claims) (app_uuid_parse app),
               text_member ''sub'' claims) of
           (Some client, Some session, Some subject) \<Rightarrow>
             Some \<lparr>hint_client_id = client, hint_session = session, hint_subject = subject\<rparr>
         | _ \<Rightarrow> None))"

definition read_identity_hint :: "app \<Rightarrow> string \<Rightarrow> string \<Rightarrow> identity_hint option use_case" where
  "read_identity_hint app issuer token =
     and_then (on_work store_list_signing_keys) (\<lambda>keys.
     ret (Option.bind (verify_compact app token keys) (read_hint app issuer)))"

subsection \<open>Minting\<close>

definition SIGNING_KEY_PURPOSE :: string where
  "SIGNING_KEY_PURPOSE = ''signing-key''"

definition keep_data_key :: "wrapped_data_key \<Rightarrow> unit work_act" where
  "keep_data_key k = and_then refuse_in_snapshot (\<lambda>_ w.
     if is_none_or (\<lambda>known. data_key_generation known < data_key_generation k)
          (st_data_keys (working w) (uow_realm w))
     then (Ok (), w\<lparr>working := (working w)\<lparr>st_data_keys := (st_data_keys (working w))(uow_realm w \<mapsto> k)\<rparr>\<rparr>)
     else (Err Storage_Failed, w))"

definition store_insert_data_key :: "wrapped_data_key \<Rightarrow> unit work_act" where
  "store_insert_data_key k = record_refusal (keep_data_key k)"

definition store_read_data_key :: "wrapped_data_key option work_act" where
  "store_read_data_key = reading (\<lambda>w. st_data_keys (working w) (uow_realm w))"

definition publish_key_set :: "realm_scope \<Rightarrow> json list use_case" where
  "publish_key_set scope =
     and_then (begin_work scope) (\<lambda>_.
     and_then (on_work store_list_signing_keys) (\<lambda>keys. ret (map signing_public_jwk keys)))"

definition crypto_unavailable :: "string \<Rightarrow> failure" where
  "crypto_unavailable why = failure_with_detail CryptoUnavailable why"

text \<open>\<open>open_signing_key\<close>: the newest key of the algorithm, with its private half.\<close>

definition open_signing_key :: "app \<Rightarrow> signature_algorithm \<Rightarrow> (signing_key \<times> bytes) use_case" where
  "open_signing_key app algorithm =
     and_then work_scope (\<lambda>scope.
     and_then (on_work store_list_signing_keys) (\<lambda>keys.
     and_then (lift_result (ok_or (crypto_unavailable ''the realm has no signing key of this algorithm'')
         (find (\<lambda>k. signing_algorithm k = algorithm) (rev keys)))) (\<lambda>k.
     and_then (on_work store_read_data_key) (\<lambda>found.
     and_then (lift_result (ok_or (crypto_unavailable ''the realm has no data key'') found)) (\<lambda>data_key.
     and_then (lift_result (ok_or (crypto_unavailable ''a signing key does not open where it is stored'')
         (app_open_sealed app data_key
           \<lparr>place_tenant = scope_tenant scope, place_realm = scope_realm scope,
            place_purpose = SIGNING_KEY_PURPOSE, place_row = signing_key_id k\<rparr> (sealed_private_key k)))) (\<lambda>private_key.
     ret (k, private_key)))))))"

definition open_minting_key :: "app \<Rightarrow> (signing_key \<times> bytes) use_case" where
  "open_minting_key app = open_signing_key app Es256"

definition sign_claims :: "app \<Rightarrow> signing_key \<times> bytes \<Rightarrow> string \<Rightarrow> json \<Rightarrow> failure + string" where
  "sign_claims app key token_type claims =
     ok_or (crypto_unavailable ''a token cannot be signed'') (sign_compact app (fst key) (snd key) token_type claims)"

text \<open>An \<open>i64\<close> as a JSON number, and \<open>saturating_add_unsigned\<close>.\<close>

definition json_integer :: "int \<Rightarrow> json" where
  "json_integer i = JNumber (if i < 0 then NegInt i else PosInt (nat i))"

definition saturating_add :: "int \<Rightarrow> int \<Rightarrow> int" where
  "saturating_add a b = min (a + b) (2 ^ 63 - 1)"

text \<open>\<open>claims[name] = value\<close> on an object, and \<open>scopes.join(" ")\<close>.\<close>

definition set_member :: "string \<Rightarrow> json \<Rightarrow> json \<Rightarrow> json" where
  "set_member name v claims =
     (case claims of JObject members \<Rightarrow> JObject (bt_insert name v members) | _ \<Rightarrow> claims)"

fun join_scopes :: "string list \<Rightarrow> string" where
  "join_scopes [] = []"
| "join_scopes [scope] = scope"
| "join_scopes (scope # scopes) = scope @ '' '' @ join_scopes scopes"

record access_token_subject =
  subject_issuer :: string
  subject_name :: string
  subject_client_id :: string
  subject_scopes :: "string list"
  subject_session :: "uuid option"
  subject_roles :: "role_claims option"

record issued_access_token =
  issued_token :: string
  issued_expires_in :: nat
  issued_scope :: string

text \<open>When a token made at an instant expires: with its lifetime, or with the first role it says.\<close>

definition access_expiry :: "access_token_subject \<Rightarrow> int \<Rightarrow> int" where
  "access_expiry subject issued_at =
     (let lifetime_ends = saturating_add issued_at ACCESS_TOKEN_LIFETIME_SECONDS in
      case Option.bind (subject_roles subject) claimed_until of
        None \<Rightarrow> lifetime_ends
      | Some until \<Rightarrow> min (unix_timestamp until) lifetime_ends)"

definition access_claims :: "app \<Rightarrow> access_token_subject \<Rightarrow> int \<Rightarrow> uuid \<Rightarrow> json" where
  "access_claims app subject issued_at i =
     (let claims = json_object
            [(''iss'', JString (subject_issuer subject)),
             (''sub'', JString (subject_name subject)),
             (''aud'', JString (subject_issuer subject)),
             (''client_id'', JString (subject_client_id subject)),
             (''scope'', JString (join_scopes (subject_scopes subject))),
             (''iat'', json_integer issued_at),
             (''exp'', json_integer (access_expiry subject issued_at)),
             (''jti'', JString (app_uuid_text app i))];
          claims' = (case subject_session subject of
              None \<Rightarrow> claims
            | Some x \<Rightarrow> set_member ''sid'' (JString (app_uuid_text app x)) claims)
      in case subject_roles subject of
           None \<Rightarrow> claims'
         | Some roles \<Rightarrow>
             set_member ''resource_access'' (write_resource_access roles (subject_client_id subject))
               (set_member ''realm_access'' (write_realm_access roles) claims'))"

definition mint_access_token ::
    "app \<Rightarrow> signing_key \<times> bytes \<Rightarrow> access_token_subject \<Rightarrow> issued_access_token use_case" where
  "mint_access_token app key subject =
     and_then (now app) (\<lambda>t.
     let issued_at = unix_timestamp t in
     and_then (mint_id app) (\<lambda>i.
     and_then (lift_result (sign_claims app key ACCESS_TOKEN_TYPE (access_claims app subject issued_at i))) (\<lambda>token.
     ret \<lparr>issued_token = token,
          issued_expires_in = (if access_expiry subject issued_at < issued_at then 0
                               else nat (access_expiry subject issued_at - issued_at)),
          issued_scope = join_scopes (subject_scopes subject)\<rparr>)))"

text \<open>\<open>write_methods\<close> and \<open>write_person_claims\<close>\<close>

definition write_methods :: "authentication_method list \<Rightarrow> json" where
  "write_methods methods =
     JArray (map JString (map method_name methods @ (if length methods > 1 then [''mfa''] else [])))"

definition write_person_claims :: "person \<Rightarrow> string list \<Rightarrow> json \<Rightarrow> json" where
  "write_person_claims p scopes claims =
     (let told = (if ''profile'' \<in> set scopes
                  then (case person_display_name p of
                          None \<Rightarrow> set_member ''preferred_username'' (JString (person_username p)) claims
                        | Some name \<Rightarrow>
                            set_member ''name'' (JString name)
                              (set_member ''preferred_username'' (JString (person_username p)) claims))
                  else claims)
      in case person_email p of
           Some email \<Rightarrow>
             if ''email'' \<in> set scopes
             then set_member ''email_verified'' (JBool (person_email_verified p))
                    (set_member ''email'' (JString email) told)
             else told
         | None \<Rightarrow> told)"

record identity_token_subject =
  identity_issuer :: string
  identity_person :: person
  identity_client_id :: string
  identity_scopes :: "string list"
  identity_nonce :: "string option"
  identity_session :: uuid
  identity_authenticated_at :: instant
  identity_methods :: "authentication_method list"

definition identity_claims :: "app \<Rightarrow> identity_token_subject \<Rightarrow> int \<Rightarrow> json" where
  "identity_claims app subject issued_at =
     (let claims = json_object
            [(''iss'', JString (identity_issuer subject)),
             (''sub'', JString (app_uuid_text app (person_id (identity_person subject)))),
             (''aud'', JString (identity_client_id subject)),
             (''iat'', json_integer issued_at),
             (''exp'', json_integer (saturating_add issued_at IDENTITY_TOKEN_LIFETIME_SECONDS)),
             (''auth_time'', json_integer (unix_timestamp (identity_authenticated_at subject))),
             (''sid'', JString (app_uuid_text app (identity_session subject)))];
          claims' = (case identity_nonce subject of
              None \<Rightarrow> claims | Some nonce \<Rightarrow> set_member ''nonce'' (JString nonce) claims)
      in write_person_claims (identity_person subject) (identity_scopes subject)
           (set_member ''amr'' (write_methods (identity_methods subject)) claims'))"

definition mint_identity_token :: "app \<Rightarrow> signing_key \<times> bytes \<Rightarrow> identity_token_subject \<Rightarrow> string use_case" where
  "mint_identity_token app key subject =
     and_then (now app) (\<lambda>t.
     lift_result (sign_claims app key IDENTITY_TOKEN_TYPE (identity_claims app subject (unix_timestamp t))))"

subsection \<open>What a token is believed for\<close>

lemma split_at_parts: "split_at c str = parts \<Longrightarrow> (\<forall>part \<in> set parts. c \<notin> set part)"
  by (induction c str arbitrary: parts rule: split_at.induct) (auto split: if_splits list.splits)

lemma split_at_ne [simp]: "split_at c str \<noteq> []"
  by (induction c str rule: split_at.induct) (auto split: list.split)

lemma split_at_none: "c \<notin> set str \<Longrightarrow> split_at c str = [str]"
  by (induction str) auto

lemma split_at_append: "c \<notin> set part \<Longrightarrow> split_at c (part @ c # str) = part # split_at c str"
  by (induction part) auto

lemma split_at_one: "split_at c str = [part] \<Longrightarrow> str = part"
  by (induction c str arbitrary: part rule: split_at.induct) (auto split: if_splits list.splits)

lemma split_at_more: "split_at c str = part # other # parts \<Longrightarrow>
    \<exists>rest. str = part @ c # rest \<and> split_at c rest = other # parts"
proof (induction c str arbitrary: part rule: split_at.induct)
  case (2 c x xs)
  show ?case
  proof (cases "x = c")
    case False
    then obtain part' where "split_at c xs = part' # other # parts" "part = x # part'"
      using 2(3) by (auto split: list.splits)
    with 2(2) [OF False] False show ?thesis by fastforce
  qed (use 2(3) in auto)
qed simp

lemma split_at_three:
  assumes "split_at c token = [one, two, three]"
  shows "token = one @ c # two @ c # three"
  using assms by (auto dest!: split_at_more split_at_one)

text \<open>
  What stands behind a token that verifies: three parts, the first of which names a key of those
  given and its algorithm, the last of which is a signature of the two others under that key.
\<close>

lemma verify_compact_Some:
  assumes "verify_compact app token keys = Some v"
  obtains header body signature head key decoded where
    "token = header @ ''.'' @ body @ ''.'' @ signature" "read_part app header = Some head"
    "key \<in> set keys" "text_member ''kid'' head = Some (signing_kid key)"
    "Option.bind (text_member ''alg'' head) parse_algorithm = Some (signing_algorithm key)"
    "app_base64_decode app signature = Some decoded"
    "app_verify app (signing_algorithm key) (signing_public_jwk key) (header @ ''.'' @ body) decoded = Some True"
    "verified_type v = text_member ''typ'' head" "read_part app body = Some (verified_claims v)"
proof -
  obtain header body signature where parts: "split_at CHR ''.'' token = [header, body, signature]"
    using assms by (auto simp: verify_compact_def split: list.splits)
  note token = split_at_three [OF parts]
  obtain head where head: "read_part app header = Some head"
    using assms parts by (auto simp: verify_compact_def split: option.splits)
  obtain key where found: "find (\<lambda>k. text_member ''kid'' head = Some (signing_kid k)) keys = Some key"
    using assms parts head by (auto simp: verify_compact_def split: option.splits)
  have input: "take (length header + 1 + length body) token = header @ ''.'' @ body"
    using token by simp
  have checked: "check_signature app key head (header @ ''.'' @ body) signature"
    using assms parts head found input by (auto simp: verify_compact_def split: if_splits)
  show ?thesis
    using that [of header body signature head key] token head find_found [OF found] checked assms parts found input
    by (auto simp: verify_compact_def check_signature_def is_some_and_def split: option.splits if_splits)
qed

lemma reads_only_tokens [reads_intro]:
  "reads_only (verify_access_token app issuer token)"
  "reads_only (read_identity_hint app issuer token)"
  unfolding verify_access_token_def read_identity_hint_def store_list_signing_keys_def
  by (auto intro!: reads_intro split: option.split)

text \<open>What the claims read from a token say is what its body says, and they hold at the instant.\<close>

lemma read_claims_Some:
  assumes "read_claims app issuer t body = Some claims"
  shows "text_member ''iss'' body = Some issuer"
    and "integer_member ''exp'' body = Some (claims_expires_at claims)" and "t < claims_expires_at claims"
    and "integer_member ''iat'' body = Some (claims_issued_at claims)"
    and "claims_issued_at claims \<le> t + CLOCK_SKEW_SECONDS"
    and "text_member ''sub'' body = Some (claims_subject claims)"
    and "text_member ''client_id'' body = Some (claims_client_id claims)"
    and "read_session_claim app body = Some (claims_session claims)"
  using assms by (auto simp: read_claims_def split: option.splits if_splits)

text \<open>
  C10: an access token is believed only when a key of the realm signed it and only while it lasts.
  The token is three parts; its header names the key, its algorithm and the type of an access token;
  the signature verifies under the public half of that key; the body names the issuer asked for, has
  not expired, and was not issued further ahead than the clocks may differ. Anything else is
  refused as an invalid token, and reading changes nothing.
\<close>

theorem tokens_believed_only_under_a_key_of_the_realm:
  "wp (verify_access_token app issuer token)
     (\<lambda>claims t. only_later s t \<and>
        (\<exists>w key header body signature head said decoded.
           opened s = Some w \<and> key \<in> set (st_signing_keys (working w) (uow_realm w)) \<and>
           token = header @ ''.'' @ body @ ''.'' @ signature \<and>
           read_part app header = Some head \<and> text_member ''kid'' head = Some (signing_kid key) \<and>
           Option.bind (text_member ''alg'' head) parse_algorithm = Some (signing_algorithm key) \<and>
           text_member ''typ'' head = Some ACCESS_TOKEN_TYPE \<and>
           app_base64_decode app signature = Some decoded \<and>
           app_verify app (signing_algorithm key) (signing_public_jwk key) (header @ ''.'' @ body) decoded = Some True \<and>
           read_part app body = Some said \<and> text_member ''iss'' said = Some issuer \<and>
           text_member ''sub'' said = Some (claims_subject claims) \<and>
           text_member ''client_id'' said = Some (claims_client_id claims) \<and>
           integer_member ''exp'' said = Some (claims_expires_at claims) \<and>
           integer_member ''iat'' said = Some (claims_issued_at claims) \<and>
           unix_timestamp (app_clock app (tick s) div 1000 * 1000) < claims_expires_at claims \<and>
           claims_issued_at claims \<le> unix_timestamp (app_clock app (tick s) div 1000 * 1000) + CLOCK_SKEW_SECONDS))
     (\<lambda>e t. only_later s t \<and> (code e = TokenInvalid \<or> opened s = None)) s"
proof (cases "opened s")
  case None
  then show ?thesis by (simp add: verify_access_token_def wp_on_work)
next
  case (Some w)
  let ?keys = "st_signing_keys (working w) (uow_realm w)"
  show ?thesis
  proof (cases "filter_option (\<lambda>v. verified_type v = Some ACCESS_TOKEN_TYPE) (verify_compact app token ?keys)")
    case None
    with Some show ?thesis
      by (simp add: verify_access_token_def store_list_signing_keys_def wp_on_work_reading)
  next
    case verified: (Some v)
    then have "verify_compact app token ?keys = Some v" and "verified_type v = Some ACCESS_TOKEN_TYPE"
      by (auto simp: filter_option_eq_Some)
    then obtain header body signature head key decoded where
      behind: "token = header @ ''.'' @ body @ ''.'' @ signature" "read_part app header = Some head"
      "key \<in> set ?keys" "text_member ''kid'' head = Some (signing_kid key)"
      "Option.bind (text_member ''alg'' head) parse_algorithm = Some (signing_algorithm key)"
      "app_base64_decode app signature = Some decoded"
      "app_verify app (signing_algorithm key) (signing_public_jwk key) (header @ ''.'' @ body) decoded = Some True"
      "text_member ''typ'' head = Some ACCESS_TOKEN_TYPE" "read_part app body = Some (verified_claims v)"
      by (auto elim!: verify_compact_Some)
    show ?thesis
    proof (cases "read_claims app issuer (unix_timestamp (app_clock app (tick s) div 1000 * 1000)) (verified_claims v)")
      case None
      with Some verified show ?thesis
        by (simp add: verify_access_token_def store_list_signing_keys_def wp_on_work_reading)
    next
      case said: (Some claims)
      have "wp (verify_access_token app issuer token) (\<lambda>c t. c = claims \<and> only_later s t) (\<lambda>_ _. False) s"
        using Some verified said
        by (simp add: verify_access_token_def store_list_signing_keys_def wp_on_work_reading)
      then show ?thesis
        by (rule wp_mono) (use Some behind read_claims_Some [OF said] in blast)+
    qed
  qed
qed

subsection \<open>What is minted reads back\<close>

lemma reads_exactly_integer: "i \<in> {- (2 ^ 63) ..< 2 ^ 63} \<Longrightarrow> reads_exactly depth (json_integer i)"
  by (auto simp: json_integer_def)

lemma reads_exactly_member:
  assumes "reads_exactly depth claims" and "is_utf8 name" and "reads_exactly (depth - 1) v"
  shows "reads_exactly depth (set_member name v claims)"
  using assms reads_exactly_insert by (cases claims) (auto simp: set_member_def simp del: reads_exactly.simps(6))

text \<open>The texts a token says.\<close>

definition subject_texts :: "access_token_subject \<Rightarrow> string list" where
  "subject_texts subject = [subject_issuer subject, subject_name subject, subject_client_id subject] @ subject_scopes subject @
     (case subject_roles subject of None \<Rightarrow> [] | Some roles \<Rightarrow> claimed_realm roles @ claimed_client roles)"

lemma is_utf8_join: "list_all is_utf8 scopes \<Longrightarrow> is_utf8 (join_scopes scopes)"
proof (induction scopes rule: join_scopes.induct)
  case (3 scope other scopes)
  moreover have "is_utf8 '' ''" by (rule ascii_is_utf8) (simp add: byte_of_def)
  ultimately show ?case using is_utf8_append [of scope "'' '' @ join_scopes (other # scopes)"] is_utf8_append [of "'' ''"] by simp
qed (simp_all add: is_utf8_def encode_chars_def)

lemma reads_exactly_roles:
  assumes "list_all is_utf8 roles" and "2 \<le> depth"
  shows "reads_exactly depth (json_object [(''roles'', JArray (map JString roles))])"
proof -
  have "is_utf8 ''roles''" by (rule ascii_is_utf8) (simp add: byte_of_def)
  with assms show ?thesis by (intro reads_exactly_object) (auto simp: list_all_iff)
qed

lemma reads_exactly_access_claims:
  assumes texts: "list_all is_utf8 (subject_texts subject)" and uuid: "\<And>i. is_utf8 (app_uuid_text app i)"
    and "issued_at \<in> {- (2 ^ 63) ..< 2 ^ 63}" and "access_expiry subject issued_at \<in> {- (2 ^ 63) ..< 2 ^ 63}"
  shows "reads_exactly 127 (access_claims app subject issued_at i)"
proof -
  have name: "is_utf8 ''iss''" "is_utf8 ''sub''" "is_utf8 ''aud''" "is_utf8 ''client_id''" "is_utf8 ''scope''" "is_utf8 ''iat''"
      "is_utf8 ''exp''" "is_utf8 ''jti''" "is_utf8 ''sid''" "is_utf8 ''realm_access''" "is_utf8 ''resource_access''"
    by (rule ascii_is_utf8, simp add: byte_of_def)+
  have said: "is_utf8 (subject_issuer subject)" "is_utf8 (subject_name subject)" "is_utf8 (subject_client_id subject)"
    "is_utf8 (join_scopes (subject_scopes subject))"
    using texts by (simp_all add: subject_texts_def is_utf8_join)
  let ?claims = "json_object
            [(''iss'', JString (subject_issuer subject)),
             (''sub'', JString (subject_name subject)),
             (''aud'', JString (subject_issuer subject)),
             (''client_id'', JString (subject_client_id subject)),
             (''scope'', JString (join_scopes (subject_scopes subject))),
             (''iat'', json_integer issued_at),
             (''exp'', json_integer (access_expiry subject issued_at)),
             (''jti'', JString (app_uuid_text app i))]"
  have claims: "reads_exactly 127 ?claims"
    by (rule reads_exactly_object)
       (simp_all add: said name uuid reads_exactly_integer [OF assms(3)] reads_exactly_integer [OF assms(4)])
  have roles: "reads_exactly 126 (write_realm_access roles)"
    "reads_exactly 126 (write_resource_access roles (subject_client_id subject))"
    if "subject_roles subject = Some roles" for roles
  proof -
    have "list_all is_utf8 (claimed_realm roles)" "list_all is_utf8 (claimed_client roles)"
      using texts that by (simp_all add: subject_texts_def)
    with said(3) show "reads_exactly 126 (write_realm_access roles)"
      "reads_exactly 126 (write_resource_access roles (subject_client_id subject))"
      unfolding write_realm_access_def write_resource_access_def
      by (simp_all add: reads_exactly_roles reads_exactly_object)
  qed
  note member = reads_exactly_member [where depth = 127, simplified]
  show ?thesis
    unfolding access_claims_def Let_def
    by (intro claims member name roles | simp add: uuid split: option.split | safe)+
qed

text \<open>A token signed verifies under the first key of its name, when the writings of the parts read back.\<close>

lemma signed_verifies:
  assumes signed: "sign_compact app k private_key token_type claims = Some token"
    and base64: "\<And>data. app_base64_decode app (app_base64_encode app data) = Some data"
      "\<And>data. CHR ''.'' \<notin> set (app_base64_encode app data)"
    and json: "\<And>v. reads_exactly 127 v \<Longrightarrow> app_json_read app (app_json_write app v) = Some v"
      "is_utf8 (signing_kid k)" "is_utf8 token_type" "reads_exactly 127 claims"
    and signer: "\<And>input signature. app_sign app (signing_algorithm k) private_key input = Some signature \<Longrightarrow>
      app_verify app (signing_algorithm k) (signing_public_jwk k) input signature = Some True"
    and key: "find (\<lambda>other. signing_kid other = signing_kid k) keys = Some k"
  shows "verify_compact app token keys = Some \<lparr>verified_type = Some token_type, verified_claims = claims\<rparr>"
proof -
  let ?header = "json_object [(''alg'', JString (algorithm_name (signing_algorithm k))),
      (''kid'', JString (signing_kid k)), (''typ'', JString token_type)]"
  let ?head = "app_base64_encode app (app_json_write app ?header)"
    and ?body = "app_base64_encode app (app_json_write app claims)"
  obtain signature where signature: "app_sign app (signing_algorithm k) private_key (?head @ ''.'' @ ?body) = Some signature"
    and token: "token = ?head @ ''.'' @ ?body @ ''.'' @ app_base64_encode app signature"
    using signed by (auto simp: sign_compact_def Let_def)
  have parts: "split_at CHR ''.'' token = [?head, ?body, app_base64_encode app signature]"
    using token base64(2) by (simp add: split_at_append split_at_none)
  have "parse_algorithm (algorithm_name a) = Some a" for a
    by (cases a) (simp add: parse_algorithm_def algorithm_name_def)
  then have member: "text_member ''kid'' ?header = Some (signing_kid k)" "text_member ''typ'' ?header = Some token_type"
    "Option.bind (text_member ''alg'' ?header) parse_algorithm = Some (signing_algorithm k)"
    by (simp_all add: text_member_def json_get_object json_as_str_def)
  have "is_utf8 (algorithm_name (signing_algorithm k))" "is_utf8 ''alg''" "is_utf8 ''kid''" "is_utf8 ''typ''"
    by (cases "signing_algorithm k"; rule ascii_is_utf8; simp add: algorithm_name_def byte_of_def)+
  then have header: "reads_exactly 127 ?header"
    by (intro reads_exactly_object) (simp_all add: json(2,3))
  have "check_signature app k ?header (take (length ?head + 1 + length ?body) token) (app_base64_encode app signature)"
    using signer [OF signature] token base64(1) member by (simp add: check_signature_def)
  moreover have "find (\<lambda>other. text_member ''kid'' ?header = Some (signing_kid other)) keys = Some k"
  proof -
    have "find (\<lambda>other. text_member ''kid'' ?header = Some (signing_kid other)) keys =
        find (\<lambda>other. signing_kid other = signing_kid k) keys"
      by (rule find_cong) (use member(1) in auto)
    with key show ?thesis by (rule trans [rotated])
  qed
  ultimately show ?thesis
    using parts base64(1) json(1) [OF header] json(1) [OF json(4)] member by (simp add: verify_compact_def read_part_def)
qed

lemma json_get_set_member:
  "json_get name (set_member k v (JObject members)) = (if name = k then Some v else map_of members name)"
  by (simp add: json_get_def set_member_def map_of_bt_insert)

lemma split_join_scopes:
  assumes "list_all (\<lambda>scope. scope \<noteq> [] \<and> CHR '' '' \<notin> set scope) scopes"
  shows "filter (\<lambda>x. x \<noteq> []) (split_at CHR '' '' (join_scopes scopes)) = scopes"
  using assms by (induction scopes rule: join_scopes.induct) (auto simp: split_at_none split_at_append)

lemma integer_reads_back: "i < 2 ^ 63 \<Longrightarrow> (case json_integer i of JNumber n \<Rightarrow> as_i64 n | _ \<Rightarrow> None) = Some i"
  by (auto simp: json_integer_def)

lemma access_claims_say:
  fixes app :: app and subject :: access_token_subject and issued_at :: int and i :: uuid
  defines "claims \<equiv> access_claims app subject issued_at i"
  shows "text_member ''iss'' claims = Some (subject_issuer subject)"
    and "text_member ''sub'' claims = Some (subject_name subject)"
    and "text_member ''client_id'' claims = Some (subject_client_id subject)"
    and "text_member ''scope'' claims = Some (join_scopes (subject_scopes subject))"
    and "text_member ''jti'' claims = Some (app_uuid_text app i)"
    and "json_get ''exp'' claims = Some (json_integer (access_expiry subject issued_at))"
    and "json_get ''iat'' claims = Some (json_integer issued_at)"
    and "json_get ''sid'' claims = map_option (\<lambda>x. JString (app_uuid_text app x)) (subject_session subject)"
proof -
  have get: "json_get name (set_member k v (set_member k' v' (set_member k'' v'' (json_object ms)))) =
       (if name = k then Some v else if name = k' then Some v' else if name = k'' then Some v''
        else json_get name (json_object ms))"
    "json_get name (set_member k v (set_member k' v' (json_object ms))) =
       (if name = k then Some v else if name = k' then Some v' else json_get name (json_object ms))"
    "json_get name (set_member k v (json_object ms)) = (if name = k then Some v else json_get name (json_object ms))"
    for name k v k' v' k'' v'' and ms :: "(string \<times> json) list"
    by (simp_all add: json_get_def set_member_def map_of_bt_insert json_object_def)
  note simps = claims_def access_claims_def Let_def text_member_def get json_get_object json_as_str_def
  show "text_member ''iss'' claims = Some (subject_issuer subject)"
    and "text_member ''sub'' claims = Some (subject_name subject)"
    and "text_member ''client_id'' claims = Some (subject_client_id subject)"
    and "text_member ''scope'' claims = Some (join_scopes (subject_scopes subject))"
    and "text_member ''jti'' claims = Some (app_uuid_text app i)"
    and "json_get ''exp'' claims = Some (json_integer (access_expiry subject issued_at))"
    and "json_get ''iat'' claims = Some (json_integer issued_at)"
    and "json_get ''sid'' claims = map_option (\<lambda>x. JString (app_uuid_text app x)) (subject_session subject)"
    by (simp_all add: simps split: option.split)
qed

lemma reads_claims_minted:
  assumes "issued_at < 2 ^ 63" and "issued_at \<le> t + CLOCK_SKEW_SECONDS" and "t < access_expiry subject issued_at"
    and uuid: "\<And>i. app_uuid_parse app (app_uuid_text app i) = Some i"
    and scopes: "list_all (\<lambda>scope. scope \<noteq> [] \<and> CHR '' '' \<notin> set scope) (subject_scopes subject)"
  shows "read_claims app (subject_issuer subject) t (access_claims app subject issued_at i) =
    Some \<lparr>claims_subject = subject_name subject, claims_client_id = subject_client_id subject,
      claims_scopes = subject_scopes subject, claims_token_id = app_uuid_text app i, claims_issued_at = issued_at,
      claims_expires_at = access_expiry subject issued_at, claims_session = subject_session subject\<rparr>"
proof -
  have "access_expiry subject issued_at < 2 ^ 63"
    by (auto simp: access_expiry_def saturating_add_def Let_def split: option.split)
  then show ?thesis
    using assms(1-3) integer_reads_back [of issued_at] integer_reads_back [of "access_expiry subject issued_at"]
    by (auto simp: read_claims_def access_claims_say integer_member_def read_session_claim_def json_as_str_def
        uuid split_join_scopes [OF scopes] split: option.splits json.splits)
qed

lemma access_expiry_small: "access_expiry subject issued_at < 2 ^ 63"
  by (auto simp: access_expiry_def saturating_add_def Let_def split: option.split)

text \<open>
  C25: an access token reads back as it was minted. Once a key of the realm minted a token, the realm
  that holds this key under its name believes the token from when it was issued until it expires,
  and reads from it the subject, the client, the scopes, the session and the expiry it was minted
  for. It takes of the encodings that they read back what they wrote, of JSON only for values without
  fractions, with texts in UTF-8, names once and in order, and nested within the limit of the
  reader; of the signer that a signature verifies under the public half of the key that made it;
  and of the clock that it tells a year from -9999 to 9999.
\<close>

theorem minted_tokens_read_back:
  assumes base64: "\<And>data. app_base64_decode app (app_base64_encode app data) = Some data"
      "\<And>data. CHR ''.'' \<notin> set (app_base64_encode app data)"
    and json: "\<And>v. reads_exactly 127 v \<Longrightarrow> app_json_read app (app_json_write app v) = Some v"
    and uuid: "\<And>i. app_uuid_parse app (app_uuid_text app i) = Some i" "\<And>i. is_utf8 (app_uuid_text app i)"
    and signer: "\<And>input signature. app_sign app (signing_algorithm k) private_key input = Some signature \<Longrightarrow>
      app_verify app (signing_algorithm k) (signing_public_jwk k) input signature = Some True"
    and scopes: "list_all (\<lambda>scope. scope \<noteq> [] \<and> CHR '' '' \<notin> set scope) (subject_scopes subject)"
    and texts: "list_all is_utf8 (signing_kid k # subject_texts subject)"
    and minted: "mint_access_token app (k, private_key) subject s = (Ok issued, s')"
    and issued_at: "issued_at = unix_timestamp (app_clock app (tick s) div 1000 * 1000)" "issued_at \<in> {-377705116800..253402300799}"
    and opened: "opened u = Some w"
    and key: "find (\<lambda>other. signing_kid other = signing_kid k) (st_signing_keys (working w) (uow_realm w)) = Some k"
    and time: "t = unix_timestamp (app_clock app (tick u) div 1000 * 1000)"
      "issued_at \<le> t + CLOCK_SKEW_SECONDS" "t < access_expiry subject issued_at"
  shows "\<exists>claims u'. verify_access_token app (subject_issuer subject) (issued_token issued) u = (Ok claims, u') \<and>
    claims_subject claims = subject_name subject \<and> claims_client_id claims = subject_client_id subject \<and>
    claims_scopes claims = subject_scopes subject \<and> claims_session claims = subject_session subject \<and>
    claims_expires_at claims = access_expiry subject issued_at"
proof -
  have "wp (mint_access_token app (k, private_key) subject)
      (\<lambda>issued _. \<exists>i. sign_compact app k private_key ACCESS_TOKEN_TYPE (access_claims app subject issued_at i) =
         Some (issued_token issued)) (\<lambda>_ _. True) s"
    unfolding mint_access_token_def Let_def
    by (auto intro!: wp_mint_id simp: sign_claims_def issued_at(1) ok_or_eq_Ok split: sum.split)
  then obtain i where
    "sign_compact app k private_key ACCESS_TOKEN_TYPE (access_claims app subject issued_at i) = Some (issued_token issued)"
    using minted by (auto simp: wp_def)
  moreover have "access_expiry subject issued_at \<in> {- (2 ^ 63) ..< 2 ^ 63}"
    using issued_at(2) time(2,3) access_expiry_small [of subject issued_at] by (simp add: CLOCK_SKEW_SECONDS_def)
  then have "reads_exactly 127 (access_claims app subject issued_at i)"
    using texts issued_at(2) by (intro reads_exactly_access_claims uuid(2)) simp_all
  moreover have "is_utf8 (signing_kid k)" "is_utf8 ACCESS_TOKEN_TYPE"
    using texts by (simp_all add: ACCESS_TOKEN_TYPE_def ascii_is_utf8 byte_of_def)
  ultimately have verified: "verify_compact app (issued_token issued) (st_signing_keys (working w) (uow_realm w)) =
      Some \<lparr>verified_type = Some ACCESS_TOKEN_TYPE, verified_claims = access_claims app subject issued_at i\<rparr>"
    using signed_verifies [OF _ base64 json _ _ _ signer key] by blast
  have "wp (verify_access_token app (subject_issuer subject) (issued_token issued))
      (\<lambda>claims _. claims_subject claims = subject_name subject \<and> claims_client_id claims = subject_client_id subject \<and>
        claims_scopes claims = subject_scopes subject \<and> claims_session claims = subject_session subject \<and>
        claims_expires_at claims = access_expiry subject issued_at) (\<lambda>_ _. False) u"
    using reads_claims_minted [OF _ time(2,3) uuid(1) scopes, of i] issued_at(2)
    by (simp add: verify_access_token_def store_list_signing_keys_def wp_on_work_reading [OF opened] verified time(1))
  then show ?thesis
    by (auto simp: wp_def split: prod.splits sum.splits)
qed

text \<open>
  Encodings that read back, to try the round trip on: every value of JSON has a number of its own,
  and base64 is told apart from the mark that joins the parts by an escape.
\<close>

instance f64 :: countable
  by countable_datatype

instance number :: countable
  by countable_datatype

instance json :: countable
  by countable_datatype

fun sample_encode :: "bytes \<Rightarrow> string" where
  "sample_encode [] = []"
| "sample_encode (c # cs) =
     (if c = CHR ''.'' then [CHR ''-'', CHR ''d''] else if c = CHR ''-'' then [CHR ''-'', CHR ''-''] else [c]) @
     sample_encode cs"

fun sample_decode :: "string \<Rightarrow> bytes option" where
  "sample_decode [] = Some []"
| "sample_decode (c # cs) =
     (if c \<noteq> CHR ''-'' then map_option (Cons c) (sample_decode cs)
      else (case cs of
              [] \<Rightarrow> None
            | d # ds \<Rightarrow> map_option (Cons (if d = CHR ''d'' then CHR ''.'' else CHR ''-'')) (sample_decode ds)))"

lemma sample_encode_reads_back [simp]: "sample_decode (sample_encode data) = Some data"
  by (induction data) auto

lemma sample_encode_plain [simp]: "CHR ''.'' \<notin> set (sample_encode data)"
  by (induction data) auto

definition sample_token_app :: app where
  "sample_token_app = sample_app\<lparr>app_json_write := \<lambda>v. replicate (to_nat v) CHR ''j'',
     app_json_read := \<lambda>data. Some (from_nat (length data)), app_base64_encode := sample_encode,
     app_base64_decode := sample_decode, app_uuid_text := \<lambda>i. replicate i CHR ''u'',
     app_uuid_parse := \<lambda>name. Some (length name)\<rparr>"

definition sample_key :: signing_key where
  "sample_key = \<lparr>signing_key_id = 7, signing_kid = ''k1'', signing_algorithm = Es256, signing_public_jwk = JNull,
     sealed_private_key = [], signing_created_at = 0\<rparr>"

definition sample_token_subject :: access_token_subject where
  "sample_token_subject = \<lparr>subject_issuer = ''https://id.example.org/realms/acme'', subject_name = ''ada'',
     subject_client_id = ''web'', subject_scopes = [''openid'', ''roles''], subject_session = Some 4,
     subject_roles = Some \<lparr>claimed_realm = [''auditor''], claimed_client = [], claimed_until = Some 90000000000\<rparr>\<rparr>"

definition sample_keyed_ctx :: ctx where
  "sample_keyed_ctx = sample_ctx\<lparr>tick := 60, opened := Some
     \<lparr>uow_scope = \<lparr>scope_tenant = 1, scope_realm = 2\<rparr>,
      working = empty_state\<lparr>st_signing_keys := \<lambda>_. [sample_key]\<rparr>, failed = False, read_only = False\<rparr>\<rparr>"

lemma sample_texts:
  "list_all is_utf8 (signing_kid sample_key # subject_texts sample_token_subject)" "is_utf8 (replicate n CHR ''u'')"
  by (auto intro!: ascii_is_utf8 simp: sample_key_def subject_texts_def sample_token_subject_def byte_of_def list_all_iff)

theorem minted_tokens_read_back_witness:
  "\<exists>issued s' claims u'. mint_access_token sample_token_app (sample_key, []) sample_token_subject sample_ctx = (Ok issued, s') \<and>
     verify_access_token sample_token_app ''https://id.example.org/realms/acme'' (issued_token issued) sample_keyed_ctx =
       (Ok claims, u') \<and>
     claims_subject claims = ''ada'' \<and> claims_client_id claims = ''web'' \<and> claims_scopes claims = [''openid'', ''roles''] \<and>
     claims_session claims = Some 4 \<and> claims_expires_at claims = 90"
proof -
  obtain issued s' where minted:
    "mint_access_token sample_token_app (sample_key, []) sample_token_subject sample_ctx = (Ok issued, s')"
    by (simp add: mint_access_token_def and_then_def now_def app_now_def clock_now_def mint_id_def fill_random_def
        lift_result_def ret_def sample_token_app_def sample_app_def sample_ctx_def sign_claims_def sign_compact_def Let_def)
  have "access_expiry sample_token_subject 0 = 90"
    by (simp add: access_expiry_def sample_token_subject_def unix_timestamp_def saturating_add_def
        ACCESS_TOKEN_LIFETIME_SECONDS_def)
  moreover have "\<exists>claims u'. verify_access_token sample_token_app (subject_issuer sample_token_subject)
      (issued_token issued) sample_keyed_ctx = (Ok claims, u') \<and>
    claims_subject claims = subject_name sample_token_subject \<and>
    claims_client_id claims = subject_client_id sample_token_subject \<and>
    claims_scopes claims = subject_scopes sample_token_subject \<and>
    claims_session claims = subject_session sample_token_subject \<and>
    claims_expires_at claims = access_expiry sample_token_subject 0"
    by (rule minted_tokens_read_back [where t = 60 and w = "the (opened sample_keyed_ctx)", OF _ _ _ _ _ _ _ sample_texts(1) minted])
       (simp_all add: sample_texts(2) sample_token_app_def sample_app_def sample_token_subject_def sample_keyed_ctx_def sample_ctx_def
          sample_key_def unix_timestamp_def CLOCK_SKEW_SECONDS_def access_expiry_def saturating_add_def
          ACCESS_TOKEN_LIFETIME_SECONDS_def)
  ultimately show ?thesis
    using minted by (simp add: sample_token_subject_def)
qed

text \<open>
  C26: an access token lives no longer than it may. Minted at an instant, its signed claims carry an expiry
  at most the lifetime of an access token later, and no later than the first of the roles it says;
  the seconds it is told with are those left until that very expiry, and none when it is past.
\<close>

theorem access_tokens_end_in_time:
  "wp (mint_access_token app key subject)
     (\<lambda>issued t. issued_expires_in issued \<le> nat ACCESS_TOKEN_LIFETIME_SECONDS \<and>
        (\<exists>i claims expires_at issued_at. issued_at = unix_timestamp (app_clock app (tick s) div 1000 * 1000) \<and>
           sign_claims app key ACCESS_TOKEN_TYPE claims = Ok (issued_token issued) \<and>
           claims = access_claims app subject issued_at i \<and>
           json_get ''exp'' claims = Some (json_integer expires_at) \<and>
           issued_expires_in issued = nat (expires_at - issued_at) \<and>
           expires_at \<le> issued_at + ACCESS_TOKEN_LIFETIME_SECONDS \<and>
           is_none_or (\<lambda>u. expires_at \<le> unix_timestamp u) (Option.bind (subject_roles subject) claimed_until)))
     (\<lambda>e t. code e \<in> {RandomUnavailable, CryptoUnavailable}) s"
proof -
  have "access_expiry subject n \<le> n + ACCESS_TOKEN_LIFETIME_SECONDS" for n
    by (auto simp: access_expiry_def saturating_add_def Let_def split: option.split)
  moreover have "is_none_or (\<lambda>u. access_expiry subject n \<le> unix_timestamp u) (Option.bind (subject_roles subject) claimed_until)" for n
    by (cases "Option.bind (subject_roles subject) claimed_until") (auto simp: access_expiry_def Let_def)
  moreover have "nat (access_expiry subject n - n) \<le> nat ACCESS_TOKEN_LIFETIME_SECONDS" for n
    using calculation(1) [of n] by (intro nat_mono) simp
  moreover have "code e = CryptoUnavailable" if "sign_claims app key ty claims = Err e" for ty claims e
    using that by (auto simp: sign_claims_def ok_or_def crypto_unavailable_def split: option.splits)
  moreover have "(if access_expiry subject n < n then 0 else nat (access_expiry subject n - n)) = nat (access_expiry subject n - n)" for n
    by simp
  ultimately show ?thesis
    unfolding mint_access_token_def Let_def
    by (fastforce intro!: wp_mint_id simp: access_claims_say(6) split: sum.split)
qed

lemma wp_verify_outcome:
  assumes "opened u = Some w"
  shows "wp (verify_access_token app issuer token)
    (\<lambda>claims t. verify_access_token app issuer token u = (Ok claims, t) \<and> only_later u t)
    (\<lambda>e t. only_later u t \<and> code e = TokenInvalid) u"
proof -
  have "wp (verify_access_token app issuer token) (\<lambda>_ _. True) (\<lambda>e _. code e = TokenInvalid) u"
    using assms
    by (auto simp: verify_access_token_def store_list_signing_keys_def wp_on_work_reading ok_or_def split: option.split sum.split)
  then show ?thesis
    using wp_reads_only [OF reads_only_tokens(1), of app issuer token u]
    by (auto simp: wp_def split: prod.splits sum.splits)
qed

lemma writes_nothing_minting [idle_intro]:
  "writes_nothing (open_minting_key app)" "writes_nothing (mint_access_token app key subject)"
  "writes_nothing (mint_identity_token app key identity)"
  unfolding open_minting_key_def open_signing_key_def mint_access_token_def mint_identity_token_def Let_def
    work_scope_def store_list_signing_keys_def store_read_data_key_def
  by (auto intro!: idle_intro split: option.split)

end
