(* ===== verification/Decide.thy ===== *)
theory Decide
  imports Policy Tokens
begin

text \<open>
  The shares of the questions asked at once (\<open>saffui-core/src/authz/shares.rs\<close>), the point of
  decision (\<open>authz/decide.rs\<close>) and the guard of the administration plane (\<open>authz/admin.rs\<close>). The
  lemmas show that the shares held never pass those of the node and of a tenant and are given
  back however a question ends, that the point of decision permits only what the relations kept
  or the policies say, and that the guard lets through only an enabled client of the realm that
  holds the capability.
\<close>

subsection \<open>Shares\<close>

text \<open>\<open>DecisionShares::for_pool\<close>: the shares of the node, and of one tenant.\<close>

definition for_pool :: "nat \<Rightarrow> nat \<times> nat" where
  "for_pool connections =
     (let per_node = max (min (connections div 4) (2 ^ 32 - 1)) 1 in (per_node, max (per_node div 2) 1))"

definition held_by :: "held_shares \<Rightarrow> uuid \<Rightarrow> nat" where
  "held_by h tenant = (case held_tenants h tenant of None \<Rightarrow> 0 | Some n \<Rightarrow> n)"

definition take_share :: "nat \<Rightarrow> nat \<Rightarrow> uuid \<Rightarrow> held_shares \<Rightarrow> held_shares option" where
  "take_share per_node per_tenant tenant h =
     (if held_node h \<ge> per_node \<or> held_by h tenant \<ge> per_tenant then None
      else Some (h\<lparr>held_node := held_node h + 1,
                   held_tenants := (held_tenants h)(tenant \<mapsto> held_by h tenant + 1)\<rparr>))"

text \<open>\<open>Drop for DecisionShare\<close>\<close>

definition drop_share :: "uuid \<Rightarrow> held_shares \<Rightarrow> held_shares" where
  "drop_share tenant h =
     (let counted = h\<lparr>held_node := held_node h - 1\<rparr> in
      case held_tenants h tenant of
        None \<Rightarrow> counted
      | Some n \<Rightarrow>
          counted\<lparr>held_tenants := (held_tenants h)(tenant := (if n - 1 = 0 then None else Some (n - 1)))\<rparr>)"

text \<open>A use case that holds a share from where it takes it to where it ends, however it ends.\<close>

definition holding_share :: "app \<Rightarrow> uuid \<Rightarrow> 'e \<Rightarrow> (ctx, 'e, 'a) act \<Rightarrow> (ctx, 'e, 'a) act" where
  "holding_share app tenant busy m = (\<lambda>s.
     case take_share (app_per_node app) (app_per_tenant app) tenant (shares s) of
       None \<Rightarrow> (Err busy, s)
     | Some h \<Rightarrow>
         (case m (s\<lparr>shares := h\<rparr>) of (res, t) \<Rightarrow> (res, t\<lparr>shares := drop_share tenant (shares t)\<rparr>)))"

subsection \<open>Questions and answers\<close>

definition PERSON_TYPE :: string where "PERSON_TYPE = ''user''"
definition CLIENT_TYPE :: string where "CLIENT_TYPE = ''client''"
definition MAX_ATTRIBUTES_BYTES :: nat where "MAX_ATTRIBUTES_BYTES = 8 * 1024"

record decision_request =
  asked_token :: "string option"
  asked_action :: string
  asked_type :: string
  asked_id :: "string option"
  asked_attributes :: "(string \<times> json) list"

record decision =
  decision_made :: string
  decision_reason :: string
  decision_policy :: "string option"

definition permit :: "string \<Rightarrow> string option \<Rightarrow> decision" where
  "permit reason p = \<lparr>decision_made = ''permit'', decision_reason = reason, decision_policy = p\<rparr>"

definition deny :: "string \<Rightarrow> string option \<Rightarrow> decision" where
  "deny reason p = \<lparr>decision_made = ''deny'', decision_reason = reason, decision_policy = p\<rparr>"

record subject =
  who_facts :: subject_facts
  who_object :: object_ref
  who_person :: "uuid option"

definition client_subject :: "access_token_claims \<Rightarrow> client \<Rightarrow> subject" where
  "client_subject claims c =
     \<lparr>who_facts = default_facts\<lparr>facts_id := client_id c, facts_client_id := claims_client_id claims,
        facts_scopes := claims_scopes claims\<rparr>,
      who_object = ObjectRef CLIENT_TYPE (client_id c), who_person = None\<rparr>"

definition person_subject :: "app \<Rightarrow> access_token_claims \<Rightarrow> person \<Rightarrow> subject" where
  "person_subject app claims p =
     \<lparr>who_facts = default_facts\<lparr>facts_id := app_uuid_text app (person_id p),
        facts_username := Some (person_username p), facts_email := person_email p,
        facts_email_verified := Some (person_email_verified p),
        facts_client_id := claims_client_id claims, facts_scopes := claims_scopes claims\<rparr>,
      who_object = ObjectRef PERSON_TYPE (app_uuid_text app (person_id p)), who_person = Some (person_id p)\<rparr>"

definition name_subject :: "app \<Rightarrow> access_token_claims \<Rightarrow> subject option use_case" where
  "name_subject app claims =
     (case claims_session claims of
        None \<Rightarrow>
          and_then (read_named_client app (claims_subject claims)) (\<lambda>found.
          ret (map_option (client_subject claims) (filter_option client_enabled found)))
      | Some s \<Rightarrow>
          and_then (read_live_subject app s) (\<lambda>found.
          ret (Option.bind found (\<lambda>(_, p).
            if app_uuid_text app (person_id p) \<noteq> claims_subject claims then None
            else Some (person_subject app claims p)))))"

text \<open>\<open>read_subject\<close>: a token that does not verify is nobody's.\<close>

definition read_token_subject :: "app \<Rightarrow> string \<Rightarrow> string \<Rightarrow> subject option use_case" where
  "read_token_subject app issuer token = (\<lambda>s.
     case verify_access_token app issuer token s of
       (Ok claims, t) \<Rightarrow> name_subject app claims t
     | (Err e, t) \<Rightarrow> if code e = TokenInvalid then (Ok None, t) else (Err e, t))"

subsection \<open>What decides\<close>

datatype schema_for = Schema_unreadable | By_relations compiled_schema | By_policies

definition read_schema_for :: "app \<Rightarrow> string \<Rightarrow> string \<Rightarrow> schema_for use_case" where
  "read_schema_for app client ty =
     and_then (on_work (store_read_guarded_schema ty client)) (\<lambda>found.
     case found of
       None \<Rightarrow> ret By_policies
     | Some read \<Rightarrow>
         and_then
           (case read_compiled_schema app (guarded_compiled read) of
              Some schema \<Rightarrow> ret (Some schema)
            | None \<Rightarrow>
                and_then (on_work store_read_relation_schema) (\<lambda>stored.
                ret (Option.bind stored (\<lambda>x.
                  case compile app (schema_source x) of Err _ \<Rightarrow> None | Ok schema \<Rightarrow> Some schema)))) (\<lambda>schema.
         case schema of
           None \<Rightarrow> ret Schema_unreadable
         | Some schema \<Rightarrow>
             if map_of (schema_types schema) ty = None \<or> \<not> guarded read then ret By_policies
             else ret (By_relations schema)))"

text \<open>The port of a walk: the clock of the application, and the relations of the unit of work in hand.\<close>

definition walk_port :: "app \<Rightarrow> compiled_schema \<Rightarrow> object_ref \<Rightarrow> instant \<Rightarrow> ctx walk_env" where
  "walk_port app schema subject deadline =
     \<lparr>env_now = app_now app,
      env_list = (\<lambda>obj rel n. on_work_storage (store_list_relation_subjects obj rel n)),
      env_schema = schema, env_subject = subject, env_deadline = deadline\<rparr>"

definition tell_walk :: "walk \<Rightarrow> decision" where
  "tell_walk walk =
     (case walk of
        Found \<Rightarrow> permit ''relation'' None
      | Not_Found \<Rightarrow> deny ''no_relation'' None
      | Undecided limit \<Rightarrow> deny (''undecided_'' @ limit_name limit) None)"

definition decide_by_relations ::
    "app \<Rightarrow> compiled_schema \<Rightarrow> decision_request \<Rightarrow> object_ref \<Rightarrow> instant \<Rightarrow> decision use_case" where
  "decide_by_relations app schema request subject deadline =
     (case filter_option is_object_id (asked_id request) of
        None \<Rightarrow> throw (new_failure RequestInvalid)
      | Some obj \<Rightarrow>
          if find_member schema (asked_type request) (asked_action request) = None
          then ret (deny ''relation_unknown'' None)
          else
            and_then (map_err failure_of_storage
                (walk_relations (walk_port app schema subject deadline)
                  (ObjectRef (asked_type request) obj) (asked_action request))) (\<lambda>walk.
            ret (tell_walk walk)))"

text \<open>The roles and the groups of a person, as the policies of a client may read them.\<close>

definition read_holdings :: "string \<Rightarrow> instant \<Rightarrow> subject \<Rightarrow> subject_facts use_case" where
  "read_holdings client t who =
     (case who_person who of
        None \<Rightarrow> ret (who_facts who)
      | Some p \<Rightarrow>
          and_then (read_held_roles p t) (\<lambda>held.
          and_then (read_member_groups p t) (\<lambda>groups.
          ret ((who_facts who)\<lparr>
            facts_roles := remdups (sort (map held_id (filter (is_said client) held))),
            facts_groups := groups\<rparr>))))"

definition tell_verdict :: "policy_verdict \<Rightarrow> decision" where
  "tell_verdict verdict =
     (case verdict of
        Verdict_permit name \<Rightarrow> permit ''policy'' (Some name)
      | Verdict_deny name \<Rightarrow> deny ''policy'' (Some name)
      | Verdict_undecided name \<Rightarrow> deny ''undecided'' (Some name)
      | NoPolicy \<Rightarrow> deny ''no_policy'' None)"

definition decide_by_policies :: "app \<Rightarrow> string \<Rightarrow> decision_request \<Rightarrow> subject \<Rightarrow> decision use_case" where
  "decide_by_policies app client request who =
     and_then (on_work (store_list_applicable_policies client (asked_type request) (asked_action request))) (\<lambda>policies.
     if policies = [] then ret (deny ''no_policy'' None)
     else
       and_then (now app) (\<lambda>t.
       and_then (read_holdings client t who) (\<lambda>facts.
       ret (tell_verdict (weigh_policies app
         \<lparr>facts_subject = facts, facts_resource = asked_attributes request, facts_now = t\<rparr> policies)))))"

definition is_small :: "app \<Rightarrow> (string \<times> json) list \<Rightarrow> bool" where
  "is_small app attributes \<longleftrightarrow> length (app_json_write app (JObject attributes)) \<le> MAX_ATTRIBUTES_BYTES"

definition is_askable :: "app \<Rightarrow> decision_request \<Rightarrow> bool" where
  "is_askable app request \<longleftrightarrow>
     is_role_name (asked_action request) \<and> is_role_name (asked_type request) \<and>
     is_small app (asked_attributes request)"

text \<open>What is read while the share is held.\<close>

definition answer_question ::
    "app \<Rightarrow> string \<Rightarrow> client \<Rightarrow> string \<Rightarrow> decision_request \<Rightarrow> instant \<Rightarrow> decision use_case" where
  "answer_question app realm c token request deadline =
     and_then (read_token_subject app (name_issuer app realm) token) (\<lambda>found.
     case found of
       None \<Rightarrow> ret (deny ''subject_unknown'' None)
     | Some who \<Rightarrow>
         and_then (read_schema_for app (client_id c) (asked_type request)) (\<lambda>schema.
         case schema of
           Schema_unreadable \<Rightarrow> ret (deny ''schema_unreadable'' None)
         | By_relations compiled \<Rightarrow> decide_by_relations app compiled request (who_object who) deadline
         | By_policies \<Rightarrow> decide_by_policies app (client_id c) request who))"

definition decide_failing :: "app \<Rightarrow> string \<Rightarrow> string option \<Rightarrow> bytes option \<Rightarrow> decision_request \<Rightarrow> decision use_case" where
  "decide_failing app realm name secret request =
     and_then (now app) (\<lambda>start.
     let deadline = start + MAX_DURATION in
     and_then (resolve_realm realm) (\<lambda>(known_realm, scope).
     case (name, secret) of
       (Some presented_name, Some client_secret) \<Rightarrow>
         and_then (begin_work scope) (\<lambda>_.
         and_then (authenticate_client app presented_name client_secret) (\<lambda>c.
         and_then (lift_result (ok_or (new_failure RequestInvalid) (asked_token request))) (\<lambda>token.
         and_then (ensure (is_askable app request) (new_failure RequestInvalid)) (\<lambda>_.
         holding_share app (scope_tenant scope) (new_failure StorageUnavailable)
           (answer_question app known_realm c token request deadline)))))
     | _ \<Rightarrow> throw (new_failure ClientAuthenticationFailed)))"

definition decide :: "app \<Rightarrow> string \<Rightarrow> string option \<Rightarrow> bytes option \<Rightarrow> decision_request \<Rightarrow>
    (ctx, oauth_failure, decision) act" where
  "decide app realm name secret request =
     map_err oauth_failure_of (decide_failing app realm name secret request)"

subsection \<open>The guard of the administration plane\<close>

definition ADMIN_SCOPE :: string where
  "ADMIN_SCOPE = ''admin''"

text \<open>An error of one code told as another, the others as they are.\<close>

definition tell_as :: "error_code \<Rightarrow> error_code \<Rightarrow> failure \<Rightarrow> failure" where
  "tell_as one other e = (if code e = one then new_failure other else e)"

definition authorize_admin_call ::
    "app \<Rightarrow> string \<Rightarrow> string option \<Rightarrow> capability \<Rightarrow> admin_caller use_case" where
  "authorize_admin_call app realm bearer required =
     (case bearer of
        None \<Rightarrow> throw (new_failure AdminAuthenticationFailed)
      | Some token \<Rightarrow>
          and_then (map_err (tell_as RealmNotFound AdminAuthenticationFailed) (resolve_realm realm)) (\<lambda>(name, scope).
          and_then (begin_work scope) (\<lambda>_.
          and_then (map_err (tell_as TokenInvalid AdminAuthenticationFailed)
              (verify_access_token app (name_issuer app name) token)) (\<lambda>claims.
          and_then (ensure (claims_session claims = None \<and> ADMIN_SCOPE \<in> set (claims_scopes claims))
              (new_failure AdminAuthenticationFailed)) (\<lambda>_.
          and_then (on_work (store_read_client (claims_client_id claims))) (\<lambda>found.
          and_then (lift_result (ok_or (new_failure AdminAuthenticationFailed)
              (filter_option client_enabled found))) (\<lambda>c.
          and_then (ensure (required \<in> set (client_capabilities c)) (new_failure CapabilityMissing)) (\<lambda>_.
          ret \<lparr>caller_realm = name, caller_scope = scope, caller_client = c\<rparr>))))))))"

subsection \<open>What decides, and how far\<close>

text \<open>The subjects the relations of the unit of work in hand name.\<close>

definition relation_rows :: "ctx \<Rightarrow> object_ref \<Rightarrow> string \<Rightarrow> subject_ref list" where
  "relation_rows s obj rel = (case opened s of None \<Rightarrow> [] | Some w \<Rightarrow>
     subject_rows (st_relations (working w) (uow_realm w)) obj rel)"

interpretation walked: relation_port "walk_port app schema subject deadline" relation_rows
  for app schema subject deadline
proof
  fix w t w' obj rel n and found :: "subject_ref list" and res
  show "env_now (walk_port app schema subject deadline) w = (t, w') \<Longrightarrow> relation_rows w' = relation_rows w"
    by (auto simp: walk_port_def app_now_def clock_now_def relation_rows_def fun_eq_iff)
  show "env_list (walk_port app schema subject deadline) obj rel n w = (res, w') \<Longrightarrow> relation_rows w' = relation_rows w"
    by (auto simp: walk_port_def on_work_storage_def store_list_relation_subjects_def reading_def split: option.splits)
  show "length found \<le> length (relation_rows w obj rel)"
    if "env_list (walk_port app schema subject deadline) obj rel n w = (Ok found, w')"
    using that by (auto simp: walk_port_def on_work_storage_def store_list_relation_subjects_def reading_def
        relation_rows_def split: option.splits)
  show "set found = set (relation_rows w obj rel)"
    if "env_list (walk_port app schema subject deadline) obj rel n w = (Ok found, w')" "length found < n"
    using that by (auto simp: walk_port_def on_work_storage_def store_list_relation_subjects_def reading_def
        relation_rows_def split: option.splits)
qed

text \<open>A walk of the point of decision only reads, and reads at most as often as its bound says.\<close>

lemma reads_only_walk [reads_intro]: "reads_only (walk_relations (walk_port app schema subject deadline) obj m)"
  unfolding reads_only_def
proof
  fix s
  let ?env = "walk_port app schema subject deadline" and ?I = "\<lambda>x. only_later s (work x)"
  let ?start = "\<lparr>work = s, reads = 0, steps = 0, known = (\<lambda>_. None), walking = {}\<rparr>"
  have list: "only_later s (work x) \<Longrightarrow>
      only_later s (snd (on_work_storage (store_list_relation_subjects obj rel n) (work x)))" for x :: "ctx walker" and obj rel n
    unfolding store_list_relation_subjects_def
    by (erule only_later_trans, rule reads_only_on_work_storage [unfolded reads_only_def, rule_format])
  have time: "keeps ?I (check_time ?env)"
    by (auto simp: keeps_def check_time_def walk_port_def app_now_def clock_now_def only_later_def)
  moreover have "keeps ?I (list_at ?env obj rel n)" for obj rel n
    using list by (auto simp: keeps_def list_at_def walk_port_def split_beta)
  moreover have "keeps ?I count_read" "keeps ?I count_step" "keeps ?I (enter key)" "keeps ?I (settle key walk)" for key walk
    by (auto simp: keeps_def count_read_def count_step_def enter_def settle_def)
  ultimately have "keeps ?I (walk_member ?env obj m 0)"
    by (auto intro!: keeps_walk_member keeps_and_then simp: read_subjects_def split: option.split)
  then have "?I (snd (walk_member ?env obj m 0 ?start))"
    unfolding keeps_def by (elim allE [of _ ?start]) simp
  then show "only_later s (snd (walk_relations ?env obj m s))"
    by (auto simp: walk_relations_def split: prod.splits)
qed

lemma wp_walk_tells:
  assumes "opened s = Some w"
  shows "wp (walk_relations (walk_port app schema subject deadline) obj m)
    (\<lambda>walk t. only_later s t \<and> tells UNIV
       (stands schema (\<lambda>obj rel. set (subject_rows (st_relations (working w) (uow_realm w)) obj rel)) subject obj m) walk)
    (\<lambda>_ t. only_later s t) s"
proof (rule wp_and_later [OF reads_only_walk])
  let ?env = "walk_port app schema subject deadline"
  have rows: "relation_rows s = (\<lambda>obj rel. subject_rows (st_relations (working w) (uow_realm w)) obj rel)"
    using assms by (simp add: relation_rows_def fun_eq_iff)
  have env: "env_schema ?env = schema" "env_subject ?env = subject" by (simp_all add: walk_port_def)
  have limits: "limits_of ?env (relation_rows s) (\<lambda>_. 0) UNIV" "member_fits (\<lambda>_. 0) UNIV {} 0 (obj, m)"
    by (simp_all add: limits_of_def member_fits_def)
  show "wp (walk_relations ?env obj m) (\<lambda>walk _. tells UNIV
      (stands schema (\<lambda>obj rel. set (subject_rows (st_relations (working w) (uow_realm w)) obj rel)) subject obj m) walk)
      (\<lambda>_ _. True) s"
    using walked.walk_relations_tells(2) [OF limits] unfolding rows env
    by (auto simp: wp_def split: prod.split sum.split)
qed simp_all

subsection \<open>Grounds of a permission\<close>

text \<open>Who a token may stand for: an enabled client of the realm, or an enabled person.\<close>

definition is_live_subject :: "app \<Rightarrow> state \<Rightarrow> uuid \<Rightarrow> subject \<Rightarrow> bool" where
  "is_live_subject app st realm who \<longleftrightarrow>
     (\<exists>claims c. who = client_subject claims c \<and> c \<in> set (st_clients st realm) \<and> client_enabled c) \<or>
     (\<exists>claims p. who = person_subject app claims p \<and> p \<in> set (st_persons st realm) \<and> person_enabled p)"

text \<open>
  What the schema, the guards and the relations kept say of a question.
\<close>

definition granted_by_relation :: "app \<Rightarrow> state \<Rightarrow> uuid \<Rightarrow> client \<Rightarrow> decision_request \<Rightarrow> bool" where
  "granted_by_relation app st realm c request \<longleftrightarrow>
     (\<exists>stored schema who obj.
        st_relation_schemas st realm = Some stored \<and>
        (read_compiled_schema app (schema_compiled stored) = Some schema \<or> compile app (schema_source stored) = Ok schema) \<and>
        (asked_type request, client_id c) \<in> set (st_relation_guards st realm) \<and>
        is_live_subject app st realm who \<and> asked_id request = Some obj \<and> is_object_id obj \<and>
        stands schema (\<lambda>obj rel. set (subject_rows (st_relations st realm) obj rel)) (who_object who)
          (ObjectRef (asked_type request) obj) (asked_action request))"

text \<open>
  What the policies of the client that asks say of it: they read, of a person, the roles held and
  the groups joined at the instant of the question, and of the roles those said to that client.
\<close>

definition facts_of :: "state \<Rightarrow> uuid \<Rightarrow> string \<Rightarrow> instant \<Rightarrow> subject \<Rightarrow> subject_facts \<Rightarrow> bool" where
  "facts_of st realm client t who facts \<longleftrightarrow>
     (case who_person who of
        None \<Rightarrow> facts = who_facts who
      | Some p \<Rightarrow> facts = (who_facts who)\<lparr>facts_roles := facts_roles facts, facts_groups := facts_groups facts\<rparr> \<and>
          set (facts_roles facts) = {held_id h | h. is_way st realm p t h \<and> is_said client h} \<and>
          set (facts_groups facts) =
            {member_group m | m. m \<in> set (st_memberships st realm) \<and> member_person m = p \<and> stands_at (member_terms m) t})"

definition granted_by_policy :: "app \<Rightarrow> state \<Rightarrow> uuid \<Rightarrow> client \<Rightarrow> decision_request \<Rightarrow> string \<Rightarrow> bool" where
  "granted_by_policy app st realm c request name \<longleftrightarrow>
     (\<exists>who t facts. is_live_subject app st realm who \<and> facts_of st realm (client_id c) t who facts \<and>
        weigh_policies app \<lparr>facts_subject = facts, facts_resource = asked_attributes request, facts_now = t\<rparr>
          (filter (\<lambda>p. policy_resource_type p = asked_type request \<and> policy_action p = asked_action request)
            (sort_key policy_name (filter (\<lambda>p. policy_client_id p = client_id c) (st_policies st realm)))) =
        Verdict_permit name)"

lemma is_live_subjectI:
  "c \<in> set (st_clients st realm) \<Longrightarrow> client_enabled c \<Longrightarrow> is_live_subject app st realm (client_subject claims c)"
  "p \<in> set (st_persons st realm) \<Longrightarrow> person_enabled p \<Longrightarrow> is_live_subject app st realm (person_subject app claims p)"
  by (auto simp: is_live_subject_def)

lemma wp_read_token_subject:
  assumes "opened s = Some w"
  shows "wp (read_token_subject app issuer token)
    (\<lambda>found t. only_later s t \<and> (\<forall>who. found = Some who \<longrightarrow> is_live_subject app (working w) (uow_realm w) who))
    (\<lambda>_ t. only_later s t) s"
proof -
  have named: "wp (name_subject app claims)
      (\<lambda>found u. only_later s u \<and> (\<forall>who. found = Some who \<longrightarrow> is_live_subject app (working w) (uow_realm w) who))
      (\<lambda>_ u. only_later s u) t" if "only_later s t" for claims t
  proof (cases "claims_session claims")
    case None
    have "opened t = Some w" using assms only_later_same(2) [OF that] by simp
    with None that show ?thesis
      by (auto simp: name_subject_def filter_option_eq_Some intro!: wp_read_named_client is_live_subjectI)
  next
    case (Some i)
    have "opened t = Some w" using assms only_later_same(2) [OF that] by simp
    show ?thesis
      unfolding name_subject_def Some option.case wp_and_then
      by (rule wp_mono [OF wp_read_live_subject [OF \<open>opened t = Some w\<close>]])
         (auto intro!: is_live_subjectI only_later_trans [OF that] simp: bind_eq_Some_conv split: if_splits)
  qed
  have "wp (read_token_subject app issuer token) Q R s =
      wp (verify_access_token app issuer token) (\<lambda>claims. wp (name_subject app claims) Q R)
        (\<lambda>e t. if code e = TokenInvalid then Q None t else R e t) s" for Q R
    by (auto simp: read_token_subject_def wp_def split: prod.split sum.split)
  then show ?thesis
    by (auto intro!: wp_mono [OF wp_reads_only [OF reads_only_tokens(1)]] named)
qed

lemma wp_read_schema_for:
  assumes "opened s = Some w"
  shows "wp (read_schema_for app client ty)
    (\<lambda>schema t. only_later s t \<and> (\<forall>compiled. schema = By_relations compiled \<longrightarrow>
       (\<exists>stored. st_relation_schemas (working w) (uow_realm w) = Some stored \<and>
          (read_compiled_schema app (schema_compiled stored) = Some compiled \<or>
           compile app (schema_source stored) = Ok compiled) \<and>
          (ty, client) \<in> set (st_relation_guards (working w) (uow_realm w)))))
    (\<lambda>_ t. only_later s t) s"
  using assms
  by (auto simp: read_schema_for_def store_reads wp_on_work_reading Let_def split: option.splits bind_splits sum.splits)

lemma wp_read_holdings:
  assumes "opened s = Some w"
  shows "wp (read_holdings client t who)
    (\<lambda>facts u. u = s \<and> facts_of (working w) (uow_realm w) client t who facts) (\<lambda>_ u. u = s) s"
proof (cases "who_person who")
  case None
  then show ?thesis by (simp add: read_holdings_def facts_of_def)
next
  case (Some p)
  have groups: "wp (read_member_groups p t)
      (\<lambda>groups u. u = s \<and> set groups = {member_group m | m. m \<in> set (st_memberships (working w) (uow_realm w)) \<and>
         member_person m = p \<and> stands_at (member_terms m) t}) (\<lambda>_ u. u = s) s"
    using assms by (auto simp: read_member_groups_def store_list_member_groups_def wp_on_work_reading)
  show ?thesis
    unfolding read_holdings_def Some option.case wp_and_then
    by (rule wp_mono [OF wp_read_held_roles [OF assms]])
       (auto intro!: wp_mono [OF groups] simp: facts_of_def Some)
qed

lemma wp_decide_by_policies:
  assumes "opened s = Some w" and "is_live_subject app (working w) (uow_realm w) who"
  shows "wp (decide_by_policies app (client_id c) request who)
    (\<lambda>d u. only_later s u \<and> (decision_made d = ''deny'' \<or>
       (\<exists>name. d = permit ''policy'' (Some name) \<and> granted_by_policy app (working w) (uow_realm w) c request name)))
    (\<lambda>_ u. only_later s u) s"
proof -
  let ?t = "app_clock app (tick s) div 1000 * 1000" and ?s = "s\<lparr>tick := tick s + 1\<rparr>"
  have opened: "opened ?s = Some w" using assms(1) by simp
  have told: "decision_made (tell_verdict verdict) = ''deny'' \<or>
      (\<exists>name. tell_verdict verdict = permit ''policy'' (Some name) \<and> verdict = Verdict_permit name)" for verdict
    by (cases verdict) (simp_all add: tell_verdict_def deny_def)
  let ?policies = "filter (\<lambda>p. policy_resource_type p = asked_type request \<and> policy_action p = asked_action request)
      (policies_of (client_id c) w)"
  have granted: "granted_by_policy app (working w) (uow_realm w) c request name"
    if "facts_of (working w) (uow_realm w) (client_id c) t who facts"
      "weigh_policies app \<lparr>facts_subject = facts, facts_resource = asked_attributes request, facts_now = t\<rparr> ?policies =
        Verdict_permit name" for facts name t
    unfolding granted_by_policy_def using that assms(2) unfolding policies_of_def by blast
  have "only_later s u \<and> (decision_made (tell_verdict verdict) = ''deny'' \<or>
      (\<exists>name. tell_verdict verdict = permit ''policy'' (Some name) \<and>
        granted_by_policy app (working w) (uow_realm w) c request name))"
    if "u = ?s \<and> facts_of (working w) (uow_realm w) (client_id c) ?t who facts"
      "verdict = weigh_policies app \<lparr>facts_subject = facts, facts_resource = asked_attributes request, facts_now = ?t\<rparr> ?policies"
    for facts u verdict
    using that told [of verdict] granted [of ?t facts] by auto
  note said = this [OF _ refl]
  show ?thesis
  proof (cases "?policies = []")
    case True
    then show ?thesis
      by (simp add: decide_by_policies_def store_list_applicable_policies_def wp_on_work_reading [OF assms(1)] deny_def)
  next
    case False
    then show ?thesis
      unfolding decide_by_policies_def store_list_applicable_policies_def wp_and_then wp_on_work_reading [OF assms(1)]
        if_not_P [OF False] wp_now wp_ret
      by (intro wp_mono [OF wp_read_holdings [OF opened]] said) (simp_all only: only_later_tick)
  qed
qed

lemma wp_decide_by_relations:
  assumes "opened s = Some w" and "is_live_subject app (working w) (uow_realm w) who"
    and "st_relation_schemas (working w) (uow_realm w) = Some stored"
    and "read_compiled_schema app (schema_compiled stored) = Some schema \<or> compile app (schema_source stored) = Ok schema"
    and "(asked_type request, client_id c) \<in> set (st_relation_guards (working w) (uow_realm w))"
  shows "wp (decide_by_relations app schema request (who_object who) deadline)
    (\<lambda>d u. only_later s u \<and> (decision_made d = ''deny'' \<or>
       d = permit ''relation'' None \<and> granted_by_relation app (working w) (uow_realm w) c request))
    (\<lambda>_ u. only_later s u) s"
proof (cases "filter_option is_object_id (asked_id request)")
  case None
  then show ?thesis by (simp add: decide_by_relations_def)
next
  case (Some obj)
  then have asked: "asked_id request = Some obj" "is_object_id obj" by (auto simp: filter_option_eq_Some)
  have told: "decision_made (tell_walk walk) = ''deny'' \<or> tell_walk walk = permit ''relation'' None \<and> walk = Found" for walk
    by (cases walk) (simp_all add: tell_walk_def deny_def)
  have granted: "granted_by_relation app (working w) (uow_realm w) c request"
    if "stands schema (\<lambda>obj rel. set (subject_rows (st_relations (working w) (uow_realm w)) obj rel)) (who_object who)
      (ObjectRef (asked_type request) obj) (asked_action request)"
    unfolding granted_by_relation_def using that assms(2-5) asked by blast
  have "only_later s t \<and> (decision_made (tell_walk walk) = ''deny'' \<or> tell_walk walk = permit ''relation'' None \<and>
      granted_by_relation app (working w) (uow_realm w) c request)"
    if "only_later s t \<and> tells UNIV (stands schema (\<lambda>obj rel. set (subject_rows (st_relations (working w) (uow_realm w)) obj rel))
      (who_object who) (ObjectRef (asked_type request) obj) (asked_action request)) walk" for walk t
    using that told [of walk] granted by auto
  then show ?thesis
    unfolding decide_by_relations_def Some option.case wp_if wp_and_then wp_map_err wp_ret
    by (simp add: deny_def) (intro impI wp_mono [OF wp_walk_tells [OF assms(1)]]; simp add: deny_def)
qed

text \<open>What is taken of the shares is given back: the counts are as they were.\<close>

lemma share_given_back:
  assumes "take_share per_node per_tenant tenant h = Some h'"
  shows "held_node (drop_share tenant h') = held_node h" and "held_by (drop_share tenant h') = held_by h"
  using assms by (auto simp: take_share_def drop_share_def held_by_def fun_eq_iff split: if_splits option.splits)

lemma wp_answer_question:
  assumes "opened s = Some w"
  shows "wp (answer_question app realm c token request deadline)
    (\<lambda>d u. only_later s u \<and> (decision_made d = ''deny'' \<or>
       d = permit ''relation'' None \<and> granted_by_relation app (working w) (uow_realm w) c request \<or>
       (\<exists>name. d = permit ''policy'' (Some name) \<and> granted_by_policy app (working w) (uow_realm w) c request name)))
    (\<lambda>_ u. only_later s u) s"
proof -
  have denied: "decision_made (deny reason p) = ''deny''" for reason p by (simp add: deny_def)
  show ?thesis
    unfolding answer_question_def wp_and_then wp_case_option wp_ret
  proof (rule wp_mono [OF wp_read_token_subject [OF assms]], clarsimp simp: denied split: option.split)
    fix t who assume t: "only_later s t" and live: "is_live_subject app (working w) (uow_realm w) who"
    then have opened: "opened t = Some w" using assms only_later_same(2) by metis
    show "wp (read_schema_for app (client_id c) (asked_type request))
       (\<lambda>schema. wp (case schema of Schema_unreadable \<Rightarrow> ret (deny ''schema_unreadable'' None)
          | By_relations compiled \<Rightarrow> decide_by_relations app compiled request (who_object who) deadline
          | By_policies \<Rightarrow> decide_by_policies app (client_id c) request who)
        (\<lambda>d u. only_later s u \<and> (decision_made d = ''deny'' \<or>
           d = permit ''relation'' None \<and> granted_by_relation app (working w) (uow_realm w) c request \<or>
           (\<exists>name. d = permit ''policy'' (Some name) \<and> granted_by_policy app (working w) (uow_realm w) c request name)))
        (\<lambda>_ u. only_later s u))
       (\<lambda>_ u. only_later s u) t"
    proof (rule wp_mono [OF wp_read_schema_for [OF opened]], goal_cases)
      case (1 schema u)
      then have u: "only_later s u" "opened u = Some w"
        using t opened only_later_trans only_later_same(2) by metis+
      show ?case
      proof (cases schema)
        case (By_relations compiled)
        with 1 obtain stored where "st_relation_schemas (working w) (uow_realm w) = Some stored"
          "read_compiled_schema app (schema_compiled stored) = Some compiled \<or> compile app (schema_source stored) = Ok compiled"
          "(asked_type request, client_id c) \<in> set (st_relation_guards (working w) (uow_realm w))"
          by blast
        from wp_decide_by_relations [OF u(2) live this] show ?thesis
          unfolding By_relations schema_for.case
          by (rule wp_mono) (use u(1) only_later_trans in blast)+
      next
        case By_policies
        show ?thesis
          unfolding By_policies schema_for.case
          by (rule wp_mono [OF wp_decide_by_policies [OF u(2) live]]) (use u(1) only_later_trans in blast)+
      qed (use u(1) denied in simp)
    next
      case (2 e u)
      with t show ?case by (blast intro: only_later_trans)
    qed
  qed simp
qed

lemma wp_holding_share:
  "wp (holding_share app tenant busy m) Q R s =
     (case take_share (app_per_node app) (app_per_tenant app) tenant (shares s) of
        None \<Rightarrow> R busy s
      | Some h \<Rightarrow> wp m (\<lambda>x t. Q x (t\<lparr>shares := drop_share tenant (shares t)\<rparr>))
          (\<lambda>e t. R e (t\<lparr>shares := drop_share tenant (shares t)\<rparr>)) (s\<lparr>shares := h\<rparr>))"
  by (auto simp: holding_share_def wp_def split: option.split prod.split sum.split)

lemma wp_answer_holding_share:
  assumes "opened u = Some w"
  shows "wp (holding_share app tenant e (answer_question app realm c token request deadline))
     (\<lambda>d t. (shared t = shared u \<and> held_node (shares t) = held_node (shares u) \<and> held_by (shares t) = held_by (shares u)) \<and>
        (decision_made d = ''deny'' \<or> d = permit ''relation'' None \<and> granted_by_relation app (working w) (uow_realm w) c request \<or>
         (\<exists>policy. d = permit ''policy'' (Some policy) \<and> granted_by_policy app (working w) (uow_realm w) c request policy)))
     (\<lambda>_ t. shared t = shared u \<and> held_node (shares t) = held_node (shares u) \<and> held_by (shares t) = held_by (shares u)) u"
proof (cases "take_share (app_per_node app) (app_per_tenant app) tenant (shares u)")
  case (Some h)
  have kept: "shared t = shared u \<and> held_node (drop_share tenant (shares t)) = held_node (shares u) \<and>
      held_by (drop_share tenant (shares t)) = held_by (shares u)" if "only_later (u\<lparr>shares := h\<rparr>) t" for t
    using only_later_same(1,3) [OF that] share_given_back [OF Some] by simp
  have "opened (u\<lparr>shares := h\<rparr>) = Some w" using assms by simp
  from wp_answer_question [OF this, of app realm c token request deadline] show ?thesis
    unfolding wp_holding_share Some option.case by (rule wp_mono) (use kept in auto)
qed (simp add: wp_holding_share)

text \<open>
  C9: the point of decision permits only on grounds the realm keeps. A question answered with a
  permission was asked by an enabled client of an enabled realm of that name, and either the
  relations kept put a live subject in the member asked for, of an object of a type that client
  guards, or the policies of that client for that type and action permit, read with the roles and
  groups the subject holds then. Whatever the answer, the state is untouched and the shares held
  are given back.
\<close>

theorem permits_have_grounds:
  "wp (decide app realm name secret request)
     (\<lambda>d t. shared t = shared s \<and> held_node (shares t) = held_node (shares s) \<and>
        held_by (shares t) = held_by (shares s) \<and>
        (decision_made d = ''deny'' \<or>
         (\<exists>r c. r \<in> snd ` set (st_realms (shared s)) \<and> realm_name r = realm \<and> realm_enabled r \<and>
            c \<in> set (st_clients (shared s) (realm_id r)) \<and> client_enabled c \<and> name = Some (client_id c) \<and>
            (d = permit ''relation'' None \<and> granted_by_relation app (shared s) (realm_id r) c request \<or>
             (\<exists>policy. d = permit ''policy'' (Some policy) \<and> granted_by_policy app (shared s) (realm_id r) c request policy)))))
     (\<lambda>e t. shared t = shared s \<and> held_node (shares t) = held_node (shares s) \<and>
        held_by (shares t) = held_by (shares s)) s"
  (is "wp _ ?Q (\<lambda>_. ?K) s")
proof -
  have answered: "wp (holding_share app tenant e (answer_question app realm c token request deadline)) ?Q (\<lambda>_. ?K) u"
    if "opened u = Some w" "working w = shared s" "uow_realm w = realm_id r" "shared u = shared s" "shares u = shares s"
      "r \<in> snd ` set (st_realms (shared s))" "realm_name r = realm" "realm_enabled r"
      "c \<in> set (st_clients (shared s) (realm_id r))" "client_enabled c" "name = Some (client_id c)"
    for u w r c token deadline tenant e
    by (rule wp_mono [OF wp_answer_holding_share [OF that(1)]]) (use that in auto)
  let ?start = "s\<lparr>tick := tick s + 1\<rparr>"
  show ?thesis
    unfolding decide_def decide_failing_def wp_map_err wp_and_then wp_now Let_def
  proof (rule wp_mono [OF wp_resolve_realm], goal_cases)
    case (1 found t)
    then obtain r where found: "found = (realm, \<lparr>scope_tenant = realm_tenant r, scope_realm = realm_id r\<rparr>)"
      and r: "r \<in> snd ` set (st_realms (shared s))" "realm_name r = realm" "realm_enabled r" and t: "t = ?start"
      by (auto split: prod.splits)
    show ?case
    proof (cases "name = None \<or> secret = None \<or> outage s \<noteq> None")
      case True
      then show ?thesis
        by (auto simp: found t begin_work_def split: option.split)
    next
      case False
      then obtain presented client_secret where asked: "name = Some presented" "secret = Some client_secret" "outage s = None"
        by auto
      let ?w = "\<lparr>uow_scope = \<lparr>scope_tenant = realm_tenant r, scope_realm = realm_id r\<rparr>, working = shared s,
          failed = False, read_only = False\<rparr>"
      let ?u = "?start\<lparr>opened := Some ?w\<rparr>"
      have w: "opened ?u = Some ?w" "working ?w = shared s" "uow_realm ?w = realm_id r" "shared ?u = shared s"
          "shares ?u = shares s"
        by (simp_all add: uow_realm_def)
      let ?rest = "\<lambda>c. and_then (lift_result (ok_or (new_failure RequestInvalid) (asked_token request))) (\<lambda>token.
          and_then (ensure (is_askable app request) (new_failure RequestInvalid)) (\<lambda>_.
          holding_share app (realm_tenant r) (new_failure StorageUnavailable)
            (answer_question app realm c token request (app_clock app (tick s) div 1000 * 1000 + MAX_DURATION))))"
      have "wp (?rest c) ?Q (\<lambda>_. ?K) ?u"
        if "c \<in> set (st_clients (shared s) (realm_id r))" "client_id c = presented" "client_enabled c" for c
        using answered [OF w r that(1,3)] that(2) asked(1) w(4,5)
        by (cases "asked_token request") (simp_all add: split: if_split)
      then have "wp (authenticate_client app presented client_secret) (\<lambda>c. wp (?rest c) ?Q (\<lambda>_. ?K)) (\<lambda>_. ?K) ?u"
        by (intro wp_mono [OF wp_authenticate_client [OF w(1)]]) (use w in auto)
      then show ?thesis
        using asked by (simp add: found t begin_work_def del: wp_and_then) (simp add: wp_and_then [of "authenticate_client app presented client_secret"] wp_and_then [of "map_err failure_of_storage (open_work _ _)"] del: wp_and_then)
    qed
  qed simp
qed

lemma guarded:
  assumes "opened v = Some w"
    and "R (new_failure AdminAuthenticationFailed) v" and "R (new_failure CapabilityMissing) v"
    and "\<And>c. filter_option client_enabled (find (\<lambda>c. client_id c = claims_client_id claims)
        (st_clients (working w) (uow_realm w))) = Some c \<Longrightarrow> required \<in> set (client_capabilities c) \<Longrightarrow>
      claims_session claims = None \<Longrightarrow> ADMIN_SCOPE \<in> set (claims_scopes claims) \<Longrightarrow>
      Q \<lparr>caller_realm = realm, caller_scope = scope, caller_client = c\<rparr> v"
  shows "wp (and_then (ensure (claims_session claims = None \<and> ADMIN_SCOPE \<in> set (claims_scopes claims))
          (new_failure AdminAuthenticationFailed)) (\<lambda>_.
      and_then (on_work (store_read_client (claims_client_id claims))) (\<lambda>found.
      and_then (lift_result (ok_or (new_failure AdminAuthenticationFailed) (filter_option client_enabled found))) (\<lambda>c.
      and_then (ensure (required \<in> set (client_capabilities c)) (new_failure CapabilityMissing)) (\<lambda>_.
      ret \<lparr>caller_realm = realm, caller_scope = scope, caller_client = c\<rparr>))))) Q R v"
  using assms(2-4)
  by (cases "filter_option client_enabled (find (\<lambda>c. client_id c = claims_client_id claims)
        (st_clients (working w) (uow_realm w)))")
     (simp_all add: store_read_client_def wp_on_work_reading [OF assms(1)])

lemma wp_authorize_admin_call:
  "wp (authorize_admin_call app realm bearer required)
     (\<lambda>caller t. shared t = shared s \<and> caller_realm caller = realm \<and>
        required \<in> set (client_capabilities (caller_client caller)) \<and> client_enabled (caller_client caller) \<and>
        (\<exists>r u token claims. r \<in> snd ` set (st_realms (shared s)) \<and> realm_name r = realm \<and> realm_enabled r \<and>
           caller_scope caller = \<lparr>scope_tenant = realm_tenant r, scope_realm = realm_id r\<rparr> \<and>
           caller_client caller \<in> set (st_clients (shared s) (realm_id r)) \<and>
           bearer = Some token \<and> u = s\<lparr>opened := Some \<lparr>uow_scope = caller_scope caller, working = shared s,
             failed = False, read_only = False\<rparr>\<rparr> \<and>
           verify_access_token app (name_issuer app realm) token u = (Ok claims, t) \<and>
           claims_client_id claims = client_id (caller_client caller) \<and> claims_session claims = None \<and>
           ADMIN_SCOPE \<in> set (claims_scopes claims)))
     (\<lambda>e t. shared t = shared s \<and> code e \<in> {AdminAuthenticationFailed, CapabilityMissing, StorageUnavailable}) s"
  (is "wp _ ?Q ?R s")
proof (cases bearer)
  case None
  then show ?thesis by (simp add: authorize_admin_call_def)
next
  case (Some token)
  have resolved: "wp (resolve_realm realm)
      (\<lambda>(known_realm, scope) t. t = s \<and> known_realm = realm \<and>
        (\<exists>r \<in> snd ` set (st_realms (shared s)). realm_name r = realm \<and> realm_enabled r \<and>
           scope = \<lparr>scope_tenant = realm_tenant r, scope_realm = realm_id r\<rparr>))
      (\<lambda>e t. t = s \<and> code (tell_as RealmNotFound AdminAuthenticationFailed e) \<in> {AdminAuthenticationFailed, StorageUnavailable}) s"
    by (rule wp_mono [OF wp_conj [OF wp_resolve_realm]])
       (auto simp: resolve_realm_def locate_realm_def wp_def map_err_def and_then_def ret_def throw_def tell_as_def
          split: sum.splits option.splits)
  show ?thesis
    unfolding authorize_admin_call_def Some option.case wp_and_then wp_map_err
  proof (rule wp_mono [OF resolved], goal_cases)
    case (1 found t)
    then obtain r where found: "found = (realm, \<lparr>scope_tenant = realm_tenant r, scope_realm = realm_id r\<rparr>)"
      and r: "r \<in> snd ` set (st_realms (shared s))" "realm_name r = realm" "realm_enabled r" and t: "t = s"
      by (auto split: prod.splits)
    let ?w = "\<lparr>uow_scope = \<lparr>scope_tenant = realm_tenant r, scope_realm = realm_id r\<rparr>, working = shared s,
        failed = False, read_only = False\<rparr>"
    let ?u = "s\<lparr>opened := Some ?w\<rparr>"
    let ?guard = "\<lambda>claims. and_then (ensure (claims_session claims = None \<and> ADMIN_SCOPE \<in> set (claims_scopes claims))
          (new_failure AdminAuthenticationFailed)) (\<lambda>_.
        and_then (on_work (store_read_client (claims_client_id claims))) (\<lambda>found.
        and_then (lift_result (ok_or (new_failure AdminAuthenticationFailed) (filter_option client_enabled found))) (\<lambda>c.
        and_then (ensure (required \<in> set (client_capabilities c)) (new_failure CapabilityMissing)) (\<lambda>_.
        ret \<lparr>caller_realm = realm, caller_scope = uow_scope ?w, caller_client = c\<rparr>))))"
    have w: "opened ?u = Some ?w" "uow_realm ?w = realm_id r" "working ?w = shared s" by (simp_all add: uow_realm_def)
    show ?case
    proof (cases "outage s")
      case None
      have after: "wp (?guard claims) ?Q ?R v"
        if "verify_access_token app (name_issuer app realm) token ?u = (Ok claims, v)" "only_later ?u v" for claims v
      proof -
        have v: "opened v = Some ?w" "shared v = shared s" using only_later_same [OF that(2)] by simp_all
        let ?found = "find (\<lambda>c. client_id c = claims_client_id claims) (st_clients (shared s) (realm_id r))"
        have let_through: "?Q \<lparr>caller_realm = realm, caller_scope = uow_scope ?w, caller_client = c\<rparr> v"
          if "filter_option client_enabled ?found = Some c" "required \<in> set (client_capabilities c)"
            "claims_session claims = None" "ADMIN_SCOPE \<in> set (claims_scopes claims)" for c
        proof -
          have c: "c \<in> set (st_clients (shared s) (realm_id r))" "client_id c = claims_client_id claims" "client_enabled c"
            using that(1) find_found [of _ _ c] by (auto simp: filter_option_eq_Some)
          show ?thesis
            by (intro conjI exI [of _ r] exI [of _ ?u] exI [of _ token] exI [of _ claims])
               (use c that r v \<open>verify_access_token app (name_issuer app realm) token ?u = (Ok claims, v)\<close> Some in simp_all)
        qed
        have "?R (new_failure AdminAuthenticationFailed) v" "?R (new_failure CapabilityMissing) v" using v(2) by simp_all
        then show ?thesis
          by (rule guarded [OF v(1), unfolded w(2,3) unit_of_work.simps]) (rule let_through)
      qed
      have "wp (verify_access_token app (name_issuer app realm) token) (\<lambda>claims. wp (?guard claims) ?Q ?R)
          (\<lambda>e. ?R (tell_as TokenInvalid AdminAuthenticationFailed e)) ?u"
        by (rule wp_mono [OF wp_verify_outcome [OF w(1)]])
           (elim conjE, rule after, assumption+, auto simp: tell_as_def dest: only_later_same(1))
      then show ?thesis
        unfolding found t prod.case wp_and_then wp_map_err begin_work_def wp_open_work None option.case Some
        by (simp only: unit_of_work.simps)
    qed (auto simp: found t begin_work_def split: option.split)
  qed auto
qed

text \<open>
  C15: the guard of the administration plane. A call let through carries a token that verifies as an
  access token of that very realm, names no session, carries the scope of the plane, and was issued
  to a client of the realm that is enabled now and holds the capability asked for now. Every other
  call is refused in one of three ways, and none changes anything.
\<close>

theorem admin_calls_are_guarded:
  "wp (authorize_admin_call app realm bearer required)
     (\<lambda>caller t. shared t = shared s \<and> caller_realm caller = realm \<and>
        required \<in> set (client_capabilities (caller_client caller)) \<and> client_enabled (caller_client caller) \<and>
        (\<exists>r u token claims. r \<in> snd ` set (st_realms (shared s)) \<and> realm_name r = realm \<and> realm_enabled r \<and>
           caller_scope caller = \<lparr>scope_tenant = realm_tenant r, scope_realm = realm_id r\<rparr> \<and>
           caller_client caller \<in> set (st_clients (shared s) (realm_id r)) \<and>
           bearer = Some token \<and> u = s\<lparr>opened := Some \<lparr>uow_scope = caller_scope caller, working = shared s,
             failed = False, read_only = False\<rparr>\<rparr> \<and>
           verify_access_token app (name_issuer app realm) token u = (Ok claims, t) \<and>
           claims_client_id claims = client_id (caller_client caller) \<and> claims_session claims = None \<and>
           ADMIN_SCOPE \<in> set (claims_scopes claims)))
     (\<lambda>e t. shared t = shared s \<and> code e \<in> {AdminAuthenticationFailed, CapabilityMissing, StorageUnavailable}) s"
  by (rule wp_authorize_admin_call)

text \<open>
  C27: the shares of the questions are kept. A share is taken only while the node and the tenant have
  one left, a share taken counts one more of both and of no other tenant, and a share given back
  leaves the counts as they were before it was taken.
\<close>

theorem shares_are_bounded_and_given_back:
  "case take_share per_node per_tenant tenant h of
     None \<Rightarrow> per_node \<le> held_node h \<or> per_tenant \<le> held_by h tenant
   | Some h' \<Rightarrow> held_node h' \<le> per_node \<and> held_by h' tenant \<le> per_tenant \<and>
       held_node h' = held_node h + 1 \<and> held_by h' = (held_by h)(tenant := held_by h tenant + 1) \<and>
       held_node (drop_share tenant h') = held_node h \<and> held_by (drop_share tenant h') = held_by h"
  by (auto simp: take_share_def drop_share_def held_by_def fun_eq_iff split: option.splits)


end
