(* ===== verification/Provisioning.thy ===== *)
theory Provisioning
  imports Tokens
begin

text \<open>
  Realms, clients and people as they are made: the names a person goes by
  (\<open>saffui-core/src/directory/mod.rs\<close>), the fair shares of the hashers (\<open>login/fairness.rs\<close>), the
  creation of people and the pages of them (\<open>directory/create.rs\<close> and \<open>list.rs\<close>), the registration
  of clients and what an administrator does with them (\<open>clients/register.rs\<close> and \<open>manage.rs\<close>),
  the first keys of a realm (\<open>keys/generate.rs\<close>) and the creation of a tenant with its first realm
  (\<open>tenancy/realm.rs\<close>). The lemmas show that every person and every client created is said in
  the chain, and that a client created authenticates with the secret it was given.
\<close>

subsection \<open>The names of people\<close>

definition PASSWORD_MIN_BYTES :: nat where "PASSWORD_MIN_BYTES = 8"
definition PASSWORD_MAX_BYTES :: nat where "PASSWORD_MAX_BYTES = 1024"

definition to_ascii_lowercase :: "string \<Rightarrow> string" where
  "to_ascii_lowercase text =
     map (\<lambda>c. if is_ascii_uppercase c then char_of (of_char c + 32 :: nat) else c) text"

definition is_username_edge :: "char \<Rightarrow> bool" where
  "is_username_edge c \<longleftrightarrow> is_ascii_lowercase c \<or> is_ascii_digit c"

definition is_username :: "string \<Rightarrow> bool" where
  "is_username name \<longleftrightarrow>
     1 \<le> length name \<and> length name \<le> 64 \<and>
     list_all (\<lambda>c. is_username_edge c \<or> c \<in> set ''._-'') name \<and>
     is_username_edge (hd name) \<and> is_username_edge (last name)"

definition normalize_username :: "string \<Rightarrow> failure + string" where
  "normalize_username typed =
     (let username = to_ascii_lowercase (trim typed) in
      if is_username username then Ok username else Err (new_failure UsernameInvalid))"

definition is_email :: "string \<Rightarrow> bool" where
  "is_email email \<longleftrightarrow>
     length email \<le> 254 \<and>
     \<not> list_ex (\<lambda>c. is_whitespace c \<or> is_control c) (chars email) \<and>
     is_some_and (\<lambda>(local, domain). local \<noteq> [] \<and> CHR ''.'' \<in> set domain \<and> CHR ''@'' \<notin> set domain)
       (split_once CHR ''@'' email)"

definition normalize_email :: "app \<Rightarrow> string \<Rightarrow> failure + string" where
  "normalize_email app typed =
     (let email = app_lowercase app (trim typed) in
      if is_email email then Ok email else Err (new_failure EmailInvalid))"

definition check_password_bounds :: "bytes \<Rightarrow> failure + unit" where
  "check_password_bounds password =
     (if PASSWORD_MIN_BYTES \<le> length password \<and> length password \<le> PASSWORD_MAX_BYTES
      then Ok () else Err (new_failure PasswordUnacceptable))"

subsection \<open>Shares of the hashers\<close>

text \<open>\<open>HashingShares::new\<close>: a realm holds half of the hashers at most, a network a quarter, and each one at least.\<close>

definition hashing_parts :: "nat \<Rightarrow> nat \<times> nat" where
  "hashing_parts hashers =
     (let part = (\<lambda>divisor. max (min (hashers div divisor) (2 ^ 32 - 1)) 1) in (part 2, part 4))"

definition held_of :: "('k \<rightharpoonup> nat) \<Rightarrow> 'k \<Rightarrow> nat" where
  "held_of counts key = (case counts key of None \<Rightarrow> 0 | Some n \<Rightarrow> n)"

definition is_held_whole :: "app \<Rightarrow> held_hashers \<Rightarrow> uuid \<Rightarrow> string option \<Rightarrow> bool" where
  "is_held_whole app held realm network \<longleftrightarrow>
     held_of (held_realms held) realm \<ge> app_hashers_per_realm app \<or>
     is_some_and (\<lambda>net. held_of (held_networks held) net \<ge> app_hashers_per_network app) network"

definition give_back :: "('k \<rightharpoonup> nat) \<Rightarrow> 'k \<Rightarrow> 'k \<rightharpoonup> nat" where
  "give_back counts key =
     (case counts key of
        None \<Rightarrow> counts
      | Some n \<Rightarrow> if n - 1 = 0 then counts(key := None) else counts(key \<mapsto> n - 1))"

definition take_hasher :: "app \<Rightarrow> uuid \<Rightarrow> string option \<Rightarrow> held_hashers \<Rightarrow> held_hashers option" where
  "take_hasher app realm network held =
     (if is_held_whole app held realm network then None
      else Some (held\<lparr>
        held_realms := (held_realms held)(realm \<mapsto> held_of (held_realms held) realm + 1),
        held_networks := (case network of
            None \<Rightarrow> held_networks held
          | Some net \<Rightarrow> (held_networks held)(net \<mapsto> held_of (held_networks held) net + 1))\<rparr>))"

definition drop_hasher :: "uuid \<Rightarrow> string option \<Rightarrow> held_hashers \<Rightarrow> held_hashers" where
  "drop_hasher realm network held = held\<lparr>
     held_realms := give_back (held_realms held) realm,
     held_networks := (case network of
         None \<Rightarrow> held_networks held
       | Some net \<Rightarrow> give_back (held_networks held) net)\<rparr>"

definition has_free_hasher :: "app \<Rightarrow> uuid \<Rightarrow> string option \<Rightarrow> ctx \<Rightarrow> bool" where
  "has_free_hasher app realm network s \<longleftrightarrow> \<not> is_held_whole app (hashing s) realm network"

text \<open>What runs while a share is held: it is given back whatever comes of it.\<close>

definition holding_hasher :: "app \<Rightarrow> uuid \<Rightarrow> string option \<Rightarrow> 'a use_case \<Rightarrow> 'a use_case" where
  "holding_hasher app realm network m = (\<lambda>s.
     case take_hasher app realm network (hashing s) of
       None \<Rightarrow> (Err (new_failure HashingBusy), s)
     | Some held \<Rightarrow>
         (case m (s\<lparr>hashing := held\<rparr>) of
            (res, t) \<Rightarrow> (res, t\<lparr>hashing := drop_hasher realm network (hashing t)\<rparr>)))"

subsection \<open>Ports that draw\<close>

definition drawing :: "(nat \<Rightarrow> failure + 'a) \<Rightarrow> 'a use_case" where
  "drawing port = (\<lambda>s. (port (drawn s), s\<lparr>drawn := drawn s + 1\<rparr>))"

definition or_crypto_unavailable :: "'a option \<Rightarrow> failure + 'a" where
  "or_crypto_unavailable answer = ok_or (new_failure CryptoUnavailable) answer"

fun translate_hashing_failure :: "hashing_failure \<Rightarrow> failure" where
  "translate_hashing_failure Hashing_busy = new_failure HashingBusy"
| "translate_hashing_failure Hashing_failed = new_failure CryptoUnavailable"

definition hash_password :: "app \<Rightarrow> bytes \<Rightarrow> string use_case" where
  "hash_password app password = drawing (\<lambda>n. map_sum translate_hashing_failure id (app_hash_password app n password))"

definition verify_password :: "app \<Rightarrow> bytes \<Rightarrow> string \<Rightarrow> bool use_case" where
  "verify_password app password stored =
     drawing (\<lambda>n. map_sum translate_hashing_failure id (app_verify_password app n password stored))"

text \<open>\<open>App::read_decoy_hash\<close>: made once, from bytes nobody was told.\<close>

definition read_decoy_hash :: "app \<Rightarrow> string use_case" where
  "read_decoy_hash app = (\<lambda>s.
     case decoy s of
       Some hash \<Rightarrow> (Ok hash, s)
     | None \<Rightarrow>
         (and_then (fill_random app 32) (\<lambda>unknown.
          and_then (hash_password app (app_base64_encode app unknown)) (\<lambda>hash t.
            case decoy t of
              Some other \<Rightarrow> (Ok other, t)
            | None \<Rightarrow> (Ok hash, t\<lparr>decoy := Some hash\<rparr>)))) s)"

subsection \<open>People\<close>

text \<open>The rows of passwords, and the pages of people.\<close>

definition keep_password :: "uuid \<Rightarrow> string \<Rightarrow> unit work_act" where
  "keep_password p phc = and_then refuse_in_snapshot (\<lambda>_ w.
     if \<not> list_ex (\<lambda>other. person_id other = p) (st_persons (working w) (uow_realm w)) \<or>
        st_passwords (working w) p \<noteq> None
     then (Err Storage_Failed, w)
     else (Ok (), w\<lparr>working := (working w)\<lparr>st_passwords := (st_passwords (working w))(p \<mapsto> phc)\<rparr>\<rparr>))"

definition store_insert_password :: "uuid \<Rightarrow> string \<Rightarrow> unit work_act" where
  "store_insert_password p phc = record_refusal (keep_password p phc)"

definition store_read_password :: "uuid \<Rightarrow> string option work_act" where
  "store_read_password p = reading (\<lambda>w.
     if list_ex (\<lambda>other. person_id other = p) (st_persons (working w) (uow_realm w))
     then st_passwords (working w) p else None)"

definition store_list_persons :: "list_window \<Rightarrow> person list work_act" where
  "store_list_persons window = reading (\<lambda>w.
     cut_window window (sort_key person_username (st_persons (working w) (uow_realm w))))"

definition store_count_persons :: "nat work_act" where
  "store_count_persons = reading (\<lambda>w. length (st_persons (working w) (uow_realm w)))"

record new_person =
  wanted_username :: string
  wanted_email :: "string option"
  wanted_display_name :: "string option"
  wanted_password :: "bytes option"
  person_created_by :: "string option"

definition read_display_name :: "string option \<Rightarrow> failure + string option" where
  "read_display_name typed =
     (let name = filter_option (\<lambda>n. n \<noteq> []) (map_option trim typed) in
      if is_some_and (\<lambda>n. length (chars n) > 120 \<or> list_ex is_unshowable (chars n)) name
      then Err (new_failure DisplayNameInvalid) else Ok name)"

definition transpose_option :: "(failure + 'a) option \<Rightarrow> failure + 'a option" where
  "transpose_option x = (case x of None \<Rightarrow> Ok None | Some r \<Rightarrow> map_sum id Some r)"

definition hash_first_password :: "app \<Rightarrow> realm_scope \<Rightarrow> bytes option \<Rightarrow> string option use_case" where
  "hash_first_password app scope password =
     (case password of
        None \<Rightarrow> ret None
      | Some typed \<Rightarrow>
          and_then (lift_result (check_password_bounds typed)) (\<lambda>_.
          and_then (holding_hasher app (scope_realm scope) None (hash_password app typed)) (\<lambda>hash.
          ret (Some hash))))"

definition person_refusal :: "storage_error \<Rightarrow> failure" where
  "person_refusal e =
     (if e = Taken ''username'' then new_failure UsernameTaken
      else if e = Taken ''email'' then new_failure EmailTaken
      else failure_of_storage e)"

definition named_actor :: "string option \<Rightarrow> (string \<times> json) list" where
  "named_actor actor = (case actor of None \<Rightarrow> [] | Some c \<Rightarrow> [(''actor'', json_object [(''client_id'', JString c)])])"

definition create_person :: "app \<Rightarrow> realm_scope \<Rightarrow> new_person \<Rightarrow> person use_case" where
  "create_person app scope wanted =
     and_then (lift_result (normalize_username (wanted_username wanted))) (\<lambda>username.
     and_then (lift_result (transpose_option (map_option (normalize_email app) (wanted_email wanted)))) (\<lambda>email.
     and_then (lift_result (read_display_name (wanted_display_name wanted))) (\<lambda>display_name.
     and_then (hash_first_password app scope (wanted_password wanted)) (\<lambda>hash.
     and_then (mint_id app) (\<lambda>i.
     and_then (now app) (\<lambda>t.
     let p = \<lparr>person_id = i, person_username = username, person_email = email, person_email_verified = False,
              person_display_name = display_name, person_enabled = True, person_created_at = t\<rparr> in
     and_then (begin_work scope) (\<lambda>_.
     and_then (map_err person_refusal (on_work_storage (store_insert_person p))) (\<lambda>_.
     and_then (case hash of None \<Rightarrow> ret () | Some phc \<Rightarrow> on_work (store_insert_password i phc)) (\<lambda>_.
     and_then (record_event app PersonCreated (json_object
         ((''person_id'', JString (app_uuid_text app i)) # named_actor (person_created_by wanted)))) (\<lambda>_.
     and_then commit (\<lambda>_. ret p)))))))))))"

definition list_persons :: "realm_scope \<Rightarrow> list_window \<Rightarrow> bool \<Rightarrow> (person list \<times> nat option) use_case" where
  "list_persons scope window counted =
     and_then (begin_snapshot scope) (\<lambda>_.
     and_then (on_work (store_list_persons window)) (\<lambda>persons.
     and_then (if counted then and_then (on_work store_count_persons) (\<lambda>n. ret (Some n)) else ret None) (\<lambda>total.
     ret (persons, total))))"

subsection \<open>Clients\<close>

record new_client =
  wanted_client_id :: string
  wanted_client_name :: string
  wanted_scopes :: "string list"
  wanted_capabilities :: "capability list"
  wanted_redirect_uris :: "string list"
  wanted_post_logout_redirect_uris :: "string list"
  wanted_public :: bool
  wanted_requires_consent :: bool
  client_created_by :: "string option"

fun check_each :: "('a \<Rightarrow> failure + unit) \<Rightarrow> 'a list \<Rightarrow> failure + unit" where
  "check_each check [] = Ok ()"
| "check_each check (x # xs) = (case check x of Err e \<Rightarrow> Err e | Ok _ \<Rightarrow> check_each check xs)"

text \<open>What a client may not ask for together, and the name it is shown by.\<close>

definition read_client_name :: "string \<Rightarrow> failure + string" where
  "read_client_name typed =
     (let name = trim typed in
      if 1 \<le> length (chars name) \<and> length (chars name) \<le> 120 \<and> \<not> list_ex is_unshowable (chars name)
      then Ok name else Err (new_failure ClientNameInvalid))"

definition check_new_client :: "app \<Rightarrow> new_client \<Rightarrow> failure + string" where
  "check_new_client app wanted =
     (case check_client_identifier (\<lambda>text. app_uuid_parse app text \<noteq> None) (wanted_client_id wanted) of Err e \<Rightarrow> Err e | Ok _ \<Rightarrow>
     (case check_each check_scope_token (wanted_scopes wanted) of Err e \<Rightarrow> Err e | Ok _ \<Rightarrow>
     (case check_each check_redirect_uri (wanted_redirect_uris wanted @ wanted_post_logout_redirect_uris wanted) of Err e \<Rightarrow> Err e | Ok _ \<Rightarrow>
     if wanted_redirect_uris wanted = [] \<and> (wanted_post_logout_redirect_uris wanted \<noteq> [] \<or> wanted_requires_consent wanted)
     then Err (new_failure RequestInvalid)
     else (case read_client_name (wanted_client_name wanted) of Err e \<Rightarrow> Err e | Ok name \<Rightarrow>
       if wanted_public wanted \<and> wanted_redirect_uris wanted = [] then Err (new_failure RequestInvalid)
       else if wanted_redirect_uris wanted \<noteq> [] \<and> wanted_capabilities wanted \<noteq> [] then Err (new_failure RequestInvalid)
       else Ok name))))"

definition make_client_secret :: "app \<Rightarrow> bool \<Rightarrow> bytes option use_case" where
  "make_client_secret app public =
     (if public then ret None
      else and_then (fill_random app 32) (\<lambda>random. ret (Some (app_base64_encode app random))))"

definition client_of :: "app \<Rightarrow> new_client \<Rightarrow> string \<Rightarrow> bytes option \<Rightarrow> uuid \<Rightarrow> instant \<Rightarrow> client" where
  "client_of app wanted name secret i t =
     \<lparr>client_uuid = i, client_id = wanted_client_id wanted, client_name = name,
      client_secret_digest = map_option (app_sha256 app) secret,
      allows_client_credentials = (\<not> wanted_public wanted \<and> wanted_redirect_uris wanted = []),
      allows_authorization_code = (wanted_redirect_uris wanted \<noteq> []),
      redirect_uris = wanted_redirect_uris wanted,
      post_logout_redirect_uris = wanted_post_logout_redirect_uris wanted,
      requires_consent = wanted_requires_consent wanted,
      client_scopes = wanted_scopes wanted, client_capabilities = wanted_capabilities wanted,
      client_enabled = True, client_created_at = t\<rparr>"

definition json_texts :: "string list \<Rightarrow> json" where
  "json_texts texts = JArray (map JString texts)"

definition describe_client :: "new_client \<Rightarrow> client \<Rightarrow> json" where
  "describe_client wanted c = json_object
     ([(''client_id'', JString (client_id c)),
       (''scopes'', json_texts (client_scopes c)),
       (''capabilities'', json_texts (map capability_name (client_capabilities c))),
       (''public'', JBool (wanted_public wanted)),
       (''requires_consent'', JBool (requires_consent c))] @ named_actor (client_created_by wanted))"

definition client_refusal :: "storage_error \<Rightarrow> failure" where
  "client_refusal e = (if e = Taken ''client identifier'' then new_failure ClientIdentifierTaken else failure_of_storage e)"

definition register_client :: "app \<Rightarrow> new_client \<Rightarrow> (client \<times> bytes option) use_case" where
  "register_client app wanted =
     and_then (lift_result (check_new_client app wanted)) (\<lambda>name.
     and_then (make_client_secret app (wanted_public wanted)) (\<lambda>secret.
     and_then (mint_id app) (\<lambda>i.
     and_then (now app) (\<lambda>t.
     let c = client_of app wanted name secret i t in
     and_then (map_err client_refusal (on_work_storage (store_insert_client c))) (\<lambda>_.
     and_then (record_event app ClientCreated (describe_client wanted c)) (\<lambda>_.
     ret (c, secret)))))))"

definition register_service_client ::
    "app \<Rightarrow> string \<Rightarrow> string \<Rightarrow> string list \<Rightarrow> capability list \<Rightarrow> (client \<times> bytes) use_case" where
  "register_service_client app name shown scopes capabilities =
     and_then (register_client app \<lparr>wanted_client_id = name, wanted_client_name = shown, wanted_scopes = scopes,
         wanted_capabilities = capabilities, wanted_redirect_uris = [], wanted_post_logout_redirect_uris = [],
         wanted_public = False, wanted_requires_consent = False, client_created_by = None\<rparr>) (\<lambda>(c, secret).
     and_then (lift_result (ok_or (new_failure Internal) secret)) (\<lambda>given.
     ret (c, given)))"

definition create_client :: "app \<Rightarrow> admin_caller \<Rightarrow> new_client \<Rightarrow> (client \<times> bytes option) use_case" where
  "create_client app caller wanted =
     (if list_ex (\<lambda>granted. granted \<notin> set (client_capabilities (caller_client caller))) (wanted_capabilities wanted)
      then throw (new_failure CapabilityMissing)
      else
        and_then (begin_work (caller_scope caller)) (\<lambda>_.
        and_then (register_client app (wanted\<lparr>client_created_by := Some (client_id (caller_client caller))\<rparr>)) (\<lambda>created.
        and_then commit (\<lambda>_. ret created))))"

definition list_clients :: "realm_scope \<Rightarrow> list_window \<Rightarrow> bool \<Rightarrow> (client list \<times> nat option) use_case" where
  "list_clients scope window counted =
     and_then (begin_snapshot scope) (\<lambda>_.
     and_then (on_work (store_list_clients window)) (\<lambda>clients.
     and_then (if counted then and_then (on_work store_count_clients) (\<lambda>n. ret (Some n)) else ret None) (\<lambda>total.
     ret (clients, total))))"

definition find_client :: "app \<Rightarrow> realm_scope \<Rightarrow> string \<Rightarrow> client use_case" where
  "find_client app scope name =
     and_then (begin_work scope) (\<lambda>_.
     and_then (read_named_client app name) (\<lambda>found.
     lift_result (ok_or (new_failure ClientNotFound) found)))"

subsection \<open>Realms and their first keys\<close>

definition create_first_keys :: "app \<Rightarrow> signing_key use_case" where
  "create_first_keys app =
     and_then work_scope (\<lambda>scope.
     and_then (drawing (\<lambda>n. or_crypto_unavailable
         (app_make_data_key app n (scope_tenant scope) (scope_realm scope) 1))) (\<lambda>data_key.
     and_then (on_work (store_insert_data_key data_key)) (\<lambda>_.
     and_then (drawing (\<lambda>n. or_crypto_unavailable (app_generate_key app n Es256))) (\<lambda>generated.
     and_then (mint_id app) (\<lambda>i.
     and_then (drawing (\<lambda>n. or_crypto_unavailable (app_seal app n data_key
         \<lparr>place_tenant = scope_tenant scope, place_realm = scope_realm scope, place_purpose = SIGNING_KEY_PURPOSE,
          place_row = i\<rparr> (generated_private_key generated)))) (\<lambda>sealed.
     and_then (now app) (\<lambda>t.
     let k = \<lparr>signing_key_id = i, signing_kid = generated_kid generated, signing_algorithm = generated_algorithm generated,
              signing_public_jwk = generated_public_jwk generated, sealed_private_key = sealed, signing_created_at = t\<rparr> in
     and_then (on_work (store_insert_signing_key k)) (\<lambda>_.
     and_then (record_event app SigningKeyCreated (json_object
         [(''kid'', JString (signing_kid k)), (''alg'', JString (algorithm_name (signing_algorithm k)))])) (\<lambda>_.
     ret k)))))))))"

record first_client =
  first_client_id :: string
  first_client_scopes :: "string list"
  first_client_capabilities :: "capability list"

definition read_tenant_name :: "string \<Rightarrow> failure + string" where
  "read_tenant_name typed =
     (let name = trim typed in
      if 1 \<le> length (chars name) \<and> length (chars name) \<le> 120 \<and> \<not> list_ex is_control (chars name)
      then Ok name else Err (new_failure TenantNameInvalid))"

definition realm_refusal :: "storage_error \<Rightarrow> failure" where
  "realm_refusal e = (if e = Taken ''realm name'' then new_failure RealmNameTaken else failure_of_storage e)"

definition register_first_client :: "app \<Rightarrow> first_client option \<Rightarrow> bytes option use_case" where
  "register_first_client app first =
     (case first of
        None \<Rightarrow> ret None
      | Some c \<Rightarrow>
          and_then (register_service_client app (first_client_id c) (first_client_id c) (first_client_scopes c)
              (first_client_capabilities c)) (\<lambda>(_, secret).
          ret (Some secret)))"

definition provision_realm_with_client ::
    "app \<Rightarrow> string \<Rightarrow> string \<Rightarrow> first_client option \<Rightarrow> (tenant \<times> realm \<times> bytes option) use_case" where
  "provision_realm_with_client app wanted_tenant wanted_realm first =
     and_then (lift_result (parse_realm_name wanted_realm)) (\<lambda>name.
     and_then (lift_result (read_tenant_name wanted_tenant)) (\<lambda>shown.
     and_then (now app) (\<lambda>t.
     and_then (mint_id app) (\<lambda>ti.
     let ten = \<lparr>tenant_id = ti, tenant_name = shown, tenant_created_at = t\<rparr> in
     and_then (mint_id app) (\<lambda>ri.
     let r = \<lparr>realm_id = ri, realm_tenant = ti, realm_name = name, realm_enabled = True, realm_created_at = t\<rparr> in
     and_then (begin_work \<lparr>scope_tenant = ti, scope_realm = ri\<rparr>) (\<lambda>_.
     and_then (on_work (store_insert_tenant ten)) (\<lambda>_.
     and_then (map_err realm_refusal (on_work_storage (store_insert_realm r))) (\<lambda>_.
     and_then (record_event app RealmCreated (json_object
         [(''name'', JString name), (''tenant_name'', JString shown)])) (\<lambda>_.
     and_then (create_first_keys app) (\<lambda>_.
     and_then (register_first_client app first) (\<lambda>secret.
     and_then commit (\<lambda>_. ret (ten, r, secret)))))))))))))"

definition provision_first_realm :: "app \<Rightarrow> string \<Rightarrow> string \<Rightarrow> (tenant \<times> realm) use_case" where
  "provision_first_realm app wanted_tenant wanted_realm =
     and_then (provision_realm_with_client app wanted_tenant wanted_realm None) (\<lambda>(ten, r, _). ret (ten, r))"

subsection \<open>Every person and every client created is said in the chain\<close>

lemma writes_nothing_drawing [idle_intro]: "writes_nothing (drawing port)"
  by (simp add: writes_nothing_def idle_def drawing_def)

lemma writes_nothing_holding_hasher [idle_intro]:
  assumes "writes_nothing m"
  shows "writes_nothing (holding_hasher app realm network m)"
proof -
  have "idle s (snd (m (s\<lparr>hashing := held\<rparr>)))" for s held
    using assms by (auto simp: writes_nothing_def idle_def)
  then show ?thesis
    by (auto simp: writes_nothing_def idle_def holding_hasher_def split_beta split: option.split)
qed

lemma writes_nothing_hash_password [idle_intro]:
  "writes_nothing (hash_password app password)" "writes_nothing (verify_password app password stored)"
  "writes_nothing (hash_first_password app scope first)"
  unfolding hash_password_def verify_password_def hash_first_password_def
  by (auto intro!: idle_intro split: option.split)

lemma silent_keeping [silent_intro]: "silent (keep_person p)" "silent (keep_password i phc)" "silent (keep_client c)"
  by (auto simp: silent_def quiet_def keep_person_def keep_password_def keep_client_def and_then_def refuse_in_snapshot_def Let_def)

lemma silent_directory_writes [silent_intro]:
  "silent (store_insert_person p)" "silent (store_insert_password i phc)" "silent (store_insert_client c)"
  unfolding store_insert_person_def store_insert_password_def store_insert_client_def
  by (intro silent_intro)+

lemma steady_make_client_secret [steady_intro]: "steady (make_client_secret app public)"
  unfolding make_client_secret_def by (intro steady_intro)

interpretation person_creation: audited_use_case "create_person app scope wanted" "scope_realm scope"
  for app scope wanted
  unfolding create_person_def Let_def
  by (rule audited_by_phases)
    (rule phase_moves | rule phase_steps | intro steady_intro silent_intro steady_writes_nothing idle_intro)+

text \<open>The event of a client registered is the last thing said of it, and what registers it commits nothing.\<close>

lemma leads_register_client:
  assumes "\<And>x. leads s0 (in_hand s0 realm (Suc n)) (f x) R"
  shows "leads s0 (in_hand s0 realm n) (and_then (register_client app wanted) f) R"
proof (rule leads_and_then)
  have "leads s0 (in_hand s0 realm (Suc n)) (ret x) (in_hand s0 realm (Suc n))" for x :: "client \<times> bytes option"
    by (simp add: leads_def)
  then show "leads s0 (in_hand s0 realm n) (register_client app wanted) (in_hand s0 realm (Suc n))"
    unfolding register_client_def Let_def
    by - (intro leads_record_event leads_steady(1) steady_intro silent_intro)
qed (rule assms)

interpretation client_creation: audited_use_case "create_client app caller wanted" "scope_realm (caller_scope caller)"
  for app caller wanted
  unfolding create_client_def
  by (rule audited_by_phases) (rule leads_register_client phase_moves | rule phase_steps | intro steady_intro silent_intro)+

subsection \<open>Properties\<close>

text \<open>A client created is kept under a name no other client of the realm has, with the digest of its secret.\<close>

lemma checked_client: "check_new_client app wanted = Ok name \<Longrightarrow>
    check_client_identifier (\<lambda>text. app_uuid_parse app text \<noteq> None) (wanted_client_id wanted) = Ok ()"
  by (simp add: check_new_client_def split: sum.splits)

lemma wp_make_client_secret:
  assumes "\<And>secret d. Q secret (s\<lparr>drawn := d\<rparr>)"
  shows "wp (make_client_secret app public) Q (\<lambda>_ _. True) s"
proof -
  have "s\<lparr>drawn := drawn s\<rparr> = s" by (cases s) simp
  then have "Q secret s" for secret using assms [of secret "drawn s"] by simp
  then show ?thesis using assms by (simp add: make_client_secret_def split: option.split)
qed

lemma wp_ret_eta: "wp (ret x) Q R = Q x"
  by (rule ext) simp

lemma wp_register_client:
  assumes w: "opened s = Some w" "\<not> read_only w" "\<not> failed w"
    and Q: "\<And>c secret chain k d. \<lbrakk>check_client_identifier (\<lambda>text. app_uuid_parse app text \<noteq> None) (client_id c) = Ok ();
        client_enabled c; client_secret_digest c = map_option (app_sha256 app) secret;
        \<not> list_ex (\<lambda>other. client_id other = client_id c) (st_clients (working w) (uow_realm w))\<rbrakk> \<Longrightarrow>
        Q (c, secret) (s\<lparr>tick := k, drawn := d, opened := Some (w\<lparr>working := (working w)\<lparr>st_clients :=
          (st_clients (working w))(uow_realm w := st_clients (working w) (uow_realm w) @ [c]), st_audit := chain\<rparr>\<rparr>)\<rparr>)"
  shows "wp (register_client app wanted) Q (\<lambda>_ _. True) s"
proof (cases "check_new_client app wanted")
  case (Inr name)
  have "wp (let c = client_of app wanted name secret i t in
      and_then (map_err client_refusal (on_work_storage (store_insert_client c))) (\<lambda>_.
      and_then (record_event app ClientCreated (describe_client wanted c)) (\<lambda>_. ret (c, secret)))) Q (\<lambda>_ _. True)
      (s\<lparr>tick := k, drawn := d\<rparr>)" for secret i t k d
  proof -
    let ?c = "client_of app wanted name secret i t"
    let ?w = "w\<lparr>working := (working w)\<lparr>st_clients :=
          (st_clients (working w))(uow_realm w := st_clients (working w) (uow_realm w) @ [?c])\<rparr>\<rparr>"
    have "wp (record_event app ClientCreated (describe_client wanted ?c)) (\<lambda>_. Q (?c, secret)) (\<lambda>_ _. True)
        (s\<lparr>tick := k, drawn := d, opened := Some ?w\<rparr>)"
      if "\<not> list_ex (\<lambda>other. client_id other = client_id ?c) (st_clients (working w) (uow_realm w))"
      using Q [OF _ _ _ that] checked_client [OF Inr]
      by (intro wp_record_event [where w = ?w]) (simp_all add: client_of_def)
    then show ?thesis
      by (simp add: w wp_on_work_storage store_insert_client_def keep_client_def Let_def)
         (simp add: wp_def [of "\<lambda>w. if b w then (r, w) else (q, f w)" for b r q f] wp_ret_eta)
  qed
  moreover have swap: "s\<lparr>drawn := d, tick := k\<rparr> = s\<lparr>tick := k, drawn := d\<rparr>" for d k by (cases s) simp
  ultimately show ?thesis
    unfolding register_client_def by (simp add: Inr) (auto intro!: wp_make_client_secret wp_mint_id simp: swap)
qed (simp add: register_client_def)

lemma find_last_named: "\<forall>y \<in> set xs. \<not> p y \<Longrightarrow> p x \<Longrightarrow> find p (xs @ [x]) = Some x"
  by (induction xs) auto

text \<open>
  C18: a client that was created signs in with the secret it was given. Once a client with a secret is
  created for an administrator, the next unit of work on the realm authenticates it under its name and
  by that secret, as the very client that was created, and changes nothing.
\<close>

theorem created_clients_sign_in:
  assumes "create_client app caller wanted s = (Ok (c, Some secret), t)"
    and "begin_work (caller_scope caller) t = (Ok (), u)" and "\<And>x. app_equal app x x"
  shows "authenticate_client app (client_id c) secret u = (Ok c, u)"
proof -
  let ?is_uuid = "\<lambda>text. app_uuid_parse app text \<noteq> None"
  let ?kept = "\<lambda>(c, secret) t. check_client_identifier ?is_uuid (client_id c) = Ok () \<and> client_enabled c \<and>
      client_secret_digest c = map_option (app_sha256 app) secret \<and>
      find (\<lambda>x. client_id x = client_id c) (st_clients (shared t) (home caller)) = Some c"
  have "wp (create_client app caller wanted) ?kept (\<lambda>_ _. True) s"
    unfolding create_client_def begin_work_def
    by (auto simp: wp_commit uow_realm_def list_ex_iff find_last_named intro!: wp_register_client split: option.split)
  from wp_Ok [OF this assms(1)] assms(2,3) show ?thesis
    by (auto simp: authenticate_client_def read_named_client_def store_read_client_def begin_work_def open_work_def
        map_err_def on_work_def on_work_storage_def reading_def and_then_def ret_def uow_realm_def split: option.splits)
qed
definition sample_admin :: admin_caller where
  "sample_admin = \<lparr>caller_realm = ''main'', caller_scope = sample_scope, caller_client = sample_client\<rparr>"

definition sample_new_client :: new_client where
  "sample_new_client = \<lparr>wanted_client_id = ''web'', wanted_client_name = ''Web'', wanted_scopes = [], wanted_capabilities = [],
     wanted_redirect_uris = [], wanted_post_logout_redirect_uris = [], wanted_public = False,
     wanted_requires_consent = False, client_created_by = None\<rparr>"

lemma sample_name_shows: "trim ''Web'' = ''Web''" "length (chars ''Web'') = 3" "\<not> list_ex is_unshowable (chars ''Web'')"
  "list_all (\<lambda>b. is_ascii_alphanumeric b \<or> b \<in> set ''-._'') ''web''"
  by (simp_all add: trim_def byte_of_def byte_def encode_chars_def encode_char_def is_whitespace_def is_unshowable_def is_control_def
      is_ascii_alphanumeric_def is_ascii_lowercase_def char_of_def bit_0)

lemma sample_name_reads: "check_new_client sample_recording_app (sample_new_client\<lparr>client_created_by := Some by\<rparr>) = Ok ''Web''"
  using sample_name_shows
  by (simp add: check_new_client_def sample_new_client_def read_client_name_def check_client_identifier_def
      sample_recording_app_def sample_app_def)

theorem created_clients_sign_in_witness:
  "\<exists>c secret t u. create_client sample_recording_app sample_admin sample_new_client sample_ctx = (Ok (c, Some secret), t) \<and>
     begin_work (caller_scope sample_admin) t = (Ok (), u) \<and>
     authenticate_client sample_recording_app (client_id c) secret u = (Ok c, u)"
proof -
  let ?app = sample_recording_app
  let ?wanted = "sample_new_client\<lparr>client_created_by := Some (client_id (caller_client sample_admin))\<rparr>"
  have safe: "safe_json (describe_client ?wanted c)" for c
    by (auto simp: describe_client_def json_texts_def named_actor_def sample_new_client_def intro!: safe_json_object)
  have kept: "wp (let c = row in and_then (map_err client_refusal (on_work_storage (store_insert_client c))) (\<lambda>_.
      and_then (record_event ?app ClientCreated (describe_client ?wanted c)) (\<lambda>_. ret (c, secret)))) Q (\<lambda>_ _. False) s"
    if "opened s = Some w" "\<not> read_only w" "st_clients (working w) (uow_realm w) = []"
      and "\<And>u w'. outage u = outage s \<Longrightarrow> opened u = Some w' \<Longrightarrow> failed w' = failed w \<Longrightarrow> Q (row, secret) u" for row secret Q s w
    using that
    by (simp add: wp_on_work_storage store_insert_client_def keep_client_def Let_def)
       (simp add: wp_def [of "\<lambda>w. if b w then (r, w) else (q, f w)" for b r q f] wp_ret_eta safe wp_sample_records)
  have "wp (create_client ?app sample_admin sample_new_client) (\<lambda>(c, secret) t. secret \<noteq> None \<and> outage t = None)
      (\<lambda>_ _. False) sample_ctx"
    unfolding create_client_def register_client_def begin_work_def
    by (simp add: sample_name_reads make_client_secret_def sample_ports
        wp_mint_id_eq sample_ctx_def sample_new_client_def [THEN arg_cong, of wanted_capabilities] sample_new_client_def [THEN arg_cong, of wanted_public])
       (auto simp: wp_commit empty_state_def intro!: kept)
  then obtain c secret t where created: "create_client ?app sample_admin sample_new_client sample_ctx = (Ok (c, Some secret), t)"
    and "outage t = None"
    by (auto simp: wp_def split: prod.splits sum.splits)
  then have "\<exists>u. begin_work (caller_scope sample_admin) t = (Ok (), u)"
    by (simp add: begin_work_def map_err_def open_work_def)
  then obtain u where begun: "begin_work (caller_scope sample_admin) t = (Ok (), u)" ..
  show ?thesis
    using created begun created_clients_sign_in [OF created begun] by (auto simp: sample_recording_app_def sample_app_def)
qed

end
