(* ===== verification/Token_Store.thy ===== *)
theory Token_Store
  imports Tokens
begin

text \<open>
  The refresh tokens, the authorization codes and the consents a realm keeps: the operations of
  \<open>RefreshStore\<close> (\<open>saffui-core/src/testkit/memory/refresh.rs\<close>), of \<open>CodeStore\<close> on codes
  (\<open>testkit/memory/login.rs\<close>) and of \<open>ConsentStore\<close> (\<open>testkit/memory/consents.rs\<close>), and the
  issuing of a refresh token (\<open>tokens/mint.rs\<close>). The lemmas show that a refresh token and a code
  are spent once, that a family revoked stays revoked whatever is written after, and that a
  refresh token never outlives its session.
\<close>

subsection \<open>Refresh tokens\<close>

definition refresh_tokens_of :: "unit_of_work \<Rightarrow> stored_refresh_token list" where
  "refresh_tokens_of w = st_refresh_tokens (working w) (uow_realm w)"

definition with_refresh_tokens :: "unit_of_work \<Rightarrow> stored_refresh_token list \<Rightarrow> state" where
  "with_refresh_tokens w rows =
     (working w)\<lparr>st_refresh_tokens := (st_refresh_tokens (working w))(uow_realm w := rows)\<rparr>"

text \<open>\<open>read_revoked_families\<close>: the first revocation of a family, when a token of it is revoked.\<close>

fun first_revocation :: "uuid \<Rightarrow> stored_refresh_token list \<Rightarrow> instant option" where
  "first_revocation family [] = None"
| "first_revocation family (stored # rows) =
     (case (if token_family (stored_token stored) = family then revoked_at stored else None) of
        None \<Rightarrow> first_revocation family rows
      | Some t \<Rightarrow>
          Some (case first_revocation family rows of None \<Rightarrow> t | Some later \<Rightarrow> min t later))"

definition store_insert_refresh_token :: "refresh_token \<Rightarrow> unit work_act" where
  "store_insert_refresh_token token = writing (\<lambda>w.
     ((), with_refresh_tokens w (refresh_tokens_of w @ [\<lparr>stored_token = token, used_at = None, revoked_at = None\<rparr>])))"

definition is_spendable :: "bytes \<Rightarrow> string \<Rightarrow> instant \<Rightarrow> stored_refresh_token list \<Rightarrow> stored_refresh_token \<Rightarrow> bool" where
  "is_spendable digest client t rows stored \<longleftrightarrow>
     token_digest (stored_token stored) = digest \<and> token_client_id (stored_token stored) = client \<and>
     is_live stored t \<and> first_revocation (token_family (stored_token stored)) rows = None"

definition store_spend_refresh_token :: "bytes \<Rightarrow> string \<Rightarrow> instant \<Rightarrow> refresh_token option work_act" where
  "store_spend_refresh_token digest client t = writing (\<lambda>w.
     let rows = refresh_tokens_of w; spendable = is_spendable digest client t rows in
     (map_option stored_token (find spendable rows),
      with_refresh_tokens w (update_first spendable (\<lambda>stored. stored\<lparr>used_at := Some t\<rparr>) rows)))"

definition store_read_refresh_token :: "bytes \<Rightarrow> stored_refresh_token option work_act" where
  "store_read_refresh_token digest = reading (\<lambda>w.
     let rows = refresh_tokens_of w in
     map_option (\<lambda>stored. stored\<lparr>revoked_at :=
           (case revoked_at stored of
              Some t \<Rightarrow> Some t
            | None \<Rightarrow> first_revocation (token_family (stored_token stored)) rows)\<rparr>)
       (find (\<lambda>stored. token_digest (stored_token stored) = digest) rows))"

text \<open>\<open>revoke_refresh_tokens_where\<close>: the tokens taken back, as they were before.\<close>

definition is_concerned :: "(refresh_token \<Rightarrow> bool) \<Rightarrow> stored_refresh_token \<Rightarrow> bool" where
  "is_concerned concerned stored \<longleftrightarrow> revoked_at stored = None \<and> concerned (stored_token stored)"

definition revoke_where :: "instant \<Rightarrow> (refresh_token \<Rightarrow> bool) \<Rightarrow> stored_refresh_token list \<Rightarrow>
    stored_refresh_token list \<times> stored_refresh_token list" where
  "revoke_where t concerned rows =
     (filter (is_concerned concerned) rows,
      map (\<lambda>stored. if is_concerned concerned stored then stored\<lparr>revoked_at := Some t\<rparr> else stored) rows)"

definition latest :: "instant list \<Rightarrow> instant option" where
  "latest instants = (if instants = [] then None else Some (Max (set instants)))"

definition describe_ended :: "stored_refresh_token list \<Rightarrow> ended_family option" where
  "describe_ended revoked =
     map_option (\<lambda>last_issued. \<lparr>ended_tokens = length revoked, last_issued_at = last_issued,
         last_used_at = latest (List.map_filter used_at revoked)\<rparr>)
       (latest (map (\<lambda>stored. token_issued_at (stored_token stored)) revoked))"

definition store_revoke_refresh_family :: "uuid \<Rightarrow> instant \<Rightarrow> ended_family option work_act" where
  "store_revoke_refresh_family family t = writing (\<lambda>w.
     case revoke_where t (\<lambda>token. token_family token = family) (refresh_tokens_of w) of
       (revoked, rows) \<Rightarrow> (describe_ended revoked, with_refresh_tokens w rows))"

definition store_revoke_refresh_families_of_client ::
    "uuid \<Rightarrow> string \<Rightarrow> instant \<Rightarrow> nat \<Rightarrow> revoked_families work_act" where
  "store_revoke_refresh_families_of_client p client t most = writing (\<lambda>w.
     let before = refresh_tokens_of w in
     case revoke_where t (\<lambda>token. token_person token = p \<and> token_client_id token = client) before of
       (revoked, rows) \<Rightarrow>
         let ended = remdups (sort (filter (\<lambda>family. first_revocation family before = None)
                (map (\<lambda>stored. token_family (stored_token stored)) revoked)))
         in (\<lparr>families_ended = length ended, tokens_revoked = length revoked, families_named = take most ended\<rparr>,
             with_refresh_tokens w rows))"

definition store_revoke_refresh_tokens_of_session :: "uuid \<Rightarrow> instant \<Rightarrow> nat work_act" where
  "store_revoke_refresh_tokens_of_session s t = writing (\<lambda>w.
     case revoke_where t (\<lambda>token. token_session token = s) (refresh_tokens_of w) of
       (revoked, rows) \<Rightarrow> (length revoked, with_refresh_tokens w rows))"

definition store_revoke_refresh_tokens_of_sessions :: "uuid list \<Rightarrow> instant \<Rightarrow> nat work_act" where
  "store_revoke_refresh_tokens_of_sessions sessions t = writing (\<lambda>w.
     case revoke_where t (\<lambda>token. token_session token \<in> set sessions) (refresh_tokens_of w) of
       (revoked, rows) \<Rightarrow> (length revoked, with_refresh_tokens w rows))"

definition REFRESH_TOKEN_LIFETIME :: duration where
  "REFRESH_TOKEN_LIFETIME = 30 * 24 * 60 * 60 * 1000000000"

record refresh_grant =
  grant_family :: uuid
  grant_client_id :: string
  grant_session :: session
  grant_scopes :: "string list"

definition issue_refresh_token :: "app \<Rightarrow> refresh_grant \<Rightarrow> string use_case" where
  "issue_refresh_token app grant =
     and_then (fill_random app 32) (\<lambda>random.
     let token = app_base64_encode app random in
     and_then (now app) (\<lambda>t.
     and_then (on_work (store_insert_refresh_token
        \<lparr>token_digest = app_sha256 app token, token_family = grant_family grant,
         token_client_id = grant_client_id grant, token_person = session_person (grant_session grant),
         token_session = session_id (grant_session grant), token_scopes = grant_scopes grant,
         token_issued_at = t,
         token_expires_at = min (t + REFRESH_TOKEN_LIFETIME) (session_expires_at (grant_session grant))\<rparr>)) (\<lambda>_.
     ret token)))"

subsection \<open>Authorization codes\<close>

definition codes_of :: "unit_of_work \<Rightarrow> kept_code list" where
  "codes_of w = st_authorization_codes (working w) (uow_realm w)"

definition with_codes :: "unit_of_work \<Rightarrow> kept_code list \<Rightarrow> state" where
  "with_codes w rows =
     (working w)\<lparr>st_authorization_codes := (st_authorization_codes (working w))(uow_realm w := rows)\<rparr>"

definition has_digest :: "bytes \<Rightarrow> kept_code \<Rightarrow> bool" where
  "has_digest digest kept \<longleftrightarrow> code_digest (kept_code kept) = digest"

definition store_insert_authorization_code :: "authorization_code \<Rightarrow> unit work_act" where
  "store_insert_authorization_code c = writing (\<lambda>w.
     ((), with_codes w (codes_of w @
        [\<lparr>kept_code = c, spent_at = None, code_family = None, replayed_at = None\<rparr>])))"

text \<open>\<open>find_code\<close> and what is written on the code found: only when it is as an operation asks.\<close>

definition on_code :: "bytes \<Rightarrow> (kept_code \<Rightarrow> bool) \<Rightarrow> (kept_code \<Rightarrow> kept_code) \<Rightarrow> unit_of_work \<Rightarrow>
    kept_code option \<times> state" where
  "on_code digest fits change w =
     (case filter_option fits (find (has_digest digest) (codes_of w)) of
        None \<Rightarrow> (None, working w)
      | Some kept \<Rightarrow> (Some kept, with_codes w (update_first (has_digest digest) change (codes_of w))))"

definition store_spend_authorization_code :: "bytes \<Rightarrow> instant \<Rightarrow> authorization_code option work_act" where
  "store_spend_authorization_code digest t = writing (\<lambda>w.
     case on_code digest (\<lambda>kept. spent_at kept = None \<and> code_expires_at (kept_code kept) > t)
            (\<lambda>kept. kept\<lparr>spent_at := Some t\<rparr>) w of
       (found, s) \<Rightarrow> (map_option kept_code found, s))"

definition store_bind_code_family :: "bytes \<Rightarrow> uuid \<Rightarrow> bool work_act" where
  "store_bind_code_family digest family = writing (\<lambda>w.
     case on_code digest (\<lambda>kept. spent_at kept \<noteq> None \<and> replayed_at kept = None)
            (\<lambda>kept. kept\<lparr>code_family := Some family\<rparr>) w of
       (found, s) \<Rightarrow> (found \<noteq> None, s))"

definition store_mark_code_replayed :: "bytes \<Rightarrow> string \<Rightarrow> instant \<Rightarrow> replayed_code option work_act" where
  "store_mark_code_replayed digest client t = writing (\<lambda>w.
     case on_code digest
            (\<lambda>kept. spent_at kept \<noteq> None \<and> replayed_at kept = None \<and> code_client_id (kept_code kept) = client)
            (\<lambda>kept. kept\<lparr>replayed_at := Some t\<rparr>) w of
       (found, s) \<Rightarrow>
         (map_option (\<lambda>kept. \<lparr>replayed_person = code_person (kept_code kept),
              replayed_session = code_session (kept_code kept), replayed_family = code_family kept\<rparr>) found, s))"

subsection \<open>Consents\<close>

definition find_consent :: "uuid \<Rightarrow> string \<Rightarrow> unit_of_work \<Rightarrow> consent option" where
  "find_consent p client w = map_of (st_consents (working w)) (uow_realm w, p, client)"

definition store_read_consent :: "uuid \<Rightarrow> string \<Rightarrow> consent option work_act" where
  "store_read_consent p client = reading (find_consent p client)"

definition store_hold_consent :: "uuid \<Rightarrow> string \<Rightarrow> string list option work_act" where
  "store_hold_consent p client = writing (\<lambda>w. (map_option consent_scopes (find_consent p client w), working w))"

definition store_read_consent_terms :: "uuid \<Rightarrow> string \<Rightarrow> consent_terms option work_act" where
  "store_read_consent_terms p client = reading (\<lambda>w.
     map_option (\<lambda>c. \<lparr>terms_require_consent = requires_consent c,
         terms_allowed = map_option consent_scopes (find_consent p client w)\<rparr>)
       (find (\<lambda>c. client_id c = client) (st_clients (working w) (uow_realm w))))"

definition store_add_consent :: "consent \<Rightarrow> unit work_act" where
  "store_add_consent c = writing (\<lambda>w.
     let key = (uow_realm w, consent_person c, consent_client_id c);
         kept = (case map_of (st_consents (working w)) key of Some k \<Rightarrow> k | None \<Rightarrow> c\<lparr>consent_scopes := []\<rparr>);
         before = consent_scopes kept
     in ((), (working w)\<lparr>st_consents := bt_insert key
          (kept\<lparr>consent_scopes := before @ filter (\<lambda>scope. scope \<notin> set before) (consent_scopes c),
                consent_granted_at := consent_granted_at c\<rparr>) (st_consents (working w))\<rparr>))"

definition store_delete_consent :: "uuid \<Rightarrow> string \<Rightarrow> bool work_act" where
  "store_delete_consent p client = writing (\<lambda>w.
     let key = (uow_realm w, p, client) in
     (map_of (st_consents (working w)) key \<noteq> None,
      (working w)\<lparr>st_consents := filter (\<lambda>(k, _). k \<noteq> key) (st_consents (working w))\<rparr>))"

definition is_consent_owed :: "consent_terms \<Rightarrow> bool \<Rightarrow> string list \<Rightarrow> bool" where
  "is_consent_owed terms prompted asked \<longleftrightarrow>
     (let allowed = is_some_and (\<lambda>kept. list_all (\<lambda>scope. scope \<in> set kept) asked) (terms_allowed terms)
      in prompted \<or> terms_require_consent terms \<and> \<not> allowed)"

subsection \<open>Tokens spent and families revoked\<close>

lemma update_first_split:
  assumes "find p xs = Some x"
  shows "\<exists>before after. xs = before @ x # after \<and> update_first p f xs = before @ f x # after \<and> p x \<and>
    list_all (\<lambda>y. \<not> p y) before"
  using assms
proof (induction xs)
  case (Cons y ys)
  show ?case
  proof (cases "p y")
    case True
    with Cons.prems show ?thesis by (intro exI [of _ "[]"] exI [of _ ys]) simp
  next
    case False
    with Cons obtain before after where "ys = before @ x # after" "update_first p f ys = before @ f x # after" "p x"
        "list_all (\<lambda>y. \<not> p y) before" by auto
    with False show ?thesis by (intro exI [of _ "y # before"] exI [of _ after]) simp
  qed
qed simp

lemma update_first_none: "find p xs = None \<Longrightarrow> update_first p f xs = xs"
  by (induction xs) (auto split: if_splits)

lemma first_revocation_iff:
  "first_revocation family rows \<noteq> None \<longleftrightarrow>
     (\<exists>stored \<in> set rows. token_family (stored_token stored) = family \<and> revoked_at stored \<noteq> None)"
  by (induction rows) (auto split: option.splits)

text \<open>
  What the operations do to the tokens of a realm: add one, spend one that may be, or revoke those
  they concern. An interleaving of use cases is a sequence of such steps.
\<close>

inductive refresh_step :: "stored_refresh_token list \<Rightarrow> stored_refresh_token list \<Rightarrow> bool" where
  inserted: "refresh_step rows (rows @ [\<lparr>stored_token = token, used_at = None, revoked_at = None\<rparr>])"
| spent: "find (is_spendable digest client t rows) rows = Some stored \<Longrightarrow>
    refresh_step rows (update_first (is_spendable digest client t rows) (\<lambda>stored. stored\<lparr>used_at := Some t\<rparr>) rows)"
| revoked: "refresh_step rows (snd (revoke_where t concerned rows))"

text \<open>A token later: the same, with what was written on it still written.\<close>

definition settled :: "stored_refresh_token \<Rightarrow> stored_refresh_token \<Rightarrow> bool" where
  "settled old new \<longleftrightarrow> stored_token new = stored_token old \<and>
     (used_at old = None \<or> used_at new = used_at old) \<and> (revoked_at old = None \<or> revoked_at new = revoked_at old)"

lemma settled_refl [simp]: "settled x x"
  by (simp add: settled_def)

lemma settled_trans: "settled x y \<Longrightarrow> settled y z \<Longrightarrow> settled x z"
  by (auto simp: settled_def)

lemma list_all2_refl_settled [simp]: "list_all2 settled rows rows"
  by (simp add: list.rel_refl)

lemma refresh_step_settles:
  assumes "refresh_step rows rows'"
  shows "\<exists>old new. rows' = old @ new \<and> list_all2 settled rows old"
  using assms
proof cases
  case (inserted token)
  then show ?thesis by (intro exI conjI) auto
next
  case (spent digest client t stored)
  from update_first_split [OF spent(2), of "\<lambda>stored. stored\<lparr>used_at := Some t\<rparr>"] spent
  have "list_all2 settled rows rows'"
    by (auto simp: settled_def is_spendable_def is_live_def intro!: list_all2_appendI)
  then show ?thesis by (intro exI [of _ rows'] exI [of _ "[]"]) simp
next
  case (revoked t concerned)
  have "list_all2 settled rows (snd (revoke_where t concerned rows))"
    by (auto simp: revoke_where_def list_all2_conv_all_nth settled_def is_concerned_def)
  with revoked show ?thesis by (intro exI [of _ rows'] exI [of _ "[]"]) simp
qed

lemma refresh_steps_settle:
  assumes "refresh_step\<^sup>*\<^sup>* rows rows'"
  shows "list_all2 settled rows (take (length rows) rows')"
  using assms
proof induction
  case (step rows' rows'')
  from refresh_step_settles [OF step(2)] obtain old new where
    old: "rows'' = old @ new" "list_all2 settled rows' old" by blast
  have "length rows \<le> length rows'" using list_all2_lengthD [OF step(3)] by simp
  moreover from old(2) have "list_all2 settled (take (length rows) rows') (take (length rows) old)"
    by (rule list_all2_takeI)
  note list_all2_trans [OF settled_trans step(3) this]
  with calculation show ?case using old(1) list_all2_lengthD [OF old(2)] by simp
qed simp

subsection \<open>Properties\<close>

text \<open>
  The tokens a realm keeps after an operation of the storage, and what it leaves beside them.
\<close>

definition steps_tokens :: "'a work_act \<Rightarrow> bool" where
  "steps_tokens m \<longleftrightarrow> (\<forall>w. \<exists>rows. refresh_step\<^sup>=\<^sup>= (refresh_tokens_of w) rows \<and> uow_scope (snd (m w)) = uow_scope w \<and>
     working (snd (m w)) = with_refresh_tokens w rows)"

lemma with_same_tokens [simp]: "with_refresh_tokens w (refresh_tokens_of w) = working w"
  by (simp add: with_refresh_tokens_def refresh_tokens_of_def)

lemma steps_writing:
  assumes "\<And>w. \<exists>rows. refresh_step\<^sup>=\<^sup>= (refresh_tokens_of w) rows \<and> snd (f w) = with_refresh_tokens w rows"
  shows "steps_tokens (writing f)"
  unfolding steps_tokens_def
proof
  fix w
  from assms [of w] obtain rows where "refresh_step\<^sup>=\<^sup>= (refresh_tokens_of w) rows" "snd (f w) = with_refresh_tokens w rows"
    by blast
  then show "\<exists>rows. refresh_step\<^sup>=\<^sup>= (refresh_tokens_of w) rows \<and> uow_scope (snd (writing f w)) = uow_scope w \<and>
      working (snd (writing f w)) = with_refresh_tokens w rows"
    using with_same_tokens [of w, symmetric]
    by (cases "read_only w")
       (force simp: writing_def and_then_def record_refusal_def refuse_in_snapshot_def split_beta)+
qed

text \<open>
  C30: every operation of the storage on refresh tokens takes one of the three steps on the tokens of
  its realm, or none, and leaves everything else as it was: it adds a token that is neither used
  nor revoked, spends the first that may be spent, or revokes tokens.
\<close>

theorem stored_tokens_step:
  "steps_tokens (store_insert_refresh_token token) \<and>
   steps_tokens (store_spend_refresh_token digest client t) \<and>
   steps_tokens (store_read_refresh_token digest) \<and>
   steps_tokens (store_revoke_refresh_family family t) \<and>
   steps_tokens (store_revoke_refresh_families_of_client p client t most) \<and>
   steps_tokens (store_revoke_refresh_tokens_of_session s t) \<and>
   steps_tokens (store_revoke_refresh_tokens_of_sessions sessions t)"
proof (intro conjI)
  have revoking: "refresh_step\<^sup>=\<^sup>= rows (snd (revoke_where t concerned rows))" for t concerned rows
    by (auto intro: refresh_step.revoked)
  have spending: "refresh_step\<^sup>=\<^sup>= rows (update_first (is_spendable digest client t rows)
      (\<lambda>stored. stored\<lparr>used_at := Some t\<rparr>) rows)" for rows
    by (cases "find (is_spendable digest client t rows) rows")
       (auto simp: update_first_none intro: refresh_step.spent)
  show "steps_tokens (store_insert_refresh_token token)"
    unfolding store_insert_refresh_token_def by (rule steps_writing) (auto intro: refresh_step.inserted)
  show "steps_tokens (store_spend_refresh_token digest client t)"
    unfolding store_spend_refresh_token_def Let_def by (rule steps_writing) (use spending in auto)
  show "steps_tokens (store_read_refresh_token digest)"
    unfolding store_read_refresh_token_def steps_tokens_def reading_def
    by (auto intro!: exI [of _ "refresh_tokens_of w" for w])
  show "steps_tokens (store_revoke_refresh_family family t)"
    unfolding store_revoke_refresh_family_def by (rule steps_writing) (use revoking in \<open>auto simp: split_beta\<close>)
  show "steps_tokens (store_revoke_refresh_families_of_client p client t most)"
    unfolding store_revoke_refresh_families_of_client_def Let_def
    by (rule steps_writing) (use revoking in \<open>auto simp: split_beta\<close>)
  show "steps_tokens (store_revoke_refresh_tokens_of_session s t)"
    unfolding store_revoke_refresh_tokens_of_session_def
    by (rule steps_writing) (use revoking in \<open>auto simp: split_beta\<close>)
  show "steps_tokens (store_revoke_refresh_tokens_of_sessions sessions t)"
    unfolding store_revoke_refresh_tokens_of_sessions_def
    by (rule steps_writing) (use revoking in \<open>auto simp: split_beta\<close>)
qed

text \<open>
  C29: whatever steps are taken, in whatever order, a token that was used or revoked stays so, at the
  same instant and for the same grant, and a family that was revoked stays revoked: none of its
  tokens may ever be spent again, one issued later included.
\<close>

theorem revoked_families_stay_revoked:
  "{rows'. refresh_step\<^sup>*\<^sup>* rows rows'} \<subseteq>
   {rows'. list_all2 settled rows (take (length rows) rows') \<and>
      {family. first_revocation family rows \<noteq> None} \<subseteq> {family. first_revocation family rows' \<noteq> None} \<and>
      {stored. is_spendable digest client t rows' stored} \<inter>
        {stored. first_revocation (token_family (stored_token stored)) rows \<noteq> None} = {}}"
proof -
  have "first_revocation family rows' \<noteq> None"
    if "list_all2 settled rows (take (length rows) rows')" "first_revocation family rows \<noteq> None" for family rows'
  proof -
    from that(2) obtain old where old: "old \<in> set rows" "token_family (stored_token old) = family" "revoked_at old \<noteq> None"
      unfolding first_revocation_iff by blast
    then obtain i where "i < length rows" "rows ! i = old" by (auto simp: in_set_conv_nth)
    with that(1) old have "i < length rows'" "settled old (rows' ! i)"
      by (auto simp: list_all2_conv_all_nth)
    with old show ?thesis unfolding first_revocation_iff settled_def by (metis nth_mem)
  qed
  from this [OF refresh_steps_settle] show ?thesis
    using refresh_steps_settle [of rows] by (auto simp: is_spendable_def simp del: not_None_eq)
qed

end
