(* ===== verification/Sessions.thy ===== *)
theory Sessions
  imports Token_Store
begin

text \<open>
  Sessions and what the person behind one may see and take back: tickets, opening and closing a
  session and reading it back from its ticket (\<open>saffui-core/src/login/session.rs\<close>), and the
  consents of a person (\<open>saffui-core/src/consent/manage.rs\<close>). The lemmas show that a ticket reads
  back from its cookie, and that a consent an administrator withdraws is said in the chain.
\<close>

subsection \<open>Tickets\<close>

record session_ticket =
  ticket_session :: uuid
  ticket_secret :: bytes

definition write_ticket :: "app \<Rightarrow> session_ticket \<Rightarrow> string" where
  "write_ticket app ticket =
     app_uuid_text app (ticket_session ticket) @ ''.'' @ app_base64_encode app (ticket_secret ticket)"

definition parse_ticket :: "app \<Rightarrow> string \<Rightarrow> session_ticket option" where
  "parse_ticket app cookie =
     (case split_once CHR ''.'' cookie of
        None \<Rightarrow> None
      | Some (i, secret) \<Rightarrow>
          (case app_base64_decode app secret of
             None \<Rightarrow> None
           | Some decoded \<Rightarrow>
               if length decoded \<noteq> 32 then None
               else map_option (\<lambda>x. \<lparr>ticket_session = x, ticket_secret = decoded\<rparr>) (app_uuid_parse app i)))"

subsection \<open>Sessions\<close>

definition SESSION_LIFETIME :: duration where
  "SESSION_LIFETIME = 12 * 60 * 60 * 1000000000"

definition open_session :: "app \<Rightarrow> uuid \<Rightarrow> authentication_method list \<Rightarrow> (session \<times> session_ticket) use_case" where
  "open_session app p methods =
     and_then (fill_random app 32) (\<lambda>secret.
     and_then (now app) (\<lambda>t.
     and_then (mint_id app) (\<lambda>i.
     let x = \<lparr>session_id = i, session_person = p, session_secret_digest = app_sha256 app secret,
              session_state = Session_active, session_methods = methods, authenticated_at = t,
              session_expires_at = t + SESSION_LIFETIME\<rparr> in
     and_then (on_work (store_insert_session x)) (\<lambda>_.
     ret (x, \<lparr>ticket_session = i, ticket_secret = secret\<rparr>)))))"

text \<open>The clock is read only for an active session the secret proves.\<close>

definition read_proven_session :: "app \<Rightarrow> session_ticket \<Rightarrow> read_session option use_case" where
  "read_proven_session app ticket =
     and_then (on_work (store_read_session (ticket_session ticket))) (\<lambda>found.
     let presented = app_sha256 app (ticket_secret ticket);
         expected = (case found of Some r \<Rightarrow> session_secret_digest (the_session r) | None \<Rightarrow> no_digest);
         proven = app_equal app presented expected
     in case found of
          None \<Rightarrow> ret None
        | Some r \<Rightarrow>
            if proven \<and> session_state (the_session r) = Session_active
            then and_then (now app) (\<lambda>t. ret (if session_expires_at (the_session r) > t then Some r else None))
            else ret None)"

definition find_live_session :: "app \<Rightarrow> session_ticket \<Rightarrow> session option use_case" where
  "find_live_session app ticket =
     and_then (read_proven_session app ticket) (\<lambda>found. ret (map_option the_session found))"

definition find_answering_session :: "app \<Rightarrow> session_ticket \<Rightarrow> session option use_case" where
  "find_answering_session app ticket =
     and_then (read_proven_session app ticket) (\<lambda>found.
     ret (map_option the_session (filter_option answers_for_its_person found)))"

definition close_session :: "app \<Rightarrow> session \<Rightarrow> unit use_case" where
  "close_session app x =
     and_then (on_work (store_end_session (session_id x))) (\<lambda>ended.
     if \<not> ended then ret ()
     else
       and_then (now app) (\<lambda>t.
       and_then (on_work (store_revoke_refresh_tokens_of_session (session_id x) t)) (\<lambda>revoked.
       record_event app SessionEnded (json_object
         [(''person_id'', JString (app_uuid_text app (session_person x))),
          (''refresh_tokens_revoked'', JNumber (PosInt revoked)),
          (''session_id'', JString (app_uuid_text app (session_id x)))]))))"

definition store_end_sessions_proven_only_by ::
    "uuid \<Rightarrow> authentication_method list \<Rightarrow> uuid option \<Rightarrow> uuid list work_act" where
  "store_end_sessions_proven_only_by p methods kept = writing (\<lambda>w.
     let rows = st_sessions (working w) (uow_realm w);
         ending = (\<lambda>x. session_person x = p \<and> session_state x = Session_active \<and>
           session_methods x = methods \<and> Some (session_id x) \<noteq> kept)
     in (map session_id (filter ending rows),
         (working w)\<lparr>st_sessions := (st_sessions (working w))(uow_realm w :=
            map (\<lambda>x. if ending x then x\<lparr>session_state := Session_ended\<rparr> else x) rows)\<rparr>))"

subsection \<open>Consents\<close>

definition MOST_LISTED_CONSENTS :: nat where "MOST_LISTED_CONSENTS = 500"
definition MOST_NAMED_FAMILIES :: nat where "MOST_NAMED_FAMILIES = 100"

definition store_list_consents :: "uuid \<Rightarrow> nat \<Rightarrow> listed_consent list work_act" where
  "store_list_consents p most = reading (\<lambda>w.
     take most (List.map_filter (\<lambda>((realm, of_person, client), c).
       if realm = uow_realm w \<and> of_person = p
       then map_option (\<lambda>x. \<lparr>listed_consent = c, listed_client_name = client_name x\<rparr>)
              (find (\<lambda>x. client_id x = client) (st_clients (working w) (uow_realm w)))
       else None) (st_consents (working w))))"

definition require_session :: failure where
  "require_session = new_failure SessionRequired"

definition find_signed_in_session :: "app \<Rightarrow> session_ticket \<Rightarrow> session use_case" where
  "find_signed_in_session app ticket =
     and_then (find_answering_session app ticket) (\<lambda>found.
     and_then (lift_result (ok_or require_session found)) (\<lambda>x.
     and_then (on_work (store_read_person (session_person x))) (\<lambda>p.
     and_then (ensure (is_some_and person_enabled p) require_session) (\<lambda>_.
     ret x))))"

definition withdraw_consent :: "app \<Rightarrow> uuid \<Rightarrow> string \<Rightarrow> json \<Rightarrow> unit use_case" where
  "withdraw_consent app p client actor =
     (case check_client_identifier (\<lambda>text. app_uuid_parse app text \<noteq> None) client of
        Err _ \<Rightarrow> throw (new_failure ConsentNotFound)
      | Ok _ \<Rightarrow>
          and_then (on_work (store_delete_consent p client)) (\<lambda>deleted.
          and_then (ensure deleted (new_failure ConsentNotFound)) (\<lambda>_.
          and_then (now app) (\<lambda>t.
          and_then (on_work (store_revoke_refresh_families_of_client p client t MOST_NAMED_FAMILIES)) (\<lambda>revoked.
          record_event app ConsentWithdrawn (json_object
            [(''actor'', actor),
             (''client_id'', JString client),
             (''person_id'', JString (app_uuid_text app p)),
             (''refresh_families'', JArray (map (\<lambda>f. JString (app_uuid_text app f)) (families_named revoked))),
             (''refresh_families_revoked'', JNumber (PosInt (families_ended revoked))),
             (''refresh_tokens_revoked'', JNumber (PosInt (tokens_revoked revoked)))]))))))"

definition list_my_consents :: "app \<Rightarrow> string \<Rightarrow> session_ticket option \<Rightarrow> listed_consent list use_case" where
  "list_my_consents app realm ticket =
     and_then (lift_result (ok_or require_session ticket)) (\<lambda>presented.
     and_then (resolve_realm realm) (\<lambda>(_, scope).
     and_then (begin_work scope) (\<lambda>_.
     and_then (find_signed_in_session app presented) (\<lambda>x.
     and_then (on_work (store_list_consents (session_person x) MOST_LISTED_CONSENTS)) (\<lambda>listed.
     ret (map (\<lambda>c. c\<lparr>listed_client_name := neutralize_unshowable (listed_client_name c)\<rparr>) listed))))))"

definition withdraw_my_consent :: "app \<Rightarrow> string \<Rightarrow> session_ticket option \<Rightarrow> string \<Rightarrow> unit use_case" where
  "withdraw_my_consent app realm ticket client =
     and_then (lift_result (ok_or require_session ticket)) (\<lambda>presented.
     and_then (resolve_realm realm) (\<lambda>(_, scope).
     and_then (begin_work scope) (\<lambda>_.
     and_then (find_signed_in_session app presented) (\<lambda>x.
     and_then (withdraw_consent app (session_person x) client
         (json_object [(''person_id'', JString (app_uuid_text app (session_person x)))])) (\<lambda>_.
     commit)))))"

definition list_person_consents :: "admin_caller \<Rightarrow> uuid \<Rightarrow> listed_consent list use_case" where
  "list_person_consents caller p =
     and_then (begin_work (caller_scope caller)) (\<lambda>_.
     and_then (on_work (store_read_person p)) (\<lambda>found.
     and_then (ensure (found \<noteq> None) (new_failure PersonNotFound)) (\<lambda>_.
     on_work (store_list_consents p MOST_LISTED_CONSENTS))))"

definition withdraw_person_consent :: "app \<Rightarrow> admin_caller \<Rightarrow> uuid \<Rightarrow> string \<Rightarrow> unit use_case" where
  "withdraw_person_consent app caller p client =
     and_then (begin_work (caller_scope caller)) (\<lambda>_.
     and_then (withdraw_consent app p client
         (json_object [(''client_id'', JString (client_id (caller_client caller)))])) (\<lambda>_.
     commit))"

subsection \<open>A consent withdrawn is said in the chain\<close>

lemma silent_consent_writes [silent_intro]:
  "silent (store_delete_consent p client)" "silent (store_revoke_refresh_families_of_client p client t most)"
  unfolding store_delete_consent_def store_revoke_refresh_families_of_client_def
  by (auto intro!: silent_writing simp: Let_def with_refresh_tokens_def split_beta)

lemma leads_withdraw_consent:
  assumes "\<And>x. leads s0 (in_hand s0 realm (Suc n)) (f x) R"
  shows "leads s0 (in_hand s0 realm n) (and_then (withdraw_consent app p client actor) f) R"
proof (rule leads_and_then)
  show "leads s0 (in_hand s0 realm n) (withdraw_consent app p client actor) (in_hand s0 realm (Suc n))"
    unfolding withdraw_consent_def
    by (intro leads_record leads_steady(1) leads_case_sum leads_end steady_intro silent_intro)
qed (rule assms)

interpretation consent_withdrawal: audited_use_case "withdraw_person_consent app caller p client"
    "scope_realm (caller_scope caller)" for app caller p client
  unfolding withdraw_person_consent_def
  by (rule audited_by_phases) (rule leads_withdraw_consent phase_moves | rule phase_steps | intro steady_intro silent_intro)+

subsection \<open>Tickets read back\<close>

lemma split_once_first: "c \<notin> set xs \<Longrightarrow> split_once c (xs @ c # ys) = Some (xs, ys)"
  by (induction xs) auto

lemma ticket_reads_back:
  assumes "app_uuid_parse app (app_uuid_text app (ticket_session ticket)) = Some (ticket_session ticket)"
    and "CHR ''.'' \<notin> set (app_uuid_text app (ticket_session ticket))"
    and "app_base64_decode app (app_base64_encode app (ticket_secret ticket)) = Some (ticket_secret ticket)"
    and "length (ticket_secret ticket) = 32"
  shows "parse_ticket app (write_ticket app ticket) = Some ticket"
  using assms by (simp add: parse_ticket_def write_ticket_def split_once_first)

end
