(* ===== verification/Responses.thy ===== *)
theory Responses
  imports Policy Provisioning Sessions
begin

text \<open>
  What the HTTP surface answers with: a refusal of the core as a response
  (\<open>server/src/error.rs\<close>), a page of a list with its window
  (\<open>server/src/api/rest/endpoints/admin/listing.rs\<close> and \<open>clients/store.rs\<close> of the core), and what
  the administration API shows of the types of the core
  (\<open>server/src/api/rest/endpoints/admin/views.rs\<close> with the views of \<open>api/src/lib.rs\<close>).

  A response is its status, the headers the code sets, and its JSON body. The members of a body
  are in the order the view declares them, as its derived serialization writes them. The lines a
  refusal adds to the journal are not part of an answer and are left out.
\<close>

subsection \<open>Responses\<close>

record response =
  status :: nat
  headers :: "(string \<times> string) list"
  body :: "json option"

definition json_response :: "nat \<Rightarrow> json \<Rightarrow> response" where
  "json_response n v = \<lparr>status = n, headers = [], body = Some v\<rparr>"

definition no_content :: response where
  "no_content = \<lparr>status = 204, headers = [], body = None\<rparr>"

definition json_nat :: "nat \<Rightarrow> json" where
  "json_nat n = JNumber (PosInt n)"

definition json_int :: "int \<Rightarrow> json" where
  "json_int i = JNumber (if i < 0 then NegInt i else PosInt (nat i))"

text \<open>A member that is left out when it is absent.\<close>

definition json_member :: "string \<Rightarrow> ('a \<Rightarrow> json) \<Rightarrow> 'a option \<Rightarrow> (string \<times> json) list" where
  "json_member name write v = (case v of None \<Rightarrow> [] | Some x \<Rightarrow> [(name, write x)])"

subsection \<open>Refusals\<close>

primrec choose_status :: "error_kind \<Rightarrow> nat" where
  "choose_status Invalid = 400"
| "choose_status Unauthenticated = 401"
| "choose_status Forbidden = 403"
| "choose_status NotFound = 404"
| "choose_status Conflicting = 409"
| "choose_status Unavailable_kind = 503"
| "choose_status Internal_kind = 500"

definition render_code :: "error_code \<Rightarrow> (string \<times> json) list" where
  "render_code c = [(''code'', JString (slug c)), (''error_code'', json_nat (error_number c)), (''message'', JString (error_message c))]"

definition render_failure :: "failure \<Rightarrow> response" where
  "render_failure e =
     (let kind = kind_of (code e) in
      \<lparr>status = choose_status kind,
       headers = (if kind = Unauthenticated then [(''WWW-Authenticate'', ''Bearer'')] else []),
       body = Some (JObject (render_code (code e)))\<rparr>)"

definition render_protocol_failure :: "oauth_failure \<Rightarrow> bool \<Rightarrow> response" where
  "render_protocol_failure e asked_with_basic =
     \<lparr>status =
        (case oauth_error e of
           InvalidClient \<Rightarrow> 401
         | ServerError \<Rightarrow> 500
         | TemporarilyUnavailable \<Rightarrow> 503
         | _ \<Rightarrow> 400),
      headers = [(''Cache-Control'', ''no-store''), (''Pragma'', ''no-cache'')] @
        (if oauth_error e = InvalidClient \<and> asked_with_basic then [(''WWW-Authenticate'', ''Basic'')] else []),
      body = Some (JObject
        [(''error'', JString (oauth_error_name (oauth_error e))),
         (''error_description'', JString (describe_oauth_error (oauth_error e)))])\<rparr>"

text \<open>A body or a query string that cannot be read.\<close>

definition refuse_unreadable :: response where
  "refuse_unreadable = render_failure (new_failure RequestInvalid)"

subsection \<open>Pages\<close>

definition DEFAULT_MAX :: nat where "DEFAULT_MAX = 100"
definition MAX_CEILING :: nat where "MAX_CEILING = 500"
definition FIRST_CEILING :: nat where "FIRST_CEILING = 100000"

definition bound_window :: "nat option \<Rightarrow> nat option \<Rightarrow> (list_window \<times> bool) option" where
  "bound_window first most =
     (let start = (case first of None \<Rightarrow> 0 | Some n \<Rightarrow> n) in
      if start > FIRST_CEILING then None
      else
        let asked = (case most of None \<Rightarrow> DEFAULT_MAX | Some n \<Rightarrow> n) in
        Some (\<lparr>window_first = start, window_max = min asked MAX_CEILING\<rparr>, asked > MAX_CEILING))"

record list_parameters =
  asked_first :: "nat option"
  asked_max :: "nat option"
  asked_count :: "bool option"

definition bound_parameters :: "list_parameters \<Rightarrow> failure + (list_window \<times> bool)" where
  "bound_parameters p = ok_or (new_failure ListOffsetTooLarge) (bound_window (asked_first p) (asked_max p))"

definition is_counted :: "list_parameters \<Rightarrow> bool" where
  "is_counted p = (case asked_count p of None \<Rightarrow> False | Some b \<Rightarrow> b)"

definition answer_page :: "list_window \<Rightarrow> bool \<Rightarrow> json list \<Rightarrow> nat option \<Rightarrow> response" where
  "answer_page window was_cut items counted =
     \<lparr>status = 200,
      headers = (if was_cut then [(''Warning'', ''299 - \"max was lowered to 500\"'')] else []),
      body = Some (JObject
        ([(''items'', JArray items), (''first'', json_nat (window_first window)), (''max'', json_nat (window_max window))] @
         json_member ''total'' json_nat counted))\<rparr>"

subsection \<open>Views\<close>

definition show_role :: "app \<Rightarrow> role \<Rightarrow> json" where
  "show_role app r = JObject
     [(''id'', JString (app_uuid_text app (role_id r))),
      (''name'', JString (role_name r)),
      (''client_id'', json_text_option (role_client_id r)),
      (''description'', json_text_option (role_description r)),
      (''created_at'', JString (write_instant app (role_created_at r)))]"

definition show_group :: "app \<Rightarrow> group \<Rightarrow> json" where
  "show_group app g = JObject
     [(''id'', JString (app_uuid_text app (group_id g))),
      (''name'', JString (group_name g)),
      (''description'', json_text_option (group_description g)),
      (''created_at'', JString (write_instant app (group_created_at g)))]"

definition show_grant :: "app \<Rightarrow> grant \<Rightarrow> json" where
  "show_grant app g = JObject
     [(''valid_from'', JString (write_instant app (valid_from g))),
      (''valid_until'', json_text_option (map_option (write_instant app) (valid_until g))),
      (''granted_by'', JString (granted_by g)),
      (''reason'', json_text_option (grant_reason g)),
      (''granted_at'', JString (write_instant app (granted_at g)))]"

definition show_held_role :: "app \<Rightarrow> held_role \<Rightarrow> json" where
  "show_held_role app h = JObject
     [(''role_id'', JString (app_uuid_text app (held_id h))),
      (''name'', JString (held_name h)),
      (''client_id'', json_text_option (held_client_id h)),
      (''through_group'', json_text_option (map_option (app_uuid_text app) (held_through h))),
      (''until'', json_text_option (map_option (write_instant app) (held_until h)))]"

definition show_policy :: "app \<Rightarrow> policy \<Rightarrow> json" where
  "show_policy app p = JObject
     [(''id'', JString (app_uuid_text app (policy_id p))),
      (''client_id'', JString (policy_client_id p)),
      (''name'', JString (policy_name p)),
      (''resource_type'', JString (policy_resource_type p)),
      (''action'', JString (policy_action p)),
      (''effect'', JString (effect_name (policy_effect p))),
      (''combine'', JString (combine_name (policy_combine p))),
      (''conditions'', policy_conditions p),
      (''created_at'', JString (write_instant app (policy_created_at p)))]"

definition show_realm :: "app \<Rightarrow> realm \<Rightarrow> string \<Rightarrow> json" where
  "show_realm app r issuer = JObject
     [(''id'', JString (app_uuid_text app (realm_id r))),
      (''tenant_id'', JString (app_uuid_text app (realm_tenant r))),
      (''name'', JString (realm_name r)),
      (''issuer'', JString issuer),
      (''enabled'', JBool (realm_enabled r)),
      (''created_at'', JString (write_instant app (realm_created_at r)))]"

definition show_client :: "app \<Rightarrow> client \<Rightarrow> json" where
  "show_client app c = JObject
     [(''client_id'', JString (client_id c)),
      (''name'', JString (client_name c)),
      (''public'', JBool (client_secret_digest c = None)),
      (''redirect_uris'', json_texts (redirect_uris c)),
      (''post_logout_redirect_uris'', json_texts (post_logout_redirect_uris c)),
      (''consent'', JBool (requires_consent c)),
      (''scopes'', json_texts (client_scopes c)),
      (''capabilities'', json_texts (map capability_name (client_capabilities c))),
      (''enabled'', JBool (client_enabled c)),
      (''created_at'', JString (write_instant app (client_created_at c)))]"

definition show_user :: "app \<Rightarrow> person \<Rightarrow> json" where
  "show_user app p = JObject
     [(''id'', JString (app_uuid_text app (person_id p))),
      (''username'', JString (person_username p)),
      (''email'', json_text_option (person_email p)),
      (''email_verified'', JBool (person_email_verified p)),
      (''display_name'', json_text_option (person_display_name p)),
      (''enabled'', JBool (person_enabled p)),
      (''created_at'', JString (write_instant app (person_created_at p)))]"

definition show_consent :: "app \<Rightarrow> listed_consent \<Rightarrow> json" where
  "show_consent app listed = JObject
     [(''client_id'', JString (consent_client_id (listed_consent listed))),
      (''scopes'', json_texts (consent_scopes (listed_consent listed))),
      (''granted_at'', JString (write_instant app (consent_granted_at (listed_consent listed))))]"

end
