(* ===== verification/Login_Store.thy ===== *)
theory Login_Store
  imports Sessions
begin

text \<open>
  What the in-memory storage keeps of people who sign in
  (\<open>saffui-core/src/testkit/memory/login.rs\<close>): the counters of the brake, the requests that wait for
  their person, the browsers people signed in from, their authenticator applications with the codes
  counted against them, and their security keys. The lemmas show that a step of a code is accepted
  once, that a waiting request is taken once, and that a person has no more browsers kept than the bound.
\<close>

subsection \<open>Counters of the brake\<close>

text \<open>\<open>.sum()\<close> of \<open>u32\<close>: wraps as built for release.\<close>

definition store_count_login_failures :: "bytes \<Rightarrow> instant \<Rightarrow> nat work_act" where
  "store_count_login_failures digest since = reading (\<lambda>w.
     sum_list (map snd (filter (\<lambda>((owner, known_digest, bucket), _).
       owner = uow_realm w \<and> known_digest = digest \<and> bucket \<ge> since) (st_login_failures (working w)))) mod 2 ^ 32)"

text \<open>\<open>*entry(key).or_default() += 1\<close>: a count is 32 bits wide, and wraps as built for release.\<close>

fun count_one_more :: "'k \<Rightarrow> ('k \<times> nat) list \<Rightarrow> ('k \<times> nat) list" where
  "count_one_more key [] = [(key, 1)]"
| "count_one_more key ((k, n) # rows) = (if k = key then (k, (n + 1) mod 2 ^ 32) # rows else (k, n) # count_one_more key rows)"

definition store_record_login_failure :: "bytes \<Rightarrow> instant \<Rightarrow> unit work_act" where
  "store_record_login_failure digest bucket = writing (\<lambda>w.
     ((), (working w)\<lparr>st_login_failures := count_one_more (uow_realm w, digest, bucket) (st_login_failures (working w))\<rparr>))"

definition store_forget_login_failures :: "bytes \<Rightarrow> unit work_act" where
  "store_forget_login_failures digest = writing (\<lambda>w.
     ((), (working w)\<lparr>st_login_failures := filter (\<lambda>((owner, known_digest, _), _).
        owner \<noteq> uow_realm w \<or> known_digest \<noteq> digest) (st_login_failures (working w))\<rparr>))"

subsection \<open>Requests that wait\<close>

definition pending_of :: "unit_of_work \<Rightarrow> pending_authorization list" where
  "pending_of w = st_pending_authorizations (working w) (uow_realm w)"

definition with_pending :: "unit_of_work \<Rightarrow> pending_authorization list \<Rightarrow> state" where
  "with_pending w rows = (working w)\<lparr>st_pending_authorizations :=
     (st_pending_authorizations (working w))(uow_realm w := rows)\<rparr>"

definition waits :: "uuid \<Rightarrow> instant \<Rightarrow> pending_authorization \<Rightarrow> bool" where
  "waits i t request \<longleftrightarrow> pending_id request = i \<and> pending_expires_at request > t"

definition store_insert_pending_authorization :: "pending_authorization \<Rightarrow> unit work_act" where
  "store_insert_pending_authorization request = writing (\<lambda>w. ((), with_pending w (pending_of w @ [request])))"

definition store_read_pending_authorization :: "uuid \<Rightarrow> instant \<Rightarrow> pending_authorization option work_act" where
  "store_read_pending_authorization i t = reading (\<lambda>w. find (waits i t) (pending_of w))"

definition store_mark_first_factor :: "uuid \<Rightarrow> uuid \<Rightarrow> pending_key_proof option \<Rightarrow> instant \<Rightarrow> bool work_act" where
  "store_mark_first_factor i p key t = writing (\<lambda>w.
     (list_ex (waits i t) (pending_of w),
      with_pending w (update_first (waits i t)
        (\<lambda>request. request\<lparr>first_factor := Some p, pending_key_proof := key\<rparr>) (pending_of w))))"

definition store_mark_consent_owed :: "uuid \<Rightarrow> uuid \<Rightarrow> instant \<Rightarrow> bool work_act" where
  "store_mark_consent_owed i x t = writing (\<lambda>w.
     let waiting = (\<lambda>request. waits i t request \<and> consent_session request = None) in
     (list_ex waiting (pending_of w),
      with_pending w (update_first waiting (\<lambda>request. request\<lparr>consent_session := Some x\<rparr>) (pending_of w))))"

text \<open>The first row that matches is taken out.\<close>

fun remove_first :: "('a \<Rightarrow> bool) \<Rightarrow> 'a list \<Rightarrow> 'a list" where
  "remove_first p [] = []"
| "remove_first p (x # xs) = (if p x then xs else x # remove_first p xs)"

definition store_take_pending_authorization :: "uuid \<Rightarrow> instant \<Rightarrow> pending_authorization option work_act" where
  "store_take_pending_authorization i t = writing (\<lambda>w.
     (find (waits i t) (pending_of w), with_pending w (remove_first (waits i t) (pending_of w))))"

subsection \<open>Browsers people signed in from\<close>

definition keep_browser :: "known_browser \<Rightarrow> known_browser list \<Rightarrow> known_browser list" where
  "keep_browser browser kept =
     (case find (\<lambda>b. browser_device b = browser_device browser) kept of
        None \<Rightarrow> kept @ [browser]
      | Some found \<Rightarrow>
          if browser_person found = browser_person browser
          then update_first (\<lambda>b. browser_device b = browser_device browser)
                 (\<lambda>b. b\<lparr>browser_expires_at := browser_expires_at browser\<rparr>) kept
          else kept)"

text \<open>Latest expiry first, then the device.\<close>

definition browsers_in_order :: "uuid \<Rightarrow> known_browser list \<Rightarrow> known_browser list" where
  "browsers_in_order p kept =
     sort_key (\<lambda>b. (- browser_expires_at b, browser_device b)) (filter (\<lambda>b. browser_person b = p) kept)"

definition store_remember_browser :: "known_browser \<Rightarrow> nat \<Rightarrow> unit work_act" where
  "store_remember_browser browser keep = writing (\<lambda>w.
     let kept = keep_browser browser (st_known_browsers (working w) (uow_realm w));
         forgotten = map browser_device (drop keep (browsers_in_order (browser_person browser) kept))
     in ((), (working w)\<lparr>st_known_browsers := (st_known_browsers (working w))(uow_realm w :=
          filter (\<lambda>b. browser_device b \<notin> set forgotten) kept)\<rparr>))"

definition store_read_live_browsers :: "uuid list \<Rightarrow> instant \<Rightarrow> known_browser list work_act" where
  "store_read_live_browsers devices t = reading (\<lambda>w.
     filter (\<lambda>b. browser_device b \<in> set devices \<and> browser_expires_at b > t) (st_known_browsers (working w) (uow_realm w)))"

subsection \<open>Authenticator applications\<close>

definition store_write_pending_totp :: "totp_authenticator \<Rightarrow> bool work_act" where
  "store_write_pending_totp a = writing (\<lambda>w.
     let key = (uow_realm w, totp_person a) in
     if is_some_and (\<lambda>k. totp_confirmed_at k \<noteq> None) (st_totp (working w) key) then (False, working w)
     else (True, (working w)\<lparr>st_totp := (st_totp (working w))(key \<mapsto> a)\<rparr>))"

definition store_read_totp :: "uuid \<Rightarrow> totp_authenticator option work_act" where
  "store_read_totp p = reading (\<lambda>w. st_totp (working w) (uow_realm w, p))"

definition accepts_step :: "bytes \<Rightarrow> int \<Rightarrow> totp_use \<Rightarrow> totp_authenticator \<Rightarrow> bool" where
  "accepts_step judged step used_for a \<longleftrightarrow>
     totp_sealed_secret a = judged \<and>
     (totp_confirmed_at a = None \<longleftrightarrow> used_for = Totp_confirmation) \<and>
     \<not> is_some_and (\<lambda>last. last \<ge> step) (totp_last_step a)"

definition store_accept_totp_step :: "uuid \<Rightarrow> bytes \<Rightarrow> int \<Rightarrow> totp_use \<Rightarrow> instant \<Rightarrow> bool work_act" where
  "store_accept_totp_step p judged step used_for t = writing (\<lambda>w.
     let key = (uow_realm w, p) in
     (case st_totp (working w) key of
        None \<Rightarrow> (False, working w)
      | Some a \<Rightarrow>
          if \<not> accepts_step judged step used_for a then (False, working w)
          else (True, (working w)\<lparr>st_totp := (st_totp (working w))(key \<mapsto>
            a\<lparr>totp_last_step := Some step,
              totp_confirmed_at := Some (case totp_confirmed_at a of None \<Rightarrow> t | Some at \<Rightarrow> at)\<rparr>)\<rparr>)))"

definition store_delete_totp :: "uuid \<Rightarrow> bool work_act" where
  "store_delete_totp p = writing (\<lambda>w.
     let key = (uow_realm w, p) in
     (st_totp (working w) key \<noteq> None, (working w)\<lparr>st_totp := (st_totp (working w))(key := None)\<rparr>))"

definition store_count_code_attempt :: "uuid \<Rightarrow> nat work_act" where
  "store_count_code_attempt p = writing (\<lambda>w.
     let key = (uow_realm w, p);
         attempts = min ((case st_code_attempts (working w) key of None \<Rightarrow> 0 | Some n \<Rightarrow> n) + 1) (2 ^ 32 - 1)
     in (attempts, (working w)\<lparr>st_code_attempts := (st_code_attempts (working w))(key \<mapsto> attempts)\<rparr>))"

definition store_clear_code_attempts :: "uuid \<Rightarrow> unit work_act" where
  "store_clear_code_attempts p = writing (\<lambda>w.
     ((), (working w)\<lparr>st_code_attempts := (st_code_attempts (working w))((uow_realm w, p) := None)\<rparr>))"

definition store_clear_code_attempts_below :: "uuid \<Rightarrow> nat \<Rightarrow> unit work_act" where
  "store_clear_code_attempts_below p bound = writing (\<lambda>w.
     let key = (uow_realm w, p) in
     ((), if is_some_and (\<lambda>n. n < bound) (st_code_attempts (working w) key)
          then (working w)\<lparr>st_code_attempts := (st_code_attempts (working w))(key := None)\<rparr>
          else working w))"

definition store_holds_second_factor :: "uuid \<Rightarrow> bool work_act" where
  "store_holds_second_factor p = reading (\<lambda>w. holds_factor w p)"

subsection \<open>Security keys\<close>

definition store_insert_security_key :: "security_key \<Rightarrow> bool work_act" where
  "store_insert_security_key k = writing (\<lambda>w.
     let keys = st_security_keys (working w) (uow_realm w) in
     if list_ex (\<lambda>other. key_credential_id other = key_credential_id k) keys then (False, working w)
     else (True, (working w)\<lparr>st_security_keys := (st_security_keys (working w))(uow_realm w := keys @ [k])\<rparr>))"

definition store_list_security_keys :: "uuid \<Rightarrow> security_key list work_act" where
  "store_list_security_keys p = reading (\<lambda>w.
     sort_key (\<lambda>k. (key_created_at k, key_credential_id k))
       (filter (\<lambda>k. key_person k = p) (st_security_keys (working w) (uow_realm w))))"

definition is_as_judged :: "security_key \<Rightarrow> security_key \<Rightarrow> bool" where
  "is_as_judged judged k \<longleftrightarrow>
     key_person k = key_person judged \<and> key_credential_id k = key_credential_id judged \<and>
     key_record k = key_record judged \<and> key_last_used_at k = key_last_used_at judged"

definition store_record_key_use :: "security_key \<Rightarrow> bytes option \<Rightarrow> instant \<Rightarrow> bool work_act" where
  "store_record_key_use judged moved t = writing (\<lambda>w.
     let keys = st_security_keys (working w) (uow_realm w) in
     (list_ex (is_as_judged judged) keys,
      (working w)\<lparr>st_security_keys := (st_security_keys (working w))(uow_realm w :=
        update_first (is_as_judged judged)
          (\<lambda>k. k\<lparr>key_record := (case moved of None \<Rightarrow> key_record judged | Some r \<Rightarrow> r), key_last_used_at := Some t\<rparr>)
          keys)\<rparr>))"

definition store_delete_security_keys :: "uuid \<Rightarrow> nat work_act" where
  "store_delete_security_keys p = writing (\<lambda>w.
     let keys = st_security_keys (working w) (uow_realm w);
         left = filter (\<lambda>k. key_person k \<noteq> p) keys
     in (length keys - length left,
         (working w)\<lparr>st_security_keys := (st_security_keys (working w))(uow_realm w := left)\<rparr>))"

definition store_write_key_enrollment :: "uuid \<Rightarrow> bytes \<Rightarrow> instant \<Rightarrow> unit work_act" where
  "store_write_key_enrollment p kept expires = writing (\<lambda>w.
     ((), (working w)\<lparr>st_key_enrollments := (st_key_enrollments (working w))((uow_realm w, p) \<mapsto> (kept, expires))\<rparr>))"

definition store_take_key_enrollment :: "uuid \<Rightarrow> instant \<Rightarrow> bytes option work_act" where
  "store_take_key_enrollment p t = writing (\<lambda>w.
     let key = (uow_realm w, p) in
     (case st_key_enrollments (working w) key of
        None \<Rightarrow> (None, working w)
      | Some (kept, expires) \<Rightarrow>
          if expires \<le> t then (None, working w)
          else (Some kept, (working w)\<lparr>st_key_enrollments := (st_key_enrollments (working w))(key := None)\<rparr>)))"

subsection \<open>What is kept of a person who signs in\<close>

text \<open>A request that is taken waits no more, where a request is named once.\<close>

lemma find_remove_first:
  assumes "distinct (map f xs)" and "\<And>x y. p x \<Longrightarrow> p y \<Longrightarrow> f x = f y"
  shows "find p (remove_first p xs) = None"
  using assms(1) by (induction xs) (auto simp: find_None_iff dest: assms(2))

lemma taken_requests_are_gone:
  assumes "store_take_pending_authorization i t w = (Ok taken, w')" and "distinct (map pending_id (pending_of w))"
  shows "find (waits i t) (pending_of w') = None"
proof -
  have "pending_of w' = remove_first (waits i t) (pending_of w)"
    using assms(1) by (auto simp: store_take_pending_authorization_def writing_def and_then_def refuse_in_snapshot_def
        record_refusal_def pending_of_def with_pending_def uow_realm_def split: if_splits)
  then show ?thesis using assms(2) by (auto simp: waits_def intro!: find_remove_first)
qed

text \<open>A person has no more browsers kept than the bound.\<close>

lemma length_keep_first: "length (filter (\<lambda>x. f x \<notin> set (map f (drop n xs))) xs) \<le> n"
proof -
  let ?p = "\<lambda>x. f x \<notin> set (map f (drop n xs))"
  have "filter ?p xs = filter ?p (take n xs) @ filter ?p (drop n xs)"
    by (metis append_take_drop_id filter_append)
  moreover have "filter ?p (drop n xs) = []" by (simp add: filter_empty_conv)
  ultimately show ?thesis
    by (metis append_Nil2 length_filter_le length_take min.boundedE)
qed

lemma length_filter_in_order:
  "length (filter P (browsers_in_order p kept)) = length (filter P (filter (\<lambda>b. browser_person b = p) kept))"
  by (simp only: browsers_in_order_def filter_sort length_sort)

lemma browsers_are_bounded:
  assumes "store_remember_browser browser most w = (Ok u, w')"
  shows "length (filter (\<lambda>b. browser_person b = browser_person browser) (st_known_browsers (working w') (uow_realm w'))) \<le> most"
proof -
  let ?kept = "keep_browser browser (st_known_browsers (working w) (uow_realm w))"
  let ?order = "browsers_in_order (browser_person browser) ?kept"
  let ?stays = "\<lambda>b. browser_device b \<notin> set (map browser_device (drop most ?order))"
  have rows: "st_known_browsers (working w') (uow_realm w') = filter ?stays ?kept"
    using assms by (auto simp: store_remember_browser_def writing_def and_then_def refuse_in_snapshot_def
        record_refusal_def uow_realm_def Let_def split: if_splits)
  have "length (filter (\<lambda>b. browser_person b = browser_person browser) (filter ?stays ?kept)) =
      length (filter ?stays (filter (\<lambda>b. browser_person b = browser_person browser) ?kept))"
    by (simp add: conj_commute)
  also have "\<dots> = length (filter ?stays ?order)"
    by (rule length_filter_in_order [symmetric])
  also have "\<dots> \<le> most" by (rule length_keep_first)
  finally show ?thesis by (simp only: rows)
qed

text \<open>
  What the storage is asked of authenticator applications, and what a unit of work is after each call.
\<close>

datatype totp_call =
    Write_pending totp_authenticator
  | Accept_step uuid bytes int totp_use instant
  | Read_authenticator uuid
  | Delete_authenticator uuid

fun after_call :: "totp_call \<Rightarrow> unit_of_work \<Rightarrow> unit_of_work" where
  "after_call (Write_pending a) w = snd (store_write_pending_totp a w)"
| "after_call (Accept_step p judged step used_for t) w = snd (store_accept_totp_step p judged step used_for t w)"
| "after_call (Read_authenticator p) w = snd (store_read_totp p w)"
| "after_call (Delete_authenticator p) w = snd (store_delete_totp p w)"

text \<open>
  A state that comes later while a person of a realm keeps their authenticator: after any calls, granted or
  refused, in units of work of any realm, but its removal, and after whatever leaves the authenticators alone.
\<close>

inductive later_keeping :: "uuid \<Rightarrow> uuid \<Rightarrow> state \<Rightarrow> state \<Rightarrow> bool" for ri p st where
  now: "later_keeping ri p st st"
| call: "later_keeping ri p st (working w) \<Longrightarrow> uow_realm w \<noteq> ri \<or> call \<noteq> Delete_authenticator p \<Longrightarrow>
    later_keeping ri p st (working (after_call call w))"
| elsewhere: "later_keeping ri p st st' \<Longrightarrow> st_totp st'' = st_totp st' \<Longrightarrow> later_keeping ri p st st''"

definition past_step :: "uuid \<Rightarrow> uuid \<Rightarrow> int \<Rightarrow> state \<Rightarrow> bool" where
  "past_step ri p n st \<longleftrightarrow>
     (\<exists>a k. st_totp st (ri, p) = Some a \<and> totp_confirmed_at a \<noteq> None \<and> totp_last_step a = Some k \<and> n \<le> k)"

lemmas storing = writing_def reading_def and_then_def refuse_in_snapshot_def record_refusal_def Let_def

lemma past_step_call:
  assumes "past_step ri p n (working w)" and "uow_realm w \<noteq> ri \<or> call \<noteq> Delete_authenticator p"
  shows "past_step ri p n (working (after_call call w))"
proof (cases call)
  case (Write_pending a)
  with assms show ?thesis
    by (auto simp: past_step_def store_write_pending_totp_def storing uow_realm_def is_some_and_def split: option.splits)
next
  case (Accept_step i judged step used_for t)
  with assms show ?thesis
    by (fastforce simp: past_step_def store_accept_totp_step_def accepts_step_def storing uow_realm_def is_some_and_def
        split: option.splits)
next
  case (Read_authenticator i)
  with assms show ?thesis by (simp add: store_read_totp_def storing)
next
  case (Delete_authenticator i)
  with assms show ?thesis by (auto simp: past_step_def store_delete_totp_def storing uow_realm_def)
qed

lemma past_step_later: "later_keeping ri p st st' \<Longrightarrow> past_step ri p n st \<Longrightarrow> past_step ri p n st'"
proof (induction rule: later_keeping.induct)
  case (elsewhere st' st'')
  then show ?case by (simp add: past_step_def)
qed (simp_all add: past_step_call)

text \<open>
  C16: a code is accepted once. Once a step of a code was accepted for a person, no later call accepts
  that step, or an earlier one, while the person keeps that authenticator application: not after
  other steps were accepted or refused, not after another enrollment was tried, not from another
  browser, not for another use, not with another secret judged.
\<close>

theorem codes_are_accepted_once:
  assumes "store_accept_totp_step p sealed n used_for t w = (Ok True, w')"
    and "later_keeping (uow_realm w) p (working w') (working v)" and "uow_realm v = uow_realm w" and "m \<le> n"
  shows "fst (store_accept_totp_step p sealed' m used_for' t' v) \<noteq> Ok True"
proof -
  have "past_step (uow_realm w) p n (working w')"
    using assms(1) by (auto simp: past_step_def store_accept_totp_step_def storing uow_realm_def split: if_splits option.splits)
  from past_step_later [OF assms(2) this] obtain a k where "st_totp (working v) (uow_realm v, p) = Some a"
      "totp_last_step a = Some k" "n \<le> k"
    using assms(3) by (auto simp: past_step_def)
  with assms(4) show ?thesis
    by (auto simp: store_accept_totp_step_def accepts_step_def storing uow_realm_def split: if_splits)
qed

definition sample_authenticator :: totp_authenticator where
  "sample_authenticator = \<lparr>totp_person = 3, totp_sealed_secret = ''sealed'', totp_confirmed_at = Some 0,
     totp_last_step = Some 40, totp_created_at = 0\<rparr>"

definition sample_totp_work :: unit_of_work where
  "sample_totp_work = \<lparr>uow_scope = \<lparr>scope_tenant = 1, scope_realm = 2\<rparr>,
     working = empty_state\<lparr>st_totp := [(2, 3) \<mapsto> sample_authenticator]\<rparr>, failed = False, read_only = False\<rparr>"

theorem codes_are_accepted_once_witness:
  "fst (store_accept_totp_step 3 ''sealed'' 41 Totp_sign_in 9 sample_totp_work) = Ok True \<and>
   fst (store_accept_totp_step 3 ''sealed'' 41 Totp_sign_in 9
     (after_call (Write_pending sample_authenticator) (after_call (Accept_step 3 ''other'' 50 Totp_sign_in 9)
       (snd (store_accept_totp_step 3 ''sealed'' 41 Totp_sign_in 9 sample_totp_work))))) \<noteq> Ok True"
proof -
  let ?run = "store_accept_totp_step 3 ''sealed'' 41 Totp_sign_in 9 sample_totp_work"
  let ?v = "after_call (Write_pending sample_authenticator) (after_call (Accept_step 3 ''other'' 50 Totp_sign_in 9) (snd ?run))"
  have accepted: "fst ?run = Ok True"
    by (simp add: store_accept_totp_step_def storing
        accepts_step_def uow_realm_def sample_totp_work_def sample_authenticator_def)
  then have run: "?run = (Ok True, snd ?run)" by (metis prod.collapse)
  have "uow_realm ?v = uow_realm sample_totp_work"
    by (simp add: store_accept_totp_step_def store_write_pending_totp_def storing uow_realm_def split: option.split)
  moreover have "later_keeping (uow_realm sample_totp_work) 3 (working (snd ?run)) (working ?v)"
    by (rule later_keeping.call, rule later_keeping.call, rule later_keeping.now) simp_all
  ultimately show ?thesis
    using codes_are_accepted_once [OF run, of ?v 41] accepted by blast
qed

end
