(* ===== verification/Brake.thy ===== *)
theory Brake
  imports Login_Store Provisioning
begin

text \<open>
  The brake on guesses (\<open>saffui-core/src/login/throttle.rs\<close>), the marks browsers keep
  (\<open>login/device.rs\<close>) and the lifting of a lock (\<open>login/unlock.rs\<close>): every operation of the three
  files. The lemmas show that a lock an administrator lifts is said in the chain, and that every
  lock ends a day after the last failure that was counted.
\<close>

subsection \<open>Addresses\<close>

text \<open>\<open>std::net::IpAddr\<close>: the four bytes of an IPv4 address, the eight segments of an IPv6 one.\<close>

datatype ip_addr = V4 nat nat nat nat | V6 nat nat nat nat nat nat nat nat

text \<open>\<open>IpAddr::to_canonical\<close>: an IPv4 address written as IPv6 is itself.\<close>

fun to_canonical :: "ip_addr \<Rightarrow> ip_addr" where
  "to_canonical (V4 a b c d) = V4 a b c d"
| "to_canonical (V6 a b c d e f g h) =
     (if a = 0 \<and> b = 0 \<and> c = 0 \<and> d = 0 \<and> e = 0 \<and> f = 0xffff
      then V4 (g div 256) (g mod 256) (h div 256) (h mod 256)
      else V6 a b c d e f g h)"

definition hex_digit :: "nat \<Rightarrow> char" where
  "hex_digit n = (if n < 10 then char_of (48 + n) else char_of (87 + n))"

text \<open>\<open>{:x}\<close>\<close>

fun show_hex_lower :: "nat \<Rightarrow> string" where
  "show_hex_lower n = (if n < 16 then [hex_digit n] else show_hex_lower (n div 16) @ [hex_digit (n mod 16)])"

declare show_hex_lower.simps [simp del]

definition write_address_bucket :: "ip_addr \<Rightarrow> string" where
  "write_address_bucket address =
     (case to_canonical address of
        V6 a b c d _ _ _ _ \<Rightarrow> show_hex_lower a @ '':'' @ show_hex_lower b @ '':'' @ show_hex_lower c @ '':'' @ show_hex_lower d @ ''::/64''
      | V4 a b c d \<Rightarrow> show_nat a @ ''.'' @ show_nat b @ ''.'' @ show_nat c @ ''.'' @ show_nat d)"

definition write_network_bucket :: "ip_addr \<Rightarrow> string option" where
  "write_network_bucket address =
     (case to_canonical address of
        V6 a b c _ _ _ _ _ \<Rightarrow> Some (show_hex_lower a @ '':'' @ show_hex_lower b @ '':'' @ show_hex_lower c @ ''::/48'')
      | V4 _ _ _ _ \<Rightarrow> None)"

subsection \<open>Buckets of time\<close>

definition BUCKET_SECONDS :: int where "BUCKET_SECONDS = 300"
definition MAX_RECENT_FAILURES :: nat where "MAX_RECENT_FAILURES = 5"
definition MAX_RECENT_ATTEMPTS_PER_ADDRESS :: nat where "MAX_RECENT_ATTEMPTS_PER_ADDRESS = 30"
definition MAX_RECENT_ATTEMPTS_PER_BROWSER :: nat where "MAX_RECENT_ATTEMPTS_PER_BROWSER = 30"
definition MAX_RECENT_FAILURES_PER_NAME :: nat where "MAX_RECENT_FAILURES_PER_NAME = 50"
definition LONG_BUCKET_SECONDS :: int where "LONG_BUCKET_SECONDS = 3600"
definition LONG_WINDOW_BUCKETS :: int where "LONG_WINDOW_BUCKETS = 24"
definition MAX_DAILY_FAILURES :: nat where "MAX_DAILY_FAILURES = 100"
definition MAX_DAILY_FAILURES_PER_BROWSER :: nat where "MAX_DAILY_FAILURES_PER_BROWSER = 20"
definition MAX_PENDING_SIGN_INS_PER_ADDRESS :: nat where "MAX_PENDING_SIGN_INS_PER_ADDRESS = 60"

text \<open>
  \<open>OffsetDateTime::from_unix_timestamp\<close>: the instants of the years -9999 to 9999 only.
\<close>

definition from_unix_timestamp :: "int \<Rightarrow> instant option" where
  "from_unix_timestamp seconds =
     (if -377705116800 \<le> seconds \<and> seconds \<le> 253402300799 then Some (seconds * 1000000000) else None)"

definition start_of :: "int \<Rightarrow> instant \<Rightarrow> instant" where
  "start_of width t =
     (let seconds = unix_timestamp t in
      case from_unix_timestamp (seconds - seconds mod width) of None \<Rightarrow> t | Some start \<Rightarrow> start)"

definition start_bucket :: "instant \<Rightarrow> instant" where
  "start_bucket t = start_of BUCKET_SECONDS t"

definition start_long_bucket :: "instant \<Rightarrow> instant" where
  "start_long_bucket t = start_of LONG_BUCKET_SECONDS t"

definition start_long_window :: "instant \<Rightarrow> instant" where
  "start_long_window t = start_long_bucket t - LONG_BUCKET_SECONDS * (LONG_WINDOW_BUCKETS - 1) * 1000000000"

definition start_window :: "instant \<Rightarrow> instant" where
  "start_window t = start_bucket t - BUCKET_SECONDS * 1000000000"

definition is_locked :: "nat \<Rightarrow> bool" where
  "is_locked recent \<longleftrightarrow> recent \<ge> MAX_RECENT_FAILURES"

subsection \<open>What is counted under\<close>

text \<open>\<open>Uuid::as_bytes\<close> and \<open>i64::to_be_bytes\<close>: big-endian bytes.\<close>

definition be_bytes :: "nat \<Rightarrow> nat \<Rightarrow> bytes" where
  "be_bytes width n = map (\<lambda>k. char_of (n div 256 ^ (width - 1 - k) mod 256)) [0..<width]"

definition uuid_bytes :: "uuid \<Rightarrow> bytes" where
  "uuid_bytes i = be_bytes 16 i"

definition i64_bytes :: "int \<Rightarrow> bytes" where
  "i64_bytes i = be_bytes 8 (nat (i mod 2 ^ 64))"

definition digest_written :: "app \<Rightarrow> realm_scope \<Rightarrow> bytes \<Rightarrow> failure + bytes" where
  "digest_written app scope written =
     or_crypto_unavailable (app_digest_typed_name app (scope_tenant scope) (scope_realm scope) written)"

definition write_counter :: "nat \<Rightarrow> bytes list \<Rightarrow> bytes" where
  "write_counter kind parts = char_of kind # concat (map (\<lambda>part. part @ [char_of (0 :: nat)]) parts)"

definition digest_counter :: "app \<Rightarrow> realm_scope \<Rightarrow> nat \<Rightarrow> bytes list \<Rightarrow> failure + bytes" where
  "digest_counter app scope kind parts = digest_written app scope (write_counter kind parts)"

definition digest_name_locks :: "app \<Rightarrow> realm_scope \<Rightarrow> string \<Rightarrow> failure + (bytes \<times> bytes)" where
  "digest_name_locks app scope typed =
     (case digest_counter app scope 1 [typed] of Err e \<Rightarrow> Err e | Ok name \<Rightarrow>
     (case digest_counter app scope 5 [typed] of Err e \<Rightarrow> Err e | Ok today \<Rightarrow> Ok (name, today)))"

record browser_counters =
  counted_device :: uuid
  browser_attempts :: bytes
  browser_recent :: bytes
  browser_today :: bytes

record brake =
  brake_name :: bytes
  brake_name_today :: bytes
  brake_address :: "bytes option"
  brake_address_and_name :: "bytes option"
  brake_browser :: "browser_counters option"

definition brake_of :: "app \<Rightarrow> realm_scope \<Rightarrow> string \<Rightarrow> ip_addr option \<Rightarrow> failure + brake" where
  "brake_of app scope typed caller =
     (let address = map_option write_address_bucket caller in
      case digest_name_locks app scope typed of Err e \<Rightarrow> Err e | Ok (name, today) \<Rightarrow>
      (case transpose_option (map_option (\<lambda>a. digest_counter app scope 2 [a]) address) of Err e \<Rightarrow> Err e | Ok by_address \<Rightarrow>
      (case transpose_option (map_option (\<lambda>a. digest_counter app scope 3 [a, typed]) address) of Err e \<Rightarrow> Err e | Ok by_both \<Rightarrow>
       Ok \<lparr>brake_name = name, brake_name_today = today, brake_address = by_address,
           brake_address_and_name = by_both, brake_browser = None\<rparr>)))"

definition count_browser_apart :: "app \<Rightarrow> realm_scope \<Rightarrow> string \<Rightarrow> uuid \<Rightarrow> brake \<Rightarrow> failure + brake" where
  "count_browser_apart app scope typed device b =
     (case digest_counter app scope 10 [uuid_bytes device] of Err e \<Rightarrow> Err e | Ok attempts \<Rightarrow>
     (case digest_counter app scope 6 [uuid_bytes device, typed] of Err e \<Rightarrow> Err e | Ok recent \<Rightarrow>
     (case digest_counter app scope 7 [uuid_bytes device, typed] of Err e \<Rightarrow> Err e | Ok today \<Rightarrow>
      Ok (b\<lparr>brake_browser := Some \<lparr>counted_device = device, browser_attempts = attempts, browser_recent = recent,
          browser_today = today\<rparr>\<rparr>))))"

subsection \<open>The brake\<close>

definition admit :: "brake \<Rightarrow> instant \<Rightarrow> unit use_case" where
  "admit b t =
     (case (case brake_browser b of
              Some browser \<Rightarrow> (Some (browser_attempts browser), MAX_RECENT_ATTEMPTS_PER_BROWSER)
            | None \<Rightarrow> (brake_address b, MAX_RECENT_ATTEMPTS_PER_ADDRESS)) of
        (None, _) \<Rightarrow> ret ()
      | (Some counter, most) \<Rightarrow>
          and_then (on_work (store_count_login_failures counter (start_window t))) (\<lambda>counted.
          and_then (ensure (counted < most) (new_failure HashingBusy)) (\<lambda>_.
          on_work (store_record_login_failure counter (start_bucket t)))))"

definition is_name_locked :: "brake \<Rightarrow> instant \<Rightarrow> bool use_case" where
  "is_name_locked b t =
     (let window = start_window t; day = start_long_window t in
      case brake_browser b of
        Some browser \<Rightarrow>
          and_then (on_work (store_count_login_failures (browser_recent browser) window)) (\<lambda>recent.
          if is_locked recent then ret True
          else and_then (on_work (store_count_login_failures (browser_today browser) day)) (\<lambda>today.
            ret (today \<ge> MAX_DAILY_FAILURES_PER_BROWSER)))
      | None \<Rightarrow>
          and_then (on_work (store_count_login_failures (brake_name b) window)) (\<lambda>for_the_name.
          and_then (on_work (store_count_login_failures (brake_name_today b) day)) (\<lambda>today.
          and_then
            (case brake_address_and_name b of
               Some by_both \<Rightarrow>
                 and_then (on_work (store_count_login_failures by_both window)) (\<lambda>from_there.
                 ret (is_locked from_there \<or> for_the_name \<ge> MAX_RECENT_FAILURES_PER_NAME))
             | None \<Rightarrow> ret (is_locked for_the_name)) (\<lambda>recently.
          ret (recently \<or> today \<ge> MAX_DAILY_FAILURES)))))"

definition record_failure :: "brake \<Rightarrow> instant \<Rightarrow> unit use_case" where
  "record_failure b t =
     (let bucket = start_bucket t; hour = start_long_bucket t in
      and_then (on_work (store_record_login_failure (brake_name_today b) hour)) (\<lambda>_.
      case brake_browser b of
        Some browser \<Rightarrow>
          and_then (on_work (store_record_login_failure (browser_recent browser) bucket)) (\<lambda>_.
          on_work (store_record_login_failure (browser_today browser) hour))
      | None \<Rightarrow>
          and_then (on_work (store_record_login_failure (brake_name b) bucket)) (\<lambda>_.
          case brake_address_and_name b of
            Some by_both \<Rightarrow> on_work (store_record_login_failure by_both bucket)
          | None \<Rightarrow> ret ())))"

definition forget_browser_failures :: "brake \<Rightarrow> unit use_case" where
  "forget_browser_failures b =
     (case brake_browser b of
        None \<Rightarrow> ret ()
      | Some browser \<Rightarrow>
          and_then (on_work (store_forget_login_failures (browser_recent browser))) (\<lambda>_.
          on_work (store_forget_login_failures (browser_today browser))))"

subsection \<open>Marks of browsers\<close>

definition DEVICE_MARK_LIFETIME :: duration where
  "DEVICE_MARK_LIFETIME = 90 * 24 * 60 * 60 * 1000000000"

definition MARK_KIND :: nat where "MARK_KIND = 8"
definition MOST_MARKS :: nat where "MOST_MARKS = 4"
definition MOST_BROWSERS_PER_PERSON :: nat where "MOST_BROWSERS_PER_PERSON = 10"

record device_mark =
  mark_device :: uuid
  mark_expires_at :: int
  mark_mac :: bytes

text \<open>\<open>str::parse::<i64>\<close> of a text that is all digits.\<close>

definition parse_i64 :: "string \<Rightarrow> int option" where
  "parse_i64 text =
     (if text = [] then None
      else let n = foldl (\<lambda>acc c. acc * 10 + (of_char c - 48)) (0 :: int) text in
        if n \<le> 2 ^ 63 - 1 then Some n else None)"

definition write_mark :: "app \<Rightarrow> device_mark \<Rightarrow> string" where
  "write_mark app m =
     show_int (mark_expires_at m) @ ''.'' @ app_uuid_text app (mark_device m) @ ''.'' @ app_base64_encode app (mark_mac m)"

definition parse_mark :: "app \<Rightarrow> string \<Rightarrow> device_mark option" where
  "parse_mark app cookie =
     (case split_at CHR ''.'' cookie of
        [expires, device, mac] \<Rightarrow>
          if \<not> list_all is_ascii_digit expires then None
          else (case app_base64_decode app mac of
                  None \<Rightarrow> None
                | Some decoded \<Rightarrow>
                    if length decoded \<noteq> 32 then None
                    else (case app_uuid_parse app device of
                            None \<Rightarrow> None
                          | Some i \<Rightarrow> map_option (\<lambda>e. \<lparr>mark_device = i, mark_expires_at = e, mark_mac = decoded\<rparr>)
                              (parse_i64 expires)))
      | _ \<Rightarrow> None)"

definition compute_mark_mac :: "app \<Rightarrow> realm_scope \<Rightarrow> string \<Rightarrow> uuid \<Rightarrow> int \<Rightarrow> failure + bytes" where
  "compute_mark_mac app scope typed device expires =
     digest_written app scope
       (char_of MARK_KIND # typed @ [char_of (0 :: nat)] @ uuid_bytes device @ i64_bytes expires)"

definition read_device_marks :: "app \<Rightarrow> string \<Rightarrow> device_mark list" where
  "read_device_marks app cookie = List.map_filter (parse_mark app) (take MOST_MARKS (split_at CHR ''~'' cookie))"

fun join_with :: "string \<Rightarrow> string list \<Rightarrow> string" where
  "join_with sep [] = []"
| "join_with sep [x] = x"
| "join_with sep (x # y # ys) = x @ sep @ join_with sep (y # ys)"

definition write_device_marks :: "app \<Rightarrow> device_mark list \<Rightarrow> string" where
  "write_device_marks app marks = join_with ''~'' (map (write_mark app) marks)"

definition keep_device_marks :: "device_mark \<Rightarrow> device_mark list \<Rightarrow> instant \<Rightarrow> device_mark list" where
  "keep_device_marks new presented t =
     new # take (MOST_MARKS - 1)
       (filter (\<lambda>m. mark_device m \<noteq> mark_device new \<and> mark_expires_at m > unix_timestamp t) presented)"

definition issue_device_mark :: "app \<Rightarrow> realm_scope \<Rightarrow> string \<Rightarrow> uuid option \<Rightarrow> device_mark use_case" where
  "issue_device_mark app scope typed given =
     and_then (case given of Some device \<Rightarrow> ret device | None \<Rightarrow> mint_id app) (\<lambda>device.
     and_then (now app) (\<lambda>t.
     let expires = unix_timestamp (t + DEVICE_MARK_LIFETIME) in
     and_then (lift_result (compute_mark_mac app scope typed device expires)) (\<lambda>mac.
     ret \<lparr>mark_device = device, mark_expires_at = expires, mark_mac = mac\<rparr>)))"

definition recognize_device_mark :: "app \<Rightarrow> realm_scope \<Rightarrow> device_mark \<Rightarrow> string \<Rightarrow> instant \<Rightarrow> failure + bool" where
  "recognize_device_mark app scope m typed t =
     (case compute_mark_mac app scope typed (mark_device m) (mark_expires_at m) of
        Err e \<Rightarrow> Err e
      | Ok expected \<Rightarrow> Ok (app_equal app (mark_mac m) expected \<and> mark_expires_at m > unix_timestamp t))"

fun prove_each :: "app \<Rightarrow> realm_scope \<Rightarrow> string \<Rightarrow> instant \<Rightarrow> device_mark list \<Rightarrow> failure + uuid list" where
  "prove_each app scope typed t [] = Ok []"
| "prove_each app scope typed t (m # ms) =
     (case recognize_device_mark app scope m typed t of
        Err e \<Rightarrow> Err e
      | Ok recognized \<Rightarrow> map_sum id (\<lambda>rest. if recognized then mark_device m # rest else rest) (prove_each app scope typed t ms))"

definition prove_device_marks :: "app \<Rightarrow> realm_scope \<Rightarrow> device_mark list \<Rightarrow> string \<Rightarrow> instant \<Rightarrow> failure + uuid list" where
  "prove_device_marks app scope marks typed t = prove_each app scope typed t (take MOST_MARKS marks)"

definition find_known_browser :: "uuid list \<Rightarrow> person option \<Rightarrow> instant \<Rightarrow> uuid option use_case" where
  "find_known_browser proven p t =
     (case p of
        None \<Rightarrow> ret None
      | Some who \<Rightarrow>
          if proven = [] then ret None
          else and_then (on_work (store_read_live_browsers proven t)) (\<lambda>live.
            ret (find (\<lambda>device. list_ex (\<lambda>kept. browser_device kept = device \<and> browser_person kept = person_id who) live)
              proven)))"

subsection \<open>Sign-ins left waiting, and locks lifted\<close>

definition waiting_counter :: "uuid option \<Rightarrow> ip_addr option \<Rightarrow> bytes option" where
  "waiting_counter kept caller =
     (case kept of
        Some device \<Rightarrow> Some (char_of (11 :: nat) # uuid_bytes device)
      | None \<Rightarrow> map_option (\<lambda>address. char_of (4 :: nat) # write_address_bucket address @ [char_of (0 :: nat)]) caller)"

definition admit_pending_sign_in :: "app \<Rightarrow> ip_addr option \<Rightarrow> device_mark list \<Rightarrow> unit use_case" where
  "admit_pending_sign_in app caller known_browsers =
     and_then (now app) (\<lambda>t.
     let devices = map mark_device (take MOST_MARKS known_browsers) in
     and_then (if devices = [] then ret [] else on_work (store_read_live_browsers devices t)) (\<lambda>live.
     let kept = find (\<lambda>device. list_ex (\<lambda>b. browser_device b = device) live) devices in
     (case waiting_counter kept caller of
        None \<Rightarrow> ret ()
      | Some written \<Rightarrow>
          and_then work_scope (\<lambda>scope.
          and_then (lift_result (digest_written app scope written)) (\<lambda>counter.
          and_then (on_work (store_count_login_failures counter (start_window t))) (\<lambda>counted.
          and_then (ensure (counted < MAX_PENDING_SIGN_INS_PER_ADDRESS) (new_failure SignInRequestsTooFrequent)) (\<lambda>_.
          on_work (store_record_login_failure counter (start_bucket t)))))))))"

definition unlock_person :: "app \<Rightarrow> realm_scope \<Rightarrow> string \<Rightarrow> string \<Rightarrow> unit use_case" where
  "unlock_person app scope typed unlocked_by =
     and_then (lift_result (map_sum (\<lambda>_. new_failure PersonNotFound) id (normalize_username typed))) (\<lambda>username.
     and_then (begin_work scope) (\<lambda>_.
     and_then (on_work (store_read_person_by_username username)) (\<lambda>found.
     and_then (lift_result (ok_or (new_failure PersonNotFound) found)) (\<lambda>p.
     and_then (lift_result (digest_name_locks app scope (person_username p))) (\<lambda>(name, today).
     and_then (on_work (store_forget_login_failures name)) (\<lambda>_.
     and_then (on_work (store_forget_login_failures today)) (\<lambda>_.
     and_then (record_event app PersonUnlocked (json_object
         [(''person_id'', JString (app_uuid_text app (person_id p))),
          (''actor'', json_object [(''client_id'', JString unlocked_by)])])) (\<lambda>_.
     commit))))))))"

lemma silent_login_failures [silent_intro]:
  "silent (store_record_login_failure digest bucket)" "silent (store_forget_login_failures digest)"
  unfolding store_record_login_failure_def store_forget_login_failures_def
  by (auto intro!: silent_writing)

lemma silent_login_reads [silent_intro]:
  "silent (store_read_person_by_username name)" "silent (store_count_login_failures digest since)"
  unfolding store_read_person_by_username_def store_count_login_failures_def by (intro silent_intro)+

interpretation lock_lifting: audited_use_case "unlock_person app scope typed unlocked_by" "scope_realm scope"
  for app scope typed unlocked_by
  unfolding unlock_person_def
  by (rule audited_by_phases)
    (rule phase_moves | rule phase_steps | rule leads_case_prod | intro steady_intro silent_intro)+

subsection \<open>Properties\<close>

text \<open>The windows of the brake start later than their length ago.\<close>

lemma start_of_later: "0 < width \<Longrightarrow> t - width * 1000000000 < start_of width t"
proof -
  assume "0 < width"
  then have "unix_timestamp t mod width < width" by simp
  moreover have "t < unix_timestamp t * 1000000000 + 1000000000" by (simp add: unix_timestamp_def)
  ultimately have "t - width * 1000000000 < (unix_timestamp t - unix_timestamp t mod width) * 1000000000"
    by (simp add: left_diff_distrib)
  with \<open>0 < width\<close> show ?thesis
    by (auto simp: start_of_def from_unix_timestamp_def Let_def)
qed

lemma windows_later: "t - 86400000000000 < start_long_window t" "t - 86400000000000 < start_window t"
  using start_of_later [of LONG_BUCKET_SECONDS t] start_of_later [of BUCKET_SECONDS t]
  by (simp_all add: start_long_window_def start_window_def start_long_bucket_def start_bucket_def
      LONG_BUCKET_SECONDS_def LONG_WINDOW_BUCKETS_def BUCKET_SECONDS_def)

lemma none_counted:
  assumes "\<And>owner digest bucket n. ((owner, digest, bucket), n) \<in> set (st_login_failures (working w)) \<Longrightarrow> bucket < since"
  shows "sum_list (map snd (filter (\<lambda>((owner, known_digest, bucket), _).
       owner = uow_realm w \<and> known_digest = counter \<and> bucket \<ge> since) (st_login_failures (working w)))) = 0"
  using assms by (force simp: filter_empty_conv split_beta)

text \<open>
  C17: every lock ends. A day after the last failure that was counted, whoever failed, from
  wherever and however often, no name is locked: not for a browser counted apart, not for an
  address, not for the day, and asking changes nothing.
\<close>

theorem locks_end:
  assumes "opened s = Some w"
    and "\<And>owner digest bucket n. ((owner, digest, bucket), n) \<in> set (st_login_failures (working w)) \<Longrightarrow> bucket \<le> newest"
    and "newest + 24 * 60 * 60 * 1000000000 \<le> t"
  shows "is_name_locked b t s = (Ok False, s)"
proof -
  have none: "sum_list (map snd (filter (\<lambda>((owner, known_digest, bucket), _).
      owner = uow_realm w \<and> known_digest = counter \<and> bucket \<ge> since) (st_login_failures (working w)))) = 0"
    if "since = start_window t \<or> since = start_long_window t" for counter since
    using windows_later [of t] assms(3) that by (intro none_counted) (auto dest!: assms(2))
  have "wp (is_name_locked b t) (\<lambda>locked u. \<not> locked \<and> u = s) (\<lambda>_ _. False) s"
    using assms(1)
    by (auto simp: is_name_locked_def store_count_login_failures_def wp_on_work_reading [OF assms(1)] none is_locked_def
        MAX_RECENT_FAILURES_def MAX_DAILY_FAILURES_def MAX_DAILY_FAILURES_PER_BROWSER_def MAX_RECENT_FAILURES_PER_NAME_def
        Let_def split: option.split)
  then show ?thesis by (auto simp: wp_def split: prod.splits sum.splits)
qed

theorem locks_end_witness:
  "is_name_locked \<lparr>brake_name = ''ada'', brake_name_today = ''today'', brake_address = None, brake_address_and_name = None,
       brake_browser = None\<rparr> (10 ^ 15)
     (sample_ctx\<lparr>opened := Some (sample_totp_work\<lparr>working := empty_state\<lparr>st_login_failures := [((2, ''ada'', 0), 99)]\<rparr>\<rparr>)\<rparr>) =
   (Ok False, sample_ctx\<lparr>opened := Some (sample_totp_work\<lparr>working := empty_state\<lparr>st_login_failures := [((2, ''ada'', 0), 99)]\<rparr>\<rparr>)\<rparr>)"
  by (rule locks_end [where newest = 0]) auto

end
