(* ===== verification/Sign_In.thy ===== *)
theory Sign_In
  imports Brake
begin

text \<open>
  Signing a person in: the step of the password (\<open>saffui-core/src/login/steps/password.rs\<close>), of a
  one-time code (\<open>steps/totp.rs\<close>) and of a security key (\<open>steps/webauthn.rs\<close>), and the flow that
  opens the session (\<open>login/flow.rs\<close>). Every call that reads, counts or commits is in the order of
  the code; a unit of work the code drops before it commits is one the next call replaces.
\<close>

subsection \<open>The password\<close>

record proven_password =
  proven_person :: person
  proven_typed :: string
  proven_brake :: brake

text \<open>What is known of an attempt before anything is hashed: who, whether the name is locked, the hash kept.\<close>

definition read_attempt ::
    "app \<Rightarrow> realm_scope \<Rightarrow> string \<Rightarrow> string option \<Rightarrow> uuid list \<Rightarrow> brake \<Rightarrow> instant \<Rightarrow>
     (person option \<times> bool \<times> string option \<times> brake) use_case" where
  "read_attempt app scope typed username proven b t =
     and_then (begin_work scope) (\<lambda>_.
     and_then (case username of None \<Rightarrow> ret None | Some name \<Rightarrow> on_work (store_read_person_by_username name)) (\<lambda>found.
     and_then (find_known_browser proven found t) (\<lambda>device.
     and_then (case device of None \<Rightarrow> ret b | Some d \<Rightarrow> lift_result (count_browser_apart app scope typed d b)) (\<lambda>b.
     and_then (admit b t) (\<lambda>_.
     and_then (is_name_locked b t) (\<lambda>locked.
     let p = (if locked then None else found) in
     and_then (on_work (store_read_password (case p of None \<Rightarrow> 0 | Some who \<Rightarrow> person_id who))) (\<lambda>stored.
     and_then commit (\<lambda>_.
     ret (p, locked, stored, b)))))))))"

definition verify_name_and_password ::
    "app \<Rightarrow> realm_scope \<Rightarrow> string \<Rightarrow> bytes \<Rightarrow> ip_addr option \<Rightarrow> device_mark list \<Rightarrow> proven_password use_case" where
  "verify_name_and_password app scope typed_name password caller known_browsers =
     (let username = (case normalize_username typed_name of Err _ \<Rightarrow> None | Ok name \<Rightarrow> Some name) in
      if length password > PASSWORD_MAX_BYTES then throw (new_failure SignInFailed)
      else
        let typed = app_lowercase app (trim typed_name);
            network = Option.bind caller write_network_bucket in
        and_then (lift_result (brake_of app scope typed caller)) (\<lambda>b s.
          if \<not> has_free_hasher app (scope_realm scope) network s then (Err (new_failure HashingBusy), s)
          else
            and_then (now app) (\<lambda>t.
            and_then (lift_result (prove_device_marks app scope known_browsers typed t)) (\<lambda>proven.
            and_then (read_attempt app scope typed username proven b t) (\<lambda>(p, locked, stored, b).
            and_then (ensure (\<not> locked) (new_failure SignInFailed)) (\<lambda>_.
            and_then (case stored of Some hash \<Rightarrow> ret hash | None \<Rightarrow> read_decoy_hash app) (\<lambda>against.
            and_then (holding_hasher app (scope_realm scope) network (verify_password app password against)) (\<lambda>verified.
            case filter_option (\<lambda>who. verified \<and> person_enabled who) p of
              Some who \<Rightarrow> ret \<lparr>proven_person = who, proven_typed = typed, proven_brake = b\<rparr>
            | None \<Rightarrow>
                and_then (begin_work scope) (\<lambda>_.
                and_then (record_failure b t) (\<lambda>_.
                and_then commit (\<lambda>_.
                throw (new_failure SignInFailed)))))))))) s))"

subsection \<open>One-time codes\<close>

definition TOTP_SECRET_PURPOSE :: string where "TOTP_SECRET_PURPOSE = ''totp-secret''"
definition MAX_CODE_FAILURES :: nat where "MAX_CODE_FAILURES = 10"

definition read_secret_place :: "uuid \<Rightarrow> (wrapped_data_key \<times> seal_place) use_case" where
  "read_secret_place p =
     and_then work_scope (\<lambda>scope.
     and_then (on_work store_read_data_key) (\<lambda>found.
     and_then (lift_result (ok_or (crypto_unavailable ''the realm has no data key'') found)) (\<lambda>data_key.
     ret (data_key, \<lparr>place_tenant = scope_tenant scope, place_realm = scope_realm scope,
            place_purpose = TOTP_SECRET_PURPOSE, place_row = p\<rparr>))))"

text \<open>A step is within 64 bits, signed; an instant before the epoch has no step.\<close>

definition accept_code :: "app \<Rightarrow> uuid \<Rightarrow> bytes \<Rightarrow> string \<Rightarrow> totp_use \<Rightarrow> bool use_case" where
  "accept_code app p sealed typed used_for =
     and_then (read_secret_place p) (\<lambda>(data_key, place).
     and_then (lift_result (ok_or (crypto_unavailable ''an authenticator secret does not open where it is stored'')
         (app_open_sealed app data_key place sealed))) (\<lambda>secret.
     and_then (now app) (\<lambda>t.
     if unix_timestamp t < 0 then ret False
     else
       and_then (lift_result (ok_or (crypto_unavailable ''a one-time code cannot be computed'')
           (app_find_totp_step app secret (trim typed) (nat (unix_timestamp t))))) (\<lambda>step.
       case filter_option (\<lambda>n. n < 2 ^ 63) step of
         None \<Rightarrow> ret False
       | Some n \<Rightarrow> on_work (store_accept_totp_step p sealed (int n) used_for t)))))"

text \<open>The brake of a later step: under the name of the person, from the browser the realm keeps for them.\<close>

definition brake_later_step ::
    "app \<Rightarrow> realm_scope \<Rightarrow> person \<Rightarrow> ip_addr option \<Rightarrow> device_mark list \<Rightarrow> (brake \<times> instant) use_case" where
  "brake_later_step app scope p caller known_browsers =
     (let typed = person_username p in
      and_then (lift_result (brake_of app scope typed caller)) (\<lambda>b.
      and_then (now app) (\<lambda>t.
      and_then (lift_result (prove_device_marks app scope known_browsers typed t)) (\<lambda>proven.
      and_then (begin_work scope) (\<lambda>_.
      and_then (find_known_browser proven (Some p) t) (\<lambda>device.
      and_then (case device of None \<Rightarrow> ret b | Some d \<Rightarrow> lift_result (count_browser_apart app scope typed d b)) (\<lambda>b.
      ret (b, t))))))))"

definition judge_code :: "app \<Rightarrow> person \<Rightarrow> string \<Rightarrow> (bool \<times> nat option) use_case" where
  "judge_code app p typed =
     and_then (on_work (store_read_totp (person_id p))) (\<lambda>found.
     case filter_option (\<lambda>a. totp_confirmed_at a \<noteq> None) found of
       None \<Rightarrow> ret (False, None)
     | Some a \<Rightarrow>
         and_then (on_work (store_count_code_attempt (person_id p))) (\<lambda>attempts.
         and_then (if attempts \<le> MAX_CODE_FAILURES
             then accept_code app (person_id p) (totp_sealed_secret a) typed Totp_sign_in else ret False) (\<lambda>accepted.
         ret (accepted, Some attempts))))"

definition verify_code ::
    "app \<Rightarrow> realm_scope \<Rightarrow> person \<Rightarrow> string \<Rightarrow> ip_addr option \<Rightarrow> device_mark list \<Rightarrow> brake use_case" where
  "verify_code app scope p typed caller known_browsers =
     and_then (brake_later_step app scope p caller known_browsers) (\<lambda>(b, t).
     and_then (is_name_locked b t) (\<lambda>locked.
     if locked then and_then commit (\<lambda>_. throw (new_failure CodeRejected))
     else
       and_then (judge_code app p typed) (\<lambda>(accepted, attempts).
       and_then (if accepted then on_work (store_clear_code_attempts (person_id p)) else record_failure b t) (\<lambda>_.
       and_then (if \<not> accepted \<and> attempts = Some MAX_CODE_FAILURES
           then record_event app CodesSuspended (json_object [(''person_id'', JString (app_uuid_text app (person_id p)))])
           else ret ()) (\<lambda>_.
       and_then commit (\<lambda>_.
       if accepted then ret b else throw (new_failure CodeRejected)))))))"

subsection \<open>Security keys\<close>

datatype key_proof_start = No_key_held | Keys_not_served | Proof_started key_ceremony

definition start_key_proof :: "app \<Rightarrow> uuid \<Rightarrow> key_proof_start use_case" where
  "start_key_proof app p =
     and_then (on_work (store_list_security_keys p)) (\<lambda>keys.
     let held = map key_record keys in
     if held = [] then ret No_key_held
     else if \<not> app_keys_served app then ret Keys_not_served
     else
       and_then (drawing (\<lambda>n. ok_or (crypto_unavailable ''a proof by a security key cannot be started'')
           (app_start_proof app n held))) (\<lambda>ceremony.
       ret (Proof_started ceremony)))"

definition judge_key :: "app \<Rightarrow> person \<Rightarrow> bytes \<Rightarrow> json \<Rightarrow> instant \<Rightarrow> key_refusal option use_case" where
  "judge_key app p kept answer t =
     and_then (on_work (store_list_security_keys (person_id p))) (\<lambda>keys.
     case app_finish_proof app kept answer (map key_record keys) of
       Ok proof \<Rightarrow>
         and_then (case find (\<lambda>k. key_credential_id k = proven_credential_id proof) keys of
             Some judged \<Rightarrow> on_work (store_record_key_use judged (proven_record proof) t)
           | None \<Rightarrow> ret False) (\<lambda>recorded.
         ret (if recorded then None else Some Key_refused))
     | Err Key_failed \<Rightarrow> throw (crypto_unavailable ''a proof by a security key cannot be finished'')
     | Err refusal \<Rightarrow> ret (Some refusal))"

definition verify_key ::
    "app \<Rightarrow> realm_scope \<Rightarrow> person \<Rightarrow> bytes \<Rightarrow> json \<Rightarrow> ip_addr option \<Rightarrow> device_mark list \<Rightarrow> brake use_case" where
  "verify_key app scope p kept answer caller known_browsers =
     and_then (brake_later_step app scope p caller known_browsers) (\<lambda>(b, t).
     and_then (is_name_locked b t) (\<lambda>locked.
     if locked then and_then commit (\<lambda>_. throw (new_failure KeyRejected))
     else
       and_then (judge_key app p kept answer t) (\<lambda>refusal.
       and_then (if refusal = None then on_work (store_clear_code_attempts_below (person_id p) MAX_CODE_FAILURES)
           else record_failure b t) (\<lambda>_.
       and_then (if refusal = Some Copy_suspected
           then record_event app KeyCopySuspected (json_object [(''person_id'', JString (app_uuid_text app (person_id p)))])
           else ret ()) (\<lambda>_.
       and_then commit (\<lambda>_.
       if refusal = None then ret b else throw (new_failure KeyRejected)))))))"

subsection \<open>The flow\<close>

record signed_in =
  signed_in_person :: person
  signed_in_session :: uuid
  signed_in_ticket :: session_ticket
  signed_in_mark :: device_mark

record second_factor =
  owing_person :: person
  owes_code :: bool
  owed_key :: "key_ceremony option"

datatype first_step = Signed_in signed_in | Second_factor_required second_factor

definition open_session_for ::
    "app \<Rightarrow> realm_scope \<Rightarrow> person \<Rightarrow> string \<Rightarrow> brake \<Rightarrow> authentication_method list \<Rightarrow> signed_in use_case" where
  "open_session_for app scope p typed b methods =
     and_then (begin_work scope) (\<lambda>_.
     and_then (forget_browser_failures b) (\<lambda>_.
     and_then (issue_device_mark app scope typed (map_option counted_device (brake_browser b))) (\<lambda>m.
     and_then (lift_result (ok_or (new_failure Internal) (from_unix_timestamp (mark_expires_at m)))) (\<lambda>expires.
     and_then (on_work (store_remember_browser
         \<lparr>browser_device = mark_device m, browser_person = person_id p, browser_expires_at = expires\<rparr>
         MOST_BROWSERS_PER_PERSON)) (\<lambda>_.
     and_then (open_session app (person_id p) methods) (\<lambda>(x, ticket).
     and_then (record_event app SessionOpened (json_object
         [(''methods'', json_texts (map method_name methods)),
          (''person_id'', JString (app_uuid_text app (person_id p))),
          (''session_id'', JString (app_uuid_text app (session_id x)))])) (\<lambda>_.
     and_then commit (\<lambda>_.
     ret \<lparr>signed_in_person = p, signed_in_session = session_id x, signed_in_ticket = ticket, signed_in_mark = m\<rparr>))))))))"

definition sign_in_with_password ::
    "app \<Rightarrow> realm_scope \<Rightarrow> string \<Rightarrow> bytes \<Rightarrow> ip_addr option \<Rightarrow> device_mark list \<Rightarrow> first_step use_case" where
  "sign_in_with_password app scope typed_name password caller known_browsers =
     and_then (verify_name_and_password app scope typed_name password caller known_browsers) (\<lambda>proven.
     let p = proven_person proven in
     and_then (begin_work scope) (\<lambda>_.
     and_then (on_work (store_read_totp (person_id p))) (\<lambda>found.
     let owed = is_some_and (\<lambda>a. totp_confirmed_at a \<noteq> None) found in
     and_then (start_key_proof app (person_id p)) (\<lambda>started.
     and_then
       (case started of
          Proof_started ceremony \<Rightarrow> ret (Some ceremony)
        | No_key_held \<Rightarrow> ret None
        | Keys_not_served \<Rightarrow> if owed then ret None else throw (new_failure SecurityKeysNotServed)) (\<lambda>key.
     if owed \<or> key \<noteq> None
     then ret (Second_factor_required \<lparr>owing_person = p, owes_code = owed, owed_key = key\<rparr>)
     else
       and_then (open_session_for app scope p (proven_typed proven) (proven_brake proven) [Password_method]) (\<lambda>done.
       ret (Signed_in done)))))))"

definition read_person_who_owes :: "realm_scope \<Rightarrow> uuid \<Rightarrow> error_code \<Rightarrow> person use_case" where
  "read_person_who_owes scope i refusal =
     and_then (begin_work scope) (\<lambda>_.
     and_then (on_work (store_read_person i)) (\<lambda>found.
     lift_result (ok_or (new_failure refusal) (filter_option person_enabled found))))"

definition finish_sign_in_with_key ::
    "app \<Rightarrow> realm_scope \<Rightarrow> uuid \<Rightarrow> bytes \<Rightarrow> json \<Rightarrow> ip_addr option \<Rightarrow> device_mark list \<Rightarrow> signed_in use_case" where
  "finish_sign_in_with_key app scope i kept answer caller known_browsers =
     and_then (read_person_who_owes scope i KeyRejected) (\<lambda>p.
     and_then (verify_key app scope p kept answer caller known_browsers) (\<lambda>b.
     open_session_for app scope p (person_username p) b [Password_method, SecurityKey_method]))"

definition finish_sign_in_with_code ::
    "app \<Rightarrow> realm_scope \<Rightarrow> uuid \<Rightarrow> string \<Rightarrow> ip_addr option \<Rightarrow> device_mark list \<Rightarrow> signed_in use_case" where
  "finish_sign_in_with_code app scope i typed caller known_browsers =
     and_then (read_person_who_owes scope i CodeRejected) (\<lambda>p.
     and_then (verify_code app scope p typed caller known_browsers) (\<lambda>b.
     open_session_for app scope p (person_username p) b [Password_method, OneTimeCode]))"

end
