(* ===== verification/Enroll.thy ===== *)
theory Enroll
  imports Sign_In Roles
begin

text \<open>
  Setting up and taking away a second factor (\<open>saffui-core/src/login/enroll.rs\<close>): the authenticator
  application and the security keys of a person who is signed in, and what an administrator takes
  away or resumes.
\<close>

datatype enrollment_state = Not_enrolled | Enrollment_pending | Enrolled

record signed_in_person =
  at_realm :: string
  at_scope :: realm_scope
  at_session :: session
  at_holds_factor :: bool
  at_person :: person

definition require_signed_in_person :: "app \<Rightarrow> string \<Rightarrow> session_ticket option \<Rightarrow> signed_in_person use_case" where
  "require_signed_in_person app realm ticket =
     and_then (resolve_realm realm) (\<lambda>(name, scope).
     and_then (begin_work scope) (\<lambda>_.
     and_then (lift_result (ok_or require_session ticket)) (\<lambda>presented.
     and_then (read_proven_session app presented) (\<lambda>found.
     and_then (lift_result (ok_or require_session found)) (\<lambda>r.
     and_then (on_work (store_read_person (session_person (the_session r)))) (\<lambda>who.
     and_then (lift_result (ok_or require_session (filter_option person_enabled who))) (\<lambda>p.
     ret \<lparr>at_realm = name, at_scope = scope, at_session = the_session r,
          at_holds_factor = person_holds_factor r, at_person = p\<rparr>)))))))"

definition refuse_unproven_session :: "session \<Rightarrow> bool \<Rightarrow> failure + unit" where
  "refuse_unproven_session x holds =
     (if \<not> proves_second_factor x \<and> holds then Err (new_failure SecondFactorProofRequired) else Ok ())"

definition require_factor_proof :: "uuid \<Rightarrow> session \<Rightarrow> unit use_case" where
  "require_factor_proof p x =
     and_then (on_work (store_holds_second_factor p)) (\<lambda>holds. lift_result (refuse_unproven_session x holds))"

record closed_sessions =
  sessions_closed :: "uuid list"
  tokens_closed :: nat

definition close_sessions_without_factor :: "app \<Rightarrow> uuid \<Rightarrow> uuid option \<Rightarrow> closed_sessions use_case" where
  "close_sessions_without_factor app p kept =
     and_then (on_work (store_end_sessions_proven_only_by p [Password_method] kept)) (\<lambda>ended.
     let sorted = sort ended in
     and_then (if sorted = [] then ret 0
       else and_then (now app) (\<lambda>t. on_work (store_revoke_refresh_tokens_of_sessions sorted t))) (\<lambda>revoked.
     ret \<lparr>sessions_closed = sorted, tokens_closed = revoked\<rparr>))"

definition describe_enrolled :: "app \<Rightarrow> string \<Rightarrow> uuid \<Rightarrow> session \<Rightarrow> closed_sessions \<Rightarrow> json" where
  "describe_enrolled app kind p x closed = json_object
     [(''kind'', JString kind),
      (''person_id'', JString (app_uuid_text app p)),
      (''session_id'', JString (app_uuid_text app (session_id x))),
      (''ended_session_ids'', json_texts (map (app_uuid_text app) (sessions_closed closed))),
      (''refresh_tokens_revoked'', JNumber (PosInt (tokens_closed closed))),
      (''sessions_ended'', JNumber (PosInt (length (sessions_closed closed))))]"

text \<open>The password proven again, by the person who is signed in and nobody else.\<close>

definition prove_password_again ::
    "app \<Rightarrow> signed_in_person \<Rightarrow> bytes \<Rightarrow> ip_addr option \<Rightarrow> device_mark list \<Rightarrow> unit use_case" where
  "prove_password_again app found password caller known_browsers =
     and_then (verify_name_and_password app (at_scope found) (person_username (at_person found)) password caller
         known_browsers) (\<lambda>proven.
     ensure (person_id (proven_person proven) = person_id (at_person found)) (new_failure SignInFailed))"

subsection \<open>The authenticator application\<close>

definition describe_enrollment :: "app \<Rightarrow> string \<Rightarrow> session_ticket option \<Rightarrow> enrollment_state use_case" where
  "describe_enrollment app realm ticket =
     and_then (require_signed_in_person app realm ticket) (\<lambda>found.
     and_then (on_work (store_read_totp (person_id (at_person found)))) (\<lambda>a.
     ret (case a of
            None \<Rightarrow> Not_enrolled
          | Some k \<Rightarrow> if totp_confirmed_at k = None then Enrollment_pending else Enrolled)))"

definition begin_totp_enrollment :: "app \<Rightarrow> string \<Rightarrow> session_ticket option \<Rightarrow> totp_enrollment_text use_case" where
  "begin_totp_enrollment app realm ticket =
     and_then (require_signed_in_person app realm ticket) (\<lambda>found.
     let p = at_person found in
     and_then (lift_result (refuse_unproven_session (at_session found) (at_holds_factor found))) (\<lambda>_.
     and_then (drawing (\<lambda>n. ok_or (crypto_unavailable ''a one-time secret cannot be made'') (app_make_totp_secret app n))) (\<lambda>secret.
     and_then (read_secret_place (person_id p)) (\<lambda>(data_key, place).
     and_then (drawing (\<lambda>n. ok_or (crypto_unavailable ''a one-time secret cannot be sealed'')
         (app_seal app n data_key place secret))) (\<lambda>sealed.
     and_then (now app) (\<lambda>t.
     and_then (on_work (store_write_pending_totp
         \<lparr>totp_person = person_id p, totp_sealed_secret = sealed, totp_confirmed_at = None, totp_last_step = None,
          totp_created_at = t\<rparr>)) (\<lambda>kept.
     and_then (ensure kept (new_failure AuthenticatorAlreadyEnrolled)) (\<lambda>_.
     and_then commit (\<lambda>_.
     lift_result (ok_or (crypto_unavailable ''a one-time secret cannot be written'')
       (app_write_totp_enrollment app (name_issuer app (at_realm found)) (person_username p) secret)))))))))))"

definition confirm_totp_enrollment ::
    "app \<Rightarrow> string \<Rightarrow> session_ticket option \<Rightarrow> bytes \<Rightarrow> string \<Rightarrow> ip_addr option \<Rightarrow> device_mark list \<Rightarrow> unit use_case" where
  "confirm_totp_enrollment app realm ticket password typed caller known_browsers =
     and_then (require_signed_in_person app realm ticket) (\<lambda>found.
     let p = at_person found; x = at_session found in
     and_then (prove_password_again app found password caller known_browsers) (\<lambda>_.
     and_then (begin_work (at_scope found)) (\<lambda>_.
     and_then (on_work (store_read_totp (person_id p))) (\<lambda>a.
     and_then (lift_result (ok_or (new_failure CodeRejected) a)) (\<lambda>waiting.
     and_then (ensure (totp_confirmed_at waiting = None) (new_failure AuthenticatorAlreadyEnrolled)) (\<lambda>_.
     and_then (require_factor_proof (person_id p) x) (\<lambda>_.
     and_then (accept_code app (person_id p) (totp_sealed_secret waiting) typed Totp_confirmation) (\<lambda>accepted.
     and_then (ensure accepted (new_failure CodeRejected)) (\<lambda>_.
     and_then (on_work (store_clear_code_attempts (person_id p))) (\<lambda>_.
     and_then (close_sessions_without_factor app (person_id p) (Some (session_id x))) (\<lambda>closed.
     and_then (record_event app AuthenticatorEnrolled (describe_enrolled app ''totp'' (person_id p) x closed)) (\<lambda>_.
     commit))))))))))))"

definition remove_totp :: "app \<Rightarrow> admin_caller \<Rightarrow> uuid \<Rightarrow> unit use_case" where
  "remove_totp app caller p =
     and_then (begin_work (caller_scope caller)) (\<lambda>_.
     and_then (on_work (store_delete_totp p)) (\<lambda>deleted.
     and_then (ensure deleted (new_failure AuthenticatorNotFound)) (\<lambda>_.
     and_then (on_work (store_clear_code_attempts p)) (\<lambda>_.
     and_then (record_event app AuthenticatorRemoved (json_object
         [(''actor'', describe_actor caller), (''kind'', JString ''totp''),
          (''person_id'', JString (app_uuid_text app p))])) (\<lambda>_.
     commit)))))"

subsection \<open>Security keys\<close>

definition KEY_ENROLLMENT_LIFETIME :: duration where
  "KEY_ENROLLMENT_LIFETIME = 5 * 60 * 1000000000"

definition MAX_SECURITY_KEYS :: nat where "MAX_SECURITY_KEYS = 10"

definition count_security_keys :: "app \<Rightarrow> string \<Rightarrow> session_ticket option \<Rightarrow> nat use_case" where
  "count_security_keys app realm ticket =
     and_then (require_signed_in_person app realm ticket) (\<lambda>found.
     and_then (on_work (store_list_security_keys (person_id (at_person found)))) (\<lambda>keys.
     ret (length keys)))"

definition begin_key_enrollment ::
    "app \<Rightarrow> string \<Rightarrow> session_ticket option \<Rightarrow> bytes \<Rightarrow> ip_addr option \<Rightarrow> device_mark list \<Rightarrow> json use_case" where
  "begin_key_enrollment app realm ticket password caller known_browsers =
     and_then (require_signed_in_person app realm ticket) (\<lambda>found.
     let p = at_person found in
     and_then (ensure (app_keys_served app) (new_failure SecurityKeysNotServed)) (\<lambda>_.
     and_then (prove_password_again app found password caller known_browsers) (\<lambda>_.
     and_then (begin_work (at_scope found)) (\<lambda>_.
     and_then (require_factor_proof (person_id p) (at_session found)) (\<lambda>_.
     and_then (on_work (store_list_security_keys (person_id p))) (\<lambda>keys.
     let held = map key_record keys in
     and_then (ensure (length held < MAX_SECURITY_KEYS) (new_failure KeyRejected)) (\<lambda>_.
     and_then (drawing (\<lambda>n. ok_or (crypto_unavailable ''the enrollment of a security key cannot be started'')
         (app_start_enrollment app n (person_id p) (person_username p) held))) (\<lambda>ceremony.
     and_then (now app) (\<lambda>t.
     and_then (on_work (store_write_key_enrollment (person_id p) (ceremony_state ceremony) (t + KEY_ENROLLMENT_LIFETIME))) (\<lambda>_.
     and_then commit (\<lambda>_.
     ret (ceremony_options ceremony))))))))))))"

definition judge_enrollment :: "app \<Rightarrow> bytes \<Rightarrow> json \<Rightarrow> enrolled_key use_case" where
  "judge_enrollment app kept answer =
     (case app_finish_enrollment app kept answer of
        Ok enrolled \<Rightarrow> ret enrolled
      | Err Key_failed \<Rightarrow> throw (crypto_unavailable ''the enrollment of a security key cannot be finished'')
      | Err _ \<Rightarrow> throw (new_failure KeyRejected))"

definition finish_key_enrollment :: "app \<Rightarrow> string \<Rightarrow> session_ticket option \<Rightarrow> json \<Rightarrow> unit use_case" where
  "finish_key_enrollment app realm ticket answer =
     and_then (require_signed_in_person app realm ticket) (\<lambda>found.
     let p = at_person found; x = at_session found in
     and_then (now app) (\<lambda>t.
     and_then (on_work (store_take_key_enrollment (person_id p) t)) (\<lambda>taken.
     and_then commit (\<lambda>_.
     and_then (lift_result (ok_or (new_failure KeyRejected) taken)) (\<lambda>kept.
     and_then (judge_enrollment app kept answer) (\<lambda>enrolled.
     and_then (begin_work (at_scope found)) (\<lambda>_.
     and_then (require_factor_proof (person_id p) x) (\<lambda>_.
     and_then (now app) (\<lambda>made.
     and_then (on_work (store_insert_security_key
         \<lparr>key_credential_id = enrolled_credential_id enrolled, key_person = person_id p,
          key_record = enrolled_record enrolled, key_created_at = made, key_last_used_at = None\<rparr>)) (\<lambda>inserted.
     and_then (ensure inserted (new_failure KeyRejected)) (\<lambda>_.
     and_then (close_sessions_without_factor app (person_id p) (Some (session_id x))) (\<lambda>closed.
     and_then (record_event app AuthenticatorEnrolled (describe_enrolled app ''security_key'' (person_id p) x closed)) (\<lambda>_.
     commit)))))))))))))"

definition remove_security_keys :: "app \<Rightarrow> admin_caller \<Rightarrow> uuid \<Rightarrow> unit use_case" where
  "remove_security_keys app caller p =
     and_then (begin_work (caller_scope caller)) (\<lambda>_.
     and_then (on_work (store_delete_security_keys p)) (\<lambda>removed.
     and_then (ensure (removed \<noteq> 0) (new_failure SecurityKeyNotFound)) (\<lambda>_.
     and_then (record_event app AuthenticatorRemoved (json_object
         [(''actor'', describe_actor caller), (''kind'', JString ''security_key''),
          (''keys'', JNumber (PosInt removed)), (''person_id'', JString (app_uuid_text app p))])) (\<lambda>_.
     commit))))"

definition resume_codes :: "app \<Rightarrow> admin_caller \<Rightarrow> uuid \<Rightarrow> unit use_case" where
  "resume_codes app caller p =
     and_then (begin_work (caller_scope caller)) (\<lambda>_.
     and_then (on_work (store_read_person p)) (\<lambda>found.
     and_then (ensure (found \<noteq> None) (new_failure PersonNotFound)) (\<lambda>_.
     and_then (on_work (store_clear_code_attempts p)) (\<lambda>_.
     and_then (record_event app CodesResumed (json_object
         [(''actor'', describe_actor caller), (''person_id'', JString (app_uuid_text app p))])) (\<lambda>_.
     commit)))))"

subsection \<open>What an administrator takes away or resumes is said in the chain\<close>

lemma silent_factor_writes [silent_intro]:
  "silent (store_delete_totp p)" "silent (store_clear_code_attempts p)" "silent (store_delete_security_keys p)"
  unfolding store_delete_totp_def store_clear_code_attempts_def store_delete_security_keys_def
  by (auto intro!: silent_writing simp: Let_def)

interpretation totp_removal: audited_use_case "remove_totp app caller p" "scope_realm (caller_scope caller)"
  for app caller p
  unfolding remove_totp_def
  by (rule audited_by_phases) (rule phase_moves | rule phase_steps | intro steady_intro silent_intro)+

interpretation keys_removal: audited_use_case "remove_security_keys app caller p" "scope_realm (caller_scope caller)"
  for app caller p
  unfolding remove_security_keys_def
  by (rule audited_by_phases) (rule phase_moves | rule phase_steps | intro steady_intro silent_intro)+

interpretation codes_resumption: audited_use_case "resume_codes app caller p" "scope_realm (caller_scope caller)"
  for app caller p
  unfolding resume_codes_def
  by (rule audited_by_phases) (rule phase_moves | rule phase_steps | intro steady_intro silent_intro)+

end
