(* ===== verification/Admin_Plane.thy ===== *)
theory Admin_Plane
  imports Decide Relations Responses Enroll
begin

text \<open>
  The administration plane as it is served: the token a request presents
  (\<open>server/src/extract/bearer.rs\<close>), the guard in front of every handler
  (\<open>server/src/middleware/admin_guard.rs\<close>), every handler under
  \<open>server/src/api/rest/endpoints/admin/\<close>, and the routes with the capability each declares.

  A handler answers whatever comes: it is a function from the state to a response and the state
  after. A body or a query is what the framework read of it, with nothing when it cannot be read.
  The lemmas show that a request the guard refuses changes nothing and is answered by a refusal,
  and that what every handler changes is changed by the use case it calls for the caller the guard
  let through.
\<close>

subsection \<open>Answers\<close>

type_synonym answer = "ctx \<Rightarrow> response \<times> ctx"

definition respond :: "(ctx, 'e, 'a) act \<Rightarrow> ('e \<Rightarrow> response) \<Rightarrow> ('a \<Rightarrow> response) \<Rightarrow> answer" where
  "respond m refuse show = (\<lambda>s. case m s of (Ok x, t) \<Rightarrow> (show x, t) | (Err e, t) \<Rightarrow> (refuse e, t))"

definition answering :: "'a use_case \<Rightarrow> ('a \<Rightarrow> response) \<Rightarrow> answer" where
  "answering m show = respond m render_failure show"

definition refusing :: "failure \<Rightarrow> answer" where
  "refusing e = (\<lambda>s. (render_failure e, s))"

text \<open>An argument the framework extracts: without it the handler is not called.\<close>

definition with_body :: "'a option \<Rightarrow> ('a \<Rightarrow> answer) \<Rightarrow> answer" where
  "with_body read handler = (case read of None \<Rightarrow> (\<lambda>s. (refuse_unreadable, s)) | Some x \<Rightarrow> handler x)"

text \<open>An identifier of a path: what is not written as one names nothing.\<close>

definition with_identifier :: "app \<Rightarrow> string \<Rightarrow> error_code \<Rightarrow> (uuid \<Rightarrow> answer) \<Rightarrow> answer" where
  "with_identifier app written missing handler =
     (case app_uuid_parse app written of None \<Rightarrow> refusing (new_failure missing) | Some i \<Rightarrow> handler i)"

definition created :: "json \<Rightarrow> response" where
  "created v = json_response 201 v"

definition listed_items :: "json list \<Rightarrow> response" where
  "listed_items items = json_response 200 (json_object [(''items'', JArray items)])"

subsection \<open>The guard\<close>

definition read_bearer_token :: "string option \<Rightarrow> string option" where
  "read_bearer_token header =
     (case Option.bind header (split_once CHR '' '') of
        None \<Rightarrow> None
      | Some (scheme, token) \<Rightarrow> if to_ascii_lowercase scheme = ''bearer'' then Some (trim token) else None)"

definition require_capability ::
    "app \<Rightarrow> string \<Rightarrow> string option \<Rightarrow> capability \<Rightarrow> (admin_caller \<Rightarrow> answer) \<Rightarrow> answer" where
  "require_capability app realm header required handler = (\<lambda>s.
     case authorize_admin_call app realm (read_bearer_token header) required s of
       (Ok caller, t) \<Rightarrow> handler caller t
     | (Err e, t) \<Rightarrow> (render_failure e, t))"

subsection \<open>What requests carry\<close>

record grant_terms_body =
  body_valid_from :: "string option"
  body_valid_until :: "string option"
  body_reason :: "string option"

record new_client_body =
  body_client_id :: string
  body_client_name :: "string option"
  body_scopes :: "string list"
  body_capabilities :: "string list"
  body_redirect_uris :: "string list"
  body_post_logout_redirect_uris :: "string list"
  body_public :: bool
  body_consent :: bool

record new_user_body =
  body_username :: string
  body_email :: "string option"
  body_display_name :: "string option"
  body_password :: "string option"

record new_policy_body =
  body_policy_name :: string
  body_resource_type :: string
  body_action :: string
  body_effect :: string
  body_combine :: "string option"
  body_conditions :: json

definition read_term :: "app \<Rightarrow> string option \<Rightarrow> failure + instant option" where
  "read_term app written =
     (case written of
        None \<Rightarrow> Ok None
      | Some text \<Rightarrow> map_sum id Some (ok_or (new_failure GrantPeriodInvalid) (read_instant app text)))"

definition read_terms :: "app \<Rightarrow> grant_terms_body \<Rightarrow> failure + grant_terms" where
  "read_terms app terms =
     (case read_term app (body_valid_from terms) of Err e \<Rightarrow> Err e | Ok from \<Rightarrow>
     (case read_term app (body_valid_until terms) of Err e \<Rightarrow> Err e | Ok until \<Rightarrow>
      Ok \<lparr>terms_valid_from = from, terms_valid_until = until, terms_reason = body_reason terms\<rparr>))"

definition read_identifiers ::
    "app \<Rightarrow> string \<Rightarrow> string \<Rightarrow> error_code \<times> error_code \<Rightarrow> failure + uuid \<times> uuid" where
  "read_identifiers app first second missing =
     (case ok_or (new_failure (fst missing)) (app_uuid_parse app first) of Err e \<Rightarrow> Err e | Ok one \<Rightarrow>
     (case ok_or (new_failure (snd missing)) (app_uuid_parse app second) of Err e \<Rightarrow> Err e | Ok two \<Rightarrow>
      Ok (one, two)))"

text \<open>Two identifiers of a path, then the terms of a body.\<close>

definition with_identifiers ::
    "app \<Rightarrow> string \<Rightarrow> string \<Rightarrow> error_code \<times> error_code \<Rightarrow> (uuid \<Rightarrow> uuid \<Rightarrow> answer) \<Rightarrow> answer" where
  "with_identifiers app first second missing handler =
     (case read_identifiers app first second missing of Err e \<Rightarrow> refusing e | Ok (one, two) \<Rightarrow> handler one two)"

definition with_terms ::
    "app \<Rightarrow> string \<Rightarrow> string \<Rightarrow> error_code \<times> error_code \<Rightarrow> grant_terms_body \<Rightarrow>
     (uuid \<Rightarrow> uuid \<Rightarrow> grant_terms \<Rightarrow> answer) \<Rightarrow> answer" where
  "with_terms app first second missing terms handler =
     with_identifiers app first second missing (\<lambda>one two.
       case read_terms app terms of Err e \<Rightarrow> refusing e | Ok read \<Rightarrow> handler one two read)"

text \<open>A page of a list.\<close>

definition serve_page ::
    "(list_window \<Rightarrow> bool \<Rightarrow> ('a list \<times> nat option) use_case) \<Rightarrow> ('a \<Rightarrow> json) \<Rightarrow> list_parameters \<Rightarrow> answer" where
  "serve_page list show parameters =
     (case bound_parameters parameters of
        Err e \<Rightarrow> refusing e
      | Ok (window, was_cut) \<Rightarrow>
          answering (list window (is_counted parameters)) (\<lambda>(items, counted).
            answer_page window was_cut (map show items) counted))"

subsection \<open>Roles, groups and grants\<close>

definition serve_list_roles :: "app \<Rightarrow> list_parameters \<Rightarrow> admin_caller \<Rightarrow> answer" where
  "serve_list_roles app parameters caller = serve_page (list_roles (caller_scope caller)) (show_role app) parameters"

definition serve_create_role :: "app \<Rightarrow> new_role \<Rightarrow> admin_caller \<Rightarrow> answer" where
  "serve_create_role app wanted caller = answering (create_role app caller wanted) (\<lambda>r. created (show_role app r))"

definition serve_delete_role :: "app \<Rightarrow> string \<Rightarrow> admin_caller \<Rightarrow> answer" where
  "serve_delete_role app written caller =
     with_identifier app written RoleNotFound (\<lambda>i. answering (delete_role app caller i) (\<lambda>_. no_content))"

definition serve_list_groups :: "app \<Rightarrow> list_parameters \<Rightarrow> admin_caller \<Rightarrow> answer" where
  "serve_list_groups app parameters caller = serve_page (list_groups (caller_scope caller)) (show_group app) parameters"

definition serve_create_group :: "app \<Rightarrow> new_group \<Rightarrow> admin_caller \<Rightarrow> answer" where
  "serve_create_group app wanted caller = answering (create_group app caller wanted) (\<lambda>g. created (show_group app g))"

definition serve_delete_group :: "app \<Rightarrow> string \<Rightarrow> admin_caller \<Rightarrow> answer" where
  "serve_delete_group app written caller =
     with_identifier app written GroupNotFound (\<lambda>i. answering (delete_group app caller i) (\<lambda>_. no_content))"

definition serve_grant_group_role :: "app \<Rightarrow> string \<Rightarrow> string \<Rightarrow> grant_terms_body \<Rightarrow> admin_caller \<Rightarrow> answer" where
  "serve_grant_group_role app g r terms caller =
     with_terms app g r (GroupNotFound, RoleNotFound) terms (\<lambda>group role read.
       answering (grant_role app caller role (Group_holder group) read) (\<lambda>made. json_response 200 (show_grant app made)))"

definition serve_revoke_group_role :: "app \<Rightarrow> string \<Rightarrow> string \<Rightarrow> admin_caller \<Rightarrow> answer" where
  "serve_revoke_group_role app g r caller =
     with_identifiers app g r (RoleGrantNotFound, RoleGrantNotFound) (\<lambda>group role.
       answering (revoke_role app caller role (Group_holder group)) (\<lambda>_. no_content))"

definition serve_add_group_member :: "app \<Rightarrow> string \<Rightarrow> string \<Rightarrow> grant_terms_body \<Rightarrow> admin_caller \<Rightarrow> answer" where
  "serve_add_group_member app g p terms caller =
     with_terms app g p (GroupNotFound, PersonNotFound) terms (\<lambda>group person read.
       answering (add_member app caller group person read) (\<lambda>made. json_response 200 (show_grant app made)))"

definition serve_remove_group_member :: "app \<Rightarrow> string \<Rightarrow> string \<Rightarrow> admin_caller \<Rightarrow> answer" where
  "serve_remove_group_member app g p caller =
     with_identifiers app g p (MembershipNotFound, MembershipNotFound) (\<lambda>group person.
       answering (remove_member app caller group person) (\<lambda>_. no_content))"

definition serve_list_user_roles :: "app \<Rightarrow> string \<Rightarrow> admin_caller \<Rightarrow> answer" where
  "serve_list_user_roles app written caller =
     with_identifier app written PersonNotFound (\<lambda>p.
       answering (list_held_roles app (caller_scope caller) p) (\<lambda>held. listed_items (map (show_held_role app) held)))"

definition serve_grant_user_role :: "app \<Rightarrow> string \<Rightarrow> string \<Rightarrow> grant_terms_body \<Rightarrow> admin_caller \<Rightarrow> answer" where
  "serve_grant_user_role app p r terms caller =
     with_terms app p r (PersonNotFound, RoleNotFound) terms (\<lambda>person role read.
       answering (grant_role app caller role (Person_holder person) read) (\<lambda>made. json_response 200 (show_grant app made)))"

definition serve_revoke_user_role :: "app \<Rightarrow> string \<Rightarrow> string \<Rightarrow> admin_caller \<Rightarrow> answer" where
  "serve_revoke_user_role app p r caller =
     with_identifiers app p r (RoleGrantNotFound, RoleGrantNotFound) (\<lambda>person role.
       answering (revoke_role app caller role (Person_holder person)) (\<lambda>_. no_content))"

subsection \<open>Relations, guards and policies\<close>

definition serve_read_schema :: "app \<Rightarrow> admin_caller \<Rightarrow> answer" where
  "serve_read_schema app caller = answering (read_relation_schema (caller_scope caller)) (\<lambda>found.
     case found of
       None \<Rightarrow> no_content
     | Some stored \<Rightarrow> json_response 200 (JObject
         [(''source'', JString (schema_source stored)),
          (''types'', json_texts (case open_schema app stored of None \<Rightarrow> [] | Some compiled \<Rightarrow> map fst (schema_types compiled))),
          (''written_at'', JString (write_instant app (schema_written_at stored)))]))"

definition show_faults :: "schema_faults \<Rightarrow> json" where
  "show_faults faults = JObject (render_code RelationSchemaInvalid @
     [(''faults'', JArray (map (\<lambda>f. JObject [(''line'', json_nat (fault_line f)), (''message'', JString (fault_message f))])
        (faults_shown faults)))] @
     json_member ''faults_not_shown'' json_nat (if faults_not_shown faults > 0 then Some (faults_not_shown faults) else None))"

definition serve_write_schema :: "app \<Rightarrow> string \<Rightarrow> admin_caller \<Rightarrow> answer" where
  "serve_write_schema app source caller = respond (write_relation_schema app caller source)
     (\<lambda>refusal. case refusal of
        Schema_faults faults \<Rightarrow> json_response 400 (show_faults faults)
      | Schema_failed e \<Rightarrow> render_failure e)
     (\<lambda>(compiled, removed). json_response 200 (json_object
        [(''relations_removed'', json_nat removed),
         (''types'', json_texts (map fst (schema_types compiled)))]))"

definition read_tuple :: "string \<Rightarrow> string \<Rightarrow> string \<Rightarrow> relation_tuple option" where
  "read_tuple obj relation sub =
     (case (read_object obj, read_subject sub) of
        (Some x, Some y) \<Rightarrow> Some (RelationTuple x relation y)
      | _ \<Rightarrow> None)"

definition serve_list_relations :: "app \<Rightarrow> string \<Rightarrow> string \<Rightarrow> admin_caller \<Rightarrow> answer" where
  "serve_list_relations app obj relation caller =
     (case read_object obj of
        None \<Rightarrow> refusing (new_failure RelationInvalid)
      | Some x \<Rightarrow> answering (list_relation_subjects (caller_scope caller) x relation) (\<lambda>(subjects, was_cut).
          json_response 200 (json_object [(''items'', json_texts (map show_subject subjects)), (''cut'', JBool was_cut)])))"

definition serve_write_relation :: "app \<Rightarrow> string \<Rightarrow> string \<Rightarrow> string \<Rightarrow> admin_caller \<Rightarrow> answer" where
  "serve_write_relation app obj relation sub caller =
     (case read_tuple obj relation sub of
        None \<Rightarrow> refusing (new_failure RelationInvalid)
      | Some t \<Rightarrow> answering (write_relation app caller t) (\<lambda>_. no_content))"

definition serve_delete_relation :: "app \<Rightarrow> string \<Rightarrow> string \<Rightarrow> string \<Rightarrow> admin_caller \<Rightarrow> answer" where
  "serve_delete_relation app obj relation sub caller =
     (case read_tuple obj relation sub of
        None \<Rightarrow> refusing (new_failure RelationNotFound)
      | Some t \<Rightarrow> answering (delete_relation app caller t) (\<lambda>_. no_content))"

definition serve_list_guards :: "app \<Rightarrow> string \<Rightarrow> admin_caller \<Rightarrow> answer" where
  "serve_list_guards app type caller =
     answering (list_relation_guards (caller_scope caller) type) (\<lambda>clients. listed_items (map JString clients))"

definition serve_write_guard :: "app \<Rightarrow> string \<Rightarrow> string \<Rightarrow> admin_caller \<Rightarrow> answer" where
  "serve_write_guard app type c caller = answering (write_relation_guard app caller type c) (\<lambda>_. no_content)"

definition serve_delete_guard :: "app \<Rightarrow> string \<Rightarrow> string \<Rightarrow> admin_caller \<Rightarrow> answer" where
  "serve_delete_guard app type c caller = answering (delete_relation_guard app caller type c) (\<lambda>_. no_content)"

definition serve_list_policies :: "app \<Rightarrow> string \<Rightarrow> admin_caller \<Rightarrow> answer" where
  "serve_list_policies app c caller =
     answering (list_policies app (caller_scope caller) c) (\<lambda>policies. listed_items (map (show_policy app) policies))"

definition serve_create_policy :: "app \<Rightarrow> string \<Rightarrow> new_policy_body \<Rightarrow> admin_caller \<Rightarrow> answer" where
  "serve_create_policy app c wanted caller =
     (case parse_effect (body_effect wanted) of
        None \<Rightarrow> refusing (new_failure PolicyInvalid)
      | Some effect \<Rightarrow>
          (case parse_combine (case body_combine wanted of None \<Rightarrow> ''all'' | Some written \<Rightarrow> written) of
             None \<Rightarrow> refusing (new_failure PolicyInvalid)
           | Some combine \<Rightarrow>
               answering (create_policy app caller
                 \<lparr>wanted_policy_client_id = c, wanted_policy_name = body_policy_name wanted,
                  wanted_resource_type = body_resource_type wanted, wanted_action = body_action wanted,
                  wanted_effect = effect, wanted_combine = combine,
                  wanted_conditions = body_conditions wanted\<rparr>) (\<lambda>p. created (show_policy app p))))"

definition serve_delete_policy :: "app \<Rightarrow> string \<Rightarrow> string \<Rightarrow> admin_caller \<Rightarrow> answer" where
  "serve_delete_policy app c written caller =
     with_identifier app written PolicyNotFound (\<lambda>i. answering (delete_policy app caller c i) (\<lambda>_. no_content))"

subsection \<open>Realms, clients, people and the chain\<close>

definition serve_read_realm :: "app \<Rightarrow> admin_caller \<Rightarrow> answer" where
  "serve_read_realm app caller =
     answering (and_then (begin_work (caller_scope caller)) (\<lambda>_.
       and_then (on_work store_read_realm) (\<lambda>found.
       lift_result (ok_or (new_failure RealmNotFound) found))))
       (\<lambda>r. json_response 200 (show_realm app r (name_issuer app (realm_name r))))"

definition serve_list_clients :: "app \<Rightarrow> list_parameters \<Rightarrow> admin_caller \<Rightarrow> answer" where
  "serve_list_clients app parameters caller = serve_page (list_clients (caller_scope caller)) (show_client app) parameters"

text \<open>\<open>map(...).collect::<Result<Vec<_>, _>>()\<close> over the names of capabilities.\<close>

fun parse_capabilities :: "string list \<Rightarrow> failure + capability list" where
  "parse_capabilities [] = Ok []"
| "parse_capabilities (name # names) =
     (case parse_capability name of
        None \<Rightarrow> Err (new_failure CapabilityUnknown)
      | Some c \<Rightarrow> map_sum id (\<lambda>rest. c # rest) (parse_capabilities names))"

definition serve_create_client :: "app \<Rightarrow> new_client_body \<Rightarrow> admin_caller \<Rightarrow> answer" where
  "serve_create_client app wanted caller =
     answering (and_then (lift_result (parse_capabilities (body_capabilities wanted))) (\<lambda>capabilities.
       create_client app caller
         \<lparr>wanted_client_id = body_client_id wanted,
          wanted_client_name = (case body_client_name wanted of None \<Rightarrow> body_client_id wanted | Some n \<Rightarrow> n),
          wanted_scopes = body_scopes wanted, wanted_capabilities = capabilities,
          wanted_redirect_uris = body_redirect_uris wanted,
          wanted_post_logout_redirect_uris = body_post_logout_redirect_uris wanted,
          wanted_public = body_public wanted, wanted_requires_consent = body_consent wanted,
          client_created_by = None\<rparr>))
       (\<lambda>(c, secret). created (JObject ([(''client'', show_client app c)] @ json_member ''client_secret'' JString secret)))"

definition serve_read_client :: "app \<Rightarrow> string \<Rightarrow> admin_caller \<Rightarrow> answer" where
  "serve_read_client app name caller =
     answering (find_client app (caller_scope caller) name) (\<lambda>c. json_response 200 (show_client app c))"

definition serve_list_users :: "app \<Rightarrow> list_parameters \<Rightarrow> admin_caller \<Rightarrow> answer" where
  "serve_list_users app parameters caller = serve_page (list_persons (caller_scope caller)) (show_user app) parameters"

definition serve_create_user :: "app \<Rightarrow> new_user_body \<Rightarrow> admin_caller \<Rightarrow> answer" where
  "serve_create_user app wanted caller =
     answering (create_person app (caller_scope caller)
       \<lparr>wanted_username = body_username wanted, wanted_email = body_email wanted,
        wanted_display_name = body_display_name wanted, wanted_password = body_password wanted,
        person_created_by = Some (client_id (caller_client caller))\<rparr>) (\<lambda>p. created (show_user app p))"

definition serve_unlock_user :: "app \<Rightarrow> string \<Rightarrow> admin_caller \<Rightarrow> answer" where
  "serve_unlock_user app username caller =
     answering (unlock_person app (caller_scope caller) username (client_id (caller_client caller))) (\<lambda>_. no_content)"

definition serve_remove_authenticator :: "app \<Rightarrow> string \<Rightarrow> admin_caller \<Rightarrow> answer" where
  "serve_remove_authenticator app written caller =
     with_identifier app written AuthenticatorNotFound (\<lambda>p. answering (remove_totp app caller p) (\<lambda>_. no_content))"

definition serve_resume_person_codes :: "app \<Rightarrow> string \<Rightarrow> admin_caller \<Rightarrow> answer" where
  "serve_resume_person_codes app written caller =
     with_identifier app written PersonNotFound (\<lambda>p. answering (resume_codes app caller p) (\<lambda>_. no_content))"

definition serve_remove_keys :: "app \<Rightarrow> string \<Rightarrow> admin_caller \<Rightarrow> answer" where
  "serve_remove_keys app written caller =
     with_identifier app written SecurityKeyNotFound (\<lambda>p. answering (remove_security_keys app caller p) (\<lambda>_. no_content))"

definition serve_list_user_consents :: "app \<Rightarrow> string \<Rightarrow> admin_caller \<Rightarrow> answer" where
  "serve_list_user_consents app written caller =
     with_identifier app written PersonNotFound (\<lambda>p.
       answering (list_person_consents caller p) (\<lambda>listed. listed_items (map (show_consent app) listed)))"

definition serve_withdraw_user_consent :: "app \<Rightarrow> string \<Rightarrow> string \<Rightarrow> admin_caller \<Rightarrow> answer" where
  "serve_withdraw_user_consent app written client caller =
     with_identifier app written ConsentNotFound (\<lambda>p.
       answering (withdraw_person_consent app caller p client) (\<lambda>_. no_content))"

primrec break_name :: "chain_break \<Rightarrow> string" where
  "break_name Gap = ''gap''"
| "break_name Unlinked = ''unlinked''"
| "break_name Altered = ''altered''"
| "break_name HeadMismatch = ''head_mismatch''"

definition serve_verify_audit_chain :: "app \<Rightarrow> admin_caller \<Rightarrow> answer" where
  "serve_verify_audit_chain app caller =
     answering (verify_chain app (caller_scope caller)) (\<lambda>verdict.
       case verdict of
         Intact events \<Rightarrow> json_response 200 (JObject [(''intact'', JBool True), (''events'', json_int events)])
       | Broken at reason \<Rightarrow> json_response 200 (JObject
           [(''intact'', JBool False), (''events'', json_int (at - 1)), (''broken_at'', json_int at),
            (''reason'', JString (break_name reason))]))"

subsection \<open>The routes\<close>

text \<open>A request as it reaches its handler: what its path names, and what was read of its query or body.\<close>

datatype admin_request =
    List_roles "list_parameters option"
  | Create_role "new_role option"
  | Delete_role string
  | List_groups "list_parameters option"
  | Create_group "new_group option"
  | Delete_group string
  | Grant_group_role string string "grant_terms_body option"
  | Revoke_group_role string string
  | Add_group_member string string "grant_terms_body option"
  | Remove_group_member string string
  | List_user_roles string
  | Grant_user_role string string "grant_terms_body option"
  | Revoke_user_role string string
  | Read_schema
  | Write_schema "string option"
  | List_relations string string
  | Write_relation string string string
  | Delete_relation string string string
  | List_guards string
  | Write_guard string string
  | Delete_guard string string
  | List_policies string
  | Create_policy string "new_policy_body option"
  | Delete_policy string string
  | Read_realm
  | List_clients "list_parameters option"
  | Create_client "new_client_body option"
  | Read_client string
  | List_users "list_parameters option"
  | Create_user "new_user_body option"
  | Unlock_user string
  | Remove_authenticator string
  | Resume_person_codes string
  | Remove_keys string
  | List_user_consents string
  | Withdraw_user_consent string string
  | Verify_audit_chain

text \<open>The capability a route declares in its macro.\<close>

fun required_capability :: "admin_request \<Rightarrow> capability" where
  "required_capability (List_roles _) = RoleRead"
| "required_capability (Create_role _) = RoleWrite"
| "required_capability (Delete_role _) = RoleWrite"
| "required_capability (List_groups _) = RoleRead"
| "required_capability (Create_group _) = RoleWrite"
| "required_capability (Delete_group _) = RoleWrite"
| "required_capability (Grant_group_role _ _ _) = RoleWrite"
| "required_capability (Revoke_group_role _ _) = RoleWrite"
| "required_capability (Add_group_member _ _ _) = RoleWrite"
| "required_capability (Remove_group_member _ _) = RoleWrite"
| "required_capability (List_user_roles _) = RoleRead"
| "required_capability (Grant_user_role _ _ _) = RoleWrite"
| "required_capability (Revoke_user_role _ _) = RoleWrite"
| "required_capability Read_schema = PolicyRead"
| "required_capability (Write_schema _) = PolicyWrite"
| "required_capability (List_relations _ _) = PolicyRead"
| "required_capability (Write_relation _ _ _) = PolicyWrite"
| "required_capability (Delete_relation _ _ _) = PolicyWrite"
| "required_capability (List_guards _) = PolicyRead"
| "required_capability (Write_guard _ _) = PolicyWrite"
| "required_capability (Delete_guard _ _) = PolicyWrite"
| "required_capability (List_policies _) = PolicyRead"
| "required_capability (Create_policy _ _) = PolicyWrite"
| "required_capability (Delete_policy _ _) = PolicyWrite"
| "required_capability Read_realm = RealmRead"
| "required_capability (List_clients _) = ClientRead"
| "required_capability (Create_client _) = ClientWrite"
| "required_capability (Read_client _) = ClientRead"
| "required_capability (List_users _) = UserRead"
| "required_capability (Create_user _) = UserWrite"
| "required_capability (Unlock_user _) = UserWrite"
| "required_capability (Remove_authenticator _) = UserWrite"
| "required_capability (Resume_person_codes _) = UserWrite"
| "required_capability (Remove_keys _) = UserWrite"
| "required_capability (List_user_consents _) = UserRead"
| "required_capability (Withdraw_user_consent _ _) = UserWrite"
| "required_capability Verify_audit_chain = AuditRead"

fun handle_admin :: "app \<Rightarrow> admin_request \<Rightarrow> admin_caller \<Rightarrow> answer" where
  "handle_admin app (List_roles q) caller = with_body q (\<lambda>p. serve_list_roles app p caller)"
| "handle_admin app (Create_role b) caller = with_body b (\<lambda>w. serve_create_role app w caller)"
| "handle_admin app (Delete_role r) caller = serve_delete_role app r caller"
| "handle_admin app (List_groups q) caller = with_body q (\<lambda>p. serve_list_groups app p caller)"
| "handle_admin app (Create_group b) caller = with_body b (\<lambda>w. serve_create_group app w caller)"
| "handle_admin app (Delete_group g) caller = serve_delete_group app g caller"
| "handle_admin app (Grant_group_role g r b) caller = with_body b (\<lambda>terms. serve_grant_group_role app g r terms caller)"
| "handle_admin app (Revoke_group_role g r) caller = serve_revoke_group_role app g r caller"
| "handle_admin app (Add_group_member g p b) caller = with_body b (\<lambda>terms. serve_add_group_member app g p terms caller)"
| "handle_admin app (Remove_group_member g p) caller = serve_remove_group_member app g p caller"
| "handle_admin app (List_user_roles p) caller = serve_list_user_roles app p caller"
| "handle_admin app (Grant_user_role p r b) caller = with_body b (\<lambda>terms. serve_grant_user_role app p r terms caller)"
| "handle_admin app (Revoke_user_role p r) caller = serve_revoke_user_role app p r caller"
| "handle_admin app Read_schema caller = serve_read_schema app caller"
| "handle_admin app (Write_schema b) caller = with_body b (\<lambda>source. serve_write_schema app source caller)"
| "handle_admin app (List_relations x r) caller = serve_list_relations app x r caller"
| "handle_admin app (Write_relation x r y) caller = serve_write_relation app x r y caller"
| "handle_admin app (Delete_relation x r y) caller = serve_delete_relation app x r y caller"
| "handle_admin app (List_guards type) caller = serve_list_guards app type caller"
| "handle_admin app (Write_guard type c) caller = serve_write_guard app type c caller"
| "handle_admin app (Delete_guard type c) caller = serve_delete_guard app type c caller"
| "handle_admin app (List_policies c) caller = serve_list_policies app c caller"
| "handle_admin app (Create_policy c b) caller = with_body b (\<lambda>w. serve_create_policy app c w caller)"
| "handle_admin app (Delete_policy c p) caller = serve_delete_policy app c p caller"
| "handle_admin app Read_realm caller = serve_read_realm app caller"
| "handle_admin app (List_clients q) caller = with_body q (\<lambda>p. serve_list_clients app p caller)"
| "handle_admin app (Create_client b) caller = with_body b (\<lambda>w. serve_create_client app w caller)"
| "handle_admin app (Read_client c) caller = serve_read_client app c caller"
| "handle_admin app (List_users q) caller = with_body q (\<lambda>p. serve_list_users app p caller)"
| "handle_admin app (Create_user b) caller = with_body b (\<lambda>w. serve_create_user app w caller)"
| "handle_admin app (Unlock_user name) caller = serve_unlock_user app name caller"
| "handle_admin app (Remove_authenticator p) caller = serve_remove_authenticator app p caller"
| "handle_admin app (Resume_person_codes p) caller = serve_resume_person_codes app p caller"
| "handle_admin app (Remove_keys p) caller = serve_remove_keys app p caller"
| "handle_admin app (List_user_consents p) caller = serve_list_user_consents app p caller"
| "handle_admin app (Withdraw_user_consent p c) caller = serve_withdraw_user_consent app p c caller"
| "handle_admin app Verify_audit_chain caller = serve_verify_audit_chain app caller"

definition serve_admin :: "app \<Rightarrow> string \<Rightarrow> string option \<Rightarrow> admin_request \<Rightarrow> answer" where
  "serve_admin app realm header request =
     require_capability app realm header (required_capability request) (handle_admin app request)"

subsection \<open>Every answer is accounted for\<close>

text \<open>What an answer changed is one event more in the chain of a realm, and it is said to have succeeded.\<close>

definition accountable :: "uuid \<Rightarrow> answer \<Rightarrow> bool" where
  "accountable realm h \<longleftrightarrow> (\<forall>s. case h s of (resp, t) \<Rightarrow>
     shared t = shared s \<or> status resp < 300 \<and> one_event_more realm (shared s) (shared t))"

definition harmless :: "answer \<Rightarrow> bool" where
  "harmless h \<longleftrightarrow> (\<forall>s. shared (snd (h s)) = shared s)"

named_theorems answer_intro \<open>how answers are accounted for\<close>

lemma accountable_respond:
  assumes "audited_use_case m realm" and "\<And>x. status (show x) < 300"
  shows "accountable realm (respond m refuse show)"
  using audited_use_case.recorded [OF assms(1)] audited_use_case.refused [OF assms(1)] assms(2)
  by (auto simp: accountable_def respond_def split: prod.split sum.split)

lemma harmless_respond: "commits_nothing m \<Longrightarrow> harmless (respond m refuse show)"
  by (auto simp: harmless_def commits_nothing_def respond_def split_beta split: sum.split)

lemma harmless_refusals [answer_intro]: "harmless (refusing e)" "harmless (\<lambda>s. (resp, s))"
  by (simp_all add: harmless_def refusing_def)

lemma harmless_accountable: "harmless h \<Longrightarrow> accountable realm h"
  by (simp add: harmless_def accountable_def split_beta)

lemma accountable_extracted [answer_intro]:
  "(\<And>x. accountable realm (f x)) \<Longrightarrow> accountable realm (with_body read f)"
  "(\<And>i. accountable realm (g i)) \<Longrightarrow> accountable realm (with_identifier app written missing g)"
  "(\<And>i j. accountable realm (h i j)) \<Longrightarrow> accountable realm (with_identifiers app first second missings h)"
  "(\<And>i j terms. accountable realm (k i j terms)) \<Longrightarrow> accountable realm (with_terms app first second missings terms_read k)"
  unfolding with_body_def with_identifier_def with_identifiers_def with_terms_def
  by (auto intro: harmless_accountable answer_intro split: option.split sum.split)

lemma harmless_extracted [answer_intro]:
  "(\<And>x. harmless (f x)) \<Longrightarrow> harmless (with_body read f)"
  "(\<And>i. harmless (g i)) \<Longrightarrow> harmless (with_identifier app written missing g)"
  unfolding with_body_def with_identifier_def by (auto intro: answer_intro split: option.split)

lemma statuses [simp]:
  "status (json_response n v) = n" "status no_content = 204" "status (created v) = 201"
  by (simp_all add: json_response_def no_content_def created_def)

text \<open>What the reading handlers call commits nothing.\<close>

lemma commits_nothing_verify_pages [uncommitted_intro]: "commits_nothing (verify_pages app seq hash)"
proof -
  have "shared (snd (verify_pages app seq hash s)) = shared s" for s
  proof (induction app seq hash s rule: verify_pages.induct)
    case (1 app seq hash s)
    have "shared (snd (on_work (store_read_audit_events seq PAGE) s)) = shared s"
      using commits_nothing_work(3) [of "store_read_audit_events seq PAGE"] by (simp add: commits_nothing_def)
    with "1.IH" show ?case
      by (subst verify_pages.simps) (auto split: prod.splits sum.splits)
  qed
  then show ?thesis by (simp add: commits_nothing_def)
qed

lemma commits_nothing_map_err [uncommitted_intro]: "commits_nothing m \<Longrightarrow> commits_nothing (map_err g m)"
  by (auto simp: commits_nothing_def map_err_def split_beta split: sum.split)

lemma commits_nothing_reads [uncommitted_intro]:
  "commits_nothing (list_roles scope window counted)" "commits_nothing (list_groups scope window counted)"
  "commits_nothing (list_held_roles app scope p)" "commits_nothing (read_relation_schema scope)"
  "commits_nothing (list_relation_subjects scope obj rel)" "commits_nothing (list_relation_guards scope ty)"
  "commits_nothing (list_policies app scope client)" "commits_nothing (list_clients scope window counted)"
  "commits_nothing (find_client app scope client)" "commits_nothing (list_persons scope window counted)"
  "commits_nothing (list_person_consents caller p)" "commits_nothing (verify_chain app scope)"
  unfolding list_roles_def list_groups_def list_held_roles_def read_relation_schema_def list_relation_subjects_def
    list_relation_guards_def list_policies_def list_clients_def find_client_def list_persons_def
    list_person_consents_def verify_chain_def read_named_client_def read_held_roles_def require_person_def Let_def
  by (intro uncommitted_intro)+

lemma harmless_reads [answer_intro]:
  "harmless (serve_list_roles app q caller)" "harmless (serve_list_groups app q caller)"
  "harmless (serve_list_user_roles app written caller)" "harmless (serve_read_schema app caller)"
  "harmless (serve_list_relations app x r caller)" "harmless (serve_list_guards app ty caller)"
  "harmless (serve_list_policies app c caller)" "harmless (serve_read_realm app caller)"
  "harmless (serve_list_clients app q caller)" "harmless (serve_read_client app c caller)"
  "harmless (serve_list_users app q caller)" "harmless (serve_list_user_consents app written caller)"
  "harmless (serve_verify_audit_chain app caller)"
  unfolding serve_list_roles_def serve_list_groups_def serve_list_user_roles_def serve_read_schema_def
    serve_list_relations_def serve_list_guards_def serve_list_policies_def serve_read_realm_def serve_list_clients_def
    serve_read_client_def serve_list_users_def serve_list_user_consents_def serve_verify_audit_chain_def
    serve_page_def answering_def
  by (auto intro!: answer_intro harmless_respond uncommitted_intro split: sum.split option.split)

subsection \<open>Properties\<close>

lemma accountable_roles [answer_intro]:
  "accountable (home caller) (serve_create_role app r caller)" "accountable (home caller) (serve_delete_role app written caller)"
  "accountable (home caller) (serve_create_group app g caller)" "accountable (home caller) (serve_delete_group app written caller)"
  unfolding serve_create_role_def serve_delete_role_def serve_create_group_def serve_delete_group_def answering_def
  by (intro answer_intro accountable_respond role_creation.audited_use_case_axioms role_deletion.audited_use_case_axioms
      group_creation.audited_use_case_axioms group_deletion.audited_use_case_axioms; simp)+

lemma accountable_grants [answer_intro]:
  "accountable (home caller) (serve_grant_group_role app g r terms caller)"
  "accountable (home caller) (serve_revoke_group_role app g r caller)"
  "accountable (home caller) (serve_add_group_member app g p terms caller)"
  "accountable (home caller) (serve_remove_group_member app g p caller)"
  "accountable (home caller) (serve_grant_user_role app p r terms caller)"
  "accountable (home caller) (serve_revoke_user_role app p r caller)"
  unfolding serve_grant_group_role_def serve_revoke_group_role_def serve_add_group_member_def
    serve_remove_group_member_def serve_grant_user_role_def serve_revoke_user_role_def answering_def
  by (intro answer_intro accountable_respond role_grant.audited_use_case_axioms role_revocation.audited_use_case_axioms
      member_addition.audited_use_case_axioms member_removal.audited_use_case_axioms; simp)+

lemma accountable_write_schema [answer_intro]: "accountable (home caller) (serve_write_schema app source caller)"
  unfolding serve_write_schema_def
  by (rule accountable_respond [OF schema_replacement.audited_use_case_axioms]) (simp split: prod.split)

lemma accountable_relations [answer_intro]:
  "accountable (home caller) (serve_write_relation app x r y caller)"
  "accountable (home caller) (serve_delete_relation app x r y caller)"
  "accountable (home caller) (serve_write_guard app ty c caller)"
  "accountable (home caller) (serve_delete_guard app ty c caller)"
  unfolding serve_write_relation_def serve_delete_relation_def serve_write_guard_def serve_delete_guard_def answering_def
  by (auto intro!: harmless_accountable [OF harmless_refusals(1)] accountable_respond
      relation_writing.audited_use_case_axioms relation_deletion.audited_use_case_axioms
      guard_writing.audited_use_case_axioms guard_deletion.audited_use_case_axioms split: option.split)

lemma accountable_policies [answer_intro]:
  "accountable (home caller) (serve_create_policy app c wanted caller)"
  "accountable (home caller) (serve_delete_policy app c written caller)"
  unfolding serve_create_policy_def serve_delete_policy_def answering_def
  by (auto intro!: harmless_accountable [OF harmless_refusals(1)] answer_intro accountable_respond
      policy_creation.audited_use_case_axioms policy_deletion.audited_use_case_axioms split: option.split)

text \<open>The names of capabilities are read before anything is begun.\<close>

lemma audited_after_reading:
  assumes "\<And>x. audited_use_case (m x) realm"
  shows "audited_use_case (and_then (lift_result r) m) realm"
proof (cases r)
  case (Inl e)
  show ?thesis by unfold_locales (simp_all add: Inl and_then_def lift_result_def)
next
  case (Inr x)
  have "and_then (lift_result r) m = m x" by (simp add: Inr and_then_def lift_result_def)
  then show ?thesis using assms by simp
qed

lemma accountable_directory [answer_intro]:
  "accountable (home caller) (serve_create_client app c caller)"
  "accountable (home caller) (serve_create_user app u caller)"
  "accountable (home caller) (serve_unlock_user app name caller)"
  "accountable (home caller) (serve_withdraw_user_consent app written client caller)"
  unfolding serve_create_client_def serve_create_user_def serve_unlock_user_def serve_withdraw_user_consent_def answering_def
  by (auto intro!: answer_intro accountable_respond audited_after_reading client_creation.audited_use_case_axioms
      person_creation.audited_use_case_axioms lock_lifting.audited_use_case_axioms
      consent_withdrawal.audited_use_case_axioms split: prod.split)

lemma accountable_factors [answer_intro]:
  "accountable (home caller) (serve_remove_authenticator app written caller)"
  "accountable (home caller) (serve_resume_person_codes app written caller)"
  "accountable (home caller) (serve_remove_keys app written caller)"
  unfolding serve_remove_authenticator_def serve_resume_person_codes_def serve_remove_keys_def answering_def
  by (intro answer_intro accountable_respond totp_removal.audited_use_case_axioms keys_removal.audited_use_case_axioms
      codes_resumption.audited_use_case_axioms; simp)+

lemma accountableD: "accountable realm h \<Longrightarrow> h s = (resp, t) \<Longrightarrow>
    shared t = shared s \<or> status resp < 300 \<and> one_event_more realm (shared s) (shared t)"
  unfolding accountable_def by (drule spec [of _ s]) simp

lemma harmlessD: "harmless h \<Longrightarrow> h s = (resp, t) \<Longrightarrow> shared t = shared s"
  unfolding harmless_def by (drule spec [of _ s]) simp

definition is_writing :: "capability \<Rightarrow> bool" where
  "is_writing c \<longleftrightarrow> c \<in> {RoleWrite, PolicyWrite, ClientWrite, UserWrite}"

lemma handlers_are_accountable: "accountable (home caller) (handle_admin app request caller)"
  by (cases request) (auto intro: answer_intro harmless_accountable)

lemma reading_is_harmless: "\<not> is_writing (required_capability request) \<Longrightarrow> harmless (handle_admin app request caller)"
  by (cases request) (auto simp: is_writing_def intro: answer_intro)

text \<open>
  C3: the administration plane accounts for what it changes. Whatever request is served, on
  whatever route, either nothing that is committed changes, or the answer tells a success, the route
  declares a capability to write, the request carried a token the guard let through for an enabled
  client of that realm that holds the capability now, and exactly one event more stands at the end of
  the chain of that very realm, with every other chain as it was.
\<close>

theorem administration_is_accountable:
  "case serve_admin app realm header request s of (resp, t) \<Rightarrow>
     shared t = shared s \<or>
     status resp < 300 \<and> is_writing (required_capability request) \<and>
     (\<exists>r caller. r \<in> snd ` set (st_realms (shared s)) \<and> realm_name r = realm \<and> realm_enabled r \<and>
        caller_client caller \<in> set (st_clients (shared s) (realm_id r)) \<and> client_enabled (caller_client caller) \<and>
        required_capability request \<in> set (client_capabilities (caller_client caller)) \<and>
        fst (authorize_admin_call app realm (read_bearer_token header) (required_capability request) s) = Ok caller \<and>
        one_event_more (realm_id r) (shared s) (shared t))"
proof -
  let ?required = "required_capability request"
  obtain res u where guard: "authorize_admin_call app realm (read_bearer_token header) ?required s = (res, u)"
    by (metis surj_pair)
  note known = wp_authorize_admin_call [of app realm "read_bearer_token header" ?required s, unfolded wp_def guard]
  show ?thesis
  proof (cases res)
    case (Inl e)
    with known guard show ?thesis by (simp add: serve_admin_def require_capability_def)
  next
    case (Inr caller)
    obtain resp t where run: "handle_admin app request caller u = (resp, t)" by (metis surj_pair)
    have served: "serve_admin app realm header request s = (resp, t)"
      using guard Inr run by (simp add: serve_admin_def require_capability_def)
    note through = known [unfolded Inr prod.case sum.case]
    have "\<exists>r. r \<in> snd ` set (st_realms (shared s)) \<and> realm_name r = realm \<and> realm_enabled r \<and>
        caller_scope caller = \<lparr>scope_tenant = realm_tenant r, scope_realm = realm_id r\<rparr> \<and>
        caller_client caller \<in> set (st_clients (shared s) (realm_id r))"
      using through by (elim conjE exE) (rule exI, intro conjI, assumption+)
    then obtain r where r: "r \<in> snd ` set (st_realms (shared s))" "realm_name r = realm" "realm_enabled r"
        "caller_scope caller = \<lparr>scope_tenant = realm_tenant r, scope_realm = realm_id r\<rparr>"
        "caller_client caller \<in> set (st_clients (shared s) (realm_id r))" by (elim conjE exE)
    have c: "client_enabled (caller_client caller)" "?required \<in> set (client_capabilities (caller_client caller))"
        "shared u = shared s"
      using through by simp_all
    have changed: "shared t = shared s \<or> status resp < 300 \<and> one_event_more (realm_id r) (shared s) (shared t)"
      using accountableD [OF handlers_are_accountable run] r(4) c(3) by simp
    have "shared t = shared s \<or> is_writing ?required"
      using harmlessD [OF reading_is_harmless run] c(3) by auto
    then show ?thesis
    proof
      assume "is_writing ?required"
      then show ?thesis
        unfolding served prod.case using changed guard Inr r(1,2,3,5) c(1,2) by (simp add: disj_commute) blast
    qed (simp add: served)
  qed
qed

end
