(* ===== verification/Oidc.thy ===== *)
theory Oidc
  imports Token_Store
begin

text \<open>
  The token endpoint (\<open>saffui-core/src/oidc/token.rs\<close>), the rotation of refresh tokens
  (\<open>oidc/refresh.rs\<close>), the revocation of tokens (\<open>oidc/revoke.rs\<close>) and the proof key of a code
  exchange (\<open>oidc/pkce.rs\<close>). The lemmas show that nothing is granted beyond what is allowed, that
  a code and a refresh token obtain tokens once, and that one presented again takes back
  everything that descends from its grant.
\<close>

subsection \<open>The proof key of an exchange\<close>

definition is_unreserved :: "char \<Rightarrow> bool" where
  "is_unreserved c \<longleftrightarrow> is_ascii_alphanumeric c \<or> c \<in> set ''-._~''"

definition is_well_formed_challenge :: "app \<Rightarrow> string \<Rightarrow> bool" where
  "is_well_formed_challenge app challenge \<longleftrightarrow>
     length challenge = 43 \<and> is_some_and (\<lambda>bytes. length bytes = 32) (app_base64_decode app challenge)"

definition matches_challenge :: "app \<Rightarrow> string \<Rightarrow> string \<Rightarrow> bool" where
  "matches_challenge app verifier challenge \<longleftrightarrow>
     43 \<le> length verifier \<and> length verifier \<le> 128 \<and> list_all is_unreserved verifier \<and>
     app_equal app (app_base64_encode app (app_sha256 app verifier)) challenge"

subsection \<open>Requests and answers\<close>

type_synonym 'a oauth_case = "(ctx, oauth_failure, 'a) act"

definition refused :: "error_code \<Rightarrow> 'a oauth_case" where
  "refused c = throw (oauth_failure_of_code c)"

definition lift_failure :: "'a use_case \<Rightarrow> 'a oauth_case" where
  "lift_failure m = map_err oauth_failure_of m"

record token_request =
  request_grant_type :: "string option"
  request_scope :: "string option"
  request_client_id :: "string option"
  request_client_secret :: "bytes option"
  request_code :: "string option"
  request_redirect_uri :: "string option"
  request_code_verifier :: "string option"
  request_refresh_token :: "string option"

record token_response =
  response_access_token :: string
  response_token_type :: string
  response_expires_in :: nat
  response_scope :: string
  response_id_token :: "string option"
  response_refresh_token :: "string option"

text \<open>\<open>narrow_scopes\<close> and its loop over the tokens asked for.\<close>

fun narrow_each :: "string list \<Rightarrow> string list \<Rightarrow> string list \<Rightarrow> failure + string list" where
  "narrow_each allowed granted [] = Ok granted"
| "narrow_each allowed granted (token # tokens) =
     (case check_scope_token token of
        Err e \<Rightarrow> Err e
      | Ok _ \<Rightarrow>
          if token \<notin> set allowed then Err (new_failure ScopeNotAllowed)
          else narrow_each allowed (if token \<in> set granted then granted else granted @ [token]) tokens)"

definition narrow_scopes :: "string option \<Rightarrow> string list \<Rightarrow> failure + string list" where
  "narrow_scopes asked allowed =
     (case asked of
        None \<Rightarrow> Ok allowed
      | Some text \<Rightarrow> narrow_each allowed [] (filter (\<lambda>token. token \<noteq> []) (split_at CHR '' '' text)))"

subsection \<open>What a client gets for a person\<close>

definition ROLES_SCOPE :: string where
  "ROLES_SCOPE = ''roles''"

record granted =
  granted_issuer :: string
  granted_client_id :: string
  granted_session :: session
  granted_person :: person
  granted_scopes :: "string list"
  granted_nonce :: "string option"
  granted_family :: refresh_grant

definition read_said_roles :: "app \<Rightarrow> granted \<Rightarrow> role_claims option use_case" where
  "read_said_roles app g =
     (if ROLES_SCOPE \<in> set (granted_scopes g)
      then and_then (now app) (\<lambda>t.
           and_then (read_role_claims (person_id (granted_person g)) (granted_client_id g) t) (\<lambda>roles.
           ret (Some roles)))
      else ret None)"

definition mint_identity :: "app \<Rightarrow> signing_key \<times> bytes \<Rightarrow> granted \<Rightarrow> string option use_case" where
  "mint_identity app key g =
     (if ''openid'' \<in> set (granted_scopes g)
      then and_then (mint_identity_token app key
             \<lparr>identity_issuer = granted_issuer g, identity_person = granted_person g,
              identity_client_id = granted_client_id g, identity_scopes = granted_scopes g,
              identity_nonce = granted_nonce g, identity_session = session_id (granted_session g),
              identity_authenticated_at = authenticated_at (granted_session g),
              identity_methods = session_methods (granted_session g)\<rparr>) (\<lambda>token.
           ret (Some token))
      else ret None)"

definition answer_for_person :: "app \<Rightarrow> granted \<Rightarrow> token_response use_case" where
  "answer_for_person app g =
     and_then (read_said_roles app g) (\<lambda>roles.
     and_then (open_minting_key app) (\<lambda>key.
     and_then (mint_access_token app key
         \<lparr>subject_issuer = granted_issuer g, subject_name = app_uuid_text app (person_id (granted_person g)),
          subject_client_id = granted_client_id g, subject_scopes = granted_scopes g,
          subject_session = Some (session_id (granted_session g)), subject_roles = roles\<rparr>) (\<lambda>minted.
     and_then (mint_identity app key g) (\<lambda>id_token.
     and_then (issue_refresh_token app (granted_family g)) (\<lambda>refresh_token.
     ret \<lparr>response_access_token = issued_token minted, response_token_type = ''Bearer'',
          response_expires_in = issued_expires_in minted, response_scope = issued_scope minted,
          response_id_token = id_token, response_refresh_token = Some refresh_token\<rparr>)))))"

subsection \<open>A grant to a service\<close>

definition grant_to_service :: "app \<Rightarrow> string \<Rightarrow> realm_scope \<Rightarrow> token_request \<Rightarrow> token_response oauth_case" where
  "grant_to_service app realm scope request =
     (case (request_client_id request, request_client_secret request) of
        (Some name, Some secret) \<Rightarrow>
          lift_failure (
            and_then (begin_work scope) (\<lambda>_.
            and_then (authenticate_client app name secret) (\<lambda>c.
            and_then (ensure (allows_client_credentials c) (new_failure GrantNotAllowed)) (\<lambda>_.
            and_then (lift_result (narrow_scopes (request_scope request) (client_scopes c))) (\<lambda>scopes.
            and_then (open_minting_key app) (\<lambda>key.
            and_then (mint_access_token app key
                \<lparr>subject_issuer = name_issuer app realm, subject_name = client_id c,
                 subject_client_id = client_id c, subject_scopes = scopes, subject_session = None,
                 subject_roles = None\<rparr>) (\<lambda>minted.
            and_then (record_event app TokenIssued (json_object
                [(''client_id'', JString (client_id c)), (''grant'', JString ''client_credentials''),
                 (''scope'', JString (issued_scope minted))])) (\<lambda>_.
            and_then commit (\<lambda>_.
            ret \<lparr>response_access_token = issued_token minted, response_token_type = ''Bearer'',
                 response_expires_in = issued_expires_in minted, response_scope = issued_scope minted,
                 response_id_token = None, response_refresh_token = None\<rparr>)))))))))
      | _ \<Rightarrow> refused ClientAuthenticationFailed)"

subsection \<open>Families taken back\<close>

definition describe_family_end ::
    "app \<Rightarrow> string \<Rightarrow> uuid \<Rightarrow> uuid \<Rightarrow> uuid \<Rightarrow> string \<Rightarrow> ended_family \<Rightarrow> json" where
  "describe_family_end app client family p s reason ended = json_object
     [(''client_id'', JString client),
      (''family'', JString (app_uuid_text app family)),
      (''last_issued_at'', JString (write_instant app (last_issued_at ended))),
      (''last_used_at'', json_text_option (map_option (write_instant app) (last_used_at ended))),
      (''person_id'', JString (app_uuid_text app p)),
      (''reason'', JString reason),
      (''session_id'', JString (app_uuid_text app s)),
      (''tokens'', JNumber (PosInt (ended_tokens ended)))]"

text \<open>A family revoked, and said in the chain when a token of it was still to revoke.\<close>

definition end_family :: "app \<Rightarrow> string \<Rightarrow> uuid \<Rightarrow> uuid \<Rightarrow> uuid \<Rightarrow> string \<Rightarrow> instant \<Rightarrow> unit use_case" where
  "end_family app client family p s reason t =
     and_then (on_work (store_revoke_refresh_family family t)) (\<lambda>found.
     case found of
       None \<Rightarrow> ret ()
     | Some ended \<Rightarrow>
         record_event app TokenRevoked (describe_family_end app client family p s reason ended))"

definition take_back_what_a_code_obtained :: "app \<Rightarrow> bytes \<Rightarrow> string \<Rightarrow> instant \<Rightarrow> unit use_case" where
  "take_back_what_a_code_obtained app digest client t =
     and_then (on_work (store_mark_code_replayed digest client t)) (\<lambda>found.
     case found of
       None \<Rightarrow> ret ()
     | Some replayed \<Rightarrow>
         (case replayed_family replayed of
            None \<Rightarrow> ret ()
          | Some family \<Rightarrow>
              end_family app client family (replayed_person replayed) (replayed_session replayed)
                ''code_replayed'' t))"

subsection \<open>The exchange of a code\<close>

text \<open>The first unit of work: the code is spent, or what it obtained is taken back.\<close>

definition spend_code :: "app \<Rightarrow> string \<Rightarrow> bytes option \<Rightarrow> realm_scope \<Rightarrow> bytes \<Rightarrow>
    (client \<times> authorization_code) use_case" where
  "spend_code app name secret scope digest =
     and_then (begin_work scope) (\<lambda>_.
     and_then (identify_client app name secret) (\<lambda>c.
     and_then (ensure (allows_authorization_code c) (new_failure GrantNotAllowed)) (\<lambda>_.
     and_then (now app) (\<lambda>t.
     and_then (on_work (store_spend_authorization_code digest t)) (\<lambda>spent.
     case spent of
       None \<Rightarrow>
         and_then (take_back_what_a_code_obtained app digest (client_id c) t) (\<lambda>_.
         and_then commit (\<lambda>_. throw (new_failure GrantInvalid)))
     | Some issued_code \<Rightarrow> and_then commit (\<lambda>_. ret (c, issued_code)))))))"

definition check_consent :: "client \<Rightarrow> uuid \<Rightarrow> string list \<Rightarrow> unit use_case" where
  "check_consent c p scopes =
     (if requires_consent c
      then and_then (on_work (store_hold_consent p (client_id c))) (\<lambda>allowed.
           ensure (\<not> is_consent_owed \<lparr>terms_require_consent = True, terms_allowed = allowed\<rparr> False scopes)
             (new_failure GrantInvalid))
      else ret ())"

text \<open>The session of a grant and its person, when both still stand.\<close>

definition require_live_subject :: "app \<Rightarrow> uuid \<Rightarrow> uuid \<Rightarrow> (session \<times> person) use_case" where
  "require_live_subject app s p =
     and_then (read_live_subject app s) (\<lambda>found.
     lift_result (ok_or (new_failure GrantInvalid) (filter_option (\<lambda>(_, found). person_id found = p) found)))"

definition redeem_code :: "app \<Rightarrow> string \<Rightarrow> realm_scope \<Rightarrow> bytes \<Rightarrow> client \<Rightarrow> authorization_code \<Rightarrow>
    token_response use_case" where
  "redeem_code app realm scope digest c issued_code =
     and_then (begin_work scope) (\<lambda>_.
     and_then (require_live_subject app (code_session issued_code) (code_person issued_code)) (\<lambda>(s, p).
     and_then (check_consent c (person_id p) (code_scopes issued_code)) (\<lambda>_.
     and_then (mint_id app) (\<lambda>family.
     and_then (on_work (store_bind_code_family digest family)) (\<lambda>bound.
     and_then (ensure bound (new_failure GrantInvalid)) (\<lambda>_.
     and_then (answer_for_person app
         \<lparr>granted_issuer = name_issuer app realm, granted_client_id = client_id c, granted_session = s,
          granted_person = p, granted_scopes = code_scopes issued_code, granted_nonce = code_nonce issued_code,
          granted_family = \<lparr>grant_family = family, grant_client_id = client_id c, grant_session = s,
             grant_scopes = code_scopes issued_code\<rparr>\<rparr>) (\<lambda>response.
     and_then (record_event app TokenIssued (json_object
         [(''client_id'', JString (client_id c)),
          (''family'', JString (app_uuid_text app family)),
          (''grant'', JString ''authorization_code''),
          (''person_id'', JString (app_uuid_text app (person_id p))),
          (''scope'', JString (response_scope response)),
          (''session_id'', JString (app_uuid_text app (session_id s)))])) (\<lambda>_.
     and_then commit (\<lambda>_. ret response)))))))))"

text \<open>Compared to what was bound to the code, not to what the client has registered.\<close>

definition is_bound_to :: "app \<Rightarrow> client \<Rightarrow> string \<Rightarrow> string \<Rightarrow> authorization_code \<Rightarrow> bool" where
  "is_bound_to app c redirect verifier issued_code \<longleftrightarrow>
     code_client_id issued_code = client_id c \<and> code_redirect_uri issued_code = redirect \<and>
     matches_challenge app verifier (code_challenge issued_code)"

definition exchange_code :: "app \<Rightarrow> string \<Rightarrow> realm_scope \<Rightarrow> token_request \<Rightarrow> token_response oauth_case" where
  "exchange_code app realm scope request =
     (case request_client_id request of
        None \<Rightarrow> refused ClientAuthenticationFailed
      | Some name \<Rightarrow>
          (case (request_code request, request_redirect_uri request, request_code_verifier request) of
             (Some issued_code, Some redirect, Some verifier) \<Rightarrow>
               let digest = app_sha256 app issued_code in
               lift_failure (
                 and_then (spend_code app name (request_client_secret request) scope digest) (\<lambda>(c, found).
                 and_then (ensure (is_bound_to app c redirect verifier found) (new_failure GrantInvalid)) (\<lambda>_.
                 redeem_code app realm scope digest c found)))
           | _ \<Rightarrow> refused RequestInvalid))"

subsection \<open>The rotation of a refresh token\<close>

text \<open>What follows a token that is not to be spent: one used before takes its family back.\<close>

definition is_replayed :: "client \<Rightarrow> stored_refresh_token \<Rightarrow> bool" where
  "is_replayed c stored \<longleftrightarrow>
     used_at stored \<noteq> None \<and> revoked_at stored = None \<and> token_client_id (stored_token stored) = client_id c"

definition take_back_replayed :: "app \<Rightarrow> client \<Rightarrow> bytes \<Rightarrow> instant \<Rightarrow> unit use_case" where
  "take_back_replayed app c digest t =
     and_then (on_work (store_read_refresh_token digest)) (\<lambda>found.
     case filter_option (is_replayed c) found of
       None \<Rightarrow> ret ()
     | Some replayed \<Rightarrow>
         let token = stored_token replayed in
         and_then (end_family app (client_id c) (token_family token) (token_person token) (token_session token)
           ''replayed'' t) (\<lambda>_. commit))"

definition carry_on :: "app \<Rightarrow> string \<Rightarrow> client \<Rightarrow> string option \<Rightarrow> refresh_token \<Rightarrow> token_response use_case" where
  "carry_on app realm c asked spent =
     and_then (require_live_subject app (token_session spent) (token_person spent)) (\<lambda>(s, p).
     and_then (lift_result (narrow_scopes asked (token_scopes spent))) (\<lambda>scopes.
     and_then (answer_for_person app
         \<lparr>granted_issuer = name_issuer app realm, granted_client_id = client_id c, granted_session = s,
          granted_person = p, granted_scopes = scopes, granted_nonce = None,
          granted_family = \<lparr>grant_family = token_family spent, grant_client_id = client_id c,
             grant_session = s, grant_scopes = token_scopes spent\<rparr>\<rparr>) (\<lambda>response.
     and_then commit (\<lambda>_. ret response))))"

definition rotate_refresh_token :: "app \<Rightarrow> string \<Rightarrow> realm_scope \<Rightarrow> token_request \<Rightarrow> token_response oauth_case" where
  "rotate_refresh_token app realm scope request =
     (case request_client_id request of
        None \<Rightarrow> refused ClientAuthenticationFailed
      | Some name \<Rightarrow>
          (case request_refresh_token request of
             None \<Rightarrow> refused RequestInvalid
           | Some presented \<Rightarrow>
               lift_failure (
                 and_then (now app) (\<lambda>t.
                 and_then (begin_work scope) (\<lambda>_.
                 and_then (identify_client app name (request_client_secret request)) (\<lambda>c.
                 and_then (ensure (allows_authorization_code c) (new_failure GrantNotAllowed)) (\<lambda>_.
                 let digest = app_sha256 app presented in
                 and_then (on_work (store_spend_refresh_token digest (client_id c) t)) (\<lambda>spent.
                 case spent of
                   None \<Rightarrow>
                     and_then (take_back_replayed app c digest t) (\<lambda>_. throw (new_failure GrantInvalid))
                 | Some token \<Rightarrow> carry_on app realm c (request_scope request) token))))))))"

subsection \<open>The endpoint\<close>

definition is_complete :: "string \<Rightarrow> token_request \<Rightarrow> bool" where
  "is_complete grant request \<longleftrightarrow>
     (if grant = ''authorization_code''
      then request_code request \<noteq> None \<and> request_redirect_uri request \<noteq> None \<and>
           request_code_verifier request \<noteq> None
      else request_refresh_token request \<noteq> None)"

definition grant_token :: "app \<Rightarrow> string \<Rightarrow> token_request \<Rightarrow> token_response oauth_case" where
  "grant_token app realm request =
     (case request_grant_type request of
        None \<Rightarrow> refused RequestInvalid
      | Some grant \<Rightarrow>
          if grant \<notin> {''client_credentials'', ''authorization_code'', ''refresh_token''}
          then refused GrantTypeUnsupported
          else if grant \<noteq> ''client_credentials'' \<and> request_client_id request = None
          then refused ClientAuthenticationFailed
          else if grant \<noteq> ''client_credentials'' \<and> \<not> is_complete grant request
          then refused RequestInvalid
          else
            and_then (lift_failure (resolve_realm realm)) (\<lambda>(name, scope).
            if grant = ''client_credentials'' then grant_to_service app name scope request
            else if grant = ''authorization_code'' then exchange_code app name scope request
            else rotate_refresh_token app name scope request))"

subsection \<open>Revocation\<close>

text \<open>What follows a token of the realm that is no refresh token of the caller.\<close>

definition refuse_access_token :: "app \<Rightarrow> string \<Rightarrow> string \<Rightarrow> unit oauth_case" where
  "refuse_access_token app issuer token = (\<lambda>s.
     case verify_access_token app issuer token s of
       (Ok _, t) \<Rightarrow> (Err (oauth_failure_of_code TokenTypeUnsupported), t)
     | (Err _, t) \<Rightarrow> (Ok (), t))"

definition revoke_token :: "app \<Rightarrow> string \<Rightarrow> string option \<Rightarrow> bytes option \<Rightarrow> string option \<Rightarrow> unit oauth_case" where
  "revoke_token app realm name secret token =
     and_then (lift_failure (resolve_realm realm)) (\<lambda>(known_realm, scope).
     case name of
       None \<Rightarrow> refused ClientAuthenticationFailed
     | Some presented_name \<Rightarrow>
         and_then (lift_failure (begin_work scope)) (\<lambda>_.
         and_then (lift_failure (identify_client app presented_name secret)) (\<lambda>c.
         case token of
           None \<Rightarrow> refused RequestInvalid
         | Some presented \<Rightarrow>
             and_then (lift_failure (on_work (store_read_refresh_token (app_sha256 app presented)))) (\<lambda>found.
             case filter_option (\<lambda>stored. token_client_id (stored_token stored) = client_id c) found of
               Some stored \<Rightarrow>
                 if revoked_at stored \<noteq> None then ret ()
                 else
                   let held = stored_token stored in
                   lift_failure (
                     and_then (now app) (\<lambda>t.
                     and_then (end_family app (client_id c) (token_family held) (token_person held)
                       (token_session held) ''asked'' t) (\<lambda>_. commit)))
             | None \<Rightarrow> refuse_access_token app (name_issuer app known_realm) presented))))"

subsection \<open>What a client is answered\<close>

lemma writes_nothing_answer [idle_intro]:
  "writes_nothing (read_said_roles app g)" "writes_nothing (mint_identity app key g)"
  unfolding read_said_roles_def read_role_claims_def read_held_roles_def store_list_held_roles_def mint_identity_def
  by (auto intro!: idle_intro)

text \<open>The refresh token of an answer, as it is kept.\<close>

definition is_issued :: "app \<Rightarrow> refresh_grant \<Rightarrow> token_response \<Rightarrow> refresh_token \<Rightarrow> bool" where
  "is_issued app grant response token \<longleftrightarrow>
     map_option (app_sha256 app) (response_refresh_token response) = Some (token_digest token) \<and>
     token_family token = grant_family grant \<and> token_client_id token = grant_client_id grant \<and>
     token_person token = session_person (grant_session grant) \<and>
     token_session token = session_id (grant_session grant) \<and> token_scopes token = grant_scopes grant \<and>
     token_expires_at token \<le> session_expires_at (grant_session grant) \<and>
     token_expires_at token \<le> token_issued_at token + REFRESH_TOKEN_LIFETIME"

abbreviation fresh_token :: "refresh_token \<Rightarrow> stored_refresh_token" where
  "fresh_token token \<equiv> \<lparr>stored_token = token, used_at = None, revoked_at = None\<rparr>"

lemma wp_mint_scope:
  "wp (mint_access_token app key subject)
     (\<lambda>issued t. idle s t \<and> issued_scope issued = join_scopes (subject_scopes subject)) (\<lambda>_. idle s) s"
proof -
  have "wp (mint_access_token app key subject)
      (\<lambda>issued t. issued_scope issued = join_scopes (subject_scopes subject)) (\<lambda>_ _. True) s"
    unfolding mint_access_token_def Let_def by (auto intro!: wp_mint_id split: sum.split)
  moreover have "wp (mint_access_token app key subject) (\<lambda>_. idle s) (\<lambda>_. idle s) s"
    by (rule wp_writes_nothing) (auto intro: idle_intro)
  ultimately show ?thesis by (auto dest: wp_conj elim: wp_mono)
qed

lemma wp_issue_refresh_token:
  assumes "opened s = Some w" and "\<not> read_only w"
  shows "wp (issue_refresh_token app grant)
    (\<lambda>x t. \<exists>token. idle (s\<lparr>opened := Some (w\<lparr>working :=
         with_refresh_tokens w (refresh_tokens_of w @ [fresh_token token])\<rparr>)\<rparr>) t \<and>
       (\<forall>response. response_refresh_token response = Some x \<longrightarrow> is_issued app grant response token))
    (\<lambda>_ t. shared t = shared s) s"
  using assms unfolding issue_refresh_token_def Let_def store_insert_refresh_token_def
  by (auto simp: wp_on_work_writing is_issued_def idle_def split: option.split)

text \<open>An answer adds one refresh token to the unit of work in hand, and tells the scopes granted.\<close>

lemma wp_answer_for_person:
  assumes "opened s = Some w" and "\<not> read_only w"
  shows "wp (answer_for_person app g)
    (\<lambda>response t. \<exists>token. idle (s\<lparr>opened := Some (w\<lparr>working :=
         with_refresh_tokens w (refresh_tokens_of w @ [fresh_token token])\<rparr>)\<rparr>) t \<and>
       is_issued app (granted_family g) response token \<and> response_scope response = join_scopes (granted_scopes g))
    (\<lambda>_ t. shared t = shared s) s"
  (is "wp _ ?Q ?R s")
proof -
  have issue: "wp (and_then (issue_refresh_token app (granted_family g)) (\<lambda>refresh_token.
      ret \<lparr>response_access_token = issued_token minted, response_token_type = ''Bearer'',
          response_expires_in = issued_expires_in minted, response_scope = issued_scope minted,
          response_id_token = id_token, response_refresh_token = Some refresh_token\<rparr>)) ?Q ?R t"
    if "idle s t" "issued_scope minted = join_scopes (granted_scopes g)" for minted id_token t
  proof -
    from that(1) have "opened t = Some w" using assms(1) by (simp add: idle_def)
    from wp_issue_refresh_token [OF this assms(2), of app "granted_family g"] show ?thesis
      unfolding wp_and_then wp_ret by (rule wp_mono) (use that in \<open>auto simp: idle_def\<close>)
  qed
  have minted: "wp (and_then (mint_access_token app key subject) f) ?Q ?R t"
    if "idle s t" "\<And>x u. idle s u \<Longrightarrow> issued_scope x = join_scopes (subject_scopes subject) \<Longrightarrow> wp (f x) ?Q ?R u"
    for key subject t f
    unfolding wp_and_then
    by (rule wp_mono [OF wp_mint_scope]) (auto intro: that(2) idle_trans [OF that(1)] simp: idle_same(1) [OF idle_trans [OF that(1)]])
  show ?thesis
    unfolding answer_for_person_def
    apply (rule wp_idle_then [OF writes_nothing_answer(1) idle_refl])
     apply (erule wp_idle_then [OF writes_nothing_minting(1)])
      apply (erule minted)
      apply (erule wp_idle_then [OF writes_nothing_answer(2)])
       apply (erule issue)
       apply simp
      apply (simp_all add: idle_def)
    done
qed

subsection \<open>Rotation and replay\<close>

lemma wp_identify_client:
  assumes "opened s = Some w"
  shows "wp (identify_client app name presented)
    (\<lambda>c t. t = s \<and> c \<in> set (st_clients (working w) (uow_realm w)) \<and> client_id c = name \<and> client_enabled c)
    (\<lambda>_ t. t = s) s"
proof (cases presented)
  case None
  then show ?thesis
    unfolding identify_client_def by (auto intro!: wp_read_named_client [OF assms] simp: filter_option_eq_Some ok_or_def split: option.split)
next
  case (Some secret)
  with wp_authenticate_client [OF assms] show ?thesis by (simp add: identify_client_def)
qed

lemma wp_end_family:
  assumes w: "opened s = Some w" "\<not> read_only w"
    and Q: "\<And>chain u. idle (s\<lparr>opened := Some (w\<lparr>working := (with_refresh_tokens w
      (snd (revoke_where t (\<lambda>token. token_family token = family) (refresh_tokens_of w))))\<lparr>st_audit := chain\<rparr>\<rparr>)\<rparr>) u \<Longrightarrow> Q () u"
    and R: "\<And>e u. shared u = shared s \<Longrightarrow> R e u"
  shows "wp (end_family app client family p x reason t) Q R s"
proof -
  let ?rows = "revoke_where t (\<lambda>token. token_family token = family) (refresh_tokens_of w)"
  let ?w = "w\<lparr>working := with_refresh_tokens w (snd ?rows)\<rparr>"
  have "Q () (s\<lparr>opened := Some ?w\<rparr>)"
    by (rule Q [of "st_audit (working ?w)"]) (simp add: idle_def)
  moreover have "wp (record_event app kind payload) Q R (s\<lparr>opened := Some ?w\<rparr>)" for kind payload
    by (rule wp_record_event [where w = ?w]) (auto intro!: Q R simp: idle_def)
  ultimately show ?thesis
    unfolding end_family_def store_revoke_refresh_family_def
    by (simp add: wp_on_work_writing [OF w] split_beta split: option.split)
qed

lemma wp_spend_refresh_token:
  assumes "opened s = Some w" and "\<not> read_only w"
    and "find (is_spendable digest client t (refresh_tokens_of w)) (refresh_tokens_of w) = None \<Longrightarrow> Q None s"
    and "\<And>before stored after. refresh_tokens_of w = before @ stored # after \<Longrightarrow>
      is_spendable digest client t (refresh_tokens_of w) stored \<Longrightarrow>
      Q (Some (stored_token stored)) (s\<lparr>opened := Some (w\<lparr>working := with_refresh_tokens w
        (before @ stored\<lparr>used_at := Some t\<rparr> # after)\<rparr>)\<rparr>)"
  shows "wp (on_work (store_spend_refresh_token digest client t)) Q R s"
proof (cases "find (is_spendable digest client t (refresh_tokens_of w)) (refresh_tokens_of w)")
  case None
  with assms show ?thesis
    by (simp add: store_spend_refresh_token_def wp_on_work_writing update_first_none)
next
  case (Some stored)
  from update_first_split [OF this, of "\<lambda>stored. stored\<lparr>used_at := Some t\<rparr>"] assms Some show ?thesis
    by (auto simp: store_spend_refresh_token_def wp_on_work_writing)
qed

text \<open>
  What a rotation leaves of the tokens of a realm: the token presented is used, and one more of its
  family is kept, for the same client, person, session and scopes, which ends no later than the
  session. What is told of scopes is what was asked for, within what the token stands for.
\<close>

definition rotated :: "app \<Rightarrow> state \<Rightarrow> uuid \<Rightarrow> instant \<Rightarrow> string \<Rightarrow> token_request \<Rightarrow> token_response \<Rightarrow> state \<Rightarrow> bool" where
  "rotated app st realm t client request response st' \<longleftrightarrow>
     (\<exists>presented before stored after token session scopes.
        request_refresh_token request = Some presented \<and>
        st_refresh_tokens st realm = before @ stored # after \<and>
        token_digest (stored_token stored) = app_sha256 app presented \<and> token_client_id (stored_token stored) = client \<and>
        used_at stored = None \<and> t < token_expires_at (stored_token stored) \<and>
        {other \<in> set (st_refresh_tokens st realm). token_family (stored_token other) = token_family (stored_token stored) \<and>
           revoked_at other \<noteq> None} = {} \<and>
        st' = st\<lparr>st_refresh_tokens := (st_refresh_tokens st)(realm :=
          before @ stored\<lparr>used_at := Some t\<rparr> # after @ [fresh_token token])\<rparr> \<and>
        session \<in> set (st_sessions st realm) \<and> session_state session = Session_active \<and>
        session_id session = token_session (stored_token stored) \<and>
        session_person session = token_person (stored_token stored) \<and>
        is_issued app \<lparr>grant_family = token_family (stored_token stored), grant_client_id = client,
          grant_session = session, grant_scopes = token_scopes (stored_token stored)\<rparr> response token \<and>
        narrow_scopes (request_scope request) (token_scopes (stored_token stored)) = Ok scopes \<and>
        response_scope response = join_scopes scopes)"

lemma rotatedI:
  assumes "request_refresh_token request = Some presented" and "st_refresh_tokens st realm = before @ stored # after"
    and "is_spendable (app_sha256 app presented) client t (st_refresh_tokens st realm) stored"
    and "st' = st\<lparr>st_refresh_tokens := (st_refresh_tokens st)(realm :=
      before @ stored\<lparr>used_at := Some t\<rparr> # after @ [fresh_token token])\<rparr>"
    and "session \<in> set (st_sessions st realm)" and "session_state session = Session_active"
    and "session_id session = token_session (stored_token stored)"
    and "session_person session = token_person (stored_token stored)"
    and "is_issued app \<lparr>grant_family = token_family (stored_token stored), grant_client_id = client,
      grant_session = session, grant_scopes = token_scopes (stored_token stored)\<rparr> response token"
    and "narrow_scopes (request_scope request) (token_scopes (stored_token stored)) = Ok scopes"
    and "response_scope response = join_scopes scopes"
  shows "rotated app st realm t client request response st'"
proof -
  have "used_at stored = None" "t < token_expires_at (stored_token stored)"
    "token_digest (stored_token stored) = app_sha256 app presented" "token_client_id (stored_token stored) = client"
    "{other \<in> set (st_refresh_tokens st realm). token_family (stored_token other) = token_family (stored_token stored) \<and>
       revoked_at other \<noteq> None} = {}"
    using assms(3) first_revocation_iff [of "token_family (stored_token stored)" "st_refresh_tokens st realm"]
    by (auto simp: is_spendable_def is_live_def)
  with assms show ?thesis unfolding rotated_def by blast
qed

text \<open>What a token presented again leaves: its whole family is revoked, and that is said in the chain.\<close>

definition taken_back :: "app \<Rightarrow> state \<Rightarrow> uuid \<Rightarrow> instant \<Rightarrow> string \<Rightarrow> string option \<Rightarrow> state \<Rightarrow> bool" where
  "taken_back app st realm t client presented st' \<longleftrightarrow>
     (\<exists>stored \<in> set (st_refresh_tokens st realm).
        Some (token_digest (stored_token stored)) = map_option (app_sha256 app) presented \<and>
        token_client_id (stored_token stored) = client \<and> used_at stored \<noteq> None \<and>
        same_but_chain st' (st\<lparr>st_refresh_tokens := (st_refresh_tokens st)(realm :=
          snd (revoke_where t (\<lambda>token. token_family token = token_family (stored_token stored))
            (st_refresh_tokens st realm)))\<rparr>))"

lemma wp_require_live_subject:
  assumes "opened s = Some w"
  shows "wp (require_live_subject app i p)
    (\<lambda>found t. only_later s t \<and> fst found \<in> set (st_sessions (working w) (uow_realm w)) \<and>
       session_id (fst found) = i \<and> session_state (fst found) = Session_active \<and> session_person (fst found) = p)
    (\<lambda>_ t. only_later s t) s"
proof -
  have lift: "wp (lift_result (ok_or e (filter_option (\<lambda>(_, q). person_id q = p) found))) Q R t"
    if "\<And>x q. found = Some (x, q) \<Longrightarrow> person_id q = p \<Longrightarrow> Q (x, q) t" "\<And>e. R e t" for e found Q R t
    using that by (cases found) (auto simp: filter_option_def)
  show ?thesis
    unfolding require_live_subject_def wp_and_then
    by (rule wp_mono [OF wp_read_live_subject [OF assms]]) (rule lift, simp_all)
qed

lemma wp_carry_on:
  assumes w: "opened s = Some w" "\<not> read_only w" "\<not> failed w"
  shows "wp (carry_on app realm c asked spent)
    (\<lambda>response t. \<exists>token session scopes. shared t = with_refresh_tokens w (refresh_tokens_of w @ [fresh_token token]) \<and>
        session \<in> set (st_sessions (working w) (uow_realm w)) \<and> session_state session = Session_active \<and>
        session_id session = token_session spent \<and> session_person session = token_person spent \<and>
        is_issued app \<lparr>grant_family = token_family spent, grant_client_id = client_id c,
          grant_session = session, grant_scopes = token_scopes spent\<rparr> response token \<and>
        narrow_scopes asked (token_scopes spent) = Ok scopes \<and> response_scope response = join_scopes scopes)
    (\<lambda>_ t. shared t = shared s) s"
  (is "wp _ ?Q ?R s")
proof -
  have answer: "wp (and_then (answer_for_person app
         \<lparr>granted_issuer = name_issuer app realm, granted_client_id = client_id c, granted_session = x,
          granted_person = p, granted_scopes = scopes, granted_nonce = None,
          granted_family = \<lparr>grant_family = token_family spent, grant_client_id = client_id c,
             grant_session = x, grant_scopes = token_scopes spent\<rparr>\<rparr>) (\<lambda>response.
     and_then commit (\<lambda>_. ret response))) ?Q ?R t"
    if "only_later s t" "x \<in> set (st_sessions (working w) (uow_realm w))" "session_id x = token_session spent"
      "session_state x = Session_active" "session_person x = token_person spent"
      "narrow_scopes asked (token_scopes spent) = Ok scopes" for x p t scopes
  proof -
    have t: "opened t = Some w" "shared t = shared s" using only_later_same [OF that(1)] w(1) by simp_all
    show ?thesis
      unfolding wp_and_then
      by (rule wp_mono [OF wp_answer_for_person [OF t(1) w(2)]])
         (use that(2-) t w(3) in \<open>fastforce simp: wp_commit idle_def\<close>)+
  qed
  have narrowed: "wp (case found of (x, p) \<Rightarrow> and_then (lift_result (narrow_scopes asked (token_scopes spent))) (\<lambda>scopes.
      and_then (answer_for_person app
         \<lparr>granted_issuer = name_issuer app realm, granted_client_id = client_id c, granted_session = x,
          granted_person = p, granted_scopes = scopes, granted_nonce = None,
          granted_family = \<lparr>grant_family = token_family spent, grant_client_id = client_id c,
             grant_session = x, grant_scopes = token_scopes spent\<rparr>\<rparr>) (\<lambda>response.
     and_then commit (\<lambda>_. ret response)))) ?Q ?R t"
    if "only_later s t \<and> fst found \<in> set (st_sessions (working w) (uow_realm w)) \<and>
      session_id (fst found) = token_session spent \<and> session_state (fst found) = Session_active \<and>
      session_person (fst found) = token_person spent"
    for found t
    using that answer only_later_same(1) [of s t]
    unfolding wp_case_prod wp_and_then [of "lift_result r" for r] wp_lift_result
    by (cases found; cases "narrow_scopes asked (token_scopes spent)") (simp_all only: prod.case sum.case fst_conv)
  show ?thesis
    unfolding carry_on_def wp_and_then [of "require_live_subject app i p" for i p]
    by (rule wp_mono [OF wp_require_live_subject [OF w(1)] narrowed]) (assumption, erule only_later_same(1))
qed

lemma wp_take_back_replayed:
  assumes w: "opened s = Some w" "\<not> read_only w" "\<not> failed w" "working w = shared s"
  shows "wp (take_back_replayed app c (app_sha256 app presented) t)
    (\<lambda>_ u. shared u = shared s \<or> taken_back app (shared s) (uow_realm w) t (client_id c) (Some presented) (shared u))
    (\<lambda>_ u. shared u = shared s) s"
  (is "wp _ ?Q ?R s")
proof -
  let ?rows = "st_refresh_tokens (shared s) (uow_realm w)"
  have taking: "wp (and_then (end_family app (client_id c) (token_family (stored_token stored)) p x reason t) (\<lambda>_. commit)) ?Q ?R s"
    if "stored \<in> set ?rows" "token_digest (stored_token stored) = app_sha256 app presented"
      "token_client_id (stored_token stored) = client_id c" "used_at stored \<noteq> None" for stored p x reason
    unfolding wp_and_then
  proof (rule wp_end_family [OF w(1,2)])
    fix chain u
    let ?after = "with_refresh_tokens w (snd (revoke_where t
      (\<lambda>token. token_family token = token_family (stored_token stored)) (refresh_tokens_of w)))"
    assume "idle (s\<lparr>opened := Some (w\<lparr>working := ?after\<lparr>st_audit := chain\<rparr>\<rparr>)\<rparr>) u"
    then have u: "opened u = Some (w\<lparr>working := ?after\<lparr>st_audit := chain\<rparr>\<rparr>)" "shared u = shared s"
      by (simp_all add: idle_def)
    have "taken_back app (shared s) (uow_realm w) t (client_id c) (Some presented) (?after\<lparr>st_audit := chain\<rparr>)"
      unfolding taken_back_def using that w(4)
      by (intro bexI [of _ stored]) (simp_all add: with_refresh_tokens_def refresh_tokens_of_def)
    then show "wp commit ?Q ?R u" using w(3) by (simp add: wp_commit u)
  qed simp
  have "used_at stored \<noteq> None" "token_client_id (stored_token stored) = client_id c"
    if "is_replayed c (stored\<lparr>revoked_at := r\<rparr>)" for stored r
    using that by (simp_all add: is_replayed_def)
  then show ?thesis
    using taking unfolding take_back_replayed_def store_read_refresh_token_def wp_and_then [of "on_work m" for m]
    by (auto simp: wp_on_work_reading [OF w(1)] Let_def filter_option_eq_Some refresh_tokens_of_def w(4)
        simp del: wp_and_then not_None_eq dest!: find_found split: option.split)
qed

subsection \<open>The exchange of a code\<close>

lemma update_first_twice:
  "(\<And>x. p x \<Longrightarrow> p (f x)) \<Longrightarrow> update_first p g (update_first p f xs) = update_first p (\<lambda>x. g (f x)) xs"
  by (induction xs) auto

lemma find_update_first:
  "(\<And>x. p x \<Longrightarrow> p (f x)) \<Longrightarrow> find p (update_first p f xs) = map_option f (find p xs)"
  by (induction xs) auto

lemma on_code_cases:
  assumes "\<And>kept. find (has_digest digest) (codes_of w) = Some kept \<Longrightarrow> fits kept \<Longrightarrow>
      P (Some kept, with_codes w (update_first (has_digest digest) change (codes_of w)))"
    and "P (None, working w)"
  shows "P (on_code digest fits change w)"
  using assms by (auto simp: on_code_def filter_option_eq_Some split: option.split)

text \<open>No refresh token more: the tokens kept are those kept before, used or revoked meanwhile.\<close>

definition no_token_more :: "state \<Rightarrow> state \<Rightarrow> bool" where
  "no_token_more st st' \<longleftrightarrow>
     (\<lambda>realm. map stored_token (st_refresh_tokens st' realm)) = (\<lambda>realm. map stored_token (st_refresh_tokens st realm))"

lemma no_token_more_refl [simp]: "no_token_more st st"
  by (simp add: no_token_more_def)

lemma revoking_adds_no_token: "map stored_token (snd (revoke_where t concerned rows)) = map stored_token rows"
  by (simp add: revoke_where_def)

lemma wp_take_back_code:
  assumes w: "opened s = Some w" "\<not> read_only w" "\<not> failed w" "working w = shared s"
    and Q: "\<And>u. no_token_more (shared s) (shared u) \<Longrightarrow> Q () u" and R: "\<And>e u. shared u = shared s \<Longrightarrow> R e u"
  shows "wp (take_back_what_a_code_obtained app digest client t) (\<lambda>_. wp commit Q R) R s"
proof -
  let ?tokens = "\<lambda>realm. map stored_token (st_refresh_tokens (shared s) realm)"
  have commits: "wp commit Q R u" if "opened u = Some w'" "\<not> failed w'"
      "(\<lambda>realm. map stored_token (st_refresh_tokens (working w') realm)) = ?tokens" for u w'
    using that by (simp add: wp_commit) (auto intro!: Q simp: no_token_more_def)
  have ending: "wp (end_family app name family p x reason t) (\<lambda>_. wp commit Q R) R u"
    if "opened u = Some w'" "\<not> read_only w'" "\<not> failed w'" "shared u = shared s"
      "(\<lambda>realm. map stored_token (st_refresh_tokens (working w') realm)) = ?tokens" for u w' name family p x reason
    by (rule wp_end_family [OF that(1,2)])
       (use that in \<open>auto intro!: commits R simp: idle_def with_refresh_tokens_def refresh_tokens_of_def
          revoking_adds_no_token fun_eq_iff\<close>)
  show ?thesis
    unfolding take_back_what_a_code_obtained_def store_mark_code_replayed_def wp_and_then
      wp_on_work_writing [OF w(1,2)]
    by (rule on_code_cases)
       (use w in \<open>auto intro!: commits ending simp: with_codes_def split: option.split\<close>)
qed

lemma wp_on_code:
  assumes "opened s = Some w" and "\<not> read_only w" and "Q (tell None) s"
    and "\<And>kept. find (has_digest digest) (codes_of w) = Some kept \<Longrightarrow> fits kept \<Longrightarrow>
      Q (tell (Some kept)) (s\<lparr>opened := Some (w\<lparr>working := with_codes w (update_first (has_digest digest) change (codes_of w))\<rparr>)\<rparr>)"
  shows "wp (on_work (writing (\<lambda>w. case on_code digest fits change w of (found, st) \<Rightarrow> (tell found, st)))) Q R s"
  using assms
  by (auto simp: wp_on_work_writing [OF assms(1,2)] on_code_def filter_option_eq_Some split: option.split)

text \<open>A code spent was kept, not spent before and not past its end; a code that is not obtains no token.\<close>

lemma wp_spend_code:
  "wp (spend_code app name secret scope digest)
     (\<lambda>(c, issued) t. c \<in> set (st_clients (shared s) (scope_realm scope)) \<and> client_id c = name \<and> client_enabled c \<and>
        (\<exists>kept. find (has_digest digest) (st_authorization_codes (shared s) (scope_realm scope)) = Some kept \<and>
          spent_at kept = None \<and> app_clock app (tick s) div 1000 * 1000 < code_expires_at (kept_code kept) \<and>
          issued = kept_code kept) \<and>
        shared t = (shared s)\<lparr>st_authorization_codes := (st_authorization_codes (shared s))(scope_realm scope :=
          update_first (has_digest digest) (\<lambda>kept. kept\<lparr>spent_at := Some (app_clock app (tick s) div 1000 * 1000)\<rparr>)
            (st_authorization_codes (shared s) (scope_realm scope)))\<rparr>)
     (\<lambda>_ t. no_token_more (shared s) (shared t)) s"
  (is "wp _ ?Q ?R s")
proof (cases "outage s")
  case None
  let ?t = "app_clock app (tick s) div 1000 * 1000"
  let ?w = "\<lparr>uow_scope = scope, working = shared s, failed = False, read_only = False\<rparr>"
  let ?s = "s\<lparr>opened := Some ?w\<rparr>" and ?u = "s\<lparr>opened := Some ?w, tick := Suc (tick s)\<rparr>"
  have u: "opened ?u = Some ?w" "\<not> read_only ?w" by simp_all
  have spending: "wp (and_then (on_work (store_spend_authorization_code digest ?t)) (\<lambda>spent. case spent of
       None \<Rightarrow> and_then (take_back_what_a_code_obtained app digest (client_id c) ?t) (\<lambda>_.
         and_then commit (\<lambda>_. throw (new_failure GrantInvalid)))
     | Some issued_code \<Rightarrow> and_then commit (\<lambda>_. ret (c, issued_code)))) ?Q ?R ?u"
    if "c \<in> set (st_clients (shared s) (scope_realm scope))" "client_id c = name" "client_enabled c" for c
    unfolding wp_and_then wp_case_option store_spend_authorization_code_def
    by (rule wp_on_code [OF u], simp, rule wp_take_back_code [OF u])
       (use that in \<open>simp_all add: wp_commit with_codes_def codes_of_def uow_realm_def\<close>)
  show ?thesis
    unfolding spend_code_def begin_work_def wp_and_then [of "map_err g m" for g m] wp_map_err wp_open_work None option.case
      wp_and_then [of "identify_client app n p" for n p]
  proof (rule wp_mono [OF wp_identify_client [of ?s ?w]])
    fix c t
    assume "t = ?s \<and> c \<in> set (st_clients (working ?w) (uow_realm ?w)) \<and> client_id c = name \<and> client_enabled c"
    then show "wp (and_then (ensure (allows_authorization_code c) (new_failure GrantNotAllowed)) (\<lambda>_.
         and_then (now app) (\<lambda>t. and_then (on_work (store_spend_authorization_code digest t)) (\<lambda>spent. case spent of
          None \<Rightarrow> and_then (take_back_what_a_code_obtained app digest (client_id c) t) (\<lambda>_.
            and_then commit (\<lambda>_. throw (new_failure GrantInvalid)))
        | Some issued_code \<Rightarrow> and_then commit (\<lambda>_. ret (c, issued_code)))))) ?Q ?R t"
      using spending [of c]
      by (simp add: uow_realm_def wp_and_then [of "ensure b e" for b e] wp_and_then [of "now app"] del: wp_and_then)
  qed simp_all
qed (simp add: spend_code_def begin_work_def)

lemma wp_check_consent:
  assumes "opened s = Some w" and "\<not> read_only w" and "Q () s" and "\<And>e. R e s"
  shows "wp (check_consent c p scopes) Q R s"
  using assms unfolding check_consent_def store_hold_consent_def
  by (simp add: wp_on_work_writing [OF assms(1,2)])

lemma wp_answer_recorded:
  assumes w: "opened s = Some w" "\<not> read_only w" "\<not> failed w"
  shows "wp (and_then (answer_for_person app g) (\<lambda>response.
      and_then (record_event app kind (payload response)) (\<lambda>_. and_then commit (\<lambda>_. ret response))))
    (\<lambda>response t. \<exists>token. same_but_chain (shared t) (with_refresh_tokens w (refresh_tokens_of w @ [fresh_token token])) \<and>
       is_issued app (granted_family g) response token \<and> response_scope response = join_scopes (granted_scopes g))
    (\<lambda>_ t. shared t = shared s) s"
  (is "wp _ ?Q ?R s")
proof -
  have recorded: "wp (record_event app kind (payload response)) (\<lambda>_. wp commit (\<lambda>_. wp (ret response) ?Q ?R) ?R) ?R t"
    if t: "idle (s\<lparr>opened := Some (w\<lparr>working := with_refresh_tokens w (refresh_tokens_of w @ [fresh_token token])\<rparr>)\<rparr>) t"
      and told: "is_issued app (granted_family g) response token" "response_scope response = join_scopes (granted_scopes g)"
    for response t token
  proof (rule wp_record_event)
    let ?w = "w\<lparr>working := with_refresh_tokens w (refresh_tokens_of w @ [fresh_token token])\<rparr>"
    show "opened t = Some ?w" using t by (simp add: idle_def)
    show "wp commit (\<lambda>_. wp (ret response) ?Q ?R) ?R
        (t\<lparr>tick := k, drawn := d, opened := Some (?w\<lparr>working := (working ?w)\<lparr>st_audit := chain\<rparr>\<rparr>)\<rparr>)" for chain k d
      using told w(3) by (simp add: wp_commit) (metis same_but_chain_update)
  qed (use t in \<open>simp add: idle_def\<close>)
  show ?thesis
    unfolding wp_and_then
    by (rule wp_mono [OF wp_answer_for_person [OF w(1,2)]]) (use recorded in auto)
qed

text \<open>What is kept once a code is redeemed: the family is bound to the code, and one token of it is kept.\<close>

definition redeemed :: "app \<Rightarrow> state \<Rightarrow> uuid \<Rightarrow> bytes \<Rightarrow> string \<Rightarrow> authorization_code \<Rightarrow> token_response \<Rightarrow> state \<Rightarrow> bool" where
  "redeemed app st realm digest client issued response st' \<longleftrightarrow>
     (\<exists>family token session.
        same_but_chain st' (st\<lparr>
          st_authorization_codes := (st_authorization_codes st)(realm :=
            update_first (has_digest digest) (\<lambda>kept. kept\<lparr>code_family := Some family\<rparr>) (st_authorization_codes st realm)),
          st_refresh_tokens := (st_refresh_tokens st)(realm := st_refresh_tokens st realm @ [fresh_token token])\<rparr>) \<and>
        session \<in> set (st_sessions st realm) \<and> session_state session = Session_active \<and>
        session_id session = code_session issued \<and> session_person session = code_person issued \<and>
        is_issued app \<lparr>grant_family = family, grant_client_id = client, grant_session = session,
          grant_scopes = code_scopes issued\<rparr> response token \<and>
        response_scope response = join_scopes (code_scopes issued))"

lemma wp_redeem_code:
  "wp (redeem_code app realm scope digest c issued)
     (\<lambda>response t. redeemed app (shared s) (scope_realm scope) digest (client_id c) issued response (shared t))
     (\<lambda>_ t. shared t = shared s) s"
  (is "wp _ ?Q ?R s")
proof (cases "outage s")
  case None
  let ?w = "\<lparr>uow_scope = scope, working = shared s, failed = False, read_only = False\<rparr>"
  let ?s = "s\<lparr>opened := Some ?w\<rparr>"
  have answered: "wp (and_then (answer_for_person app
         \<lparr>granted_issuer = name_issuer app realm, granted_client_id = client_id c, granted_session = x,
          granted_person = p, granted_scopes = code_scopes issued, granted_nonce = code_nonce issued,
          granted_family = \<lparr>grant_family = family, grant_client_id = client_id c, grant_session = x,
             grant_scopes = code_scopes issued\<rparr>\<rparr>) (\<lambda>response. and_then (record_event app kind (payload response)) (\<lambda>_.
        and_then commit (\<lambda>_. ret response)))) ?Q ?R (t\<lparr>opened := Some (?w\<lparr>working := with_codes ?w (update_first (has_digest digest)
          (\<lambda>kept. kept\<lparr>code_family := Some family\<rparr>) (codes_of ?w))\<rparr>)\<rparr>)"
    (is "wp _ _ _ (t\<lparr>opened := Some ?bound\<rparr>)")
    if "shared t = shared s" "x \<in> set (st_sessions (shared s) (scope_realm scope))" "session_state x = Session_active"
      "session_id x = code_session issued" "session_person x = code_person issued"
    for t x p kind payload family
  proof (rule wp_mono [OF wp_answer_recorded [where w = ?bound]])
    fix response and u :: ctx
    let ?g = "\<lparr>granted_issuer = name_issuer app realm, granted_client_id = client_id c, granted_session = x,
          granted_person = p, granted_scopes = code_scopes issued, granted_nonce = code_nonce issued,
          granted_family = \<lparr>grant_family = family, grant_client_id = client_id c, grant_session = x,
             grant_scopes = code_scopes issued\<rparr>\<rparr>"
    assume "\<exists>token. same_but_chain (shared u) (with_refresh_tokens ?bound (refresh_tokens_of ?bound @ [fresh_token token])) \<and>
       is_issued app (granted_family ?g) response token \<and> response_scope response = join_scopes (granted_scopes ?g)"
    then obtain token where
      "same_but_chain (shared u) (with_refresh_tokens ?bound (refresh_tokens_of ?bound @ [fresh_token token]))"
      "is_issued app (granted_family ?g) response token" "response_scope response = join_scopes (granted_scopes ?g)" by blast
    then show "?Q response u"
      unfolding redeemed_def using that(2-)
      by (intro exI [of _ family] exI [of _ token] exI [of _ x])
         (simp add: with_refresh_tokens_def refresh_tokens_of_def with_codes_def codes_of_def uow_realm_def)
  qed (use that(1) in simp_all)
  show ?thesis
    unfolding redeem_code_def begin_work_def wp_and_then [of "map_err g m" for g m] wp_map_err wp_open_work None option.case
      wp_and_then [of "require_live_subject app i p" for i p]
    apply (rule wp_mono [OF wp_require_live_subject [of ?s ?w]])
      apply simp
     apply (clarsimp simp del: wp_and_then)
     apply (rule wp_seq, rule wp_check_consent [where w = ?w])
        apply (simp add: only_later_same)
       apply simp
      apply (rule wp_idle_then [OF writes_nothing_draws(2) idle_refl])
       apply (rule wp_seq, unfold store_bind_code_family_def, rule wp_on_code [where w = ?w])
          apply (simp add: idle_same only_later_same)
         apply simp
        apply (simp add: idle_same only_later_same)
       apply (rule wp_ensured, simp, rule answered)
    apply (simp_all add: idle_same only_later_same uow_realm_def)
    done
qed (simp add: redeem_code_def begin_work_def)

lemma wp_carry_on_rotated:
  assumes spent: "refresh_tokens_of w = before @ stored # after"
      "is_spendable (app_sha256 app presented) (client_id c) t (refresh_tokens_of w) stored"
    and presented: "request_refresh_token request = Some presented"
    and s: "opened s = Some (w\<lparr>working := with_refresh_tokens w (before @ stored\<lparr>used_at := Some t\<rparr> # after)\<rparr>)"
    and w: "\<not> read_only w" "\<not> failed w"
  shows "wp (carry_on app realm c (request_scope request) (stored_token stored))
     (\<lambda>response u. rotated app (working w) (uow_realm w) t (client_id c) request response (shared u))
     (\<lambda>_ u. shared u = shared s) s"
proof (rule wp_mono [OF wp_carry_on [OF s]])
  let ?u = "w\<lparr>working := with_refresh_tokens w (before @ stored\<lparr>used_at := Some t\<rparr> # after)\<rparr>"
  fix response and u :: ctx
  assume "\<exists>token session scopes. shared u = with_refresh_tokens ?u (refresh_tokens_of ?u @ [fresh_token token]) \<and>
    session \<in> set (st_sessions (working ?u) (uow_realm ?u)) \<and> session_state session = Session_active \<and>
    session_id session = token_session (stored_token stored) \<and>
    session_person session = token_person (stored_token stored) \<and>
    is_issued app \<lparr>grant_family = token_family (stored_token stored), grant_client_id = client_id c,
      grant_session = session, grant_scopes = token_scopes (stored_token stored)\<rparr> response token \<and>
    narrow_scopes (request_scope request) (token_scopes (stored_token stored)) = Ok scopes \<and>
    response_scope response = join_scopes scopes"
  then obtain token session scopes where
    left: "shared u = with_refresh_tokens ?u (refresh_tokens_of ?u @ [fresh_token token])"
    and live: "session \<in> set (st_sessions (working ?u) (uow_realm ?u))"
    and told: "session_state session = Session_active" "session_id session = token_session (stored_token stored)"
      "session_person session = token_person (stored_token stored)"
      "is_issued app \<lparr>grant_family = token_family (stored_token stored), grant_client_id = client_id c,
        grant_session = session, grant_scopes = token_scopes (stored_token stored)\<rparr> response token"
      "narrow_scopes (request_scope request) (token_scopes (stored_token stored)) = Ok scopes"
      "response_scope response = join_scopes scopes"
    by blast
  have rows: "st_refresh_tokens (working w) (uow_realm w) = before @ stored # after"
    using spent(1) by (simp add: refresh_tokens_of_def)
  have "shared u = (working w)\<lparr>st_refresh_tokens := (st_refresh_tokens (working w))(uow_realm w :=
      before @ stored\<lparr>used_at := Some t\<rparr> # after @ [fresh_token token])\<rparr>"
    using left by (simp add: with_refresh_tokens_def refresh_tokens_of_def uow_realm_def)
  moreover have "session \<in> set (st_sessions (working w) (uow_realm w))"
    using live by (simp add: with_refresh_tokens_def uow_realm_def)
  moreover have "is_spendable (app_sha256 app presented) (client_id c) t (st_refresh_tokens (working w) (uow_realm w)) stored"
    using spent(2) by (simp add: refresh_tokens_of_def)
  ultimately show "rotated app (working w) (uow_realm w) t (client_id c) request response (shared u)"
    using rotatedI [OF presented rows] told by blast
qed (use w in simp_all)

subsection \<open>Properties\<close>

text \<open>
  C6: a refresh token is good for one answer. A rotation that answers spent a token the client had
  been given, that was neither used, revoked nor past its end and whose family stands; it left that
  token used and one more of its family. A rotation that does not answer left the tokens as they
  were, or found a token used before and revoked every token of its family.
\<close>

theorem refresh_tokens_rotate_once:
  "wp (rotate_refresh_token app realm scope request)
     (\<lambda>response t. \<exists>c. request_client_id request = Some (client_id c) \<and>
        c \<in> set (st_clients (shared s) (scope_realm scope)) \<and> client_enabled c \<and>
        rotated app (shared s) (scope_realm scope) (app_clock app (tick s) div 1000 * 1000) (client_id c) request response (shared t))
     (\<lambda>_ t. shared t = shared s \<or> (\<exists>client. request_client_id request = Some client \<and>
        taken_back app (shared s) (scope_realm scope) (app_clock app (tick s) div 1000 * 1000) client
          (request_refresh_token request) (shared t))) s"
  (is "wp _ ?Q ?R s")
proof (cases "\<exists>name presented. request_client_id request = Some name \<and> request_refresh_token request = Some presented \<and> outage s = None")
  case True
  then obtain name presented where given: "request_client_id request = Some name"
    "request_refresh_token request = Some presented" "outage s = None" by blast
  let ?t = "app_clock app (tick s) div 1000 * 1000" and ?digest = "app_sha256 app presented"
  let ?w = "\<lparr>uow_scope = scope, working = shared s, failed = False, read_only = False\<rparr>"
  let ?s = "s\<lparr>tick := Suc (tick s), opened := Some ?w\<rparr>"
  have s: "opened ?s = Some ?w" by simp
  have spending: "wp (and_then (on_work (store_spend_refresh_token ?digest (client_id c) ?t)) (\<lambda>spent. case spent of
      None \<Rightarrow> and_then (take_back_replayed app c ?digest ?t) (\<lambda>_. throw (new_failure GrantInvalid))
    | Some token \<Rightarrow> carry_on app realm c (request_scope request) token)) ?Q (\<lambda>e. ?R (oauth_failure_of e)) ?s"
    if "c \<in> set (st_clients (shared s) (scope_realm scope))" "client_id c = name" "client_enabled c" for c
    unfolding wp_and_then [of "on_work m" for m]
  proof (rule wp_spend_refresh_token [OF s])
    show "wp (case None of None \<Rightarrow> and_then (take_back_replayed app c ?digest ?t) (\<lambda>_. throw (new_failure GrantInvalid))
      | Some token \<Rightarrow> carry_on app realm c (request_scope request) token) ?Q (\<lambda>e. ?R (oauth_failure_of e)) ?s"
      unfolding option.case wp_and_then
      by (rule wp_mono [OF wp_take_back_replayed [OF s]]) (use given that in \<open>auto simp: uow_realm_def\<close>)
  next
    fix before stored after
    assume spent: "refresh_tokens_of ?w = before @ stored # after"
      "is_spendable ?digest (client_id c) ?t (refresh_tokens_of ?w) stored"
    let ?u = "?w\<lparr>working := with_refresh_tokens ?w (before @ stored\<lparr>used_at := Some ?t\<rparr> # after)\<rparr>"
    have "wp (carry_on app realm c (request_scope request) (stored_token stored)) ?Q (\<lambda>e. ?R (oauth_failure_of e))
        (?s\<lparr>opened := Some ?u\<rparr>)"
      using given that
      by (intro wp_mono [OF wp_carry_on_rotated [where w = ?w, OF spent given(2)]]) (auto simp: uow_realm_def)
    then show "wp (case Some (stored_token stored) of
          None \<Rightarrow> and_then (take_back_replayed app c ?digest ?t) (\<lambda>_. throw (new_failure GrantInvalid))
        | Some token \<Rightarrow> carry_on app realm c (request_scope request) token) ?Q (\<lambda>e. ?R (oauth_failure_of e))
        (?s\<lparr>opened := Some ?u\<rparr>)"
      by simp
  qed simp
  have "wp (rotate_refresh_token app realm scope request) ?Q ?R s = wp (identify_client app name (request_client_secret request))
      (\<lambda>c. wp (and_then (ensure (allows_authorization_code c) (new_failure GrantNotAllowed)) (\<lambda>_.
         and_then (on_work (store_spend_refresh_token ?digest (client_id c) ?t)) (\<lambda>spent. case spent of
          None \<Rightarrow> and_then (take_back_replayed app c ?digest ?t) (\<lambda>_. throw (new_failure GrantInvalid))
        | Some token \<Rightarrow> carry_on app realm c (request_scope request) token))) ?Q (\<lambda>e. ?R (oauth_failure_of e)))
      (\<lambda>e. ?R (oauth_failure_of e)) ?s"
    by (simp add: rotate_refresh_token_def lift_failure_def given begin_work_def Let_def)
  also have \<dots>
    by (rule wp_mono [OF wp_identify_client [OF s]])
       (auto simp: uow_realm_def wp_and_then [of "ensure b e" for b e] intro!: spending simp del: wp_and_then)
  finally show ?thesis by simp
qed (auto simp: rotate_refresh_token_def refused_def lift_failure_def begin_work_def split: option.split)

text \<open>
  C5: an authorization code obtains tokens once. An exchange that answers was of a code the realm
  kept, not spent and not past its end, bound to the client that presents it, to the redirection
  and to the verifier of its challenge; it left the code spent and bound to one family, with one
  refresh token kept for the session and the scopes of the code. An exchange that does not answer
  left no refresh token more.
\<close>

theorem codes_obtain_tokens_once:
  "wp (exchange_code app realm scope request)
     (\<lambda>response t. \<exists>presented redirect verifier c kept.
        request_code request = Some presented \<and> request_redirect_uri request = Some redirect \<and>
        request_code_verifier request = Some verifier \<and> request_client_id request = Some (client_id c) \<and>
        c \<in> set (st_clients (shared s) (scope_realm scope)) \<and> client_enabled c \<and>
        find (has_digest (app_sha256 app presented)) (st_authorization_codes (shared s) (scope_realm scope)) = Some kept \<and>
        spent_at kept = None \<and> app_clock app (tick s) div 1000 * 1000 < code_expires_at (kept_code kept) \<and>
        code_client_id (kept_code kept) = client_id c \<and> code_redirect_uri (kept_code kept) = redirect \<and>
        app_equal app (app_base64_encode app (app_sha256 app verifier)) (code_challenge (kept_code kept)) \<and>
        redeemed app ((shared s)\<lparr>st_authorization_codes := (st_authorization_codes (shared s))(scope_realm scope :=
            update_first (has_digest (app_sha256 app presented))
              (\<lambda>kept. kept\<lparr>spent_at := Some (app_clock app (tick s) div 1000 * 1000)\<rparr>)
              (st_authorization_codes (shared s) (scope_realm scope)))\<rparr>)
          (scope_realm scope) (app_sha256 app presented) (client_id c) (kept_code kept) response (shared t))
     (\<lambda>_ t. no_token_more (shared s) (shared t)) s"
  (is "wp _ ?Q (\<lambda>_. ?R) s")
proof (cases "\<exists>name presented redirect verifier. request_client_id request = Some name \<and> request_code request = Some presented \<and>
    request_redirect_uri request = Some redirect \<and> request_code_verifier request = Some verifier")
  case True
  then obtain name presented redirect verifier where given: "request_client_id request = Some name"
    "request_code request = Some presented" "request_redirect_uri request = Some redirect"
    "request_code_verifier request = Some verifier" by blast
  let ?digest = "app_sha256 app presented" and ?t = "app_clock app (tick s) div 1000 * 1000"
  let ?codes = "st_authorization_codes (shared s) (scope_realm scope)"
  let ?spent = "(shared s)\<lparr>st_authorization_codes := (st_authorization_codes (shared s))(scope_realm scope :=
    update_first (has_digest ?digest) (\<lambda>kept. kept\<lparr>spent_at := Some ?t\<rparr>) ?codes)\<rparr>"
  have none_more: "no_token_more (shared s) ?spent" by (simp add: no_token_more_def)
  have redeeming: "wp (and_then (ensure (is_bound_to app c redirect verifier (kept_code kept)) (new_failure GrantInvalid)) (\<lambda>_.
      redeem_code app realm scope ?digest c (kept_code kept))) ?Q (\<lambda>_. ?R) t"
    if "shared t = ?spent" "c \<in> set (st_clients (shared s) (scope_realm scope))" "client_id c = name" "client_enabled c"
      "find (has_digest ?digest) ?codes = Some kept" "spent_at kept = None" "?t < code_expires_at (kept_code kept)" for c kept t
    unfolding wp_and_then wp_ensure
  proof (split if_split, intro conjI impI)
    assume "is_bound_to app c redirect verifier (kept_code kept)"
    then show "wp (redeem_code app realm scope ?digest c (kept_code kept)) ?Q (\<lambda>_. ?R) t"
      by (intro wp_mono [OF wp_redeem_code])
         (use given that none_more in \<open>simp_all add: is_bound_to_def matches_challenge_def, metis\<close>)
  qed (simp add: that(1) none_more)
  have "wp (and_then (spend_code app name (request_client_secret request) scope ?digest) (\<lambda>(c, found).
      and_then (ensure (is_bound_to app c redirect verifier found) (new_failure GrantInvalid)) (\<lambda>_.
      redeem_code app realm scope ?digest c found))) ?Q (\<lambda>_. ?R) s"
    by (rule wp_seq, rule wp_mono [OF wp_spend_code], clarify) (rule redeeming, simp_all)
  then show ?thesis
    by (simp add: exchange_code_def given lift_failure_def Let_def del: wp_and_then)
qed (auto simp: exchange_code_def refused_def split: option.split)

text \<open>
  C33: no scope is granted beyond what is allowed. Asking for nothing grants what is allowed; asking
  for scopes grants exactly those asked for, each once, when every one is written as a scope is and
  allowed. Anything else is refused, for a scope asked for that is not written as one, or that is not allowed.
\<close>

theorem scopes_are_narrowed:
  "case narrow_scopes asked allowed of
     Ok granted \<Rightarrow> set granted \<subseteq> set allowed \<and>
       (case asked of
          None \<Rightarrow> granted = allowed
        | Some text \<Rightarrow> distinct granted \<and> set granted = {token \<in> set (split_at CHR '' '' text). token \<noteq> []} \<and>
            list_all (\<lambda>token. check_scope_token token = Ok ()) granted)
   | Err e \<Rightarrow> (\<exists>text token. asked = Some text \<and> token \<in> set (split_at CHR '' '' text) \<and> token \<noteq> [] \<and>
       (check_scope_token token = Ok () \<and> token \<notin> set allowed \<and> e = new_failure ScopeNotAllowed \<or>
        check_scope_token token = Err e \<and> e = new_failure ScopeInvalid))"
proof -
  have each: "case narrow_each allowed granted tokens of
      Ok told \<Rightarrow> set told = set granted \<union> set tokens \<and> set tokens \<subseteq> set allowed \<and> (distinct granted \<longrightarrow> distinct told) \<and>
        list_all (\<lambda>token. check_scope_token token = Ok ()) tokens
    | Err e \<Rightarrow> (\<exists>token \<in> set tokens. check_scope_token token = Ok () \<and> token \<notin> set allowed \<and> e = new_failure ScopeNotAllowed \<or>
        check_scope_token token = Err e)"
    for granted tokens
  proof (induction tokens arbitrary: granted)
    case (Cons token tokens)
    from Cons.IH [of granted] Cons.IH [of "granted @ [token]"] show ?case
      by (auto split: sum.splits)
  qed simp
  have refusal: "check_scope_token token = Err e \<Longrightarrow> e = new_failure ScopeInvalid" for token e
    by (auto simp: check_scope_token_def split: if_splits)
  show ?thesis
  proof (cases asked)
    case (Some asking)
    from each [where granted = "[]" and tokens = "filter (\<lambda>token. token \<noteq> []) (split_at CHR '' '' asking)"] Some
    show ?thesis
      by (cases "narrow_each allowed [] (filter (\<lambda>token. token \<noteq> []) (split_at CHR '' '' asking))")
         (auto simp: narrow_scopes_def list_all_iff dest: refusal)
  qed (simp add: narrow_scopes_def)
qed

lemma wp_grant_to_service:
  assumes Q: "\<And>response t c scopes. same_but_chain (shared t) (shared s) \<Longrightarrow> response_refresh_token response = None \<Longrightarrow>
      response_id_token response = None \<Longrightarrow> request_client_id request = Some (client_id c) \<Longrightarrow>
      request_client_secret request \<noteq> None \<Longrightarrow> c \<in> set (st_clients (shared s) (scope_realm scope)) \<Longrightarrow>
      client_enabled c \<Longrightarrow> allows_client_credentials c \<Longrightarrow>
      narrow_scopes (request_scope request) (client_scopes c) = Ok scopes \<Longrightarrow>
      response_scope response = join_scopes scopes \<Longrightarrow> Q response t"
    and R: "\<And>e t. shared t = shared s \<Longrightarrow> R e t"
  shows "wp (grant_to_service app realm scope request) Q R s"
proof (cases "\<exists>name secret. request_client_id request = Some name \<and> request_client_secret request = Some secret \<and> outage s = None")
  case True
  then obtain name secret where given: "request_client_id request = Some name" "request_client_secret request = Some secret"
    "outage s = None" by blast
  let ?w = "\<lparr>uow_scope = scope, working = shared s, failed = False, read_only = False\<rparr>"
  let ?s = "s\<lparr>opened := Some ?w\<rparr>"
  have told: "wp (and_then (record_event app kind payload) (\<lambda>_. and_then commit (\<lambda>_. ret response))) Q (\<lambda>e. R (oauth_failure_of e)) t"
    if "idle ?s t" "\<And>t. same_but_chain (shared t) (shared s) \<Longrightarrow> Q response t" for t kind payload response
    by (rule wp_seq, rule wp_record_event [where w = ?w]) (use that R in \<open>simp_all add: idle_def wp_commit\<close>)
  have minting: "wp (and_then (mint_access_token app key
      \<lparr>subject_issuer = name_issuer app realm, subject_name = client_id c, subject_client_id = client_id c,
       subject_scopes = scopes, subject_session = None, subject_roles = None\<rparr>) (\<lambda>minted.
      and_then (record_event app kind (payload minted)) (\<lambda>_. and_then commit (\<lambda>_.
      ret \<lparr>response_access_token = issued_token minted, response_token_type = ''Bearer'',
           response_expires_in = issued_expires_in minted, response_scope = issued_scope minted,
           response_id_token = None, response_refresh_token = None\<rparr>)))) Q (\<lambda>e. R (oauth_failure_of e)) t"
    if "idle ?s t" "c \<in> set (st_clients (shared s) (scope_realm scope))" "client_id c = name" "client_enabled c"
      "allows_client_credentials c" "narrow_scopes (request_scope request) (client_scopes c) = Ok scopes"
    for t key c scopes kind payload
  proof (rule wp_seq, rule wp_mono [OF wp_mint_scope])
    fix minted :: issued_access_token and u
    assume "idle t u \<and> issued_scope minted = join_scopes (subject_scopes \<lparr>subject_issuer = name_issuer app realm,
      subject_name = client_id c, subject_client_id = client_id c, subject_scopes = scopes, subject_session = None,
      subject_roles = None\<rparr>)"
    then show "wp (and_then (record_event app kind (payload minted)) (\<lambda>_. and_then commit (\<lambda>_.
      ret \<lparr>response_access_token = issued_token minted, response_token_type = ''Bearer'',
           response_expires_in = issued_expires_in minted, response_scope = issued_scope minted,
           response_id_token = None, response_refresh_token = None\<rparr>))) Q (\<lambda>e. R (oauth_failure_of e)) u"
      using that given by (intro told Q [where c = c and scopes = scopes]) (auto intro: idle_trans)
  next
    fix e u
    assume "idle t u"
    then show "R (oauth_failure_of e) u" using that(1) by (intro R) (simp add: idle_def)
  qed
  show ?thesis
    unfolding grant_to_service_def given option.case prod.case lift_failure_def wp_map_err
      begin_work_def wp_and_then [of "map_err g m" for g m] wp_open_work
    apply (rule wp_seq, rule wp_mono [OF wp_authenticate_client [of ?s ?w]])
      apply simp
     apply clarify
     apply (rule wp_ensure_then)
      apply (rule wp_lift_then)
       apply (rule wp_idle_then [OF writes_nothing_minting(1) idle_refl])
        apply (rule minting)
             apply (simp_all add: uow_realm_def idle_def R)
    done
qed (auto intro: R simp: grant_to_service_def refused_def lift_failure_def begin_work_def split: option.split)

text \<open>
  C34: a service gets tokens in its own name only: it presents the secret of an enabled client that
  may ask for them, gets the scopes it asked for within those of the client, and no refresh token;
  nothing but the record of it is written, and a refusal writes nothing.
\<close>

theorem services_get_their_own_tokens:
  "wp (grant_to_service app realm scope request)
     (\<lambda>response t. same_but_chain (shared t) (shared s) \<and> response_refresh_token response = None \<and>
        response_id_token response = None \<and>
        (\<exists>c scopes. request_client_id request = Some (client_id c) \<and> request_client_secret request \<noteq> None \<and>
           c \<in> set (st_clients (shared s) (scope_realm scope)) \<and> client_enabled c \<and> allows_client_credentials c \<and>
           narrow_scopes (request_scope request) (client_scopes c) = Ok scopes \<and>
           response_scope response = join_scopes scopes))
     (\<lambda>_ t. shared t = shared s) s"
  by (rule wp_grant_to_service) auto

end
