(* ===== verification/Authorize.thy ===== *)
theory Authorize
  imports Sign_In Oidc
begin

text \<open>
  The authorization endpoint and the pages behind it (\<open>saffui-core/src/oidc/authorize.rs\<close> and
  \<open>consent/answer.rs\<close>): a request is trusted, answered from a session or left waiting, its person
  signs in and allows the client, and a code travels back. What is shown of
  them is in the theory \<open>Granting\<close>.
\<close>

subsection \<open>What a client asks\<close>

definition CODE_LIFETIME :: duration where "CODE_LIFETIME = 60 * 1000000000"
definition PENDING_LIFETIME :: duration where "PENDING_LIFETIME = 10 * 60 * 1000000000"
definition OPAQUE_VALUE_MAX_BYTES :: nat where "OPAQUE_VALUE_MAX_BYTES = 512"

record authorization_parameters =
  asked_response_type :: "string option"
  asked_client_id :: "string option"
  asked_redirect_uri :: "string option"
  asked_scope :: "string option"
  asked_state :: "string option"
  asked_nonce :: "string option"
  asked_code_challenge :: "string option"
  asked_code_challenge_method :: "string option"
  asked_prompt :: "string option"
  asked_max_age :: "string option"
  asked_id_token_hint :: "string option"
  asking_caller :: "ip_addr option"
  asking_browsers :: "device_mark list"

datatype authorization =
    Granted string
  | Sign_in_required uuid bytes
  | Consent_required uuid bytes

datatype authorization_refusal = Shown failure | Returned string

type_synonym 'a authorization_case = "(ctx, authorization_refusal, 'a) act"

definition or_shown :: "'a use_case \<Rightarrow> 'a authorization_case" where
  "or_shown m = map_err Shown m"

record proof_asked =
  asks_fresh :: bool
  asks_silent :: bool
  asks_consent :: bool
  asks_max_age :: "int option"

record trusted_request =
  trusted_realm :: string
  trusted_client :: client
  trusted_redirect_uri :: string
  trusted_scopes :: "string list"
  trusted_state :: "string option"
  trusted_nonce :: "string option"
  trusted_code_challenge :: string
  trusted_proof :: proof_asked

text \<open>The loop over the values of \<open>prompt\<close>.\<close>

fun read_prompts :: "string list \<Rightarrow> proof_asked \<Rightarrow> proof_asked option" where
  "read_prompts [] asked = Some asked"
| "read_prompts (value # values) asked =
     (if value = ''none'' then read_prompts values (asked\<lparr>asks_silent := True\<rparr>)
      else if value = ''login'' \<or> value = ''select_account'' then read_prompts values (asked\<lparr>asks_fresh := True\<rparr>)
      else if value = ''consent'' then read_prompts values (asked\<lparr>asks_consent := True\<rparr>)
      else None)"

definition read_proof_asked :: "string option \<Rightarrow> string option \<Rightarrow> proof_asked option" where
  "read_proof_asked prompt age =
     (let prompts = filter (\<lambda>value. value \<noteq> []) (split_at CHR '' '' (case prompt of None \<Rightarrow> [] | Some p \<Rightarrow> p)) in
      case read_prompts prompts \<lparr>asks_fresh = False, asks_silent = False, asks_consent = False, asks_max_age = None\<rparr> of
        None \<Rightarrow> None
      | Some asked \<Rightarrow>
          if asks_silent asked \<and> length prompts > 1 then None
          else (case filter_option (\<lambda>written. written \<noteq> []) age of
                  None \<Rightarrow> Some asked
                | Some written \<Rightarrow>
                    if length written > 10 \<or> \<not> list_all is_ascii_digit written then None
                    else map_option (\<lambda>n. asked\<lparr>asks_max_age := Some n\<rparr>) (parse_i64 written)))"

subsection \<open>The way back to the client\<close>

definition hex_digit_upper :: "nat \<Rightarrow> char" where
  "hex_digit_upper n = (if n < 10 then char_of (48 + n) else char_of (55 + n))"

definition write_query_byte :: "char \<Rightarrow> string" where
  "write_query_byte c =
     (if is_unreserved c then [c]
      else [CHR ''%'', hex_digit_upper (of_char c div 16), hex_digit_upper (of_char c mod 16)])"

definition write_query_value :: "string \<Rightarrow> string" where
  "write_query_value value = concat (map write_query_byte value)"

definition write_return_location :: "string \<Rightarrow> string \<Rightarrow> string option \<Rightarrow> (string \<times> string) list \<Rightarrow> string" where
  "write_return_location redirect_uri issuer state answer =
     redirect_uri @ (if CHR ''?'' \<in> set redirect_uri then ''&'' else ''?'') @
     concat (map (\<lambda>(name, value). name @ ''='' @ write_query_value value @ ''&'') answer) @
     (case state of None \<Rightarrow> [] | Some value \<Rightarrow> ''state='' @ write_query_value value @ ''&'') @
     ''iss='' @ write_query_value issuer"

subsection \<open>A request the client may make\<close>

text \<open>Too long, or with a character no client writes on purpose.\<close>

definition is_unacceptable :: "string \<Rightarrow> bool" where
  "is_unacceptable value \<longleftrightarrow> length value > OPAQUE_VALUE_MAX_BYTES \<or> list_ex is_control (chars value)"

text \<open>The loop over the scopes asked for: each is allowed the client, and kept once.\<close>

fun collect_scopes :: "string list \<Rightarrow> string list \<Rightarrow> string list \<Rightarrow> string list option" where
  "collect_scopes allowed scopes [] = Some scopes"
| "collect_scopes allowed scopes (token # tokens) =
     (if check_scope_token token \<noteq> Ok () \<or> token \<notin> set allowed then None
      else collect_scopes allowed (if token \<in> set scopes then scopes else scopes @ [token]) tokens)"

text \<open>What is checked once the client and its redirect URI are trusted: every refusal is returned to it.\<close>

definition read_trusted ::
    "app \<Rightarrow> string \<Rightarrow> client \<Rightarrow> string \<Rightarrow> authorization_parameters \<Rightarrow> oauth_error + trusted_request" where
  "read_trusted app realm c redirect_uri parameters =
     (if is_some_and is_unacceptable (asked_state parameters) \<or> is_some_and is_unacceptable (asked_nonce parameters)
      then Err InvalidRequest
      else if asked_response_type parameters \<noteq> Some ''code'' then Err UnsupportedResponseType
      else (case filter_option (is_well_formed_challenge app) (asked_code_challenge parameters) of
              None \<Rightarrow> Err InvalidRequest
            | Some challenge \<Rightarrow>
                if asked_code_challenge_method parameters \<noteq> Some ''S256'' then Err InvalidRequest
                else (case read_proof_asked (asked_prompt parameters) (asked_max_age parameters) of
                        None \<Rightarrow> Err InvalidRequest
                      | Some proof \<Rightarrow>
                          (case collect_scopes (client_scopes c) []
                              (filter (\<lambda>token. token \<noteq> []) (split_at CHR '' ''
                                (case asked_scope parameters of None \<Rightarrow> [] | Some text \<Rightarrow> text))) of
                             None \<Rightarrow> Err InvalidScope
                           | Some scopes \<Rightarrow>
                               Ok \<lparr>trusted_realm = realm, trusted_client = c, trusted_redirect_uri = redirect_uri,
                                   trusted_scopes = scopes,
                                   trusted_state = filter_option (\<lambda>x. \<not> is_unacceptable x) (asked_state parameters),
                                   trusted_nonce = asked_nonce parameters, trusted_code_challenge = challenge,
                                   trusted_proof = proof\<rparr>))))"

definition may_sign_in :: "client \<Rightarrow> bool" where
  "may_sign_in c \<longleftrightarrow> client_enabled c \<and> allows_authorization_code c"

definition trust_request :: "app \<Rightarrow> string \<Rightarrow> authorization_parameters \<Rightarrow> trusted_request authorization_case" where
  "trust_request app realm parameters =
     and_then (or_shown (resolve_realm realm)) (\<lambda>(realm, scope).
     and_then (or_shown (begin_work scope)) (\<lambda>_.
     and_then (or_shown (lift_result (ok_or (new_failure ClientNotFound) (asked_client_id parameters)))) (\<lambda>named.
     and_then (or_shown (read_named_client app named)) (\<lambda>found.
     and_then (or_shown (lift_result (ok_or (new_failure ClientNotFound) (filter_option may_sign_in found)))) (\<lambda>c.
     and_then (or_shown (lift_result (ok_or (new_failure RedirectUriMismatch)
         (filter_option (\<lambda>asked. asked \<in> set (redirect_uris c)) (asked_redirect_uri parameters))))) (\<lambda>redirect_uri.
     case read_trusted app realm c redirect_uri parameters of
       Ok trusted \<Rightarrow> ret trusted
     | Err e \<Rightarrow> throw (Returned (write_return_location redirect_uri (name_issuer app realm)
         (filter_option (\<lambda>x. \<not> is_unacceptable x) (asked_state parameters)) [(''error'', oauth_error_name e)]))))))))"

subsection \<open>Codes\<close>

record code_grant =
  for_realm :: string
  for_client_id :: string
  for_redirect_uri :: string
  for_scopes :: "string list"
  for_state :: "string option"
  for_nonce :: "string option"
  for_code_challenge :: string
  for_person :: uuid
  for_session :: uuid
  for_authenticated_at :: instant

definition issue_code :: "app \<Rightarrow> code_grant \<Rightarrow> string use_case" where
  "issue_code app g =
     and_then (fill_random app 32) (\<lambda>random.
     let minted = app_base64_encode app random in
     and_then (now app) (\<lambda>t.
     and_then (on_work (store_insert_authorization_code
         \<lparr>code_digest = app_sha256 app minted, code_client_id = for_client_id g, code_person = for_person g,
          code_session = for_session g, code_redirect_uri = for_redirect_uri g, code_scopes = for_scopes g,
          code_nonce = for_nonce g, code_challenge = for_code_challenge g,
          code_authenticated_at = for_authenticated_at g, code_expires_at = t + CODE_LIFETIME\<rparr>)) (\<lambda>_.
     ret (write_return_location (for_redirect_uri g) (name_issuer app (for_realm g)) (for_state g)
            [(''code'', minted)]))))"

definition tell_client :: "trusted_request \<Rightarrow> string \<Rightarrow> oauth_error \<Rightarrow> authorization_refusal" where
  "tell_client trusted issuer e =
     Returned (write_return_location (trusted_redirect_uri trusted) issuer (trusted_state trusted)
       [(''error'', oauth_error_name e)])"

definition hold_session_to_hint ::
    "app \<Rightarrow> trusted_request \<Rightarrow> string \<Rightarrow> string \<Rightarrow> session option \<Rightarrow> (session option \<times> uuid) authorization_case" where
  "hold_session_to_hint app trusted issuer hint x =
     and_then (or_shown (read_identity_hint app issuer hint)) (\<lambda>found.
     case Option.bind (filter_option (\<lambda>named. hint_client_id named = client_id (trusted_client trusted)) found)
            (\<lambda>named. app_uuid_parse app (hint_subject named)) of
       None \<Rightarrow> throw (tell_client trusted issuer InvalidRequest)
     | Some expected \<Rightarrow> ret (filter_option (\<lambda>y. session_person y = expected) x, expected))"

subsection \<open>Consent, and requests that wait\<close>

definition is_consent_owed_by :: "client \<Rightarrow> bool \<Rightarrow> uuid \<Rightarrow> string list \<Rightarrow> bool use_case" where
  "is_consent_owed_by c prompted p scopes =
     and_then (if requires_consent c \<and> \<not> prompted
         then and_then (on_work (store_read_consent p (client_id c))) (\<lambda>held. ret (map_option consent_scopes held))
         else ret None) (\<lambda>allowed.
     ret (is_consent_owed \<lparr>terms_require_consent = requires_consent c, terms_allowed = allowed\<rparr> prompted scopes))"

definition keep_pending_authorization ::
    "app \<Rightarrow> trusted_request \<Rightarrow> uuid option \<Rightarrow> uuid option \<Rightarrow> (uuid \<times> bytes) use_case" where
  "keep_pending_authorization app trusted expected waiting_in =
     and_then (fill_random app 32) (\<lambda>secret.
     and_then (mint_id app) (\<lambda>i.
     and_then (now app) (\<lambda>t.
     and_then (on_work (store_insert_pending_authorization
         \<lparr>pending_id = i, browser_digest = app_sha256 app secret,
          pending_client_id = client_id (trusted_client trusted), pending_redirect_uri = trusted_redirect_uri trusted,
          pending_scopes = trusted_scopes trusted, pending_state = trusted_state trusted,
          pending_nonce = trusted_nonce trusted, pending_code_challenge = trusted_code_challenge trusted,
          pending_expires_at = t + PENDING_LIFETIME, expected_person = expected, first_factor = None,
          pending_key_proof = None, consent_prompted = asks_consent (trusted_proof trusted),
          consent_session = waiting_in\<rparr>)) (\<lambda>_.
     ret (i, secret)))))"

definition leave_request_waiting ::
    "app \<Rightarrow> authorization_parameters \<Rightarrow> trusted_request \<Rightarrow> uuid option \<Rightarrow> uuid option \<Rightarrow> (uuid \<times> bytes) use_case" where
  "leave_request_waiting app parameters trusted expected waiting_in =
     and_then (admit_pending_sign_in app (asking_caller parameters) (asking_browsers parameters)) (\<lambda>_.
     and_then (keep_pending_authorization app trusted expected waiting_in) (\<lambda>kept.
     and_then commit (\<lambda>_.
     ret kept)))"

text \<open>\<open>Duration::whole_seconds\<close>: rounded towards zero.\<close>

definition whole_seconds :: "duration \<Rightarrow> int" where
  "whole_seconds d = (if d \<ge> 0 then d div 1000000000 else - (- d div 1000000000))"

definition is_proven_recently :: "proof_asked \<Rightarrow> instant \<Rightarrow> session \<Rightarrow> bool" where
  "is_proven_recently asked t x \<longleftrightarrow>
     is_none_or (\<lambda>age. whole_seconds (t - authenticated_at x) < age) (asks_max_age asked)"

subsection \<open>The authorization endpoint\<close>

definition answer_with_session ::
    "app \<Rightarrow> authorization_parameters \<Rightarrow> trusted_request \<Rightarrow> string \<Rightarrow> uuid option \<Rightarrow> session \<Rightarrow> authorization authorization_case" where
  "answer_with_session app parameters trusted issuer expected x =
     and_then (or_shown (is_consent_owed_by (trusted_client trusted) (asks_consent (trusted_proof trusted))
         (session_person x) (trusted_scopes trusted))) (\<lambda>owed.
     if owed \<and> asks_silent (trusted_proof trusted) then throw (tell_client trusted issuer ConsentRequired)
     else if owed then
       and_then (or_shown (leave_request_waiting app parameters trusted expected (Some (session_id x)))) (\<lambda>(i, secret).
       ret (Consent_required i secret))
     else
       and_then (or_shown (issue_code app
           \<lparr>for_realm = trusted_realm trusted, for_client_id = client_id (trusted_client trusted),
            for_redirect_uri = trusted_redirect_uri trusted, for_scopes = trusted_scopes trusted,
            for_state = trusted_state trusted, for_nonce = trusted_nonce trusted,
            for_code_challenge = trusted_code_challenge trusted, for_person = session_person x,
            for_session = session_id x, for_authenticated_at = authenticated_at x\<rparr>)) (\<lambda>location.
       and_then (or_shown commit) (\<lambda>_.
       ret (Granted location))))"

definition begin_authorization ::
    "app \<Rightarrow> string \<Rightarrow> authorization_parameters \<Rightarrow> session_ticket option \<Rightarrow> authorization authorization_case" where
  "begin_authorization app realm parameters ticket =
     and_then (trust_request app realm parameters) (\<lambda>trusted.
     and_then (or_shown (case ticket of
         Some presented \<Rightarrow>
           if \<not> asks_fresh (trusted_proof trusted) then find_answering_session app presented else ret None
       | None \<Rightarrow> ret None)) (\<lambda>found.
     and_then (now app) (\<lambda>t.
     let recent = filter_option (is_proven_recently (trusted_proof trusted) t) found;
         issuer = name_issuer app (trusted_realm trusted) in
     and_then (case filter_option (\<lambda>hint. hint \<noteq> []) (asked_id_token_hint parameters) of
         Some hint \<Rightarrow>
           and_then (hold_session_to_hint app trusted issuer hint recent) (\<lambda>(x, expected).
           ret (x, Some expected))
       | None \<Rightarrow> ret (recent, None)) (\<lambda>(answering, expected).
     case answering of
       Some x \<Rightarrow> answer_with_session app parameters trusted issuer expected x
     | None \<Rightarrow>
         if asks_silent (trusted_proof trusted) then throw (tell_client trusted issuer LoginRequired)
         else
           and_then (or_shown (leave_request_waiting app parameters trusted expected None)) (\<lambda>(i, secret).
           ret (Sign_in_required i secret))))))"

subsection \<open>Signing in for a request that waits\<close>

record signed_in_for_request =
  finished_location :: string
  finished_ticket :: session_ticket
  finished_mark :: device_mark

datatype sign_in_answer = Password_answer string bytes | Code_answer string | Key_answer json

record typed_sign_in =
  typed_answer :: sign_in_answer
  typed_caller :: "ip_addr option"
  typed_browsers :: "device_mark list"

record signed_in_for_consent =
  consent_request :: uuid
  consent_ticket :: session_ticket
  consent_mark :: device_mark

record owed_second_factor =
  owed_code :: bool
  owed_key_options :: "json option"

datatype sign_in_step =
    Finished signed_in_for_request
  | Second_factor_owed owed_second_factor
  | Consent_owed signed_in_for_consent

definition into_finished :: "sign_in_step \<Rightarrow> signed_in_for_request option" where
  "into_finished step = (case step of Finished done \<Rightarrow> Some done | _ \<Rightarrow> None)"

definition expired_request :: failure where
  "expired_request = new_failure AuthorizationRequestExpired"

definition prove_answer ::
    "app \<Rightarrow> realm_scope \<Rightarrow> pending_authorization \<Rightarrow> typed_sign_in \<Rightarrow> (owed_second_factor + signed_in) use_case" where
  "prove_answer app scope pending typed =
     (case typed_answer typed of
        Password_answer name password \<Rightarrow>
          and_then (sign_in_with_password app scope name password (typed_caller typed) (typed_browsers typed)) (\<lambda>step.
          case step of
            Signed_in done \<Rightarrow> ret (Ok done)
          | Second_factor_required owed \<Rightarrow>
              let key = map_option (\<lambda>ceremony. \<lparr>proof_state = ceremony_state ceremony,
                          proof_options = ceremony_options ceremony\<rparr>) (owed_key owed) in
              and_then (begin_work scope) (\<lambda>_.
              and_then (now app) (\<lambda>t.
              and_then (on_work (store_mark_first_factor (pending_id pending) (person_id (owing_person owed)) key t)) (\<lambda>waiting.
              and_then commit (\<lambda>_.
              and_then (ensure waiting expired_request) (\<lambda>_.
              ret (Err \<lparr>owed_code = owes_code owed, owed_key_options = map_option proof_options key\<rparr>)))))))
      | Code_answer digits \<Rightarrow>
          and_then (lift_result (ok_or expired_request (first_factor pending))) (\<lambda>p.
          and_then (finish_sign_in_with_code app scope p digits (typed_caller typed) (typed_browsers typed)) (\<lambda>done.
          ret (Ok done)))
      | Key_answer answer \<Rightarrow>
          and_then (lift_result (ok_or expired_request (first_factor pending))) (\<lambda>p.
          and_then (lift_result (ok_or expired_request (pending_key_proof pending))) (\<lambda>proof.
          and_then (finish_sign_in_with_key app scope p (proof_state proof) answer (typed_caller typed) (typed_browsers typed)) (\<lambda>done.
          ret (Ok done)))))"

definition is_consent_owed_after_sign_in :: "pending_authorization \<Rightarrow> uuid \<Rightarrow> bool use_case" where
  "is_consent_owed_after_sign_in pending p =
     (if consent_prompted pending then ret True
      else
        and_then (on_work (store_read_consent_terms p (pending_client_id pending))) (\<lambda>found.
        case found of
          None \<Rightarrow> ret True
        | Some terms \<Rightarrow> ret (is_consent_owed terms False (pending_scopes pending))))"

definition end_orphan_session :: "app \<Rightarrow> uuid \<Rightarrow> unit use_case" where
  "end_orphan_session app i =
     and_then (on_work (store_read_session i)) (\<lambda>found.
     case found of
       None \<Rightarrow> ret ()
     | Some orphan \<Rightarrow> and_then (close_session app (the_session orphan)) (\<lambda>_. commit))"

text \<open>The request a browser started, while it waits: an unknown one is compared too.\<close>

definition of_same_browser :: "app \<Rightarrow> bytes \<Rightarrow> pending_authorization option \<Rightarrow> pending_authorization option" where
  "of_same_browser app secret found =
     (let presented = app_sha256 app secret;
          expected = (case found of Some pending \<Rightarrow> browser_digest pending | None \<Rightarrow> no_digest);
          same = app_equal app presented expected
      in filter_option (\<lambda>_. same) found)"

definition is_for_another :: "pending_authorization \<Rightarrow> uuid \<Rightarrow> bool" where
  "is_for_another pending p \<longleftrightarrow> is_some_and (\<lambda>expected. expected \<noteq> p) (expected_person pending)"

definition finish_request ::
    "app \<Rightarrow> string \<Rightarrow> uuid \<Rightarrow> signed_in \<Rightarrow> sign_in_step use_case" where
  "finish_request app realm request done =
     and_then (now app) (\<lambda>t.
     and_then (on_work (store_take_pending_authorization request t)) (\<lambda>taken.
     case taken of
       None \<Rightarrow> and_then (end_orphan_session app (signed_in_session done)) (\<lambda>_. throw expired_request)
     | Some pending \<Rightarrow>
         if is_for_another pending (person_id (signed_in_person done))
         then
           and_then commit (\<lambda>_.
           ret (Finished \<lparr>finished_location = write_return_location (pending_redirect_uri pending) (name_issuer app realm)
                  (pending_state pending) [(''error'', oauth_error_name LoginRequired)],
                finished_ticket = signed_in_ticket done, finished_mark = signed_in_mark done\<rparr>))
         else
           and_then (now app) (\<lambda>proven_at.
           and_then (issue_code app
               \<lparr>for_realm = realm, for_client_id = pending_client_id pending,
                for_redirect_uri = pending_redirect_uri pending, for_scopes = pending_scopes pending,
                for_state = pending_state pending, for_nonce = pending_nonce pending,
                for_code_challenge = pending_code_challenge pending, for_person = person_id (signed_in_person done),
                for_session = signed_in_session done, for_authenticated_at = proven_at\<rparr>) (\<lambda>location.
           and_then commit (\<lambda>_.
           ret (Finished \<lparr>finished_location = location, finished_ticket = signed_in_ticket done,
                finished_mark = signed_in_mark done\<rparr>))))))"

definition finish_sign_in :: "app \<Rightarrow> string \<Rightarrow> uuid \<Rightarrow> bytes \<Rightarrow> typed_sign_in \<Rightarrow> sign_in_step use_case" where
  "finish_sign_in app realm request secret typed =
     and_then (resolve_realm realm) (\<lambda>(realm, scope).
     and_then (begin_work scope) (\<lambda>_.
     and_then (now app) (\<lambda>t.
     and_then (on_work (store_read_pending_authorization request t)) (\<lambda>found.
     and_then (lift_result (ok_or expired_request (of_same_browser app secret found))) (\<lambda>pending.
     and_then (prove_answer app scope pending typed) (\<lambda>proved.
     case proved of
       Err owed \<Rightarrow> ret (Second_factor_owed owed)
     | Ok done \<Rightarrow>
         and_then (begin_work scope) (\<lambda>_.
         and_then (if is_for_another pending (person_id (signed_in_person done)) then ret False
             else is_consent_owed_after_sign_in pending (person_id (signed_in_person done))) (\<lambda>owed.
         if owed then
           and_then (now app) (\<lambda>u.
           and_then (on_work (store_mark_consent_owed request (signed_in_session done) u)) (\<lambda>waiting.
           if \<not> waiting then and_then (end_orphan_session app (signed_in_session done)) (\<lambda>_. throw expired_request)
           else
             and_then commit (\<lambda>_.
             ret (Consent_owed \<lparr>consent_request = request, consent_ticket = signed_in_ticket done,
                    consent_mark = signed_in_mark done\<rparr>))))
         else finish_request app realm request done))))))))"

definition describe_owed_second_factor :: "app \<Rightarrow> string \<Rightarrow> uuid \<Rightarrow> bytes \<Rightarrow> owed_second_factor option use_case" where
  "describe_owed_second_factor app realm request secret =
     and_then (resolve_realm realm) (\<lambda>(_, scope).
     and_then (begin_work scope) (\<lambda>_.
     and_then (now app) (\<lambda>t.
     and_then (on_work (store_read_pending_authorization request t)) (\<lambda>found.
     and_then (lift_result (ok_or expired_request (of_same_browser app secret found))) (\<lambda>pending.
     case first_factor pending of
       None \<Rightarrow> ret None
     | Some p \<Rightarrow>
         and_then (on_work (store_read_totp p)) (\<lambda>authenticator.
         ret (Some \<lparr>owed_code = is_some_and (\<lambda>a. totp_confirmed_at a \<noteq> None) authenticator,
                owed_key_options = map_option proof_options (pending_key_proof pending)\<rparr>)))))))"

subsection \<open>The page that asks the person\<close>

record consent_prompt =
  prompt_client_name :: string
  prompt_scopes :: "string list"

datatype consent_decision = Allow_client | Deny_client

definition check_waiting_consent ::
    "app \<Rightarrow> pending_authorization option \<Rightarrow> bytes \<Rightarrow> session_ticket \<Rightarrow> (pending_authorization \<times> session) use_case" where
  "check_waiting_consent app found secret ticket =
     and_then (lift_result (ok_or expired_request (of_same_browser app secret found))) (\<lambda>pending.
     and_then (lift_result (ok_or expired_request (consent_session pending))) (\<lambda>waiting_in.
     and_then (find_answering_session app ticket) (\<lambda>answering.
     and_then (lift_result (ok_or expired_request (filter_option (\<lambda>x. session_id x = waiting_in) answering))) (\<lambda>x.
     ret (pending, x)))))"

definition read_asking_client :: "app \<Rightarrow> string \<Rightarrow> client use_case" where
  "read_asking_client app named =
     and_then (read_named_client app named) (\<lambda>found.
     lift_result (ok_or (new_failure ClientNotFound) (filter_option may_sign_in found)))"

definition describe_consent :: "app \<Rightarrow> string \<Rightarrow> uuid \<Rightarrow> bytes \<Rightarrow> session_ticket option \<Rightarrow> consent_prompt use_case" where
  "describe_consent app realm request secret ticket =
     and_then (lift_result (ok_or expired_request ticket)) (\<lambda>presented.
     and_then (resolve_realm realm) (\<lambda>(_, scope).
     and_then (begin_work scope) (\<lambda>_.
     and_then (now app) (\<lambda>t.
     and_then (on_work (store_read_pending_authorization request t)) (\<lambda>found.
     and_then (check_waiting_consent app found secret presented) (\<lambda>(pending, _).
     and_then (read_asking_client app (pending_client_id pending)) (\<lambda>c.
     ret \<lparr>prompt_client_name = neutralize_unshowable (client_name c), prompt_scopes = pending_scopes pending\<rparr>)))))))"

definition allow_client :: "app \<Rightarrow> string \<Rightarrow> pending_authorization \<Rightarrow> session \<Rightarrow> string use_case" where
  "allow_client app realm pending x =
     and_then (read_asking_client app (pending_client_id pending)) (\<lambda>c.
     and_then (if requires_consent c
         then
           and_then (now app) (\<lambda>t.
           on_work (store_add_consent \<lparr>consent_person = session_person x, consent_client_id = client_id c,
             consent_scopes = pending_scopes pending, consent_granted_at = t\<rparr>))
         else ret ()) (\<lambda>_.
     and_then (issue_code app
         \<lparr>for_realm = realm, for_client_id = client_id c, for_redirect_uri = pending_redirect_uri pending,
          for_scopes = pending_scopes pending, for_state = pending_state pending, for_nonce = pending_nonce pending,
          for_code_challenge = pending_code_challenge pending, for_person = session_person x,
          for_session = session_id x, for_authenticated_at = authenticated_at x\<rparr>) (\<lambda>location.
     and_then (record_event app ConsentGranted (json_object
         [(''client_id'', JString (client_id c)),
          (''kept'', JBool (requires_consent c)),
          (''person_id'', JString (app_uuid_text app (session_person x))),
          (''scopes'', json_texts (pending_scopes pending)),
          (''session_id'', JString (app_uuid_text app (session_id x)))])) (\<lambda>_.
     ret location))))"

definition answer_consent ::
    "app \<Rightarrow> string \<Rightarrow> uuid \<Rightarrow> bytes \<Rightarrow> session_ticket option \<Rightarrow> consent_decision \<Rightarrow> string use_case" where
  "answer_consent app realm request secret ticket decision =
     and_then (lift_result (ok_or expired_request ticket)) (\<lambda>presented.
     and_then (resolve_realm realm) (\<lambda>(realm, scope).
     and_then (begin_work scope) (\<lambda>_.
     and_then (now app) (\<lambda>t.
     and_then (on_work (store_take_pending_authorization request t)) (\<lambda>taken.
     and_then (check_waiting_consent app taken secret presented) (\<lambda>(pending, x).
     and_then (case decision of
         Allow_client \<Rightarrow> allow_client app realm pending x
       | Deny_client \<Rightarrow> ret (write_return_location (pending_redirect_uri pending) (name_issuer app realm)
           (pending_state pending) [(''error'', oauth_error_name AccessDenied)])) (\<lambda>location.
     and_then commit (\<lambda>_.
     ret location))))))))"

end
