(* ===== verification/Protocol.thy ===== *)
theory Protocol
  imports Authorize
begin

text \<open>
  The other endpoints of the protocol: introspection (\<open>saffui-core/src/oidc/introspect.rs\<close>), userinfo
  (\<open>userinfo.rs\<close>), signing out (\<open>logout.rs\<close>) and the discovery document (\<open>discovery.rs\<close>). That
  they keep what is committed sound is shown with the composition of the program.
\<close>

subsection \<open>Introspection\<close>

record introspection =
  told_active :: bool
  told_scope :: "string option"
  told_client_id :: "string option"
  told_sub :: "string option"
  told_iss :: "string option"
  told_exp :: "int option"
  told_iat :: "int option"
  told_jti :: "string option"
  told_sid :: "string option"
  told_token_type :: "string option"
  told_realm_access :: "json option"
  told_resource_access :: "json option"

definition inactive :: introspection where
  "inactive = \<lparr>told_active = False, told_scope = None, told_client_id = None, told_sub = None, told_iss = None,
     told_exp = None, told_iat = None, told_jti = None, told_sid = None, told_token_type = None,
     told_realm_access = None, told_resource_access = None\<rparr>"

definition describe_access_token ::
    "app \<Rightarrow> client \<Rightarrow> string \<Rightarrow> instant \<Rightarrow> access_token_claims \<Rightarrow> introspection use_case" where
  "describe_access_token app c issuer t claims =
     and_then (case claims_session claims of
         None \<Rightarrow> ret (Some None)
       | Some x \<Rightarrow>
           and_then (read_live_subject app x) (\<lambda>subject. ret (map_option (\<lambda>(_, p). Some (person_id p)) subject))) (\<lambda>standing.
     case standing of
       None \<Rightarrow> ret inactive
     | Some person \<Rightarrow>
         and_then (case person of
             Some p \<Rightarrow>
               if ROLES_SCOPE \<in> set (claims_scopes claims)
               then and_then (read_role_claims p (claims_client_id claims) t) (\<lambda>r. ret (Some r))
               else ret None
           | None \<Rightarrow> ret None) (\<lambda>roles.
         ret \<lparr>told_active = True,
              told_scope = Some (join_scopes (claims_scopes claims)),
              told_client_id = Some (claims_client_id claims),
              told_sub = Some (claims_subject claims),
              told_iss = Some issuer,
              told_exp = Some (case Option.bind roles claimed_until of
                  None \<Rightarrow> claims_expires_at claims
                | Some until \<Rightarrow> min (unix_timestamp until) (claims_expires_at claims)),
              told_iat = Some (claims_issued_at claims),
              told_jti = Some (claims_token_id claims),
              told_sid = map_option (app_uuid_text app) (claims_session claims),
              told_token_type = Some ''Bearer'',
              told_realm_access = map_option write_realm_access roles,
              told_resource_access = map_option (\<lambda>r. write_resource_access r (claims_client_id claims))
                (filter_option (\<lambda>_. client_id c = claims_client_id claims) roles)\<rparr>))"

definition describe_refresh_token ::
    "app \<Rightarrow> client \<Rightarrow> string \<Rightarrow> instant \<Rightarrow> string \<Rightarrow> introspection use_case" where
  "describe_refresh_token app c issuer t token =
     and_then (on_work (store_read_refresh_token (app_sha256 app token))) (\<lambda>found.
     case filter_option (\<lambda>stored. is_live stored t \<and> token_client_id (stored_token stored) = client_id c) found of
       None \<Rightarrow> ret inactive
     | Some stored \<Rightarrow>
         and_then (read_live_subject app (token_session (stored_token stored))) (\<lambda>subject.
         if subject = None then ret inactive
         else ret (inactive\<lparr>told_active := True,
              told_scope := Some (join_scopes (token_scopes (stored_token stored))),
              told_client_id := Some (token_client_id (stored_token stored)),
              told_sub := Some (app_uuid_text app (token_person (stored_token stored))),
              told_iss := Some issuer,
              told_exp := Some (unix_timestamp (token_expires_at (stored_token stored))),
              told_iat := Some (unix_timestamp (token_issued_at (stored_token stored))),
              told_sid := Some (app_uuid_text app (token_session (stored_token stored)))\<rparr>)))"

text \<open>The result of a verification, looked at: a token that does not verify is tried as another kind.\<close>

definition try_case :: "'a use_case \<Rightarrow> (failure + 'a) use_case" where
  "try_case m = (\<lambda>s. case m s of (r, t) \<Rightarrow> (Ok r, t))"

definition introspect_token ::
    "app \<Rightarrow> string \<Rightarrow> string option \<Rightarrow> bytes option \<Rightarrow> string option \<Rightarrow> introspection oauth_case" where
  "introspect_token app realm name secret token =
     and_then (lift_failure (resolve_realm realm)) (\<lambda>(realm_name, scope).
     case (name, secret) of
       (Some caller, Some proof) \<Rightarrow>
         and_then (lift_failure (begin_work scope)) (\<lambda>_.
         and_then (lift_failure (authenticate_client app caller proof)) (\<lambda>c.
         case token of
           None \<Rightarrow> refused RequestInvalid
         | Some presented \<Rightarrow>
             let issuer = name_issuer app realm_name in
             lift_failure (
             and_then (now app) (\<lambda>t.
             and_then (try_case (verify_access_token app issuer presented)) (\<lambda>verified.
             case verified of
               Ok claims \<Rightarrow> describe_access_token app c issuer t claims
             | Err e \<Rightarrow>
                 if code e = TokenInvalid then describe_refresh_token app c issuer t presented else throw e)))))
     | _ \<Rightarrow> refused ClientAuthenticationFailed)"

subsection \<open>Userinfo\<close>

definition read_user_info :: "app \<Rightarrow> string \<Rightarrow> string \<Rightarrow> json use_case" where
  "read_user_info app realm token =
     and_then (map_err (\<lambda>e. if code e = RealmNotFound then new_failure TokenInvalid else e) (resolve_realm realm)) (\<lambda>(realm_name, scope).
     and_then (begin_work scope) (\<lambda>_.
     and_then (verify_access_token app (name_issuer app realm_name) token) (\<lambda>claims.
     and_then (lift_result (ok_or (new_failure TokenInvalid) (claims_session claims))) (\<lambda>x.
     and_then (read_live_subject app x) (\<lambda>found.
     and_then (lift_result (ok_or (new_failure TokenInvalid)
         (filter_option (\<lambda>(_, p). app_uuid_text app (person_id p) = claims_subject claims) found))) (\<lambda>(_, p).
     and_then (ensure (''openid'' \<in> set (claims_scopes claims)) (new_failure TokenScopeInsufficient)) (\<lambda>_.
     ret (write_person_claims p (claims_scopes claims)
       (json_object [(''sub'', JString (claims_subject claims))])))))))))"

subsection \<open>Signing out\<close>

definition STATE_MAX_BYTES :: nat where "STATE_MAX_BYTES = 512"

record logout_parameters =
  logout_hint :: "string option"
  logout_redirect_uri :: "string option"
  logout_state :: "string option"

datatype logout = Signed_out "string option" | Confirmation_required

definition write_logout_location :: "string \<Rightarrow> string option \<Rightarrow> string" where
  "write_logout_location registered state =
     registered @ (case filter_option (\<lambda>value. length value \<le> STATE_MAX_BYTES) state of
        None \<Rightarrow> []
      | Some value \<Rightarrow> (if CHR ''?'' \<in> set registered then ''&'' else ''?'') @ ''state='' @ write_query_value value)"

definition begin_logout ::
    "app \<Rightarrow> string \<Rightarrow> logout_parameters \<Rightarrow> session_ticket option \<Rightarrow> logout use_case" where
  "begin_logout app realm parameters ticket =
     and_then (resolve_realm realm) (\<lambda>(realm_name, scope).
     and_then (begin_work scope) (\<lambda>_.
     and_then (case ticket of Some presented \<Rightarrow> find_live_session app presented | None \<Rightarrow> ret None) (\<lambda>found.
     and_then (case logout_hint parameters of
         Some token \<Rightarrow> read_identity_hint app (name_issuer app realm_name) token
       | None \<Rightarrow> ret None) (\<lambda>hint.
     if is_some_and (\<lambda>x. is_none_or (\<lambda>h. hint_session h \<noteq> session_id x) hint) found then ret Confirmation_required
     else
       and_then (case found of Some x \<Rightarrow> close_session app x | None \<Rightarrow> ret ()) (\<lambda>_.
       and_then (case (hint, logout_redirect_uri parameters) of
           (Some h, Some asked) \<Rightarrow>
             and_then (on_work (store_read_client (hint_client_id h))) (\<lambda>named.
             ret (map_option (\<lambda>_. write_logout_location asked (logout_state parameters))
               (filter_option (\<lambda>c. client_enabled c \<and> asked \<in> set (post_logout_redirect_uris c)) named)))
         | _ \<Rightarrow> ret None) (\<lambda>location.
       and_then commit (\<lambda>_.
       ret (Signed_out location))))))))"

definition confirm_logout :: "app \<Rightarrow> string \<Rightarrow> session_ticket \<Rightarrow> unit use_case" where
  "confirm_logout app realm ticket =
     and_then (resolve_realm realm) (\<lambda>(_, scope).
     and_then (begin_work scope) (\<lambda>_.
     and_then (find_live_session app ticket) (\<lambda>found.
     case found of
       None \<Rightarrow> ret ()
     | Some x \<Rightarrow> and_then (close_session app x) (\<lambda>_. commit))))"

subsection \<open>The discovery document\<close>

record provider_metadata =
  meta_issuer :: string
  meta_authorization_endpoint :: string
  meta_token_endpoint :: string
  meta_userinfo_endpoint :: string
  meta_jwks_uri :: string
  meta_introspection_endpoint :: string
  meta_revocation_endpoint :: string
  meta_end_session_endpoint :: string
  meta_response_types :: "string list"
  meta_grant_types :: "string list"
  meta_subject_types :: "string list"
  meta_signing_algs :: "string list"
  meta_auth_methods :: "string list"
  meta_challenge_methods :: "string list"
  meta_scopes :: "string list"
  meta_iss_parameter :: bool
  meta_response_modes :: "string list"
  meta_request_parameter :: bool
  meta_request_uri_parameter :: bool
  meta_claims_parameter :: bool

definition describe_provider :: "app \<Rightarrow> string \<Rightarrow> provider_metadata" where
  "describe_provider app realm =
     (let issuer = name_issuer app realm in
      \<lparr>meta_issuer = issuer,
       meta_authorization_endpoint = issuer @ ''/oauth2/authorize'',
       meta_token_endpoint = issuer @ ''/oauth2/token'',
       meta_userinfo_endpoint = issuer @ ''/oauth2/userinfo'',
       meta_jwks_uri = issuer @ ''/oauth2/jwks'',
       meta_introspection_endpoint = issuer @ ''/oauth2/introspect'',
       meta_revocation_endpoint = issuer @ ''/oauth2/revoke'',
       meta_end_session_endpoint = issuer @ ''/oauth2/logout'',
       meta_response_types = [''code''],
       meta_grant_types = [''authorization_code'', ''client_credentials'', ''refresh_token''],
       meta_subject_types = [''public''],
       meta_signing_algs = map algorithm_name [Es256],
       meta_auth_methods = [''client_secret_basic'', ''client_secret_post'', ''none''],
       meta_challenge_methods = [''S256''],
       meta_scopes = [''openid'', ''profile'', ''email'', ''roles''],
       meta_iss_parameter = True,
       meta_response_modes = [''query''],
       meta_request_parameter = False,
       meta_request_uri_parameter = False,
       meta_claims_parameter = False\<rparr>)"

end
