(* ===== verification/Invariants.thy ===== *)
theory Invariants
  imports Admin_Plane Protocol
begin

text \<open>
  What every use case keeps, whatever the invariant: three interfaces, each the laws an invariant of
  the committed state has to meet for the use cases to keep it. \<open>state_invariant\<close> is for one that looks
  at nothing but what is administered and at the chains, \<open>directory_invariant\<close> for one that also stands
  a client or a person more, \<open>log_invariant\<close> for one that looks at the chains alone. Each use case is
  followed once, inside them; the theories after this one interpret them.
\<close>

subsection \<open>What is administered\<close>

definition same_administered :: "state \<Rightarrow> state \<Rightarrow> bool" where
  "same_administered s' s \<longleftrightarrow>
     st_clients s' = st_clients s \<and> st_persons s' = st_persons s \<and>
     st_roles s' = st_roles s \<and> st_groups s' = st_groups s \<and> st_role_grants s' = st_role_grants s \<and>
     st_memberships s' = st_memberships s \<and> st_relation_schemas s' = st_relation_schemas s \<and>
     st_relation_kinds s' = st_relation_kinds s \<and> st_relations s' = st_relations s \<and>
     st_policies s' = st_policies s \<and> st_audit s' = st_audit s"

subsection \<open>Operations beside what is administered\<close>

definition aside :: "'a work_act \<Rightarrow> bool" where
  "aside m \<longleftrightarrow> (\<forall>w. same_administered (working (snd (m w))) (working w) \<and> (failed w \<longrightarrow> failed (snd (m w))))"

named_theorems aside_intro \<open>operations of the storage beside what is administered\<close>

lemma same_administered_refl [simp]: "same_administered s s"
  by (simp add: same_administered_def)

lemma aside_reading [aside_intro]: "aside (reading f)"
  by (simp add: aside_def reading_def)

lemma aside_writing: "(\<And>w. same_administered (snd (f w)) (working w)) \<Longrightarrow> aside (writing f)"
  by (auto simp: aside_def writing_def and_then_def record_refusal_def refuse_in_snapshot_def split_beta)

lemma aside_tokens [aside_intro]:
  "aside (store_insert_refresh_token token)" "aside (store_spend_refresh_token digest client t)"
  "aside (store_revoke_refresh_family family t)" "aside (store_revoke_refresh_families_of_client p client t most)"
  "aside (store_revoke_refresh_tokens_of_session i t)" "aside (store_revoke_refresh_tokens_of_sessions is t)"
  unfolding store_insert_refresh_token_def store_spend_refresh_token_def store_revoke_refresh_family_def
    store_revoke_refresh_families_of_client_def store_revoke_refresh_tokens_of_session_def
    store_revoke_refresh_tokens_of_sessions_def
  by (auto intro!: aside_writing simp: with_refresh_tokens_def same_administered_def Let_def split_beta)

lemma aside_codes [aside_intro]:
  "aside (store_insert_authorization_code c)" "aside (store_spend_authorization_code digest t)"
  "aside (store_bind_code_family digest family)" "aside (store_mark_code_replayed digest client t)"
  unfolding store_insert_authorization_code_def store_spend_authorization_code_def store_bind_code_family_def
    store_mark_code_replayed_def on_code_def
  by (auto intro!: aside_writing simp: with_codes_def same_administered_def Let_def split_beta split: option.split)

lemma aside_consents [aside_intro]:
  "aside (store_hold_consent p client)" "aside (store_add_consent c)" "aside (store_delete_consent p client)"
  unfolding store_hold_consent_def store_add_consent_def store_delete_consent_def
  by (auto intro!: aside_writing simp: same_administered_def Let_def split: option.split)

lemma aside_sessions [aside_intro]:
  "aside (store_insert_session x)" "aside (store_end_session i)" "aside (store_end_sessions_proven_only_by p methods kept)"
  unfolding store_insert_session_def store_end_session_def store_end_sessions_proven_only_by_def
  by (auto intro!: aside_writing simp: same_administered_def Let_def)

lemma aside_login [aside_intro]:
  "aside (store_record_login_failure digest bucket)" "aside (store_forget_login_failures digest)"
  "aside (store_insert_pending_authorization request)" "aside (store_mark_first_factor i p key t)"
  "aside (store_mark_consent_owed i x t)" "aside (store_take_pending_authorization i t)"
  "aside (store_remember_browser browser most)"
  unfolding store_record_login_failure_def store_forget_login_failures_def store_insert_pending_authorization_def
    store_mark_first_factor_def store_mark_consent_owed_def store_take_pending_authorization_def
    store_remember_browser_def
  by (auto intro!: aside_writing simp: same_administered_def with_pending_def Let_def split_beta)

lemma aside_factors [aside_intro]:
  "aside (store_write_pending_totp a)" "aside (store_accept_totp_step p sealed n used_for t)" "aside (store_delete_totp p)"
  "aside (store_count_code_attempt p)" "aside (store_clear_code_attempts p)" "aside (store_clear_code_attempts_below p most)"
  "aside (store_insert_security_key k)" "aside (store_record_key_use judged record t)" "aside (store_delete_security_keys p)"
  "aside (store_write_key_enrollment p kept t)" "aside (store_take_key_enrollment p t)"
  unfolding store_write_pending_totp_def store_accept_totp_step_def store_delete_totp_def store_count_code_attempt_def
    store_clear_code_attempts_def store_clear_code_attempts_below_def store_insert_security_key_def
    store_record_key_use_def store_delete_security_keys_def store_write_key_enrollment_def store_take_key_enrollment_def
  by (auto intro!: aside_writing simp: same_administered_def Let_def split: option.split)

lemma aside_reads [aside_intro]:
  "aside (store_read_client name)" "aside store_list_signing_keys" "aside store_read_data_key"
  "aside (store_read_person i)" "aside (store_read_person_by_username name)" "aside (store_read_session i)"
  "aside (store_read_refresh_token digest)" "aside (store_read_consent i name)" "aside (store_read_consent_terms i name)"
  "aside (store_list_consents i n)" "aside (store_count_login_failures digest since)"
  "aside (store_read_pending_authorization i t)" "aside (store_read_live_browsers devices t)" "aside (store_read_totp i)"
  "aside (store_holds_second_factor i)" "aside (store_list_security_keys i)" "aside (store_read_password i)"
  unfolding store_read_client_def store_list_signing_keys_def store_read_data_key_def store_read_person_def
    store_read_person_by_username_def store_read_session_def store_read_refresh_token_def store_read_consent_def
    store_read_consent_terms_def store_list_consents_def store_count_login_failures_def
    store_read_pending_authorization_def store_read_live_browsers_def store_read_totp_def
    store_holds_second_factor_def store_list_security_keys_def store_read_password_def
  by (rule aside_reading)+

lemma aside_role_reads [aside_intro]: "aside (store_list_held_roles p t most)" "aside (store_list_member_groups p t most)"
  by (simp_all add: store_reads aside_reading)

lemma aside_provisioning [aside_intro]:
  "aside (store_insert_tenant ten)" "aside (store_insert_realm r)" "aside (store_insert_data_key k)"
  "aside (store_insert_signing_key key)" "aside (store_insert_password i phc)"
  unfolding store_insert_tenant_def store_insert_realm_def store_insert_data_key_def store_insert_signing_key_def
    store_insert_password_def
  by (auto simp: aside_def record_refusal_def keep_tenant_def keep_realm_def keep_data_key_def keep_signing_key_def
      keep_password_def and_then_def refuse_in_snapshot_def same_administered_def Let_def)

subsection \<open>Steps that keep any invariant\<close>

lemma keeps_cases [keeps_intro]:
  "keeps I m \<Longrightarrow> keeps I n \<Longrightarrow> keeps I (if b then m else n)"
  "keeps I m \<Longrightarrow> (\<And>v. keeps I (f v)) \<Longrightarrow> keeps I (case x of None \<Rightarrow> m | Some v \<Rightarrow> f v)"
  "(\<And>e. keeps I (g e)) \<Longrightarrow> (\<And>v. keeps I (f v)) \<Longrightarrow> keeps I (case y of Inl e \<Rightarrow> g e | Inr v \<Rightarrow> f v)"
  "(\<And>a b. keeps I (h a b)) \<Longrightarrow> keeps I (case z of (a, b) \<Rightarrow> h a b)"
  by (simp_all split: option.split sum.split prod.split)

lemma keeps_writes_nothing:
  assumes "writes_nothing m"
  shows "keeps (ctx_inv I) m"
  unfolding keeps_def using assms by (auto simp: writes_nothing_def ctx_inv_def idle_def)

lemma keeps_writes_nothing_rules [keeps_intro]:
  "keeps (ctx_inv I) (drawing port)" "keeps (ctx_inv I) (hash_password app password)"
  "keeps (ctx_inv I) (verify_password app password stored)"
  by (intro keeps_writes_nothing idle_intro)+

lemma keeps_ctx_fields [simp]:
  "ctx_inv I (s\<lparr>hashing := h\<rparr>) = ctx_inv I s" "ctx_inv I (s\<lparr>decoy := d\<rparr>) = ctx_inv I s"
  by (simp_all add: ctx_inv_def)

lemma keeps_holding_hasher [keeps_intro]: "keeps (ctx_inv I) m \<Longrightarrow> keeps (ctx_inv I) (holding_hasher a realm network m)"
  by (auto simp: keeps_def holding_hasher_def split_beta split: option.split)

lemma keeps_read_decoy_hash [keeps_intro]: "keeps (ctx_inv I) (read_decoy_hash a)"
proof -
  have "keeps (ctx_inv I) (and_then (fill_random a 32) (\<lambda>unknown.
      and_then (hash_password a (app_base64_encode a unknown)) (\<lambda>hash t.
        case decoy t of Some other \<Rightarrow> (Ok other, t) | None \<Rightarrow> (Ok hash, t\<lparr>decoy := Some hash\<rparr>))))"
    by (intro keeps_intro) (auto simp: keeps_def split: option.split)
  then show ?thesis
    unfolding read_decoy_hash_def by (auto simp: keeps_def split: option.split)
qed

lemma keeps_unless: "keeps I m \<Longrightarrow> keeps I (\<lambda>s. if b s then (Err e, s) else m s)"
  by (simp add: keeps_def)

lemma keeps_judge_enrollment [keeps_intro]: "keeps I (judge_enrollment a kept answer)"
  unfolding judge_enrollment_def by (auto split: sum.split key_refusal.split)

lemma keeps_or_shown [keeps_intro]: "keeps I m \<Longrightarrow> keeps I (or_shown m)"
  unfolding or_shown_def by (rule keeps_map_err)

lemma keeps_try_case [keeps_intro]: "keeps I m \<Longrightarrow> keeps I (try_case m)"
  by (auto simp: keeps_def try_case_def split_beta)

lemma keeps_lift_failure [keeps_intro]: "keeps I m \<Longrightarrow> keeps I (lift_failure m)" "keeps I (refused c)"
  unfolding lift_failure_def refused_def by (intro keeps_intro; assumption)+

lemma keeps_case_admission [keeps_intro]:
  "keeps I a \<Longrightarrow> keeps I b \<Longrightarrow> keeps I c \<Longrightarrow>
     keeps I (case x of Admission_refused \<Rightarrow> a | Admission_kept \<Rightarrow> b | Admission_taken \<Rightarrow> c)"
  by (cases x) simp_all

subsection \<open>Invariants of what is administered\<close>

locale state_invariant =
  fixes I :: "state \<Rightarrow> bool"
  assumes same: "same_administered s' s \<Longrightarrow> I s' = I s"
    and appends: "keeps (work_inv I) (store_append_audit_event app envelope)"
begin

lemma keeps_aside: "aside m \<Longrightarrow> keeps (work_inv I) m"
  unfolding keeps_def work_inv_def aside_def using same by blast

lemma keeps_on_work_aside [keeps_intro]: "aside m \<Longrightarrow> keeps (ctx_inv I) (on_work m)"
  by (intro keeps_on_work keeps_aside)

lemma keeps_record_event [keeps_intro]: "keeps (ctx_inv I) (record_event app kind payload)"
  unfolding record_event_def work_scope_def
  by (intro keeps_intro appends aside_intro)

text \<open>Tokens.\<close>

lemma keeps_reading_steps [keeps_intro]:
  "keeps (ctx_inv I) (read_named_client a name)" "keeps (ctx_inv I) (authenticate_client a client secret)"
  "keeps (ctx_inv I) (identify_client a client given)" "keeps (ctx_inv I) (read_live_subject a i)"
  "keeps (ctx_inv I) (verify_access_token a issuer token)" "keeps (ctx_inv I) (read_identity_hint a issuer token)"
  "keeps (ctx_inv I) work_scope"
  unfolding read_named_client_def authenticate_client_def identify_client_def read_live_subject_def
    verify_access_token_def read_identity_hint_def work_scope_def Let_def
  by (intro keeps_intro aside_intro)+

lemma keeps_minting [keeps_intro]:
  "keeps (ctx_inv I) (open_signing_key a algorithm)" "keeps (ctx_inv I) (open_minting_key a)"
  "keeps (ctx_inv I) (mint_access_token a key subject)" "keeps (ctx_inv I) (mint_identity_token a key subject')"
  "keeps (ctx_inv I) (issue_refresh_token a g)"
  unfolding open_signing_key_def open_minting_key_def mint_access_token_def mint_identity_token_def issue_refresh_token_def Let_def
  by (intro keeps_intro aside_intro)+

lemma keeps_roles_read [keeps_intro]:
  "keeps (ctx_inv I) (read_held_roles p t)" "keeps (ctx_inv I) (read_role_claims p client t)"
  "keeps (ctx_inv I) (read_member_groups p t)"
  unfolding read_held_roles_def read_role_claims_def read_member_groups_def Let_def by (intro keeps_intro aside_intro)+

lemma keeps_answer_for_person [keeps_intro]: "keeps (ctx_inv I) (answer_for_person a g)"
  unfolding answer_for_person_def read_said_roles_def mint_identity_def by (intro keeps_intro aside_intro)

lemma keeps_end_family [keeps_intro]:
  "keeps (ctx_inv I) (end_family a client family p x reason t)"
  "keeps (ctx_inv I) (take_back_what_a_code_obtained a digest client t)"
  "keeps (ctx_inv I) (take_back_replayed a c digest t)"
  unfolding end_family_def take_back_what_a_code_obtained_def take_back_replayed_def Let_def
  by (intro keeps_intro aside_intro)+

lemma keeps_exchanges [keeps_intro]:
  "keeps (ctx_inv I) (grant_to_service a realm scope request)"
  "keeps (ctx_inv I) (exchange_code a realm scope request)"
  "keeps (ctx_inv I) (rotate_refresh_token a realm scope request)"
  unfolding grant_to_service_def exchange_code_def rotate_refresh_token_def spend_code_def redeem_code_def
    require_live_subject_def check_consent_def carry_on_def Let_def
  by (intro keeps_intro aside_intro)+

lemma keeps_refuse_access_token [keeps_intro]: "keeps (ctx_inv I) (refuse_access_token a issuer token)"
  using keeps_reading_steps(5) [of a issuer token]
  by (auto simp: keeps_def refuse_access_token_def split_beta split: sum.split)

lemma keeps_token_endpoints [keeps_intro]:
  "keeps (ctx_inv I) (grant_token a realm request)"
  "keeps (ctx_inv I) (revoke_token a realm client secret token)"
  unfolding grant_token_def revoke_token_def Let_def
  by (intro keeps_intro aside_intro)+

text \<open>Signing in.\<close>

lemma keeps_brake [keeps_intro]:
  "keeps (ctx_inv I) (admit b t)" "keeps (ctx_inv I) (is_name_locked b t)"
  "keeps (ctx_inv I) (record_failure b t)" "keeps (ctx_inv I) (forget_browser_failures b)"
  "keeps (ctx_inv I) (issue_device_mark a scope typed given)"
  "keeps (ctx_inv I) (find_known_browser proven p t)"
  "keeps (ctx_inv I) (admit_pending_sign_in a caller browsers)"
  unfolding admit_def is_name_locked_def record_failure_def forget_browser_failures_def issue_device_mark_def
    find_known_browser_def admit_pending_sign_in_def Let_def
  by (intro keeps_intro aside_intro)+

lemma keeps_password_step [keeps_intro]:
  "keeps (ctx_inv I) (read_attempt a scope typed username proven b t)"
  "keeps (ctx_inv I) (verify_name_and_password a scope name password caller browsers)"
proof -
  show attempt: "keeps (ctx_inv I) (read_attempt a scope typed username proven b t)" for typed username proven b t
    unfolding read_attempt_def Let_def by (intro keeps_intro aside_intro)
  show "keeps (ctx_inv I) (verify_name_and_password a scope name password caller browsers)"
    unfolding verify_name_and_password_def Let_def
    by (intro keeps_intro aside_intro attempt keeps_unless)
qed

lemma keeps_later_steps [keeps_intro]:
  "keeps (ctx_inv I) (read_secret_place p)" "keeps (ctx_inv I) (accept_code a p sealed typed used_for)"
  "keeps (ctx_inv I) (brake_later_step a scope who caller browsers)"
  "keeps (ctx_inv I) (judge_code a who typed)" "keeps (ctx_inv I) (start_key_proof a p)"
  unfolding read_secret_place_def accept_code_def brake_later_step_def judge_code_def start_key_proof_def Let_def
  by (intro keeps_intro aside_intro)+

lemma keeps_judge_key [keeps_intro]: "keeps (ctx_inv I) (judge_key a who kept answer t)"
  unfolding judge_key_def
  by (auto intro!: keeps_intro aside_intro split: sum.split key_refusal.split option.split)

lemma keeps_factor_steps [keeps_intro]:
  "keeps (ctx_inv I) (verify_code a scope who typed caller browsers)"
  "keeps (ctx_inv I) (verify_key a scope who kept answer caller browsers)"
  "keeps (ctx_inv I) (open_session a p methods)"
  unfolding verify_code_def verify_key_def open_session_def Let_def
  by (intro keeps_intro aside_intro)+

lemma keeps_flow [keeps_intro]:
  "keeps (ctx_inv I) (open_session_for a scope who typed b methods)"
  "keeps (ctx_inv I) (finish_sign_in_with_key a scope i kept answer caller browsers)"
  "keeps (ctx_inv I) (finish_sign_in_with_code a scope i typed caller browsers)"
  unfolding open_session_for_def finish_sign_in_with_key_def finish_sign_in_with_code_def read_person_who_owes_def
  by (intro keeps_intro aside_intro)+

lemma keeps_sign_in_with_password [keeps_intro]:
  "keeps (ctx_inv I) (sign_in_with_password a scope name password caller browsers)"
proof -
  have "keeps I (case started of Proof_started ceremony \<Rightarrow> ret (Some ceremony) | No_key_held \<Rightarrow> ret None
      | Keys_not_served \<Rightarrow> if owed then ret None else throw e)" for I :: "ctx \<Rightarrow> bool" and started owed and e :: failure
    by (cases started) simp_all
  then show ?thesis
    unfolding sign_in_with_password_def Let_def by (intro keeps_intro aside_intro)
qed

text \<open>Sessions, consents and second factors.\<close>

lemma keeps_sessions [keeps_intro]:
  "keeps (ctx_inv I) (read_proven_session a ticket)" "keeps (ctx_inv I) (find_live_session a ticket)"
  "keeps (ctx_inv I) (find_answering_session a ticket)" "keeps (ctx_inv I) (close_session a x)"
  "keeps (ctx_inv I) (find_signed_in_session a ticket)"
  unfolding read_proven_session_def find_live_session_def find_answering_session_def close_session_def
    find_signed_in_session_def Let_def
  by (intro keeps_intro aside_intro)+

lemma keeps_consents [keeps_intro]:
  "keeps (ctx_inv I) (list_my_consents a realm given)"
  "keeps (ctx_inv I) (withdraw_my_consent a realm given client)"
  unfolding list_my_consents_def withdraw_my_consent_def withdraw_consent_def
  by (intro keeps_intro aside_intro)+

lemma keeps_enrollment_steps [keeps_intro]:
  "keeps (ctx_inv I) (require_signed_in_person a realm ticket)"
  "keeps (ctx_inv I) (require_factor_proof p x)"
  "keeps (ctx_inv I) (close_sessions_without_factor a p kept)"
  "keeps (ctx_inv I) (prove_password_again a found password caller browsers)"
  unfolding require_signed_in_person_def require_factor_proof_def close_sessions_without_factor_def
    prove_password_again_def Let_def
  by (intro keeps_intro aside_intro)+

lemma keeps_enrollment [keeps_intro]:
  "keeps (ctx_inv I) (describe_enrollment a realm ticket)"
  "keeps (ctx_inv I) (begin_totp_enrollment a realm ticket)"
  "keeps (ctx_inv I) (confirm_totp_enrollment a realm ticket password typed caller browsers)"
  "keeps (ctx_inv I) (count_security_keys a realm ticket)"
  "keeps (ctx_inv I) (begin_key_enrollment a realm ticket password caller browsers)"
  "keeps (ctx_inv I) (finish_key_enrollment a realm ticket answer)"
  unfolding describe_enrollment_def begin_totp_enrollment_def confirm_totp_enrollment_def count_security_keys_def
    begin_key_enrollment_def finish_key_enrollment_def Let_def
  by (intro keeps_intro aside_intro)+

text \<open>The authorization endpoint and the others.\<close>

lemma keeps_authorization_steps [keeps_intro]:
  "keeps (ctx_inv I) (trust_request a realm parameters)" "keeps (ctx_inv I) (issue_code a g)"
  "keeps (ctx_inv I) (hold_session_to_hint a trusted issuer hint x)"
  "keeps (ctx_inv I) (is_consent_owed_by c prompted p scopes)"
  "keeps (ctx_inv I) (leave_request_waiting a parameters trusted expected waiting_in)"
  unfolding trust_request_def issue_code_def hold_session_to_hint_def is_consent_owed_by_def leave_request_waiting_def
    keep_pending_authorization_def Let_def
  by (intro keeps_intro aside_intro)+

lemma keeps_begin_authorization [keeps_intro]: "keeps (ctx_inv I) (begin_authorization a realm parameters ticket)"
  unfolding begin_authorization_def answer_with_session_def Let_def
  by (intro keeps_intro aside_intro)

lemma keeps_prove_answer [keeps_intro]: "keeps (ctx_inv I) (prove_answer a scope pending typed)"
  unfolding prove_answer_def Let_def
  by (cases "typed_answer typed") (auto intro!: keeps_intro aside_intro split: first_step.split)

lemma keeps_finish_sign_in [keeps_intro]:
  "keeps (ctx_inv I) (end_orphan_session a i)"
  "keeps (ctx_inv I) (finish_sign_in a realm request secret typed)"
  "keeps (ctx_inv I) (describe_owed_second_factor a realm request secret)"
  unfolding end_orphan_session_def finish_sign_in_def finish_request_def is_consent_owed_after_sign_in_def
    describe_owed_second_factor_def
  by (intro keeps_intro aside_intro)+

lemma keeps_consent_page [keeps_intro]:
  "keeps (ctx_inv I) (check_waiting_consent a found secret ticket)"
  "keeps (ctx_inv I) (describe_consent a realm request secret given)"
  "keeps (ctx_inv I) (allow_client a realm pending x)"
  unfolding check_waiting_consent_def describe_consent_def allow_client_def read_asking_client_def
  by (intro keeps_intro aside_intro)+

lemma keeps_answer_consent [keeps_intro]:
  "keeps (ctx_inv I) (answer_consent a realm request secret given decision)"
  unfolding answer_consent_def by (cases decision) (simp_all, (intro keeps_intro aside_intro)+)

lemma keeps_protocol [keeps_intro]:
  "keeps (ctx_inv I) (introspect_token a realm client secret token)"
  "keeps (ctx_inv I) (read_user_info a realm presented)"
  "keeps (ctx_inv I) (begin_logout a realm parameters given)"
  "keeps (ctx_inv I) (confirm_logout a realm ticket)"
  unfolding introspect_token_def describe_access_token_def describe_refresh_token_def read_user_info_def
    begin_logout_def confirm_logout_def Let_def
  by (intro keeps_intro aside_intro)+

lemma keeps_administered_people [keeps_intro]:
  "keeps (ctx_inv I) (unlock_person a scope typed by)" "keeps (ctx_inv I) (remove_totp a caller p)"
  "keeps (ctx_inv I) (remove_security_keys a caller p)" "keeps (ctx_inv I) (resume_codes a caller p)"
  "keeps (ctx_inv I) (withdraw_person_consent a caller p client)"
  unfolding unlock_person_def remove_totp_def remove_security_keys_def resume_codes_def withdraw_person_consent_def
    withdraw_consent_def
  by (intro keeps_intro aside_intro)+

lemma keeps_authorize_admin_call: "keeps (ctx_inv I) (authorize_admin_call a realm bearer required)"
  unfolding authorize_admin_call_def by (intro keeps_intro aside_intro)

end

subsection \<open>Invariants that stand a row of the directory more\<close>

locale directory_invariant = state_invariant +
  assumes clients: "keeps (work_inv I) (store_insert_client c)"
    and persons: "keeps (work_inv I) (store_insert_person p)"
begin

lemma keeps_provisioning_steps [keeps_intro]:
  "keeps (ctx_inv I) (register_client a wanted)" "keeps (ctx_inv I) (create_first_keys a)"
  unfolding register_client_def make_client_secret_def create_first_keys_def Let_def
  by (intro keeps_intro clients keeps_aside aside_intro)+

lemma keeps_provisioning [keeps_intro]:
  "keeps (ctx_inv I) (create_client a caller wanted)"
  "keeps (ctx_inv I) (provision_realm_with_client a ten realm first)"
  unfolding create_client_def provision_realm_with_client_def register_first_client_def register_service_client_def Let_def
  by (intro keeps_intro keeps_aside aside_intro)+

lemma keeps_create_person [keeps_intro]: "keeps (ctx_inv I) (create_person a scope new)"
  unfolding create_person_def Let_def
  by (intro keeps_intro persons keeps_aside aside_intro keeps_writes_nothing [OF writes_nothing_hash_password(3)])

end

subsection \<open>Invariants of the chains\<close>

locale log_invariant =
  fixes I :: "state \<Rightarrow> bool"
  assumes chains: "st_audit s' = st_audit s \<Longrightarrow> I s' = I s"
    and extends: "keeps (work_inv I) (store_append_audit_event app envelope)"
begin

lemma keeps_silent: "silent m \<Longrightarrow> keeps (work_inv I) m"
  unfolding keeps_def work_inv_def silent_def quiet_def using chains by blast

end

sublocale log_invariant \<subseteq> directory_invariant
proof unfold_locales
  fix s' s
  assume "same_administered s' s"
  then show "I s' = I s" by (intro chains) (simp add: same_administered_def)
qed (intro extends keeps_silent silent_intro)+

context log_invariant
begin

lemma keeps_on_work_silent [keeps_intro]: "silent m \<Longrightarrow> keeps (ctx_inv I) (on_work m)"
  by (intro keeps_on_work keeps_silent)

lemma keeps_requirements [keeps_intro]:
  "keeps (ctx_inv I) (read_named_client app client)" "keeps (ctx_inv I) (require_named_client app wanted)"
  "keeps (ctx_inv I) (require_person p)" "keeps (ctx_inv I) (require_group g)"
  "keeps (ctx_inv I) (require_holder h)"
  unfolding read_named_client_def require_named_client_def require_person_def require_group_def require_holder_def
  by (auto intro!: keeps_intro silent_intro split: role_holder.split)

lemma chains_roles:
  "keeps (ctx_inv I) (create_role app caller wanted)" "keeps (ctx_inv I) (delete_role app caller i)"
  "keeps (ctx_inv I) (create_group app caller new)" "keeps (ctx_inv I) (delete_group app caller i)"
  "keeps (ctx_inv I) (grant_role app caller i h terms)" "keeps (ctx_inv I) (revoke_role app caller i h)"
  "keeps (ctx_inv I) (add_member app caller g p terms)" "keeps (ctx_inv I) (remove_member app caller g p)"
  unfolding create_role_def delete_role_def create_group_def delete_group_def grant_role_def revoke_role_def
    add_member_def remove_member_def Let_def
  by (intro keeps_intro silent_intro)+
lemma keeps_remove_changed [keeps_intro]: "keeps (ctx_inv I) (remove_changed app before compiled)"
  unfolding remove_changed_def Let_def by (intro keeps_intro silent_intro)

lemma chains_relations:
  "keeps (ctx_inv I) (write_relation_schema app caller source)"
  "keeps (ctx_inv I) (write_relation app caller r)" "keeps (ctx_inv I) (delete_relation app caller r)"
  "keeps (ctx_inv I) (write_relation_guard app caller ty client)"
  "keeps (ctx_inv I) (delete_relation_guard app caller ty client)"
  unfolding write_relation_schema_def replace_schema_def write_relation_def keep_relation_def delete_relation_def
    write_relation_guard_def delete_relation_guard_def Let_def
  by (intro keeps_intro silent_intro)+

lemma chains_policies:
  "keeps (ctx_inv I) (create_policy app caller wanted)" "keeps (ctx_inv I) (delete_policy app caller client i)"
  unfolding create_policy_def admit_policy_def check_conditions_def check_roles_def check_groups_def delete_policy_def Let_def
  by (intro keeps_intro silent_intro)+

end

end
