(* ===== verification/Soundness.thy ===== *)
theory Soundness
  imports Invariants
begin

text \<open>
  The state the storage keeps committed is sound: roles are granted to those the realm knows, relations
  are of the kinds its schema admits, policies are within their bounds and on the types no schema
  decides, clients and people are named once, and every chain of the audit is intact. The lemmas show
  that every use case keeps it, the administration plane as a whole included, and that no question
  to the point of decision commits anything.
\<close>

subsection \<open>Sound states\<close>

text \<open>Clients and people are named once in a realm, and two people share no address.\<close>

definition directory_ok :: "state \<Rightarrow> bool" where
  "directory_ok s \<longleftrightarrow> (\<forall>realm.
     distinct (map client_id (st_clients s realm)) \<and>
     distinct (map person_username (st_persons s realm)) \<and>
     distinct (List.map_filter person_email (st_persons s realm)))"

definition sound :: "app \<Rightarrow> state \<Rightarrow> bool" where
  "sound app s \<longleftrightarrow> roles_inv s \<and> relations_inv app s \<and> policies_inv app s \<and> directory_ok s \<and> chains_intact s"

lemma sound_same: "same_administered s' s \<Longrightarrow> sound app s' = sound app s"
  by (simp add: same_administered_def sound_def roles_inv_defs relations_inv_defs policies_inv_defs directory_ok_def
      chains_intact_def cong: role_holder.case_cong option.case_cong)

lemma link_event_audit: "\<exists>chain. working (snd (link_event app envelope w)) = (working w)\<lparr>st_audit := chain\<rparr>"
proof -
  have "\<exists>chain. working w = (working w)\<lparr>st_audit := chain\<rparr>" by (rule exI [of _ "st_audit (working w)"]) simp
  then show ?thesis
    by (auto simp: link_event_def and_then_def refuse_in_snapshot_def Let_def split: option.split)
qed

lemma sound_audit: "sound app (s\<lparr>st_audit := chain\<rparr>) \<longleftrightarrow>
    roles_inv s \<and> relations_inv app s \<and> policies_inv app s \<and> directory_ok s \<and> chains_intact (s\<lparr>st_audit := chain\<rparr>)"
  by (simp add: sound_def roles_inv_defs relations_inv_defs policies_inv_defs directory_ok_def
      cong: role_holder.case_cong option.case_cong)

lemma failed_link_event: "failed (snd (link_event app envelope w)) = failed w"
  by (auto simp: link_event_def and_then_def refuse_in_snapshot_def Let_def split: option.split)

lemma keeps_append_sound: "keeps (work_inv (sound app)) (store_append_audit_event other envelope)"
proof -
  have "sound app (working (snd (link_event other envelope w)))" if "\<not> failed w" "sound app (working w)" for w
  proof -
    have "chains_intact (working w)" using that(2) by (simp add: sound_def)
    then have "chains_intact (working (snd (link_event other envelope w)))"
      by (auto simp: link_event_def and_then_def refuse_in_snapshot_def chains_intact_def intact_def
          linked_append Let_def split: option.split)
    moreover obtain chain where "working (snd (link_event other envelope w)) = (working w)\<lparr>st_audit := chain\<rparr>"
      using link_event_audit by blast
    ultimately show ?thesis using that(2) by (simp add: sound_audit) (simp add: sound_def)
  qed
  then have "keeps (work_inv (sound app)) (link_event other envelope)"
    by (simp add: keeps_def work_inv_def failed_link_event)
  then show ?thesis
    unfolding store_append_audit_event_def by (rule keeps_record_refusal)
qed

text \<open>A row of the directory more, that shares no name with another.\<close>

lemma sound_client:
  assumes "sound app s" and "\<not> list_ex (\<lambda>known. client_id known = client_id c) (st_clients s realm)"
  shows "sound app (s\<lparr>st_clients := (st_clients s)(realm := st_clients s realm @ [c])\<rparr>)"
  using assms by (auto simp: sound_def roles_inv_defs relations_inv_defs policies_inv_defs directory_ok_def
      chains_intact_def list_ex_iff cong: role_holder.case_cong option.case_cong)

lemma map_filter_snoc: "List.map_filter f (xs @ [x]) = List.map_filter f xs @ (case f x of None \<Rightarrow> [] | Some y \<Rightarrow> [y])"
  by (simp add: List.map_filter_def split: option.split)

lemma sound_person:
  assumes "sound app s" and "\<not> list_ex (\<lambda>other. person_username other = person_username p) (st_persons s realm)"
    and "person_email p \<noteq> None \<longrightarrow> \<not> list_ex (\<lambda>other. person_email other = person_email p) (st_persons s realm)"
  shows "sound app (s\<lparr>st_persons := (st_persons s)(realm := st_persons s realm @ [p])\<rparr>)"
proof -
  have "roles_inv (s\<lparr>st_persons := (st_persons s)(realm := st_persons s realm @ [p])\<rparr>)"
    using assms(1) by (auto simp: sound_def roles_inv_defs split: role_holder.splits)
  moreover have "directory_ok (s\<lparr>st_persons := (st_persons s)(realm := st_persons s realm @ [p])\<rparr>)"
    using assms by (auto simp: sound_def directory_ok_def map_filter_snoc in_map_filter list_ex_iff split: option.split)
  ultimately show ?thesis
    using assms(1) by (simp add: sound_def relations_inv_defs policies_inv_defs chains_intact_def cong: option.case_cong)
qed

lemma keeps_directory_rows:
  "keeps (work_inv (sound app)) (keep_client c)" "keeps (work_inv (sound app)) (keep_person p)"
  by (auto simp: keeps_def work_inv_def keep_client_def keep_person_def and_then_def refuse_in_snapshot_def Let_def
      intro!: sound_client sound_person)

lemma keeps_directory_inserts:
  "keeps (work_inv (sound app)) (store_insert_client c)" "keeps (work_inv (sound app)) (store_insert_person p)"
  unfolding store_insert_client_def store_insert_person_def
  by (intro keeps_record_refusal keeps_directory_rows)+

interpretation sound_state: directory_invariant "sound app" for app
  by unfold_locales (simp_all add: sound_same keeps_append_sound keeps_directory_inserts)

interpretation intact_chains: log_invariant chains_intact
  by unfold_locales (simp_all add: chains_intact_def keeps_append)

subsection \<open>What administers roles, relations and policies\<close>

text \<open>What is kept of the tables, the chains aside.\<close>

definition tables_ok :: "app \<Rightarrow> state \<Rightarrow> bool" where
  "tables_ok app s \<longleftrightarrow> roles_inv s \<and> relations_inv app s \<and> policies_inv app s \<and> directory_ok s"

lemma sound_tables: "sound app s \<longleftrightarrow> tables_ok app s \<and> chains_intact s"
  by (simp add: sound_def tables_ok_def)

lemma tables_blind: "blind_to_chains (tables_ok app)"
  by (simp add: blind_to_chains_def tables_ok_def roles_inv_defs relations_inv_defs policies_inv_defs directory_ok_def
      cong: role_holder.case_cong option.case_cong)

text \<open>A run that keeps what is committed sound, whatever it leaves of a unit of work that is dropped.\<close>

definition serves :: "app \<Rightarrow> (ctx, 'e, 'a) act \<Rightarrow> bool" where
  "serves app m \<longleftrightarrow> (\<forall>s. ctx_inv (sound app) s \<longrightarrow> sound app (shared (snd (m s))))"

lemma serves_keeps: "keeps (ctx_inv (sound app)) m \<Longrightarrow> serves app m"
  by (auto simp: keeps_def serves_def dest: ctx_inv_shared)

lemma serves_by_tables:
  assumes "keeps (ctx_inv chains_intact) m"
    and "\<And>s. tables_ok app (shared s) \<Longrightarrow> wp m (\<lambda>_ t. tables_ok app (shared t)) (\<lambda>_ t. tables_ok app (shared t)) s"
  shows "serves app m"
  unfolding serves_def
proof (intro allI impI)
  fix s assume "ctx_inv (sound app) s"
  then have "ctx_inv chains_intact s" "tables_ok app (shared s)" by (auto simp: ctx_inv_def sound_tables)
  with assms(1) assms(2) [of s] have "chains_intact (shared (snd (m s)))" "tables_ok app (shared (snd (m s)))"
    by (auto simp: keeps_def wp_same dest: ctx_inv_shared)
  then show "sound app (shared (snd (m s)))" by (simp add: sound_tables)
qed

lemma tables_by_parts:
  assumes "wp m (\<lambda>_ t. P (shared t)) (\<lambda>_ t. P (shared t)) s" and "wp m (\<lambda>_ t. Q (shared t)) (\<lambda>_ t. Q (shared t)) s"
    and "\<And>s. P s \<Longrightarrow> Q s \<Longrightarrow> tables_ok app s"
  shows "wp m (\<lambda>_ t. tables_ok app (shared t)) (\<lambda>_ t. tables_ok app (shared t)) s"
  by (rule wp_mono [OF wp_conj [OF assms(1,2)]]) (auto intro: assms(3))

text \<open>What stands beside the roles, beside the relations and beside the policies.\<close>

definition beside_roles :: "app \<Rightarrow> state \<Rightarrow> bool" where
  "beside_roles app s \<longleftrightarrow> relations_inv app s \<and> policies_inv app s \<and> directory_ok s"

definition beside_relations :: "app \<Rightarrow> state \<Rightarrow> bool" where
  "beside_relations app s \<longleftrightarrow> roles_inv s \<and> policies_inv app s \<and> directory_ok s"

definition beside_schema :: "state \<Rightarrow> bool" where
  "beside_schema s \<longleftrightarrow> roles_inv s \<and> directory_ok s"

definition beside_policies :: "app \<Rightarrow> state \<Rightarrow> bool" where
  "beside_policies app s \<longleftrightarrow> roles_inv s \<and> relations_inv app s \<and> directory_ok s"

lemmas beside_defs = beside_roles_def beside_relations_def beside_schema_def beside_policies_def
  roles_inv_defs relations_inv_defs policies_inv_defs directory_ok_def

lemma beside_blind:
  "blind_to_chains (beside_roles app)" "blind_to_chains (beside_relations app)" "blind_to_chains beside_schema"
  "blind_to_chains (beside_policies app)"
  by (simp_all add: blind_to_chains_def beside_defs cong: role_holder.case_cong option.case_cong)

lemma beside_fields [simp]:
  "beside_roles app (s\<lparr>st_roles := a\<rparr>) = beside_roles app s" "beside_roles app (s\<lparr>st_groups := b\<rparr>) = beside_roles app s"
  "beside_roles app (s\<lparr>st_role_grants := c\<rparr>) = beside_roles app s" "beside_roles app (s\<lparr>st_memberships := d\<rparr>) = beside_roles app s"
  "beside_relations app (s\<lparr>st_relations := e\<rparr>) = beside_relations app s"
  "beside_schema (s\<lparr>st_relations := e\<rparr>) = beside_schema s" "beside_schema (s\<lparr>st_relation_kinds := f\<rparr>) = beside_schema s"
  "beside_schema (s\<lparr>st_relation_schemas := g\<rparr>) = beside_schema s"
  "beside_policies app (s\<lparr>st_policies := h\<rparr>) = beside_policies app s"
  "tables_ok app (s\<lparr>st_relation_guards := k\<rparr>) = tables_ok app s"
  by (simp_all add: beside_defs tables_ok_def cong: role_holder.case_cong option.case_cong)

lemma beside_tables:
  "tables_ok app s \<longleftrightarrow> roles_inv s \<and> beside_roles app s" "tables_ok app s \<longleftrightarrow> relations_inv app s \<and> beside_relations app s"
  "tables_ok app s \<longleftrightarrow> policies_inv app s \<and> beside_policies app s"
  "tables_ok app s \<longleftrightarrow> (relations_inv app s \<and> policies_inv app s) \<and> beside_schema s"
  by (auto simp: tables_ok_def beside_roles_def beside_relations_def beside_policies_def beside_schema_def)

text \<open>A use case that keeps its own part of the tables, and leaves the others as they were.\<close>

lemma serves_beside:
  assumes "\<And>s. tables_ok app s \<longleftrightarrow> P s \<and> Q s" and "blind_to_chains Q"
    and "keeps (ctx_inv chains_intact) m"
    and "\<And>s. P (shared s) \<Longrightarrow> wp m (\<lambda>_ t. P (shared t)) (\<lambda>_ t. P (shared t)) s"
    and "\<And>s. wp m (\<lambda>x t. same_but_chain (shared t) (after s x) \<and> guard s x) (\<lambda>_ t. shared t = shared s) s"
    and "\<And>s x. Q (after s x) = Q (shared s)"
  shows "serves app m"
proof (rule serves_by_tables [OF assms(3)])
  fix s :: ctx assume "tables_ok app (shared s)"
  then have parts: "P (shared s)" "Q (shared s)" using assms(1) by blast+
  show "wp m (\<lambda>_ t. tables_ok app (shared t)) (\<lambda>_ t. tables_ok app (shared t)) s"
    by (rule tables_by_parts [OF assms(4) [OF parts(1)] leaves_keep [OF assms(5) assms(2) parts(2)]])
       (use parts(2) assms(1,6) in auto)
qed

lemmas serves_by_roles = serves_beside [OF beside_tables(1) beside_blind(1)]
lemmas serves_by_relations = serves_beside [OF beside_tables(2) beside_blind(2)]
lemmas serves_by_policies = serves_beside [OF beside_tables(3) beside_blind(4)]

lemma roles_served:
  "serves app (create_role app caller wanted)" "serves app (delete_role app caller i)"
  "serves app (create_group app caller new)" "serves app (delete_group app caller i)"
  "serves app (grant_role app caller i h terms)" "serves app (revoke_role app caller i h)"
  "serves app (add_member app caller g p terms)" "serves app (remove_member app caller g p)"
  by (rule serves_by_roles [OF intact_chains.chains_roles(1) create_role_inv create_role_leaves], assumption, simp)
     (rule serves_by_roles [OF intact_chains.chains_roles(2) delete_role_inv delete_role_leaves], assumption, simp,
      rule serves_by_roles [OF intact_chains.chains_roles(3) create_group_inv create_group_leaves], assumption, simp,
      rule serves_by_roles [OF intact_chains.chains_roles(4) delete_group_inv delete_group_leaves], assumption, simp,
      rule serves_by_roles [OF intact_chains.chains_roles(5) grant_role_inv grant_role_leaves], assumption, simp,
      rule serves_by_roles [OF intact_chains.chains_roles(6) revoke_role_inv revoke_role_leaves], assumption, simp,
      rule serves_by_roles [OF intact_chains.chains_roles(7) add_member_inv add_member_leaves], assumption, simp,
      rule serves_by_roles [OF intact_chains.chains_roles(8) remove_member_inv remove_member_leaves], assumption, simp)

lemma relations_served:
  "serves app (write_relation app caller r)" "serves app (delete_relation app caller r)"
  by (rule serves_by_relations [OF intact_chains.chains_relations(2) write_relation_keeps write_relation_leaves], assumption, simp)
     (rule serves_by_relations [OF intact_chains.chains_relations(3) delete_relation_keeps delete_relation_leaves], assumption, simp)

lemma guards_served:
  "serves app (write_relation_guard app caller ty client)" "serves app (delete_relation_guard app caller ty client)"
proof -
  show "serves app (write_relation_guard app caller ty client)"
    by (rule serves_by_tables [OF intact_chains.chains_relations(4)], rule leaves_keep [OF write_relation_guard_leaves tables_blind]) simp_all
  show "serves app (delete_relation_guard app caller ty client)"
    by (rule serves_by_tables [OF intact_chains.chains_relations(5)], rule leaves_keep [OF delete_relation_guard_leaves tables_blind]) simp_all
qed

lemma policies_served: "serves app (create_policy app caller wanted)" "serves app (delete_policy app caller client i)"
  by (rule serves_by_policies [OF intact_chains.chains_policies(1) create_policy_keeps create_policy_leaves], assumption, simp)
     (rule serves_by_policies [OF intact_chains.chains_policies(2) delete_policy_keeps delete_policy_leaves], assumption, simp)

lemma schema_served:
  assumes reads: "\<And>schema. app_schema_read app (app_schema_form app schema) \<in> {None, Some schema}"
  shows "serves app (write_relation_schema app caller source)"
proof (rule serves_beside [OF beside_tables(4) beside_blind(3) intact_chains.chains_relations(1) _ write_relation_schema_leaves])
  fix s :: ctx assume "relations_inv app (shared s) \<and> policies_inv app (shared s)"
  then show "wp (write_relation_schema app caller source)
      (\<lambda>_ t. relations_inv app (shared t) \<and> policies_inv app (shared t))
      (\<lambda>_ t. relations_inv app (shared t) \<and> policies_inv app (shared t)) s"
    by (intro wp_conj write_relation_schema_keeps replacement_keeps_policies reads) simp_all
qed simp

subsection \<open>The plane as a whole\<close>

definition answers_soundly :: "app \<Rightarrow> answer \<Rightarrow> bool" where
  "answers_soundly app h \<longleftrightarrow> (\<forall>s. ctx_inv (sound app) s \<longrightarrow> sound app (shared (snd (h s))))"

named_theorems soundly_intro \<open>answers that keep what is committed sound\<close>

lemma soundly_respond [soundly_intro]: "serves app m \<Longrightarrow> answers_soundly app (respond m refuse show)"
  by (auto simp: serves_def answers_soundly_def respond_def split_beta split: sum.split)

lemma soundly_harmless: "harmless h \<Longrightarrow> answers_soundly app h"
  by (auto simp: harmless_def answers_soundly_def dest: ctx_inv_shared)

lemma soundly_extracted [soundly_intro]:
  "(\<And>x. answers_soundly app (f x)) \<Longrightarrow> answers_soundly app (with_body read f)"
  "(\<And>i. answers_soundly app (g i)) \<Longrightarrow> answers_soundly app (with_identifier a written missing g)"
  "(\<And>i j. answers_soundly app (h i j)) \<Longrightarrow> answers_soundly app (with_identifiers a first second missings h)"
  "(\<And>i j terms. answers_soundly app (k i j terms)) \<Longrightarrow> answers_soundly app (with_terms a first second missings terms_read k)"
  unfolding with_body_def with_identifier_def with_identifiers_def with_terms_def
  by (auto intro: soundly_harmless answer_intro split: option.split sum.split)

lemmas served = roles_served relations_served guards_served policies_served
  sound_state.keeps_provisioning(1) [THEN serves_keeps] sound_state.keeps_create_person [THEN serves_keeps]
  sound_state.keeps_administered_people [THEN serves_keeps]

lemma soundly_grants [soundly_intro]:
  "answers_soundly app (serve_create_role app new caller)" "answers_soundly app (serve_delete_role app written caller)"
  "answers_soundly app (serve_create_group app wanted caller)" "answers_soundly app (serve_delete_group app written caller)"
  "answers_soundly app (serve_grant_group_role app g r terms caller)" "answers_soundly app (serve_revoke_group_role app g r caller)"
  "answers_soundly app (serve_add_group_member app g p terms caller)" "answers_soundly app (serve_remove_group_member app g p caller)"
  "answers_soundly app (serve_grant_user_role app p r terms caller)" "answers_soundly app (serve_revoke_user_role app p r caller)"
  unfolding serve_create_role_def serve_delete_role_def serve_create_group_def serve_delete_group_def
    serve_grant_group_role_def serve_revoke_group_role_def serve_add_group_member_def serve_remove_group_member_def
    serve_grant_user_role_def serve_revoke_user_role_def answering_def
  by (intro soundly_intro served)+

lemma soundly_refusing [soundly_intro]: "answers_soundly app (refusing e)"
  by (rule soundly_harmless [OF harmless_refusals(1)])

lemma soundly_relations [soundly_intro]:
  "answers_soundly app (serve_write_relation app x r y caller)" "answers_soundly app (serve_delete_relation app x r y caller)"
  "answers_soundly app (serve_write_guard app ty c caller)" "answers_soundly app (serve_delete_guard app ty c caller)"
  "answers_soundly app (serve_create_policy app c wanted caller)" "answers_soundly app (serve_delete_policy app c written caller)"
  unfolding serve_write_relation_def serve_delete_relation_def serve_write_guard_def serve_delete_guard_def
    serve_create_policy_def serve_delete_policy_def answering_def
  by (auto intro!: soundly_intro served split: option.split)

lemma serves_after_reading: "(\<And>x. serves app (m x)) \<Longrightarrow> serves app (and_then (lift_result r) m)"
  by (cases r) (auto simp: serves_def and_then_def lift_result_def dest: ctx_inv_shared)

lemma soundly_people [soundly_intro]:
  "answers_soundly app (serve_create_client app c caller)" "answers_soundly app (serve_create_user app u caller)"
  "answers_soundly app (serve_unlock_user app client caller)" "answers_soundly app (serve_withdraw_user_consent app written client caller)"
  "answers_soundly app (serve_remove_authenticator app written caller)"
  "answers_soundly app (serve_resume_person_codes app written caller)" "answers_soundly app (serve_remove_keys app written caller)"
  unfolding serve_create_client_def serve_create_user_def serve_unlock_user_def serve_withdraw_user_consent_def
    serve_remove_authenticator_def serve_resume_person_codes_def serve_remove_keys_def answering_def
  by (intro soundly_intro served serves_after_reading)+

lemma handlers_answer_soundly:
  assumes "\<And>schema. app_schema_read app (app_schema_form app schema) \<in> {None, Some schema}"
  shows "answers_soundly app (handle_admin app request caller)"
proof (cases "is_writing (required_capability request)")
  case False
  then show ?thesis by (rule soundly_harmless [OF reading_is_harmless])
next
  case True
  have "answers_soundly app (serve_write_schema app source caller)" for source
    unfolding serve_write_schema_def by (intro soundly_intro schema_served assms)
  with True show ?thesis by (cases request) (auto simp: is_writing_def intro: soundly_intro)
qed

lemma administration_is_sound:
  assumes "\<And>schema. app_schema_read app (app_schema_form app schema) \<in> {None, Some schema}"
  shows "answers_soundly app (serve_admin app realm header request)"
  unfolding answers_soundly_def
proof (intro allI impI)
  fix s assume inv: "ctx_inv (sound app) s"
  obtain r t where run: "authorize_admin_call app realm (read_bearer_token header) (required_capability request) s = (r, t)"
    by (metis surj_pair)
  have "ctx_inv (sound app) t" using sound_state.keeps_authorize_admin_call inv run by (metis keeps_def snd_conv)
  then show "sound app (shared (snd (serve_admin app realm header request s)))"
    using handlers_answer_soundly [OF assms, of request] run
    by (cases r) (auto simp: answers_soundly_def serve_admin_def require_capability_def dest: ctx_inv_shared)
qed

subsection \<open>Questions\<close>

lemma commits_nothing_holding_share: "commits_nothing m \<Longrightarrow> commits_nothing (holding_share a tenant busy m)"
  by (auto simp: commits_nothing_def holding_share_def split_beta split: option.split)

lemma commits_nothing_reading_steps [uncommitted_intro]:
  "commits_nothing (read_named_client a client)" "commits_nothing (authenticate_client a client secret)"
  "commits_nothing (read_live_subject a i)" "commits_nothing (verify_access_token a issuer token)"
  "commits_nothing (read_held_roles p t)" "commits_nothing (read_member_groups p t)"
  unfolding read_named_client_def authenticate_client_def read_live_subject_def verify_access_token_def
    read_held_roles_def read_member_groups_def Let_def
  by (intro uncommitted_intro)+

lemma commits_nothing_read_token_subject [uncommitted_intro]: "commits_nothing (read_token_subject a issuer token)"
proof -
  have "commits_nothing (name_subject a claims)" for claims
    unfolding name_subject_def by (intro uncommitted_intro)
  then show ?thesis
    using commits_nothing_reading_steps(4) [of a issuer token]
    by (auto simp: read_token_subject_def commits_nothing_def split: prod.split sum.split) (metis snd_conv)+
qed

lemma commits_nothing_walk [uncommitted_intro]:
  "commits_nothing (map_err g (walk_relations (walk_port a schema subject deadline) obj m))"
  by (intro writes_nothing_commits reads_only_writes_nothing reads_intro)

lemma commits_nothing_case_schema_for [uncommitted_intro]:
  "commits_nothing m \<Longrightarrow> (\<And>compiled. commits_nothing (f compiled)) \<Longrightarrow> commits_nothing n \<Longrightarrow>
     commits_nothing (case found of Schema_unreadable \<Rightarrow> m | By_relations compiled \<Rightarrow> f compiled | By_policies \<Rightarrow> n)"
  by (cases found) simp_all

lemma commits_nothing_decide: "commits_nothing (decide a realm client secret request)"
  unfolding decide_def decide_failing_def answer_question_def read_schema_for_def decide_by_relations_def
    decide_by_policies_def read_holdings_def Let_def
  by (intro uncommitted_intro commits_nothing_holding_share)

end
