(* ===== verification/Granting.thy ===== *)
theory Granting
  imports Invariants
begin

text \<open>
  What is shown of the authorization endpoint, of the page where a person answers a client, and of
  the sign-in before them: nothing is sent to an address the client of the request did not register,
  a code is issued for what the request asked, for the person of a session the browser proved and
  who allowed the client, and a request that waits is answered once, by the browser that started
  it. Each step of the code has its rule over units of work at a known state.
\<close>

subsection \<open>What a request is trusted with\<close>

text \<open>The client a request names may send people here, and registered the address the request asks for.\<close>

definition registered_for :: "state \<Rightarrow> string \<Rightarrow> authorization_parameters \<Rightarrow> uuid \<Rightarrow> client \<Rightarrow> string \<Rightarrow> bool" where
  "registered_for st realm parameters ri c uri \<longleftrightarrow>
     (\<exists>r \<in> snd ` set (st_realms st). realm_name r = realm \<and> realm_enabled r \<and> realm_id r = ri) \<and>
     c \<in> set (st_clients st ri) \<and> may_sign_in c \<and>
     asked_client_id parameters = Some (client_id c) \<and> asked_redirect_uri parameters = Some uri \<and>
     uri \<in> set (redirect_uris c)"

definition kept_state :: "authorization_parameters \<Rightarrow> string option" where
  "kept_state parameters = filter_option (\<lambda>x. \<not> is_unacceptable x) (asked_state parameters)"

text \<open>The scopes a request asks for: what stands between its spaces.\<close>

definition scopes_asked :: "authorization_parameters \<Rightarrow> string set" where
  "scopes_asked parameters =
     {token \<in> set (split_at CHR '' '' (case asked_scope parameters of None \<Rightarrow> [] | Some text \<Rightarrow> text)). token \<noteq> []}"

definition trusts :: "state \<Rightarrow> string \<Rightarrow> authorization_parameters \<Rightarrow> uuid \<Rightarrow> trusted_request \<Rightarrow> bool" where
  "trusts st realm parameters ri tr \<longleftrightarrow>
     registered_for st realm parameters ri (trusted_client tr) (trusted_redirect_uri tr) \<and> trusted_realm tr = realm \<and>
     distinct (trusted_scopes tr) \<and> set (trusted_scopes tr) = scopes_asked parameters \<and>
     scopes_asked parameters \<subseteq> set (client_scopes (trusted_client tr)) \<and> trusted_state tr = kept_state parameters \<and>
     trusted_nonce tr = asked_nonce parameters \<and> asked_code_challenge parameters = Some (trusted_code_challenge tr)"

text \<open>An answer to a client: the address it registered, with an error and nothing else.\<close>

definition tells_client :: "app \<Rightarrow> state \<Rightarrow> string \<Rightarrow> authorization_parameters \<Rightarrow> authorization_refusal \<Rightarrow> bool" where
  "tells_client app st realm parameters e \<longleftrightarrow>
     (case e of
        Shown _ \<Rightarrow> True
      | Returned location \<Rightarrow> \<exists>ri c uri told. registered_for st realm parameters ri c uri \<and>
          location = write_return_location uri (name_issuer app realm) (kept_state parameters) [(''error'', oauth_error_name told)])"

lemma collect_scopes_exact:
  "collect_scopes allowed scopes tokens = Some collected \<Longrightarrow>
     set collected = set scopes \<union> set tokens \<and> set tokens \<subseteq> set allowed \<and> (distinct scopes \<longrightarrow> distinct collected)"
  by (induction allowed scopes tokens rule: collect_scopes.induct) (auto split: if_splits)

lemma read_trusted_facts:
  assumes "read_trusted app realm c uri parameters = Ok tr"
  shows "trusted_realm tr = realm" "trusted_client tr = c" "trusted_redirect_uri tr = uri"
    "distinct (trusted_scopes tr)" "set (trusted_scopes tr) = scopes_asked parameters"
    "scopes_asked parameters \<subseteq> set (client_scopes c)" "trusted_state tr = kept_state parameters"
    "trusted_nonce tr = asked_nonce parameters" "asked_code_challenge parameters = Some (trusted_code_challenge tr)"
  using assms by (auto simp: read_trusted_def kept_state_def filter_option_eq_Some scopes_asked_def
      split: if_splits option.splits dest!: collect_scopes_exact)

text \<open>A unit of work on a realm that stands at a state, while what is committed is as it was; and one that was just opened.\<close>

definition at_work :: "uuid \<Rightarrow> state \<Rightarrow> ctx \<Rightarrow> ctx \<Rightarrow> bool" where
  "at_work ri st s t \<longleftrightarrow> shared t = shared s \<and> (\<exists>w. opened t = Some w \<and> working w = st \<and> uow_realm w = ri \<and>
     \<not> failed w \<and> \<not> read_only w)"

abbreviation fresh_on :: "uuid \<Rightarrow> ctx \<Rightarrow> ctx \<Rightarrow> bool" where
  "fresh_on ri s t \<equiv> at_work ri (shared s) s t"

lemma at_work_idle: "at_work ri st s t \<Longrightarrow> idle t u \<Longrightarrow> at_work ri st s u"
  by (simp add: at_work_def idle_def)

lemma at_work_shared: "at_work ri st s t \<Longrightarrow> shared t = shared s"
  by (simp add: at_work_def)

lemma wp_commit_at_work:
  "at_work ri st s t \<Longrightarrow> (\<And>u. shared u = st \<Longrightarrow> Q () u) \<Longrightarrow> wp commit Q R t"
  by (auto simp: at_work_def wp_commit)

lemma wp_or_shown [simp]: "wp (or_shown m) Q R s = wp m Q (\<lambda>e. R (Shown e)) s"
  by (simp add: or_shown_def)

lemma wp_shown_seq: "wp m (\<lambda>x. wp (f x) Q R) (\<lambda>e. R (Shown e)) s \<Longrightarrow> wp (and_then (or_shown m) f) Q R s"
  by simp

lemma wp_shown_found:
  "(\<And>x. found = Some x \<Longrightarrow> wp (f x) Q R s) \<Longrightarrow> R (Shown e) s \<Longrightarrow> wp (and_then (or_shown (lift_result (ok_or e found))) f) Q R s"
  by (cases found) (simp_all add: ok_or_def)

lemma wp_shown_begin:
  assumes "wp (f ()) Q R (s\<lparr>opened := Some \<lparr>uow_scope = scope, working = shared s, failed = False, read_only = False\<rparr>\<rparr>)"
    and "\<And>e. R (Shown e) s"
  shows "wp (and_then (or_shown (begin_work scope)) f) Q R s"
  using assms by (simp add: begin_work_def split: option.split)

lemma wp_trust_request:
  "wp (trust_request app realm parameters)
     (\<lambda>tr t. \<exists>ri. trusts (shared s) realm parameters ri tr \<and> fresh_on ri s t \<and> tick t = tick s)
     (\<lambda>e t. shared t = shared s \<and> tells_client app (shared s) realm parameters e) s"
  (is "wp _ ?Q ?R s")
proof -
  have checked: "wp (case read_trusted app realm c uri parameters of
       Ok trusted \<Rightarrow> ret trusted
     | Err e \<Rightarrow> throw (Returned (write_return_location uri (name_issuer app realm)
         (filter_option (\<lambda>x. \<not> is_unacceptable x) (asked_state parameters)) [(''error'', oauth_error_name e)]))) ?Q ?R t"
    if "registered_for (shared s) realm parameters ri c uri" "fresh_on ri s t" "tick t = tick s" for c uri ri t
    using that read_trusted_facts [of app realm c uri parameters]
    by (auto simp: trusts_def tells_client_def kept_state_def at_work_def split: sum.split)
  let ?rest = "\<lambda>(named, scope). and_then (or_shown (begin_work scope)) (\<lambda>_.
     and_then (or_shown (lift_result (ok_or (new_failure ClientNotFound) (asked_client_id parameters)))) (\<lambda>asked.
     and_then (or_shown (read_named_client app asked)) (\<lambda>found.
     and_then (or_shown (lift_result (ok_or (new_failure ClientNotFound) (filter_option may_sign_in found)))) (\<lambda>c.
     and_then (or_shown (lift_result (ok_or (new_failure RedirectUriMismatch)
         (filter_option (\<lambda>asked. asked \<in> set (redirect_uris c)) (asked_redirect_uri parameters))))) (\<lambda>uri.
     case read_trusted app named c uri parameters of
       Ok trusted \<Rightarrow> ret trusted
     | Err e \<Rightarrow> throw (Returned (write_return_location uri (name_issuer app named)
         (filter_option (\<lambda>x. \<not> is_unacceptable x) (asked_state parameters)) [(''error'', oauth_error_name e)])))))))"
  have "wp (?rest (realm, \<lparr>scope_tenant = realm_tenant r, scope_realm = realm_id r\<rparr>)) ?Q ?R s"
    if r: "r \<in> snd ` set (st_realms (shared s))" "realm_name r = realm" "realm_enabled r" for r
  proof -
    let ?w = "\<lparr>uow_scope = \<lparr>scope_tenant = realm_tenant r, scope_realm = realm_id r\<rparr>, working = shared s,
      failed = False, read_only = False\<rparr>"
    let ?t = "s\<lparr>opened := Some ?w\<rparr>"
    have t: "opened ?t = Some ?w" "fresh_on (realm_id r) s ?t" "tick ?t = tick s" by (simp_all add: at_work_def uow_realm_def)
    have refused: "?R (Shown e) ?t" "?R (Shown e) s" for e by (simp_all add: tells_client_def)
    note found = wp_read_named_client [OF t(1), unfolded uow_realm_def, simplified]
    show ?thesis
      unfolding prod.case
      by (rule wp_shown_begin, rule wp_shown_found, rule wp_shown_seq, rule found, rule wp_shown_found, rule wp_shown_found,
          rule checked [OF _ t(2,3)])
         (use refused r in \<open>auto simp: registered_for_def filter_option_eq_Some\<close>)
  qed
  then show ?thesis
    unfolding trust_request_def wp_and_then [of "or_shown (resolve_realm realm)"] wp_or_shown
    by (intro wp_mono [OF wp_resolve_realm]) (auto simp: tells_client_def)
qed

subsection \<open>What a request is answered with\<close>

text \<open>The second factors of a person: an authenticator application that was confirmed, and keys.\<close>

definition holds_code :: "state \<Rightarrow> uuid \<Rightarrow> uuid \<Rightarrow> bool" where
  "holds_code st ri p \<longleftrightarrow> (\<exists>a. st_totp st (ri, p) = Some a \<and> totp_confirmed_at a \<noteq> None)"

definition holds_key :: "state \<Rightarrow> uuid \<Rightarrow> uuid \<Rightarrow> bool" where
  "holds_key st ri p \<longleftrightarrow> p \<in> key_person ` set (st_security_keys st ri)"

text \<open>
  A session the realm keeps, that stands at an instant, that the ticket proves, and that was proven with a
  second factor where its person holds one.
\<close>

definition proves_session :: "app \<Rightarrow> state \<Rightarrow> uuid \<Rightarrow> instant \<Rightarrow> session_ticket option \<Rightarrow> session \<Rightarrow> bool" where
  "proves_session app st ri at ticket x \<longleftrightarrow>
     x \<in> set (st_sessions st ri) \<and> session_state x = Session_active \<and> at < session_expires_at x \<and>
     (\<exists>presented. ticket = Some presented \<and> ticket_session presented = session_id x \<and>
        app_equal app (app_sha256 app (ticket_secret presented)) (session_secret_digest x)) \<and>
     (holds_code st ri (session_person x) \<or> holds_key st ri (session_person x) \<longrightarrow>
        (\<exists>m \<in> set (session_methods x). m \<noteq> Password_method))"

lemma wp_find_answering_session:
  assumes "at_work ri st s t"
    and "\<And>found u. at_work ri st s u \<Longrightarrow>
      (\<And>x. found = Some x \<Longrightarrow> proves_session app st ri (app_clock app (tick t) div 1000 * 1000) (Some ticket) x) \<Longrightarrow> Q found u"
  shows "wp (find_answering_session app ticket) Q R t"
proof -
  obtain w where w: "opened t = Some w" "working w = st" "uow_realm w = ri" using assms(1) by (auto simp: at_work_def)
  have later: "at_work ri st s (t\<lparr>tick := k\<rparr>)" for k using assms(1) by (simp add: at_work_def)
  have factor: "holds_code st ri i \<or> holds_key st ri i \<longleftrightarrow> holds_factor w i" for i
    by (auto simp: holds_code_def holds_key_def holds_factor_def w is_some_and_def list_ex_iff split: option.splits)
  show ?thesis
    unfolding find_answering_session_def read_proven_session_def store_read_session_def Let_def
    by (auto simp: wp_on_work_reading [OF w(1)] w(2,3) proves_session_def filter_option_eq_Some factor answers_for_its_person_def
        proves_second_factor_def list_ex_iff split: option.splits intro!: assms(2) assms(1) later dest!: find_found)
qed

lemma wp_issue_code:
  assumes "at_work ri st s t"
    and "\<And>minted expires u. at_work ri (st\<lparr>st_authorization_codes := (st_authorization_codes st)(ri :=
          st_authorization_codes st ri @ [\<lparr>kept_code = \<lparr>code_digest = app_sha256 app minted, code_client_id = for_client_id g,
            code_person = for_person g, code_session = for_session g, code_redirect_uri = for_redirect_uri g,
            code_scopes = for_scopes g, code_nonce = for_nonce g, code_challenge = for_code_challenge g,
            code_authenticated_at = for_authenticated_at g, code_expires_at = expires\<rparr>,
            spent_at = None, code_family = None, replayed_at = None\<rparr>])\<rparr>) s u \<Longrightarrow>
        Q (write_return_location (for_redirect_uri g) (name_issuer app (for_realm g)) (for_state g) [(''code'', minted)]) u"
    and "\<And>e u. shared u = shared s \<Longrightarrow> R e u"
  shows "wp (issue_code app g) Q R t"
proof -
  obtain w where w: "opened t = Some w" "working w = st" "uow_realm w = ri" "\<not> read_only w" "\<not> failed w" "shared t = shared s"
    using assms(1) by (auto simp: at_work_def)
  show ?thesis
    unfolding issue_code_def store_insert_authorization_code_def Let_def
    using w by (auto simp: wp_on_work with_codes_def codes_of_def at_work_def uow_realm_def intro!: assms(2,3) split: option.split)
qed


text \<open>The person allowed the client every scope, where the client has to ask.\<close>

definition consented :: "state \<Rightarrow> uuid \<Rightarrow> client \<Rightarrow> uuid \<Rightarrow> string list \<Rightarrow> bool" where
  "consented st ri c p scopes \<longleftrightarrow> requires_consent c \<longrightarrow>
     (\<exists>allowed. ((ri, p, client_id c), allowed) \<in> set (st_consents st) \<and> set scopes \<subseteq> set (consent_scopes allowed))"

lemma wp_is_consent_owed_by:
  assumes "fresh_on ri s t" and "\<And>owed. owed \<or> consented (shared s) ri c p scopes \<Longrightarrow> Q owed t"
  shows "wp (is_consent_owed_by c prompted p scopes) Q R t"
proof -
  obtain w where w: "opened t = Some w" "working w = shared s" "uow_realm w = ri" using assms(1) by (auto simp: at_work_def)
  show ?thesis
    unfolding is_consent_owed_by_def store_read_consent_def
    by (cases "map_of (st_consents (shared s)) (ri, p, client_id c)")
       (auto simp: wp_on_work_reading [OF w(1)] is_consent_owed_def consented_def find_consent_def w list_all_iff
        subset_eq intro!: assms(2) dest!: map_of_SomeD)
qed

lemma wp_hold_session_to_hint:
  assumes "fresh_on ri s t" and "\<And>x expected u. fresh_on ri s u \<Longrightarrow> (\<And>y. x = Some y \<Longrightarrow> found = Some y) \<Longrightarrow> Q (x, expected) u"
    and "\<And>e u. shared u = shared s \<Longrightarrow> R (Shown e) u" and "\<And>u. shared u = shared s \<Longrightarrow> R (tell_client trusted issuer InvalidRequest) u"
  shows "wp (hold_session_to_hint app trusted issuer hint found) Q R t"
proof -
  have same: "idle t u \<Longrightarrow> shared u = shared s" for u using assms(1) by (simp add: at_work_def idle_def)
  show ?thesis
    unfolding hold_session_to_hint_def
    by (rule wp_shown_seq, rule wp_writes_nothing [OF reads_only_writes_nothing [OF reads_only_tokens(2)]])
       (auto simp: filter_option_eq_Some same intro!: assms(2-4) at_work_idle [OF assms(1)] split: option.split)
qed

text \<open>A request left waiting issues no code.\<close>

lemma keeps_codes_counted:
  "keeps (work_inv (\<lambda>st. st_authorization_codes st = codes)) (store_record_login_failure counter bucket)"
  "keeps (work_inv (\<lambda>st. st_authorization_codes st = codes)) (store_insert_pending_authorization request)"
  unfolding store_record_login_failure_def store_insert_pending_authorization_def
  by (auto simp: keeps_def work_inv_def writing_def and_then_def record_refusal_def refuse_in_snapshot_def with_pending_def)

lemma keeps_leave_request_waiting:
  "keeps (ctx_inv (\<lambda>st. st_authorization_codes st = codes)) (leave_request_waiting app parameters trusted expected waiting_in)"
  unfolding leave_request_waiting_def admit_pending_sign_in_def keep_pending_authorization_def Let_def
    store_read_live_browsers_def store_count_login_failures_def work_scope_def
  by (intro keeps_intro keeps_codes_counted)


text \<open>What a code that was granted says, and where it is sent.\<close>

definition granted_code ::
    "app \<Rightarrow> state \<Rightarrow> instant \<Rightarrow> string \<Rightarrow> authorization_parameters \<Rightarrow> session_ticket option \<Rightarrow> string \<Rightarrow> state \<Rightarrow> bool" where
  "granted_code app st at realm parameters ticket location st' \<longleftrightarrow>
     (\<exists>ri c uri x minted code. registered_for st realm parameters ri c uri \<and> proves_session app st ri at ticket x \<and>
        consented st ri c (session_person x) (code_scopes code) \<and>
        location = write_return_location uri (name_issuer app realm) (kept_state parameters) [(''code'', minted)] \<and>
        code_digest code = app_sha256 app minted \<and> code_client_id code = client_id c \<and> code_redirect_uri code = uri \<and>
        code_person code = session_person x \<and> code_session code = session_id x \<and>
        code_authenticated_at code = authenticated_at x \<and>
        distinct (code_scopes code) \<and> set (code_scopes code) = scopes_asked parameters \<and>
        scopes_asked parameters \<subseteq> set (client_scopes c) \<and>
        code_nonce code = asked_nonce parameters \<and> asked_code_challenge parameters = Some (code_challenge code) \<and>
        st' = st\<lparr>st_authorization_codes := (st_authorization_codes st)(ri := st_authorization_codes st ri @
          [\<lparr>kept_code = code, spent_at = None, code_family = None, replayed_at = None\<rparr>])\<rparr>)"

abbreviation answered_rightly where
  "answered_rightly app st at realm parameters ticket out st' \<equiv>
     (case out of
        Granted location \<Rightarrow> granted_code app st at realm parameters ticket location st'
      | _ \<Rightarrow> st_authorization_codes st' = st_authorization_codes st)"

lemma tells_client_shown [simp]: "tells_client app st realm parameters (Shown e)"
  by (simp add: tells_client_def)

lemma told_client:
  "trusts st realm parameters ri tr \<Longrightarrow> tells_client app st realm parameters (tell_client tr (name_issuer app realm) e)"
  by (auto simp: trusts_def tells_client_def tell_client_def)

lemma wp_commits_nothing:
  assumes "commits_nothing m" and "\<And>x u. shared u = shared t \<Longrightarrow> Q x u" and "\<And>e u. shared u = shared t \<Longrightarrow> R e u"
  shows "wp m Q R t"
  using assms(1) unfolding commits_nothing_def
  by (auto simp: wp_def intro!: assms(2,3) split: prod.split sum.split) (metis snd_conv)+

lemma refused_waiting: "wp (leave_request_waiting app parameters trusted expected waiting_in) (\<lambda>_ _. True) (\<lambda>_ u. shared u = shared t) t"
proof -
  have counted: "commits_nothing (admit_pending_sign_in app (asking_caller parameters) (asking_browsers parameters))"
    unfolding admit_pending_sign_in_def work_scope_def Let_def by (intro uncommitted_intro)
  have drawn: "commits_nothing (fill_random app n)" "commits_nothing (mint_id app)" for n
    by (intro writes_nothing_commits idle_intro)+
  have kept: "commits_nothing (keep_pending_authorization app trusted expected waiting_in)"
    unfolding keep_pending_authorization_def by (intro uncommitted_intro drawn)
  show ?thesis
    unfolding leave_request_waiting_def
    by (rule wp_seq, rule wp_commits_nothing [OF counted], rule wp_seq, rule wp_commits_nothing [OF kept])
       (auto simp: wp_commit split: option.split)
qed

lemma wp_left_waiting:
  assumes "fresh_on ri s t"
    and "\<And>i secret u. st_authorization_codes (shared u) = st_authorization_codes (shared s) \<Longrightarrow> Q (i, secret) u"
    and "\<And>e u. shared u = shared s \<Longrightarrow> R e u"
  shows "wp (leave_request_waiting app parameters trusted expected waiting_in) Q R t"
proof -
  let ?I = "\<lambda>st. st_authorization_codes st = st_authorization_codes (shared s)"
  let ?run = "leave_request_waiting app parameters trusted expected waiting_in"
  have "ctx_inv ?I t" "shared t = shared s" using assms(1) by (auto simp: at_work_def ctx_inv_def)
  then have "ctx_inv ?I (snd (?run t))"
    using keeps_leave_request_waiting [of "st_authorization_codes (shared s)"] unfolding keeps_def by blast
  then have "?I (shared (snd (?run t)))" by (simp add: ctx_inv_def)
  then have "wp ?run (\<lambda>_ u. ?I (shared u)) (\<lambda>_ u. ?I (shared u)) t" by (simp add: wp_same)
  from wp_conj [OF this refused_waiting] show ?thesis
    by (rule wp_mono) (use assms(2,3) \<open>shared t = shared s\<close> in auto)
qed

lemma wp_answer_with_session:
  assumes fresh: "fresh_on ri s t" and tr: "trusts (shared s) realm parameters ri tr"
    and x: "proves_session app (shared s) ri (app_clock app (tick s) div 1000 * 1000) ticket x"
  shows "wp (answer_with_session app parameters tr (name_issuer app realm) expected x)
     (\<lambda>out u. answered_rightly app (shared s) (app_clock app (tick s) div 1000 * 1000) realm parameters ticket out (shared u))
     (\<lambda>e u. shared u = shared s \<and> tells_client app (shared s) realm parameters e) t"
    (is "wp _ ?Q ?R t")
proof -
  have same: "shared t = shared s" using fresh by (simp add: at_work_def)
  let ?code = "\<lambda>minted expires. \<lparr>code_digest = app_sha256 app minted,
            code_client_id = client_id (trusted_client tr), code_person = session_person x, code_session = session_id x,
            code_redirect_uri = trusted_redirect_uri tr, code_scopes = trusted_scopes tr, code_nonce = trusted_nonce tr,
            code_challenge = trusted_code_challenge tr, code_authenticated_at = authenticated_at x, code_expires_at = expires\<rparr>"
  have granted: "granted_code app (shared s) (app_clock app (tick s) div 1000 * 1000) realm parameters ticket
      (write_return_location (trusted_redirect_uri tr) (name_issuer app (trusted_realm tr)) (trusted_state tr) [(''code'', minted)]) st'"
    if "consented (shared s) ri (trusted_client tr) (session_person x) (trusted_scopes tr)"
      "st' = (shared s)\<lparr>st_authorization_codes := (st_authorization_codes (shared s))(ri :=
          st_authorization_codes (shared s) ri @ [\<lparr>kept_code = ?code minted expires,
            spent_at = None, code_family = None, replayed_at = None\<rparr>])\<rparr>" for minted st' expires
    unfolding granted_code_def
    by (rule exI [of _ ri], rule exI [of _ "trusted_client tr"], rule exI [of _ "trusted_redirect_uri tr"], rule exI [of _ x],
        rule exI [of _ minted], rule exI [of _ "?code minted expires"])
       (use tr x that in \<open>simp add: trusts_def\<close>)
  show ?thesis
    unfolding answer_with_session_def
    by (rule wp_shown_seq, rule wp_is_consent_owed_by [OF fresh])
       (auto simp: same told_client [OF tr] intro!: wp_commit_at_work wp_left_waiting [OF fresh] wp_issue_code [OF fresh] granted)
qed

lemma wp_begin_authorization:
  "wp (begin_authorization app realm parameters ticket)
     (\<lambda>out u. answered_rightly app (shared s) (app_clock app (tick s) div 1000 * 1000) realm parameters ticket out (shared u))
     (\<lambda>e u. shared u = shared s \<and> tells_client app (shared s) realm parameters e) s"
  (is "wp _ ?Q ?R s")
proof -
  let ?at = "app_clock app (tick s) div 1000 * 1000"
  have answered: "wp (case answering of
       Some x \<Rightarrow> answer_with_session app parameters tr (name_issuer app (trusted_realm tr)) expected x
     | None \<Rightarrow>
         if asks_silent (trusted_proof tr) then throw (tell_client tr (name_issuer app (trusted_realm tr)) LoginRequired)
         else
           and_then (or_shown (leave_request_waiting app parameters tr expected None)) (\<lambda>(i, secret).
           ret (Sign_in_required i secret))) ?Q ?R t"
    if fresh: "fresh_on ri s t" and tr: "trusts (shared s) realm parameters ri tr"
      and "\<And>x. answering = Some x \<Longrightarrow> proves_session app (shared s) ri ?at ticket x" for ri t tr answering expected
  proof -
    have "shared t = shared s" "trusted_realm tr = realm" using fresh tr by (simp_all add: at_work_def trusts_def)
    then show ?thesis
      using that wp_answer_with_session [OF fresh tr] told_client [OF tr]
      by (cases answering) (auto intro!: wp_left_waiting [OF fresh])
  qed
  have held: "wp (and_then (case filter_option (\<lambda>hint. hint \<noteq> []) (asked_id_token_hint parameters) of
         Some hint \<Rightarrow>
           and_then (hold_session_to_hint app tr (name_issuer app (trusted_realm tr)) hint recent) (\<lambda>(x, expected).
           ret (x, Some expected))
       | None \<Rightarrow> ret (recent, None)) f) ?Q ?R t"
    if fresh: "fresh_on ri s t" and tr: "trusts (shared s) realm parameters ri tr"
      and f: "\<And>x expected u. fresh_on ri s u \<Longrightarrow> (\<And>y. x = Some y \<Longrightarrow> recent = Some y) \<Longrightarrow> wp (f (x, expected)) ?Q ?R u"
    for ri t tr recent f
  proof -
    have "trusted_realm tr = realm" using tr by (simp add: trusts_def)
    then show ?thesis
      using f fresh told_client [OF tr]
      by (auto intro!: wp_hold_session_to_hint [OF fresh] split: option.split)
  qed
  have found: "wp (case ticket of
         Some presented \<Rightarrow> if \<not> fr then find_answering_session app presented else ret None
       | None \<Rightarrow> ret None) Q R t"
    if "fresh_on ri s t" and "tick t = tick s"
      and "\<And>found u. fresh_on ri s u \<Longrightarrow> (\<And>x. found = Some x \<Longrightarrow> proves_session app (shared s) ri ?at ticket x) \<Longrightarrow> Q found u"
    for ri t Q R fr
    using that by (auto intro!: wp_find_answering_session split: option.split)
  have later: "fresh_on ri s t \<Longrightarrow> fresh_on ri s (t\<lparr>tick := k\<rparr>)" for ri t k by (simp add: at_work_def)
  show ?thesis
    unfolding begin_authorization_def Let_def
    by (rule wp_seq, rule wp_mono [OF wp_trust_request], (erule exE conjE)+, rule wp_shown_seq, erule found, assumption,
        rule wp_seq, unfold wp_now, rule held [OF later], assumption, assumption, unfold prod.case,
        rule answered, assumption, assumption)
       (auto simp: filter_option_eq_Some)
qed

text \<open>
  C4: the authorization endpoint sends nothing where it does not belong. A refusal either is shown to
  the person or goes to the address of the request, and then the request named an enabled client of
  that very realm that signs people in and that registered that address; it commits nothing. A code
  goes to such an address too, is kept under its digest, bound to the client, the address and the
  challenge of the request, to exactly the scopes the request asks for, all of them scopes the client may ask for,
  and to the person of a session that the ticket of the browser proved, that has not expired and was proven
  with a second factor where the person holds one, and who allowed the client those scopes where
  the client has to ask; it is the only thing that changes. A request left waiting issues no code.
\<close>

theorem authorization_answers_rightly:
  "case begin_authorization app realm parameters ticket s of
     (Inl (Shown e), t) \<Rightarrow> shared t = shared s
   | (Inl (Returned location), t) \<Rightarrow> shared t = shared s \<and>
       (\<exists>ri c uri told. registered_for (shared s) realm parameters ri c uri \<and>
          location = write_return_location uri (name_issuer app realm) (kept_state parameters) [(''error'', oauth_error_name told)])
   | (Inr (Granted location), t) \<Rightarrow>
       granted_code app (shared s) (app_clock app (tick s) div 1000 * 1000) realm parameters ticket location (shared t)
   | (Inr _, t) \<Rightarrow> st_authorization_codes (shared t) = st_authorization_codes (shared s)"
  using wp_begin_authorization [of app realm parameters ticket s]
  by (auto simp: wp_def tells_client_def split: prod.splits sum.splits authorization.splits authorization_refusal.splits)


subsection \<open>What a person answers\<close>

lemma wp_take_pending:
  assumes "at_work ri st s t"
    and "\<And>u. at_work ri (st\<lparr>st_pending_authorizations := (st_pending_authorizations st)(ri :=
        remove_first (waits i at) (st_pending_authorizations st ri))\<rparr>) s u \<Longrightarrow> tick u = tick t \<Longrightarrow>
        Q (find (waits i at) (st_pending_authorizations st ri)) u"
  shows "wp (on_work (store_take_pending_authorization i at)) Q R t"
  using assms by (auto simp: at_work_def wp_on_work store_take_pending_authorization_def pending_of_def with_pending_def uow_realm_def)

lemma wp_check_waiting_consent:
  assumes "at_work ri st s t"
    and "\<And>pending x u. \<lbrakk>at_work ri st s u; found = Some pending; app_equal app (app_sha256 app secret) (browser_digest pending);
        consent_session pending = Some (session_id x);
        proves_session app st ri (app_clock app (tick t) div 1000 * 1000) (Some ticket) x\<rbrakk> \<Longrightarrow> Q (pending, x) u"
    and "\<And>e u. shared u = shared s \<Longrightarrow> R e u"
  shows "wp (check_waiting_consent app found secret ticket) Q R t"
proof -
  have same: "shared t = shared s" using assms(1) by (simp add: at_work_def)
  show ?thesis
    unfolding check_waiting_consent_def of_same_browser_def
    by (rule wp_lift_then, rule wp_lift_then, rule wp_seq, rule wp_find_answering_session [OF assms(1)], rule wp_lift_then)
       (auto simp: ok_or_def filter_option_eq_Some Let_def same at_work_shared intro!: assms(2,3) split: option.splits)
qed

lemma wp_read_asking_client:
  assumes "at_work ri st s t"
    and "\<And>c. client_id c = named \<Longrightarrow> c \<in> set (st_clients st ri) \<Longrightarrow> may_sign_in c \<Longrightarrow> Q c t" and "\<And>e. R e t"
  shows "wp (read_asking_client app named) Q R t"
proof -
  obtain w where w: "opened t = Some w" "working w = st" "uow_realm w = ri" using assms(1) by (auto simp: at_work_def)
  show ?thesis
    unfolding read_asking_client_def
    by (rule wp_seq, rule wp_read_named_client [OF w(1)])
       (auto simp: ok_or_def filter_option_eq_Some w intro!: assms(2,3) split: option.splits)
qed

lemma wp_record_at_work:
  assumes "at_work ri st s t"
    and "\<And>chain u. at_work ri (st\<lparr>st_audit := chain\<rparr>) s u \<Longrightarrow> Q () u" and "\<And>e u. shared u = shared s \<Longrightarrow> R e u"
  shows "wp (record_event app kind payload) Q R t"
proof -
  obtain w where w: "opened t = Some w" "working w = st" "uow_realm w = ri" "\<not> failed w" "\<not> read_only w" "shared t = shared s"
    using assms(1) by (auto simp: at_work_def)
  show ?thesis by (rule wp_record_event [OF w(1)]) (use w assms(2,3) in \<open>auto simp: at_work_def uow_realm_def\<close>)
qed

lemma set_bt_insert_in: "(k, v) \<in> set (bt_insert k v m)"
  by (induction k v m rule: bt_insert.induct) auto

lemma wp_add_consent:
  assumes "at_work ri st s t" and "client_id c = consent_client_id kept"
    and "\<And>consents u. at_work ri (st\<lparr>st_consents := consents\<rparr>) s u \<Longrightarrow>
        consented (st\<lparr>st_consents := consents\<rparr>) ri c (consent_person kept) (consent_scopes kept) \<Longrightarrow> Q () u"
  shows "wp (on_work (store_add_consent kept)) Q R t"
proof -
  obtain w where w: "opened t = Some w" "working w = st" "uow_realm w = ri" "\<not> failed w" "\<not> read_only w" "shared t = shared s"
    using assms(1) by (auto simp: at_work_def)
  let ?key = "(ri, consent_person kept, consent_client_id kept)"
  let ?old = "case map_of (st_consents st) ?key of Some k \<Rightarrow> k | None \<Rightarrow> kept\<lparr>consent_scopes := []\<rparr>"
  let ?new = "?old\<lparr>consent_scopes := consent_scopes ?old @ filter (\<lambda>scope. scope \<notin> set (consent_scopes ?old)) (consent_scopes kept),
      consent_granted_at := consent_granted_at kept\<rparr>"
  let ?u = "t\<lparr>opened := Some (w\<lparr>working := st\<lparr>st_consents := bt_insert ?key ?new (st_consents st)\<rparr>\<rparr>)\<rparr>"
  have "consented (st\<lparr>st_consents := bt_insert ?key ?new (st_consents st)\<rparr>) ri c (consent_person kept) (consent_scopes kept)"
    unfolding consented_def using set_bt_insert_in [of ?key ?new "st_consents st"] assms(2) by (auto intro!: exI [of _ ?new])
  moreover have "at_work ri (st\<lparr>st_consents := bt_insert ?key ?new (st_consents st)\<rparr>) s ?u"
    using w by (simp add: at_work_def uow_realm_def)
  ultimately have "Q () ?u" using assms(3) by blast
  then show ?thesis using w by (simp add: wp_on_work store_add_consent_def Let_def)
qed

definition allowed_rightly ::
    "app \<Rightarrow> state \<Rightarrow> uuid \<Rightarrow> string \<Rightarrow> pending_authorization \<Rightarrow> session \<Rightarrow> string \<Rightarrow> state \<Rightarrow> bool" where
  "allowed_rightly app st ri realm pending x location st' \<longleftrightarrow>
     (\<exists>c minted code. c \<in> set (st_clients st ri) \<and> may_sign_in c \<and> client_id c = pending_client_id pending \<and>
        location = write_return_location (pending_redirect_uri pending) (name_issuer app realm) (pending_state pending) [(''code'', minted)] \<and>
        code_digest code = app_sha256 app minted \<and> code_client_id code = client_id c \<and>
        code_redirect_uri code = pending_redirect_uri pending \<and> code_scopes code = pending_scopes pending \<and>
        code_nonce code = pending_nonce pending \<and> code_challenge code = pending_code_challenge pending \<and>
        code_person code = session_person x \<and> code_session code = session_id x \<and>
        consented st' ri c (session_person x) (pending_scopes pending) \<and>
        st_authorization_codes st' = (st_authorization_codes st)(ri := st_authorization_codes st ri @
          [\<lparr>kept_code = code, spent_at = None, code_family = None, replayed_at = None\<rparr>]))"

lemma consented_cong: "st_consents st' = st_consents st \<Longrightarrow> consented st' ri c p scopes = consented st ri c p scopes"
  by (simp add: consented_def)

lemma wp_allow_client:
  assumes at: "at_work ri st s t"
    and Q: "\<And>location st' u. \<lbrakk>at_work ri st' s u; allowed_rightly app st ri realm pending x location st';
        st_pending_authorizations st' = st_pending_authorizations st\<rbrakk> \<Longrightarrow> Q location u"
    and R: "\<And>e u. shared u = shared s \<Longrightarrow> R e u"
  shows "wp (allow_client app realm pending x) Q R t"
proof -
  let ?grant = "\<lambda>c. \<lparr>for_realm = realm, for_client_id = client_id c, for_redirect_uri = pending_redirect_uri pending,
          for_scopes = pending_scopes pending, for_state = pending_state pending, for_nonce = pending_nonce pending,
          for_code_challenge = pending_code_challenge pending, for_person = session_person x,
          for_session = session_id x, for_authenticated_at = authenticated_at x\<rparr>"
  let ?code = "\<lambda>c minted expires. \<lparr>code_digest = app_sha256 app minted, code_client_id = client_id c, code_person = session_person x,
          code_session = session_id x, code_redirect_uri = pending_redirect_uri pending, code_scopes = pending_scopes pending,
          code_nonce = pending_nonce pending, code_challenge = pending_code_challenge pending,
          code_authenticated_at = authenticated_at x, code_expires_at = expires\<rparr>"
  have allowed: "allowed_rightly app st ri realm pending x (write_return_location (pending_redirect_uri pending)
      (name_issuer app realm) (pending_state pending) [(''code'', minted)]) st'"
    if "c \<in> set (st_clients st ri)" "may_sign_in c" "client_id c = pending_client_id pending"
      "consented st' ri c (session_person x) (pending_scopes pending)"
      "st_authorization_codes st' = (st_authorization_codes st)(ri := st_authorization_codes st ri @
        [\<lparr>kept_code = ?code c minted expires, spent_at = None, code_family = None, replayed_at = None\<rparr>])" for c minted expires st'
    unfolding allowed_rightly_def
    by (rule exI [of _ c], rule exI [of _ minted], rule exI [of _ "?code c minted expires"]) (use that in simp)
  have rest: "wp (and_then (issue_code app (?grant c)) (\<lambda>location.
       and_then (record_event app ConsentGranted payload) (\<lambda>_. ret location))) Q R u"
    if u: "at_work ri (st\<lparr>st_consents := consents\<rparr>) s u" and c: "c \<in> set (st_clients st ri)" "may_sign_in c"
      "client_id c = pending_client_id pending"
      and agreed: "consented (st\<lparr>st_consents := consents\<rparr>) ri c (session_person x) (pending_scopes pending)" for c consents u payload
    by (rule wp_seq, rule wp_issue_code [OF u], rule wp_seq, erule wp_record_at_work, unfold wp_ret, erule Q)
       (use c agreed R in \<open>auto simp: consented_def intro!: allowed\<close>)
  have later: "at_work ri st s (t\<lparr>tick := k\<rparr>)" for k using at by (simp add: at_work_def)
  have kept: "wp (if requires_consent c then and_then (now app) (\<lambda>granted. on_work (store_add_consent
        \<lparr>consent_person = session_person x, consent_client_id = client_id c, consent_scopes = pending_scopes pending,
         consent_granted_at = granted\<rparr>)) else ret ()) Q' R t"
    if "\<And>consents u. at_work ri (st\<lparr>st_consents := consents\<rparr>) s u \<Longrightarrow>
        consented (st\<lparr>st_consents := consents\<rparr>) ri c (session_person x) (pending_scopes pending) \<Longrightarrow> Q' () u" for c Q'
    using that that [of "st_consents st" t] at
    by (auto simp: consented_def [of st] intro!: wp_add_consent [OF later, where c = c])
  show ?thesis
    unfolding allow_client_def
    by (rule wp_seq, rule wp_read_asking_client [OF at], rule wp_seq, rule kept, rule rest)
       (simp_all add: R at_work_shared [OF at])
qed

text \<open>
  A request that waited at an instant in an enabled realm of that name, answered by its own browser and
  the session it waits for, and gone.
\<close>

definition answered_once ::
    "app \<Rightarrow> state \<Rightarrow> instant \<Rightarrow> instant \<Rightarrow> string \<Rightarrow> uuid \<Rightarrow> bytes \<Rightarrow> session_ticket option \<Rightarrow> consent_decision \<Rightarrow> string \<Rightarrow>
     state \<Rightarrow> bool" where
  "answered_once app st at proven_at realm request secret ticket decision location st' \<longleftrightarrow>
     (\<exists>ri before pending after x.
        (\<exists>r \<in> snd ` set (st_realms st). realm_name r = realm \<and> realm_enabled r \<and> realm_id r = ri) \<and>
        st_pending_authorizations st ri = before @ pending # after \<and>
        pending_id pending = request \<and> at < pending_expires_at pending \<and>
        app_equal app (app_sha256 app secret) (browser_digest pending) \<and> consent_session pending = Some (session_id x) \<and>
        proves_session app st ri proven_at ticket x \<and>
        st_pending_authorizations st' = (st_pending_authorizations st)(ri := before @ after) \<and>
        (case decision of
           Allow_client \<Rightarrow> allowed_rightly app st ri realm pending x location st'
         | Deny_client \<Rightarrow> st_authorization_codes st' = st_authorization_codes st \<and> st_consents st' = st_consents st \<and>
             location = write_return_location (pending_redirect_uri pending) (name_issuer app realm) (pending_state pending)
               [(''error'', oauth_error_name AccessDenied)]))"

lemma find_split:
  "find p xs = Some x \<Longrightarrow> \<exists>before after. xs = before @ x # after \<and> p x \<and> remove_first p xs = before @ after"
proof (induction xs)
  case (Cons y ys)
  show ?case
  proof (cases "p y")
    case False
    with Cons obtain before after where "ys = before @ x # after" "p x" "remove_first p ys = before @ after" by auto
    with False show ?thesis by (intro exI [of _ "y # before"] exI [of _ after]) simp
  qed (use Cons.prems in \<open>auto intro: exI [of _ "[]"] exI [of _ ys]\<close>)
qed simp

lemma wp_begin_at_work:
  assumes "\<And>t. at_work (scope_realm scope) (shared s) s t \<Longrightarrow> tick t = tick s \<Longrightarrow> wp (f ()) Q R t" and "\<And>e. R e s"
  shows "wp (and_then (begin_work scope) f) Q R s"
  using assms(2) assms(1) [of "s\<lparr>opened := Some \<lparr>uow_scope = scope, working = shared s, failed = False, read_only = False\<rparr>\<rparr>"]
  by (simp add: begin_work_def at_work_def uow_realm_def split: option.split)

text \<open>The unit of work out of which a request that waited was taken.\<close>

abbreviation without_request :: "uuid \<Rightarrow> instant \<Rightarrow> uuid \<Rightarrow> state \<Rightarrow> state" where
  "without_request request at ri st \<equiv> st\<lparr>st_pending_authorizations := (st_pending_authorizations st)(ri :=
      remove_first (waits request at) (st_pending_authorizations st ri))\<rparr>"

lemma wp_decided:
  assumes taken: "at_work (realm_id r) (without_request request at (realm_id r) (shared s)) s u"
    and found: "find (waits request at) (st_pending_authorizations (shared s) (realm_id r)) = Some pending"
    and browser: "app_equal app (app_sha256 app secret) (browser_digest pending)" "consent_session pending = Some (session_id x)"
    and proven: "proves_session app (without_request request at (realm_id r) (shared s)) (realm_id r) proven_at ticket x"
    and r: "r \<in> snd ` set (st_realms (shared s))" "realm_name r = realm" "realm_enabled r"
  shows "wp (and_then (case decision of
         Allow_client \<Rightarrow> allow_client app realm pending x
       | Deny_client \<Rightarrow> ret (write_return_location (pending_redirect_uri pending) (name_issuer app realm)
           (pending_state pending) [(''error'', oauth_error_name AccessDenied)])) (\<lambda>location.
       and_then commit (\<lambda>_. ret location)))
     (\<lambda>location t. answered_once app (shared s) at proven_at realm request secret ticket decision location (shared t))
     (\<lambda>_ t. shared t = shared s) u"
    (is "wp _ ?Q ?R u")
proof -
  let ?taken = "without_request request at (realm_id r) (shared s)"
  from find_split [OF found] obtain before after where
    row: "st_pending_authorizations (shared s) (realm_id r) = before @ pending # after"
      "pending_id pending = request" "at < pending_expires_at pending"
      "remove_first (waits request at) (st_pending_authorizations (shared s) (realm_id r)) = before @ after"
    by (auto simp: waits_def)
  have x: "proves_session app (shared s) (realm_id r) proven_at ticket x"
    using proven by (simp add: proves_session_def holds_code_def holds_key_def)
  have allowed: "allowed_rightly app ?taken (realm_id r) realm pending x location st' =
      allowed_rightly app (shared s) (realm_id r) realm pending x location st'" for location st'
    by (simp add: allowed_rightly_def)
  have once: "answered_once app (shared s) at proven_at realm request secret ticket decision location st'"
    if "st_pending_authorizations st' = st_pending_authorizations ?taken"
      "case decision of Allow_client \<Rightarrow> allowed_rightly app (shared s) (realm_id r) realm pending x location st'
       | Deny_client \<Rightarrow> st_authorization_codes st' = st_authorization_codes (shared s) \<and> st_consents st' = st_consents (shared s) \<and>
           location = write_return_location (pending_redirect_uri pending) (name_issuer app realm) (pending_state pending)
             [(''error'', oauth_error_name AccessDenied)]" for location st'
    unfolding answered_once_def
    by (rule exI [of _ "realm_id r"], rule exI [of _ before], rule exI [of _ pending], rule exI [of _ after], rule exI [of _ x])
       (use that row browser x r in \<open>auto simp: fun_eq_iff\<close>)
  show ?thesis
  proof (cases decision)
    case Allow_client
    show ?thesis
      unfolding Allow_client consent_decision.case
      by (rule wp_seq, rule wp_allow_client [OF taken], rule wp_seq, erule wp_commit_at_work)
         (use once allowed Allow_client in simp_all)
  next
    case Deny_client
    show ?thesis
      unfolding Deny_client consent_decision.case
      by (rule wp_seq, unfold wp_ret, rule wp_seq, rule wp_commit_at_work [OF taken])
         (use once Deny_client in simp_all)
  qed
qed

lemma wp_answer_consent:
  "wp (answer_consent app realm request secret ticket decision)
     (\<lambda>location t. answered_once app (shared s) (app_clock app (tick s) div 1000 * 1000)
        (app_clock app (tick s + 1) div 1000 * 1000) realm request secret ticket decision location (shared t))
     (\<lambda>_ t. shared t = shared s) s"
  (is "wp _ ?Q ?R s")
proof -
  let ?at = "app_clock app (tick s) div 1000 * 1000" and ?proven_at = "app_clock app (tick s + 1) div 1000 * 1000"
  have decided: "\<lbrakk>at_work (realm_id r) (without_request request at (realm_id r) (shared s)) s u;
      find (waits request at) (st_pending_authorizations (shared s) (realm_id r)) = Some pending;
      app_equal app (app_sha256 app secret) (browser_digest pending); consent_session pending = Some (session_id x);
      proves_session app (without_request request at (realm_id r) (shared s)) (realm_id r) proven_at ticket x;
      r \<in> snd ` set (st_realms (shared s)); realm_name r = realm; realm_enabled r; at = ?at; proven_at = ?proven_at\<rbrakk> \<Longrightarrow>
    wp (and_then (case decision of
         Allow_client \<Rightarrow> allow_client app realm pending x
       | Deny_client \<Rightarrow> ret (write_return_location (pending_redirect_uri pending) (name_issuer app realm)
           (pending_state pending) [(''error'', oauth_error_name AccessDenied)])) (\<lambda>location.
       and_then commit (\<lambda>_. ret location))) ?Q ?R u" for r at proven_at pending x u
    using wp_decided by blast
  have later: "at_work ri st s t \<Longrightarrow> at_work ri st s (t\<lparr>tick := k\<rparr>)" for ri st t k by (simp add: at_work_def)
  have rest: "wp (and_then (begin_work \<lparr>scope_tenant = realm_tenant r, scope_realm = realm_id r\<rparr>) (\<lambda>_.
     and_then (now app) (\<lambda>at.
     and_then (on_work (store_take_pending_authorization request at)) (\<lambda>taken.
     and_then (check_waiting_consent app taken secret presented) (\<lambda>(pending, x).
     and_then (case decision of
         Allow_client \<Rightarrow> allow_client app realm pending x
       | Deny_client \<Rightarrow> ret (write_return_location (pending_redirect_uri pending) (name_issuer app realm)
           (pending_state pending) [(''error'', oauth_error_name AccessDenied)])) (\<lambda>location.
     and_then commit (\<lambda>_. ret location))))))) ?Q ?R s"
    if "ticket = Some presented" "r \<in> snd ` set (st_realms (shared s))" "realm_name r = realm" "realm_enabled r" for r presented
    by (rule wp_begin_at_work, unfold realm_scope.simps, rule wp_seq, unfold wp_now, rule wp_seq, rule wp_take_pending, erule later,
        rule wp_seq, erule wp_check_waiting_consent, unfold prod.case, rule decided [of r])
       (use that in simp_all)
  show ?thesis
    unfolding answer_consent_def
  proof (rule wp_lift_then, rule wp_seq, rule wp_mono [OF wp_resolve_realm], goal_cases)
    case (1 presented found t)
    then show ?case using rest by (cases found) (auto simp: ok_or_def split: option.splits)
  qed simp_all
qed

text \<open>
  C8: a request is answered once, by the browser and the session it waits for. An answer that is
  refused leaves everything as it was. One that is taken was given in an enabled realm of that name, for a request of
  that realm that had not expired when the answer came, from the browser that started it and in the
  session it was left to, which stood then; the request is gone with it. A client that is denied is
  told so at the address of the request, and no code is issued and no consent kept; a client that
  is allowed gets a code for what the request asked and no more, while it is still enabled, and the
  consent is kept where the client has to ask.
\<close>

theorem consent_is_answered_once:
  "case answer_consent app realm request secret ticket decision s of
     (Inl e, t) \<Rightarrow> shared t = shared s
   | (Inr location, t) \<Rightarrow> answered_once app (shared s) (app_clock app (tick s) div 1000 * 1000)
       (app_clock app (tick s + 1) div 1000 * 1000) realm request secret ticket decision location (shared t)"
  using wp_answer_consent [of app realm request secret ticket decision s]
  by (auto simp: wp_def split: prod.splits sum.splits)

subsection \<open>Who signs in\<close>

text \<open>Nothing is committed but what the brake counts.\<close>

definition only_counted :: "ctx \<Rightarrow> ctx \<Rightarrow> bool" where
  "only_counted s t \<longleftrightarrow> (\<exists>failures. shared t = (shared s)\<lparr>st_login_failures := failures\<rparr>)"

lemma only_counted_same: "shared t = shared s \<Longrightarrow> only_counted s t"
  unfolding only_counted_def by (rule exI [of _ "st_login_failures (shared s)"]) simp

lemma only_counted_trans: "only_counted s t \<Longrightarrow> only_counted t u \<Longrightarrow> only_counted s u"
  by (auto simp: only_counted_def)

lemma only_counted_idle: "only_counted s t \<Longrightarrow> idle t u \<Longrightarrow> only_counted s u"
  by (simp add: only_counted_def idle_def)

lemma wp_record_at:
  assumes "at_work ri (st\<lparr>st_login_failures := failures\<rparr>) s t"
    and "\<And>failures u. at_work ri (st\<lparr>st_login_failures := failures\<rparr>) s u \<Longrightarrow> Q () u"
  shows "wp (on_work (store_record_login_failure counter bucket)) Q R t"
proof -
  obtain w where w: "opened t = Some w" "working w = st\<lparr>st_login_failures := failures\<rparr>" "uow_realm w = ri" "\<not> failed w"
      "\<not> read_only w" "shared t = shared s"
    using assms(1) by (auto simp: at_work_def)
  have "at_work ri (st\<lparr>st_login_failures := counted\<rparr>) s
      (t\<lparr>opened := Some (w\<lparr>working := st\<lparr>st_login_failures := counted\<rparr>\<rparr>)\<rparr>)" for counted
    using w by (simp add: at_work_def uow_realm_def)
  from assms(2) [OF this] show ?thesis using w by (simp add: wp_on_work store_record_login_failure_def)
qed

lemma wp_counting:
  assumes "at_work ri (st\<lparr>st_login_failures := failures\<rparr>) s t"
    and "\<And>failures u. at_work ri (st\<lparr>st_login_failures := failures\<rparr>) s u \<Longrightarrow> Q () u" and "\<And>e u. shared u = shared s \<Longrightarrow> R e u"
  shows "wp (admit b at) Q R t" "wp (record_failure b at) Q R t"
proof -
  obtain w where w: "opened t = Some w" "shared t = shared s" using assms(1) by (auto simp: at_work_def)
  show "wp (admit b at) Q R t"
    unfolding admit_def store_count_login_failures_def
    using assms(2) [OF assms(1)]
    by (auto simp: wp_on_work_reading [OF w(1)] w(2) intro!: assms(3) wp_record_at [OF assms(1)] assms(2) split: option.split)
  show "wp (record_failure b at) Q R t"
    unfolding record_failure_def Let_def
    by (rule wp_seq, rule wp_record_at [OF assms(1)])
       (auto intro!: wp_record_at assms(2) split: option.split)
qed

lemma writes_nothing_brake:
  "writes_nothing (is_name_locked b at)" "writes_nothing (find_known_browser proven p at)"
  unfolding is_name_locked_def find_known_browser_def store_count_login_failures_def store_read_live_browsers_def Let_def
  by (auto intro!: idle_intro split: option.split)

lemma wp_reading_at_work:
  "at_work ri st s t \<Longrightarrow> (\<And>w. working w = st \<Longrightarrow> uow_realm w = ri \<Longrightarrow> Q (f w) t) \<Longrightarrow> wp (on_work (reading f)) Q R t"
  by (auto simp: at_work_def wp_on_work_reading)

lemma wp_idle_at_work:
  assumes "writes_nothing m" and "at_work ri st s t" and "\<And>x u. at_work ri st s u \<Longrightarrow> Q x u"
    and "\<And>e u. shared u = shared s \<Longrightarrow> R e u"
  shows "wp m Q R t"
  by (rule wp_writes_nothing [OF assms(1)])
     (use assms(2) in \<open>auto simp: idle_def at_work_shared intro!: assms(3,4) at_work_idle [OF assms(2)]\<close>)

text \<open>What is known of an attempt: the person of the name typed, unless it is locked, and the hash kept.\<close>

definition attempt_known :: "state \<Rightarrow> uuid \<Rightarrow> string option \<Rightarrow> person option \<times> bool \<times> string option \<times> brake \<Rightarrow> bool" where
  "attempt_known st ri username attempt \<longleftrightarrow>
     (case attempt of (p, locked, stored, _) \<Rightarrow>
        \<forall>who. p = Some who \<longrightarrow> who \<in> set (st_persons st ri) \<and> username = Some (person_username who) \<and>
          stored = st_passwords st (person_id who))"

text \<open>Nothing is drawn and no decoy made while an attempt is read.\<close>

abbreviation undrawn :: "nat \<Rightarrow> string option \<Rightarrow> ctx \<Rightarrow> bool" where
  "undrawn d hidden t \<equiv> drawn t = d \<and> decoy t = hidden"

lemma undrawn_intro:
  "keeps (undrawn d hidden) (ret x)" "keeps (undrawn d hidden) (lift_result r)" "keeps (undrawn d hidden) (on_work m)"
  "keeps (undrawn d hidden) (begin_work scope)" "keeps (undrawn d hidden) commit" "keeps (undrawn d hidden) (ensure c e)"
  by (auto simp: keeps_wp wp_on_work wp_commit begin_work_def split: option.split sum.split)
     (auto simp: wp_def split: prod.split sum.split)

lemma keeps_read_attempt: "keeps (undrawn d hidden) (read_attempt app scope typed username proven b at)"
  unfolding read_attempt_def find_known_browser_def admit_def is_name_locked_def Let_def
  by (auto intro!: keeps_and_then undrawn_intro split: option.split prod.split if_split)

lemma wp_read_attempt:
  assumes "\<And>attempt u. only_counted s u \<Longrightarrow> undrawn (drawn s) (decoy s) u \<Longrightarrow>
      attempt_known (shared s) (scope_realm scope) username attempt \<Longrightarrow> Q attempt u"
    and "\<And>e u. shared u = shared s \<Longrightarrow> R e u"
  shows "wp (read_attempt app scope typed username proven b at) Q R s"
proof -
  let ?ri = "scope_realm scope" and ?st = "shared s" and ?Q = "\<lambda>attempt u. only_counted s u \<and> attempt_known (shared s) (scope_realm scope) username attempt"
    and ?R = "\<lambda>_ u. shared u = shared s"
  let ?counted = "\<lambda>failures. ?st\<lparr>st_login_failures := failures\<rparr>"
  have named: "wp (case username of None \<Rightarrow> ret None | Some name \<Rightarrow> on_work (store_read_person_by_username name)) Q' ?R t"
    if "at_work ?ri ?st s t" "\<And>found. (\<And>p. found = Some p \<Longrightarrow> p \<in> set (st_persons ?st ?ri) \<and> username = Some (person_username p)) \<Longrightarrow> Q' found t" for Q' t
    unfolding store_read_person_by_username_def
    by (auto intro!: wp_reading_at_work [OF that(1)] that(2) split: option.split dest!: find_found)
  have stored: "wp (on_work (store_read_password (case p of None \<Rightarrow> 0 | Some who \<Rightarrow> person_id who))) Q' ?R t"
    if "at_work ?ri (?counted failures) s t"
      "\<And>hash. attempt_known ?st ?ri username (p, locked, hash, b') \<Longrightarrow> Q' hash t"
      "\<And>who. p = Some who \<Longrightarrow> who \<in> set (st_persons ?st ?ri) \<and> username = Some (person_username who)"
    for p locked b' t Q' failures
    unfolding store_read_password_def
    by (rule wp_reading_at_work [OF that(1)], rule that(2)) (use that(3) in \<open>auto simp: attempt_known_def list_ex_iff\<close>)
  have marked: "writes_nothing (case device of None \<Rightarrow> ret b | Some d \<Rightarrow> lift_result (count_browser_apart app scope typed d b))"
    for device by (simp split: option.split)
  have start: "?counted (st_login_failures ?st) = ?st" by simp
  have "wp (read_attempt app scope typed username proven b at) ?Q ?R s"
    unfolding read_attempt_def Let_def
    by (rule wp_begin_at_work, rule wp_seq, rule named, assumption, rule wp_seq, rule wp_idle_at_work [OF writes_nothing_brake(2)],
        assumption, rule wp_seq, rule wp_idle_at_work [OF marked], assumption, rule wp_seq,
        rule wp_counting(1) [where st = ?st and failures = "st_login_failures ?st" and s = s and ri = ?ri], unfold start, assumption,
        rule wp_seq, rule wp_idle_at_work [OF writes_nothing_brake(1)], assumption, rule wp_seq, rule stored, assumption,
        rule wp_seq, erule wp_commit_at_work, unfold wp_ret, rule conjI)
       (auto simp: only_counted_def split: if_splits)
  moreover have "wp (read_attempt app scope typed username proven b at)
      (\<lambda>_. undrawn (drawn s) (decoy s)) (\<lambda>_. undrawn (drawn s) (decoy s)) s"
    using keeps_read_attempt [of "drawn s" "decoy s"] by (simp add: keeps_wp)
  ultimately show ?thesis
    by (rule wp_mono [OF wp_conj]) (auto intro: assms)
qed

text \<open>
  The hash a password is verified against: the one kept for the person or, where none is kept, the decoy of the
  process, made of bytes drawn for it when there is none yet.
\<close>

definition hash_compared :: "app \<Rightarrow> ctx \<Rightarrow> person \<Rightarrow> string \<Rightarrow> bool" where
  "hash_compared app s p hash \<longleftrightarrow>
     (case st_passwords (shared s) (person_id p) of
        Some kept \<Rightarrow> hash = kept
      | None \<Rightarrow>
          (case decoy s of
             Some other \<Rightarrow> hash = other
           | None \<Rightarrow> \<exists>unknown. app_random app (drawn s) 32 = Some unknown \<and>
               app_hash_password app (drawn s + 1) (app_base64_encode app unknown) = Ok hash))"

text \<open>A password is proven for the enabled person of the realm the name typed names.\<close>

definition password_proven :: "app \<Rightarrow> ctx \<Rightarrow> uuid \<Rightarrow> string \<Rightarrow> bytes \<Rightarrow> person \<Rightarrow> bool" where
  "password_proven app s ri typed_name password p \<longleftrightarrow> p \<in> set (st_persons (shared s) ri) \<and> person_enabled p \<and>
     normalize_username typed_name = Ok (person_username p) \<and>
     (\<exists>n hash. app_verify_password app n password hash = Ok True \<and> hash_compared app s p hash)"

lemma wp_verified:
  assumes "\<And>verified u. idle s u \<Longrightarrow> (verified \<Longrightarrow> \<exists>n. app_verify_password app n password against = Ok True) \<Longrightarrow> Q verified u"
    and "\<And>e u. idle s u \<Longrightarrow> R e u"
  shows "wp (holding_hasher app realm network (verify_password app password against)) Q R s"
proof -
  have "idle s (s\<lparr>hashing := h, drawn := d, hashing := h'\<rparr>)" "idle s s" for h h' d by (simp_all add: idle_def)
  then show ?thesis
    by (auto simp: wp_def holding_hasher_def verify_password_def drawing_def intro!: assms split: option.split sum.split)
       (cases "app_verify_password app (drawn s) password against"; auto)
qed

lemma writes_nothing_decoy: "writes_nothing (read_decoy_hash app)"
proof -
  have "writes_nothing (\<lambda>t. case decoy t of Some other \<Rightarrow> (Ok other, t) | None \<Rightarrow> (Ok hash, t\<lparr>decoy := Some hash\<rparr>))" for hash
    by (simp add: writes_nothing_def idle_def split: option.split)
  then have "writes_nothing (and_then (fill_random app 32) (\<lambda>unknown.
      and_then (hash_password app (app_base64_encode app unknown)) (\<lambda>hash t.
        case decoy t of Some other \<Rightarrow> (Ok other, t) | None \<Rightarrow> (Ok hash, t\<lparr>decoy := Some hash\<rparr>))))"
    by (intro idle_intro)
  then show ?thesis by (simp add: writes_nothing_def read_decoy_hash_def split: option.split)
qed

lemma wp_read_decoy:
  assumes "\<And>hash u. idle t u \<Longrightarrow> (case decoy t of Some other \<Rightarrow> hash = other
      | None \<Rightarrow> \<exists>unknown. app_random app (drawn t) 32 = Some unknown \<and>
          app_hash_password app (drawn t + 1) (app_base64_encode app unknown) = Ok hash) \<Longrightarrow> Q hash u"
    and "\<And>e u. idle t u \<Longrightarrow> R e u"
  shows "wp (read_decoy_hash app) Q R t"
proof -
  have hashed: "map_sum f id answer = Ok x \<longleftrightarrow> answer = Ok x" for f answer and x :: string
    by (cases answer) simp_all
  have "idle t (t\<lparr>drawn := d\<rparr>)" "idle t (t\<lparr>drawn := d, decoy := k\<rparr>)" for d k by (simp_all add: idle_def)
  then show ?thesis
    using assms
    by (cases "decoy t"; cases "app_random app (drawn t) 32")
       (auto simp: wp_def read_decoy_hash_def and_then_def fill_random_def hash_password_def drawing_def ok_or_def hashed
        split: sum.splits prod.splits)
qed

lemma wp_judged:
  assumes "only_counted s t" and "undrawn (drawn s) (decoy s) t" and "attempt_known (shared s) ri username (p, False, stored, b)"
    and "username = (case normalize_username typed_name of Err _ \<Rightarrow> None | Ok name \<Rightarrow> Some name)"
    and "\<And>who u. only_counted s u \<Longrightarrow> password_proven app s ri typed_name password who \<Longrightarrow> p = Some who \<Longrightarrow>
        Q \<lparr>proven_person = who, proven_typed = typed, proven_brake = b\<rparr> u"
    and "\<And>e u. only_counted s u \<Longrightarrow> R e u"
  shows "wp (and_then (case stored of Some hash \<Rightarrow> ret hash | None \<Rightarrow> read_decoy_hash app) (\<lambda>against.
      and_then (holding_hasher app realm network (verify_password app password against)) (\<lambda>verified.
      case filter_option (\<lambda>who. verified \<and> person_enabled who) p of
        Some who \<Rightarrow> ret \<lparr>proven_person = who, proven_typed = typed, proven_brake = b\<rparr>
      | None \<Rightarrow>
          and_then (begin_work scope) (\<lambda>_.
          and_then (record_failure b at) (\<lambda>_.
          and_then commit (\<lambda>_.
          throw (new_failure SignInFailed))))))) Q R t"
proof -
  have failed: "wp (and_then (begin_work scope) (\<lambda>_. and_then (record_failure b at) (\<lambda>_. and_then commit (\<lambda>_.
      throw (new_failure SignInFailed))))) Q R u" if u: "only_counted s u" for u
  proof -
    have start: "(shared u)\<lparr>st_login_failures := st_login_failures (shared u)\<rparr> = shared u" by simp
    have counted: "shared v = (shared u)\<lparr>st_login_failures := f\<rparr> \<Longrightarrow> only_counted s v" for v f
      using u by (auto simp: only_counted_def)
    show ?thesis
      by (rule wp_begin_at_work, rule wp_seq,
          rule wp_counting(2) [where st = "shared u" and failures = "st_login_failures (shared u)"], unfold start, assumption,
          rule wp_seq, erule wp_commit_at_work)
         (use counted only_counted_trans [OF u only_counted_same] u in \<open>auto intro: assms(6)\<close>)
  qed
  have judged: "wp (and_then (holding_hasher app realm network (verify_password app password against)) (\<lambda>verified.
      case filter_option (\<lambda>who. verified \<and> person_enabled who) p of
        Some who \<Rightarrow> ret \<lparr>proven_person = who, proven_typed = typed, proven_brake = b\<rparr>
      | None \<Rightarrow>
          and_then (begin_work scope) (\<lambda>_. and_then (record_failure b at) (\<lambda>_. and_then commit (\<lambda>_.
          throw (new_failure SignInFailed)))))) Q R u"
    if "only_counted s u" and against: "\<And>who. p = Some who \<Longrightarrow> hash_compared app s who against" for against u
  proof (rule wp_seq, rule wp_verified)
    fix verified v
    assume "idle u v" and proven: "verified \<Longrightarrow> \<exists>n. app_verify_password app n password against = Ok True"
    then have v: "only_counted s v" using that(1) by (blast intro: only_counted_idle)
    have "password_proven app s ri typed_name password who" if "p = Some who" "verified" "person_enabled who" for who
      using proven that against assms(3,4) by (auto simp: password_proven_def attempt_known_def split: sum.splits)
    then show "wp (case filter_option (\<lambda>who. verified \<and> person_enabled who) p of
        Some who \<Rightarrow> ret \<lparr>proven_person = who, proven_typed = typed, proven_brake = b\<rparr>
      | None \<Rightarrow>
          and_then (begin_work scope) (\<lambda>_. and_then (record_failure b at) (\<lambda>_. and_then commit (\<lambda>_.
          throw (new_failure SignInFailed))))) Q R v"
      using failed [OF v] assms(5) [OF v] by (simp add: filter_option_eq_Some del: wp_and_then split: option.split)
  qed (use that in \<open>auto intro: assms(6) only_counted_idle\<close>)
  show ?thesis
  proof (cases stored)
    case None
    have "wp (read_decoy_hash app) (\<lambda>against u. idle t u \<and> (\<forall>who. p = Some who \<longrightarrow> hash_compared app s who against))
        (\<lambda>_ u. idle t u) t"
      by (rule wp_read_decoy) (use None assms(2,3) in \<open>auto simp: hash_compared_def attempt_known_def split: option.split\<close>)
    then show ?thesis
      unfolding None option.case
      by (intro wp_seq, elim wp_mono) (auto intro!: judged assms(6) only_counted_idle [OF assms(1)] simp del: wp_and_then)
  next
    case (Some hash)
    then have "st_passwords (shared s) (person_id who) = Some hash" if "p = Some who" for who
      using assms(3) that by (simp add: attempt_known_def)
    then have "hash_compared app s who hash" if "p = Some who" for who
      using that by (simp add: hash_compared_def)
    from judged [OF assms(1) this] Some show ?thesis by simp
  qed
qed

lemma wp_verify_name_and_password:
  assumes "\<And>proven u. only_counted s u \<Longrightarrow> password_proven app s (scope_realm scope) typed_name password (proven_person proven) \<Longrightarrow> Q proven u"
    and "\<And>e u. only_counted s u \<Longrightarrow> R e u"
  shows "wp (verify_name_and_password app scope typed_name password caller browsers) Q R s"
proof -
  have same: "shared u = shared s \<Longrightarrow> R e u" for e u by (intro assms(2) only_counted_same)
  have refused: "R e s" for e by (rule same) (rule refl)
  let ?username = "case normalize_username typed_name of Err _ \<Rightarrow> None | Ok name \<Rightarrow> Some name"
  let ?judging = "\<lambda>typed network at (p, locked, stored, b).
            and_then (ensure (\<not> locked) (new_failure SignInFailed)) (\<lambda>_.
            and_then (case stored of Some hash \<Rightarrow> ret hash | None \<Rightarrow> read_decoy_hash app) (\<lambda>against.
            and_then (holding_hasher app (scope_realm scope) network (verify_password app password against)) (\<lambda>verified.
            case filter_option (\<lambda>who. verified \<and> person_enabled who) p of
              Some who \<Rightarrow> ret \<lparr>proven_person = who, proven_typed = typed, proven_brake = b\<rparr>
            | None \<Rightarrow>
                and_then (begin_work scope) (\<lambda>_.
                and_then (record_failure b at) (\<lambda>_.
                and_then commit (\<lambda>_.
                throw (new_failure SignInFailed)))))))"
  have judged: "wp (?judging typed network at attempt) Q R u"
    if "only_counted s u" "undrawn (drawn s) (decoy s) u" "attempt_known (shared s) (scope_realm scope) ?username attempt"
    for typed network at attempt u
  proof -
    obtain p locked stored b where attempt: "attempt = (p, locked, stored, b)" by (cases attempt)
    show ?thesis
      unfolding attempt prod.case
      by (rule wp_ensure_then, rule wp_judged [OF that(1,2) _ refl])
         (use that attempt in \<open>auto intro: assms\<close>)
  qed
  have timed: "wp (and_then (now app) (\<lambda>at.
      and_then (lift_result (prove_device_marks app scope browsers typed at)) (\<lambda>proven.
      and_then (read_attempt app scope typed ?username proven b at) (?judging typed network at)))) Q R s" for typed b network
  proof -
    have "wp (and_then (read_attempt app scope typed ?username proven b at) (?judging typed network at)) Q R (s\<lparr>tick := k\<rparr>)"
      for at proven k
    proof (rule wp_seq, rule wp_read_attempt)
      fix attempt u
      assume "only_counted (s\<lparr>tick := k\<rparr>) u" "undrawn (drawn (s\<lparr>tick := k\<rparr>)) (decoy (s\<lparr>tick := k\<rparr>)) u"
        "attempt_known (shared (s\<lparr>tick := k\<rparr>)) (scope_realm scope) ?username attempt"
      then show "wp (?judging typed network at attempt) Q R u" by (intro judged) (simp_all add: only_counted_def)
    qed (simp add: same)
    then show ?thesis
      by (simp del: wp_and_then add: wp_and_then [of "now app"]) (rule wp_lift_then; simp add: same)
  qed
  show ?thesis
    unfolding verify_name_and_password_def Let_def
    using timed refused
    by (auto simp del: wp_and_then intro!: wp_lift_then) (auto simp: wp_def refused split: if_splits)
qed

text \<open>A unit of work that has changed no session yet.\<close>

definition prepared :: "uuid \<Rightarrow> ctx \<Rightarrow> ctx \<Rightarrow> bool" where
  "prepared ri s t \<longleftrightarrow> (\<exists>st. at_work ri st s t \<and> st_sessions st = st_sessions (shared s))"

lemma prepared_fresh: "fresh_on ri s t \<Longrightarrow> prepared ri s t"
  unfolding prepared_def by blast

lemma prepared_idle: "prepared ri s t \<Longrightarrow> idle t u \<Longrightarrow> prepared ri s u"
  unfolding prepared_def using at_work_idle by blast

lemma prepared_shared: "prepared ri s t \<Longrightarrow> shared t = shared s"
  by (auto simp: prepared_def at_work_def)

lemma wp_prepared:
  assumes "prepared ri s t" and "\<And>u. prepared ri s u \<Longrightarrow> Q () u"
  shows "wp (on_work (store_forget_login_failures digest)) Q R t" "wp (on_work (store_remember_browser browser most)) Q R t"
  using assms unfolding prepared_def at_work_def
  by (auto simp: wp_on_work store_forget_login_failures_def store_remember_browser_def uow_realm_def Let_def
      intro!: assms(2) [unfolded prepared_def at_work_def])

definition session_opened :: "app \<Rightarrow> uuid \<Rightarrow> state \<Rightarrow> person \<Rightarrow> authentication_method list \<Rightarrow> signed_in \<Rightarrow> state \<Rightarrow> bool" where
  "session_opened app ri st p methods done st' \<longleftrightarrow>
     (\<exists>x. session_id x = signed_in_session done \<and> session_person x = person_id p \<and> session_methods x = methods \<and>
        session_state x = Session_active \<and> ticket_session (signed_in_ticket done) = session_id x \<and>
        session_secret_digest x = app_sha256 app (ticket_secret (signed_in_ticket done)) \<and>
        st_sessions st' = (st_sessions st)(ri := st_sessions st ri @ [x]))"

lemma wp_open_session:
  assumes "prepared ri s t"
    and "\<And>x ticket st u. \<lbrakk>at_work ri st s u; st_sessions st = (st_sessions (shared s))(ri := st_sessions (shared s) ri @ [x]);
        session_person x = p; session_methods x = methods; session_state x = Session_active;
        ticket_session ticket = session_id x; session_secret_digest x = app_sha256 app (ticket_secret ticket)\<rbrakk> \<Longrightarrow> Q (x, ticket) u"
    and "\<And>e u. shared u = shared s \<Longrightarrow> R e u"
  shows "wp (open_session app p methods) Q R t"
proof -
  have same: "shared t = shared s" using assms(1) by (rule prepared_shared)
  obtain w where w: "opened t = Some w" "st_sessions (working w) = st_sessions (shared s)" "uow_realm w = ri" "\<not> failed w" "\<not> read_only w"
    using assms(1) by (auto simp: prepared_def at_work_def)
  show ?thesis
    unfolding open_session_def store_insert_session_def Let_def
    using w same
    by (auto simp: wp_mint_id_eq wp_on_work at_work_def uow_realm_def intro!: assms(2,3) split: option.split)
qed

lemma writes_nothing_issue_mark: "writes_nothing (issue_device_mark app scope typed given)"
  unfolding issue_device_mark_def Let_def by (auto intro!: idle_intro split: option.split)

lemma wp_open_session_for:
  assumes "\<And>done u. signed_in_person done = p \<Longrightarrow> session_opened app (scope_realm scope) (shared s) p methods done (shared u) \<Longrightarrow> Q done u"
    and "\<And>e u. shared u = shared s \<Longrightarrow> R e u"
  shows "wp (open_session_for app scope p typed b methods) Q R s"
proof -
  let ?ri = "scope_realm scope"
  have forgotten: "wp (forget_browser_failures b) Q' R t" if "prepared ?ri s t" "\<And>u. prepared ?ri s u \<Longrightarrow> Q' () u" for t Q'
    unfolding forget_browser_failures_def
    by (auto intro!: that wp_prepared(1) [where ri = ?ri and s = s] split: option.split)
  have idle: "wp (issue_device_mark app scope typed given) Q' R t" if "prepared ?ri s t" "\<And>x u. prepared ?ri s u \<Longrightarrow> Q' x u" for t Q' given
    by (rule wp_writes_nothing [OF writes_nothing_issue_mark])
       (use that(1) in \<open>auto intro!: that(2) assms(2) intro: prepared_idle simp: idle_same(1) prepared_shared\<close>)
  show ?thesis
    unfolding open_session_for_def
    by (rule wp_begin_at_work, rule wp_seq, rule forgotten, erule prepared_fresh, rule wp_seq, rule idle, assumption,
        rule wp_lift_then, rule wp_seq, rule wp_prepared(2), assumption, rule wp_seq, rule wp_open_session, assumption,
        unfold prod.case, rule wp_seq, rule wp_record_at_work, assumption, rule wp_seq, erule wp_commit_at_work, unfold wp_ret,
        rule assms(1))
       (auto simp: session_opened_def intro: assms(2) dest: prepared_shared)
qed

lemma wp_start_key_proof:
  assumes "at_work ri st s t"
    and "\<And>u. at_work ri st s u \<Longrightarrow> \<not> holds_key st ri p \<Longrightarrow> Q No_key_held u"
    and "\<And>u. at_work ri st s u \<Longrightarrow> holds_key st ri p \<Longrightarrow> \<not> app_keys_served app \<Longrightarrow> Q Keys_not_served u"
    and "\<And>ceremony u. at_work ri st s u \<Longrightarrow> holds_key st ri p \<Longrightarrow> app_keys_served app \<Longrightarrow> Q (Proof_started ceremony) u"
    and "\<And>e u. shared u = shared s \<Longrightarrow> R e u"
  shows "wp (start_key_proof app p) Q R t"
proof -
  obtain w where w: "opened t = Some w" "working w = st" "uow_realm w = ri" using assms(1) by (auto simp: at_work_def)
  let ?held = "sort_key (\<lambda>k. (key_created_at k, key_credential_id k)) (filter (\<lambda>k. key_person k = p) (st_security_keys st ri))"
  have begun: "wp (and_then (drawing port) (\<lambda>ceremony. ret (Proof_started ceremony))) Q R t"
    if "holds_key st ri p" "app_keys_served app" for port
    by (rule wp_idle_then [OF writes_nothing_drawing idle_refl])
       (use at_work_shared [OF assms(1)] that in \<open>auto intro!: assms(4,5) at_work_idle [OF assms(1)] simp: idle_same(1)\<close>)
  show ?thesis
  proof (cases "?held = []")
    case True
    then have "set ?held = {}" by (simp only: set_empty)
    then have "\<not> holds_key st ri p" by (auto simp: holds_key_def)
    from assms(2) [OF assms(1) this] True show ?thesis
      by (simp add: start_key_proof_def store_list_security_keys_def wp_on_work_reading [OF w(1)] w)
  next
    case False
    then have "hd ?held \<in> set ?held" by (rule hd_in_set)
    then have key: "holds_key st ri p" unfolding holds_key_def by (auto intro: rev_image_eqI)
    with False show ?thesis
      using assms(3) [OF assms(1) key] begun [OF key]
      by (simp add: start_key_proof_def store_list_security_keys_def wp_on_work_reading [OF w(1)] w Let_def del: wp_and_then
          add: wp_and_then [of "on_work m" for m])
  qed
qed

text \<open>
  What a person is asked for: a code where they hold an application that gives them, a key where they hold one and
  the deployment serves them, and at least one of the two.
\<close>

definition asks_factors :: "app \<Rightarrow> state \<Rightarrow> uuid \<Rightarrow> second_factor \<Rightarrow> bool" where
  "asks_factors app st ri owed \<longleftrightarrow>
     (owes_code owed \<longleftrightarrow> holds_code st ri (person_id (owing_person owed))) \<and>
     (owed_key owed \<noteq> None \<longleftrightarrow> holds_key st ri (person_id (owing_person owed)) \<and> app_keys_served app) \<and>
     (owes_code owed \<or> owed_key owed \<noteq> None)"

lemma wp_sign_in_with_password:
  "wp (sign_in_with_password app scope typed_name password caller browsers)
     (\<lambda>step t. case step of
        Signed_in done \<Rightarrow> password_proven app s (scope_realm scope) typed_name password (signed_in_person done) \<and>
          \<not> holds_code (shared s) (scope_realm scope) (person_id (signed_in_person done)) \<and>
          \<not> holds_key (shared s) (scope_realm scope) (person_id (signed_in_person done)) \<and>
          session_opened app (scope_realm scope) (shared s) (signed_in_person done) [Password_method] done (shared t)
      | Second_factor_required owed \<Rightarrow> password_proven app s (scope_realm scope) typed_name password (owing_person owed) \<and>
          asks_factors app (shared s) (scope_realm scope) owed \<and> st_sessions (shared t) = st_sessions (shared s))
     (\<lambda>_ t. st_sessions (shared t) = st_sessions (shared s)) s"
  (is "wp _ ?Q ?R s")
proof -
  let ?ri = "scope_realm scope"
  have counted: "only_counted s u \<Longrightarrow> ?R e u" for e u by (auto simp: only_counted_def)
  have rest: "wp (let p = proven_person proven in
     and_then (begin_work scope) (\<lambda>_.
     and_then (on_work (store_read_totp (person_id p))) (\<lambda>found.
     let owed = is_some_and (\<lambda>a. totp_confirmed_at a \<noteq> None) found in
     and_then (start_key_proof app (person_id p)) (\<lambda>started.
     and_then
       (case started of
          Proof_started ceremony \<Rightarrow> ret (Some ceremony)
        | No_key_held \<Rightarrow> ret None
        | Keys_not_served \<Rightarrow> if owed then ret None else throw (new_failure SecurityKeysNotServed)) (\<lambda>key.
     if owed \<or> key \<noteq> None
     then ret (Second_factor_required \<lparr>owing_person = p, owes_code = owed, owed_key = key\<rparr>)
     else
       and_then (open_session_for app scope p (proven_typed proven) (proven_brake proven) [Password_method]) (\<lambda>done.
       ret (Signed_in done))))))) ?Q ?R u"
    if u: "only_counted s u" and p: "password_proven app s ?ri typed_name password (proven_person proven)" for proven u
  proof -
    let ?p = "proven_person proven"
    have known: "st_totp (shared u) = st_totp (shared s)" "st_security_keys (shared u) = st_security_keys (shared s)"
      "st_sessions (shared u) = st_sessions (shared s)"
      using u by (auto simp: only_counted_def)
    have opened: "wp (and_then (open_session_for app scope ?p typed b [Password_method]) (\<lambda>done. ret (Signed_in done))) ?Q ?R t"
      if "shared t = shared u" "\<not> holds_code (shared s) ?ri (person_id ?p)" "\<not> holds_key (shared s) ?ri (person_id ?p)" for t typed b
      by (rule wp_seq, rule wp_open_session_for) (use that p known in \<open>auto simp: session_opened_def\<close>)
    have held: "is_some_and (\<lambda>a. \<exists>y. totp_confirmed_at a = Some y) (st_totp (shared s) (?ri, i)) \<longleftrightarrow> holds_code (shared s) ?ri i"
      "holds_key (shared u) ?ri i \<longleftrightarrow> holds_key (shared s) ?ri i" for i
      using known by (auto simp: holds_code_def holds_key_def is_some_and_def split: option.splits)
    show ?thesis
      unfolding Let_def store_read_totp_def
      by (rule wp_begin_at_work, rule wp_seq, rule wp_reading_at_work, assumption, rule wp_seq, rule wp_start_key_proof, assumption)
         (auto simp: p known held asks_factors_def at_work_shared wp_and_then [of "ret x" for x] wp_and_then [of "throw e" for e]
          intro!: opened simp del: wp_and_then)
  qed
  show ?thesis
    unfolding sign_in_with_password_def
    by (rule wp_seq, rule wp_verify_name_and_password, erule rest, assumption, erule counted)
qed


end
