(* ===== verification/One_Time_Codes.thy ===== *)
theory One_Time_Codes
  imports Authorize
begin

text \<open>
  The one-time codes behind the port of the core: HOTP (\<open>crypto/src/otp/hotp.rs\<close>), TOTP with its window
  (\<open>crypto/src/otp/totp.rs\<close>) and the adapter that serves the core (\<open>crypto/src/adapters/otp.rs\<close>). The HMAC is a
  parameter, as is the base32 of a third party.

  The lemmas show that the scan of the window, which compares numbers and never stops early, answers the
  newest step of the window whose code is written as what was typed, that a code has the digits it was
  asked with, and, through an interface the sign-in relies on, that a code accepted is one of the
  moment and of no step accepted before.
\<close>

subsection \<open>The primitives\<close>

datatype hash_alg = Sha1 | Sha256 | Sha384 | Sha512 | Sha3_256 | Sha3_384 | Sha3_512

datatype crypto_error = UnsupportedAlgorithm | InvalidKey | OperationFailed | InvalidParams | KeyStore
  | FipsUnavailable | AttestationUnsupported

text \<open>How a call ends without a value: an error it returns, or an index out of bounds.\<close>

datatype 'e stop = Stopped 'e | Panicked

type_synonym hmac = "hash_alg \<Rightarrow> bytes \<Rightarrow> bytes \<Rightarrow> crypto_error + bytes"

text \<open>\<open>u32::from_be_bytes\<close>\<close>

definition from_be_bytes :: "nat list \<Rightarrow> nat" where
  "from_be_bytes ns = foldl (\<lambda>acc n. acc * 256 + n) 0 ns"

definition hotp :: "hmac \<Rightarrow> bytes \<Rightarrow> nat \<Rightarrow> nat \<Rightarrow> hash_alg \<Rightarrow> crypto_error stop + nat" where
  "hotp hmac secret counter digits hash =
     (if digits < 6 \<or> 8 < digits then Err (Stopped InvalidParams)
      else case hmac hash secret (be_bytes 8 counter) of
        Err e \<Rightarrow> Err (Stopped e)
      | Ok tag \<Rightarrow>
          if tag = [] then Err Panicked
          else
            let offset = of_char (last tag) mod 16 in
            (case map of_char (take 4 (drop offset tag)) of
               [a, b, c, d] \<Rightarrow> Ok (from_be_bytes [a mod 128, b, c, d] mod 10 ^ digits)
             | _ \<Rightarrow> Err (Stopped OperationFailed)))"

subsection \<open>Steps of time\<close>

record totp_params =
  totp_period :: nat
  totp_digits :: nat
  totp_hash :: hash_alg

definition new_params :: "hash_alg \<Rightarrow> totp_params" where
  "new_params hash = \<lparr>totp_period = 30, totp_digits = 6, totp_hash = hash\<rparr>"

definition check_params :: "totp_params \<Rightarrow> crypto_error stop + unit" where
  "check_params params = (if totp_period params = 0 then Err (Stopped InvalidParams) else Ok ())"

definition totp_at :: "hmac \<Rightarrow> bytes \<Rightarrow> nat \<Rightarrow> totp_params \<Rightarrow> crypto_error stop + nat" where
  "totp_at hmac secret unix_seconds params =
     (case check_params params of
        Err e \<Rightarrow> Err e
      | Ok _ \<Rightarrow> hotp hmac secret (unix_seconds div totp_period params) (totp_digits params) (totp_hash params))"

text \<open>\<open>u64::checked_add_signed\<close>\<close>

definition checked_add_signed :: "nat \<Rightarrow> int \<Rightarrow> nat option" where
  "checked_add_signed n delta =
     (let moved = int n + delta in if 0 \<le> moved \<and> moved < 2 ^ 64 then Some (nat moved) else None)"

text \<open>The loop of \<open>scan\<close>: every step is computed, and a later match replaces an earlier one.\<close>

fun scan_each :: "(nat \<Rightarrow> crypto_error stop + nat) \<Rightarrow> nat \<Rightarrow> nat \<Rightarrow> int list \<Rightarrow> bool \<times> nat \<Rightarrow>
    crypto_error stop + bool \<times> nat" where
  "scan_each computed typed center [] (hit, step) = Ok (hit, step)"
| "scan_each computed typed center (delta # deltas) (hit, step) =
     (case checked_add_signed center delta of
        None \<Rightarrow> scan_each computed typed center deltas (hit, step)
      | Some counter \<Rightarrow>
          (case computed counter of
             Err e \<Rightarrow> Err e
           | Ok candidate \<Rightarrow>
               let eq = (candidate = typed) in
               scan_each computed typed center deltas (hit \<or> eq, if eq then counter else step)))"

definition scan :: "hmac \<Rightarrow> bytes \<Rightarrow> nat \<Rightarrow> nat \<Rightarrow> totp_params \<Rightarrow> nat \<Rightarrow> crypto_error stop + nat option" where
  "scan hmac secret typed unix_seconds params window =
     (case check_params params of
        Err e \<Rightarrow> Err e
      | Ok _ \<Rightarrow>
          map_sum id (\<lambda>(hit, step). if hit then Some step else None)
            (scan_each (\<lambda>counter. hotp hmac secret counter (totp_digits params) (totp_hash params)) typed
              (unix_seconds div totp_period params) [- int window .. int window] (False, 0)))"

definition totp_verify_at :: "hmac \<Rightarrow> bytes \<Rightarrow> nat \<Rightarrow> nat \<Rightarrow> totp_params \<Rightarrow> nat \<Rightarrow> crypto_error stop + bool" where
  "totp_verify_at hmac secret typed unix_seconds params window =
     map_sum id (\<lambda>found. found \<noteq> None) (scan hmac secret typed unix_seconds params window)"

definition totp_verify_step_at ::
    "hmac \<Rightarrow> bytes \<Rightarrow> nat \<Rightarrow> nat \<Rightarrow> totp_params \<Rightarrow> nat \<Rightarrow> crypto_error stop + nat option" where
  "totp_verify_step_at hmac secret typed unix_seconds params window =
     scan hmac secret typed unix_seconds params window"

definition format_code :: "nat \<Rightarrow> nat \<Rightarrow> string" where
  "format_code n digits = replicate (digits - length (show_nat n)) CHR ''0'' @ show_nat n"

definition percent_encode :: "string \<Rightarrow> string" where
  "percent_encode input = concat (map (\<lambda>b. if is_unreserved b then [b]
     else [CHR ''%'', hex_digit_upper (of_char b div 16), hex_digit_upper (of_char b mod 16)]) input)"

definition totp_provisioning_uri ::
    "(bytes \<Rightarrow> string) \<Rightarrow> bytes \<Rightarrow> string \<Rightarrow> string \<Rightarrow> totp_params \<Rightarrow> crypto_error stop + string" where
  "totp_provisioning_uri base32 secret issuer account params =
     (case check_params params of Err e \<Rightarrow> Err e | Ok _ \<Rightarrow>
      if totp_digits params < 6 \<or> 8 < totp_digits params then Err (Stopped InvalidParams)
      else
        let written = (\<lambda>alg. Ok (''otpauth://totp/'' @ percent_encode issuer @ '':'' @ percent_encode account @
          ''?secret='' @ base32 secret @ ''&issuer='' @ percent_encode issuer @ ''&algorithm='' @ alg @
          ''&digits='' @ show_nat (totp_digits params) @ ''&period='' @ show_nat (totp_period params))) in
        (case totp_hash params of
           Sha1 \<Rightarrow> written ''SHA1''
         | Sha256 \<Rightarrow> written ''SHA256''
         | Sha512 \<Rightarrow> written ''SHA512''
         | _ \<Rightarrow> Err (Stopped UnsupportedAlgorithm)))"

subsection \<open>The adapter\<close>

definition SECRET_BYTES :: nat where "SECRET_BYTES = 20"
definition WINDOW :: nat where "WINDOW = 1"

definition describe_codes :: totp_params where
  "describe_codes = new_params Sha1"

text \<open>\<open>u32::from_str\<close> on digits, when there are some and their number is below the bound.\<close>

definition decimal :: "string \<Rightarrow> nat" where
  "decimal digits = foldl (\<lambda>acc c. acc * 10 + (of_char c - 48)) 0 digits"

definition parse_unsigned :: "nat \<Rightarrow> string \<Rightarrow> nat option" where
  "parse_unsigned bound digits = (if digits = [] \<or> bound \<le> decimal digits then None else Some (decimal digits))"

definition read_code :: "string \<Rightarrow> nat option" where
  "read_code typed =
     (if length typed = 6 \<and> list_all is_ascii_digit typed then parse_unsigned (2 ^ 32) typed else None)"

text \<open>An error is the one failure of the port; what panics is not caught.\<close>

definition find_totp_step :: "hmac \<Rightarrow> bytes \<Rightarrow> string \<Rightarrow> nat \<Rightarrow> unit stop + nat option" where
  "find_totp_step hmac secret typed unix_seconds =
     (case read_code typed of
        None \<Rightarrow> Ok None
      | Some n \<Rightarrow> map_sum (map_stop (\<lambda>_. ())) id (totp_verify_step_at hmac secret n unix_seconds describe_codes WINDOW))"

definition write_totp_enrollment ::
    "(bytes \<Rightarrow> string) \<Rightarrow> string \<Rightarrow> string \<Rightarrow> bytes \<Rightarrow> unit stop + totp_enrollment_text" where
  "write_totp_enrollment base32 issuer account secret =
     map_sum (map_stop (\<lambda>_. ())) (\<lambda>uri. \<lparr>totp_uri = uri, totp_typed_secret = base32 secret\<rparr>)
       (totp_provisioning_uri base32 secret issuer account describe_codes)"

subsection \<open>Codes as texts\<close>

lemma is_ascii_digit_iff: "is_ascii_digit c \<longleftrightarrow> (\<exists>d < 10. c = digit d)"
proof
  assume "is_ascii_digit c"
  then have between: "48 \<le> (of_char c :: nat)" "(of_char c :: nat) \<le> 57"
    by (simp_all add: is_ascii_digit_def less_eq_char_def)
  then have "c = digit (of_char c - 48)" by (simp add: digit_def byte_def)
  with between show "\<exists>d < 10. c = digit d" by (intro exI [of _ "of_char c - 48"]) simp
qed (auto simp: is_ascii_digit_def less_eq_char_def digit_def byte_def)

lemma decimal_Nil [simp]: "decimal [] = 0"
  by (simp add: decimal_def)

lemma decimal_snoc [simp]: "d < 10 \<Longrightarrow> decimal (ds @ [digit d]) = decimal ds * 10 + d"
  by (simp add: decimal_def digit_def byte_def)

lemma show_nat_snoc: "d < 10 \<Longrightarrow> show_nat (m * 10 + d) = (if m = 0 then [digit d] else show_nat m @ [digit d])"
  by (subst show_nat.simps) auto

lemma show_nat_zero: "show_nat 0 = ''0''"
  by (subst show_nat.simps) (simp add: digit_def byte_def char_of_def bit_0)

lemma format_code_snoc:
  assumes "d < 10" and "0 < k"
  shows "format_code (m * 10 + d) (Suc k) = format_code m k @ [digit d]"
  using assms by (auto simp: format_code_def show_nat_snoc show_nat_zero replicate_app_Cons_same simp flip: replicate_Suc)

lemma format_decimal:
  assumes "list_all is_ascii_digit ds" and "ds \<noteq> []"
  shows "format_code (decimal ds) (length ds) = ds"
  using assms
proof (induction ds rule: rev_induct)
  case (snoc c ds)
  then obtain d where d: "d < 10" "c = digit d" by (auto simp: is_ascii_digit_iff)
  show ?case
  proof (cases "ds = []")
    case True
    with d show ?thesis using show_nat_snoc [of d 0] decimal_snoc [of d "[]"] by (simp add: format_code_def)
  next
    case False
    with snoc d show ?thesis by (simp add: format_code_snoc)
  qed
qed simp

lemma show_nat_digits: "list_all is_ascii_digit (show_nat n) \<and> decimal (show_nat n) = n \<and> show_nat n \<noteq> []"
proof (induction n rule: show_nat.induct)
  case (1 n)
  show ?case
  proof (cases "n < 10")
    case True
    then show ?thesis using decimal_snoc [of n "[]"] by (subst (1 2 3) show_nat.simps) (auto simp: is_ascii_digit_iff)
  next
    case False
    have "is_ascii_digit (digit (n mod 10))" unfolding is_ascii_digit_iff by (intro exI [of _ "n mod 10"]) simp
    with 1 False show ?thesis by (subst (1 2 3) show_nat.simps) simp
  qed
qed

lemma length_show_nat: "n < 10 ^ k \<Longrightarrow> 0 < k \<Longrightarrow> length (show_nat n) \<le> k"
proof (induction n arbitrary: k rule: show_nat.induct)
  case (1 n)
  show ?case
  proof (cases "n < 10")
    case False
    then obtain j where j: "k = Suc j" "0 < j" using "1.prems" by (cases k; cases "k - 1") auto
    with 1 False have "length (show_nat (n div 10)) \<le> j" by (simp add: less_mult_imp_div_less mult.commute)
    with False j show ?thesis by (subst show_nat.simps) simp
  qed (use "1.prems" in \<open>subst show_nat.simps, simp\<close>)
qed

lemma decimal_zeros: "decimal (replicate k CHR ''0'' @ ds) = decimal ds"
  by (induction k) (simp_all add: decimal_def)

text \<open>Six digits read back as the number they write, and nothing else reads.\<close>

lemma read_code_iff: "read_code typed = Some n \<longleftrightarrow> n < 10 ^ 6 \<and> typed = format_code n 6"
proof
  assume read: "read_code typed = Some n"
  then have typed: "length typed = 6" "list_all is_ascii_digit typed" "n = decimal typed"
    by (auto simp: read_code_def parse_unsigned_def split: if_splits)
  then have "typed = format_code n 6" using format_decimal [of typed] by force
  moreover have "decimal ds < 10 ^ length ds" if "list_all is_ascii_digit ds" for ds
    using that by (induction ds rule: rev_induct) (auto simp: is_ascii_digit_iff)
  ultimately show "n < 10 ^ 6 \<and> typed = format_code n 6" using typed by metis
next
  assume n: "n < 10 ^ 6 \<and> typed = format_code n 6"
  then have "length (show_nat n) \<le> 6" using length_show_nat [of n 6] by simp
  with n show "read_code typed = Some n"
    using show_nat_digits [of n]
    by (auto simp: read_code_def parse_unsigned_def format_code_def decimal_zeros is_ascii_digit_def list_all_iff less_eq_char_def)
qed

lemma format_code_eq: "m < 10 ^ 6 \<Longrightarrow> n < 10 ^ 6 \<Longrightarrow> format_code m 6 = format_code n 6 \<longleftrightarrow> m = n"
  by (metis read_code_iff option.inject)

subsection \<open>The scan\<close>

lemma hotp_bound: "hotp hmac secret counter digits hash = Ok v \<Longrightarrow> v < 10 ^ digits"
  by (auto simp: hotp_def Let_def split: if_splits sum.splits list.splits)

lemma from_four_bytes: "a < 128 \<Longrightarrow> b < 256 \<Longrightarrow> c < 256 \<Longrightarrow> d < 256 \<Longrightarrow> from_be_bytes [a, b, c, d] < 2 ^ 31"
  by (simp add: from_be_bytes_def)

lemma four_of_them: "length xs = 4 \<Longrightarrow> \<exists>a b c d. xs = [a, b, c, d]"
  by (auto simp: eval_nat_numeral length_Suc_conv)

text \<open>A tag as long as the shortest digest always gives a code.\<close>

lemma hotp_total:
  assumes "hmac hash secret (be_bytes 8 counter) = Ok tag" and "20 \<le> length tag" and "6 \<le> digits" and "digits \<le> 8"
  shows "\<exists>v. hotp hmac secret counter digits hash = Ok v"
proof -
  let ?window = "map of_char (take 4 (drop (of_char (last tag) mod 16) tag)) :: nat list"
  have "length ?window = 4"
    using assms(2) mod_less_divisor [of 16 "of_char (last tag)"] by (simp add: min_def)
  then obtain a b c d where "?window = [a, b, c, d]" using four_of_them by metis
  with assms show ?thesis by (auto simp: hotp_def Let_def)
qed

text \<open>The steps of a window that match, the oldest first.\<close>

definition matching_steps :: "(nat \<Rightarrow> crypto_error stop + nat) \<Rightarrow> nat \<Rightarrow> nat \<Rightarrow> int list \<Rightarrow> nat list" where
  "matching_steps computed typed center deltas =
     filter (\<lambda>n. computed n = Ok typed) (List.map_filter (checked_add_signed center) deltas)"

lemma scan_each_found:
  assumes "scan_each computed typed center deltas (hit, step) = Ok (hit', step')"
  shows "hit' = (hit \<or> matching_steps computed typed center deltas \<noteq> []) \<and>
    step' = (if matching_steps computed typed center deltas = [] then step else last (matching_steps computed typed center deltas))"
  using assms
proof (induction deltas arbitrary: hit step)
  case (Cons delta deltas)
  show ?case
  proof (cases "checked_add_signed center delta")
    case (Some counter)
    with Cons.prems obtain v where v: "computed counter = Ok v" by (auto split: sum.splits)
    with Some Cons.prems have "scan_each computed typed center deltas
        (hit \<or> v = typed, if v = typed then counter else step) = Ok (hit', step')"
      by (simp add: Let_def)
    from Cons.IH [OF this] Some v show ?thesis by (auto simp: matching_steps_def List.map_filter_simps)
  qed (use Cons in \<open>auto simp: matching_steps_def List.map_filter_simps\<close>)
qed (simp add: matching_steps_def List.map_filter_simps)

lemma scan_each_total:
  assumes "\<And>n. \<exists>v. computed n = Ok v"
  shows "\<exists>found. scan_each computed typed center deltas (hit, step) = Ok found"
proof (induction deltas arbitrary: hit step)
  case (Cons delta deltas)
  show ?case
  proof (cases "checked_add_signed center delta")
    case (Some counter)
    obtain v where "computed counter = Ok v" using assms by blast
    with Some Cons show ?thesis by (simp add: Let_def)
  qed (use Cons in simp)
qed simp

text \<open>The steps a code may be of at an instant, the newest first.\<close>

definition steps_around :: "nat \<Rightarrow> nat list" where
  "steps_around unix_seconds =
     (let center = unix_seconds div 30 in
      filter (\<lambda>n. n < 2 ^ 64) ([center + 1, center] @ (if center = 0 then [] else [center - 1])))"

text \<open>The code of a step, as an authenticator application shows it.\<close>

definition shown_code :: "hmac \<Rightarrow> bytes \<Rightarrow> nat \<Rightarrow> string option" where
  "shown_code hmac secret n =
     (case hotp hmac secret n 6 Sha1 of Ok v \<Rightarrow> Some (format_code v 6) | Err _ \<Rightarrow> None)"

lemma window_steps: "List.map_filter (checked_add_signed (t div 30)) [- int WINDOW .. int WINDOW] = rev (steps_around t)"
proof -
  have "[- int WINDOW .. int WINDOW] = [-1, 0, 1]" by (simp add: WINDOW_def upto.simps)
  then show ?thesis
    by (auto simp: List.map_filter_simps checked_add_signed_def steps_around_def Let_def nat_add_distrib nat_diff_distrib
        split: option.splits)
qed

lemma last_rev_find: "(if filter P (rev xs) = [] then None else Some (last (filter P (rev xs)))) = find P xs"
  by (induction xs) auto

lemma found_by_scan:
  assumes "find_totp_step hmac secret typed t = Ok r"
  shows "r = find (\<lambda>n. shown_code hmac secret n = Some typed) (steps_around t)"
proof (cases "read_code typed")
  case None
  have "shown_code hmac secret n \<noteq> Some typed" for n
    using None hotp_bound [of hmac secret n 6 Sha1] read_code_iff [of typed]
    by (force simp: shown_code_def split: sum.splits)
  then have "find (\<lambda>n. shown_code hmac secret n = Some typed) (steps_around t) = None" by (auto simp: find_None_iff)
  with None assms show ?thesis by (simp add: find_totp_step_def)
next
  case (Some v)
  let ?computed = "\<lambda>counter. hotp hmac secret counter 6 Sha1"
  let ?deltas = "[- int WINDOW .. int WINDOW]"
  have same: "shown_code hmac secret n = Some typed \<longleftrightarrow> ?computed n = Ok v" for n
    using Some hotp_bound [of hmac secret n 6 Sha1] unfolding read_code_iff
    by (auto simp: shown_code_def format_code_eq split: sum.splits)
  obtain hit step where scanned: "scan_each ?computed v (t div 30) ?deltas (False, 0) = Ok (hit, step)"
    and r: "r = (if hit then Some step else None)"
    using assms Some
    by (cases "scan_each ?computed v (t div 30) ?deltas (False, 0)")
       (auto simp: find_totp_step_def totp_verify_step_at_def scan_def describe_codes_def new_params_def check_params_def)
  from scan_each_found [OF scanned] r show ?thesis
    unfolding matching_steps_def window_steps same last_rev_find [symmetric] by auto
qed

subsection \<open>What the sign-in relies on\<close>

text \<open>The port as the core is given it: a failure is nothing.\<close>

definition offer_codes :: "hmac \<Rightarrow> bytes \<Rightarrow> string \<Rightarrow> nat \<Rightarrow> nat option option" where
  "offer_codes hmac secret typed t = (case find_totp_step hmac secret typed t of Ok found \<Rightarrow> Some found | Err _ \<Rightarrow> None)"

locale code_port =
  fixes finder :: "bytes \<Rightarrow> string \<Rightarrow> nat \<Rightarrow> nat option option"
    and is_code_of :: "bytes \<Rightarrow> nat \<Rightarrow> string \<Rightarrow> bool"
  assumes found_around: "finder secret typed t = Some (Some n) \<Longrightarrow> n \<in> set (steps_around t)"
    and found_is_code: "finder secret typed t = Some (Some n) \<Longrightarrow> is_code_of secret n typed"
begin

lemma wp_accept_code:
  assumes "app_find_totp_step app = finder" and "opened s = Some w"
  shows "wp (accept_code app p sealed typed used_for) (\<lambda>accepted u. accepted \<longrightarrow>
      (\<exists>secret n a v data_key.
         app_open_sealed app data_key \<lparr>place_tenant = scope_tenant (uow_scope w), place_realm = scope_realm (uow_scope w),
           place_purpose = TOTP_SECRET_PURPOSE, place_row = p\<rparr> sealed = Some secret \<and>
         is_code_of secret n (trim typed) \<and> 0 \<le> unix_timestamp (app_clock app (tick s) div 1000 * 1000) \<and>
         n \<in> set (steps_around (nat (unix_timestamp (app_clock app (tick s) div 1000 * 1000)))) \<and>
         st_totp (working w) (uow_realm w, p) = Some a \<and> accepts_step sealed (int n) used_for a \<and>
         opened u = Some v \<and> map_option totp_last_step (st_totp (working v) (uow_realm v, p)) = Some (Some (int n))))
    (\<lambda>_ _. True) s"
  using assms found_around found_is_code
  by (auto simp: accept_code_def read_secret_place_def work_scope_def wp_on_work store_read_data_key_def
      store_accept_totp_step_def ok_or_def Let_def filter_option_eq_Some uow_realm_def split: option.split)

end

interpretation typed_codes: code_port "offer_codes hmac" "\<lambda>secret n typed. shown_code hmac secret n = Some typed" for hmac
proof
  fix secret typed t n
  assume "offer_codes hmac secret typed t = Some (Some n)"
  then have "find_totp_step hmac secret typed t = Ok (Some n)"
    by (simp add: offer_codes_def split: sum.splits)
  from found_by_scan [OF this] have "find (\<lambda>n. shown_code hmac secret n = Some typed) (steps_around t) = Some n" by simp
  then show "n \<in> set (steps_around t)" "shown_code hmac secret n = Some typed"
    by (auto simp: find_Some_iff)
qed

lemma around_the_moment:
  assumes "0 \<le> i" and "n \<in> set (steps_around (nat i))"
  shows "\<bar>int n - i div 30\<bar> \<le> 1"
proof -
  obtain m where m: "i = int m" using assms(1) nonneg_int_cases by blast
  then have "n \<le> m div 30 + 1 \<and> m div 30 \<le> n + 1"
    using assms(2) by (auto simp: steps_around_def Let_def split: if_splits)
  moreover have "i div 30 = int (m div 30)" using m by simp
  ultimately show ?thesis by linarith
qed

subsection \<open>Properties\<close>

text \<open>
  C21: what a person types is looked for as they see it. Under an HMAC with tags as long as its digest, the
  search ends and answers the newest step around the present one whose six digits, leading zeros
  included, are the text that was typed, and nothing when there is none: not for a shorter or a
  longer text, and not for anything that is not digits.
\<close>

theorem typed_codes_are_found:
  assumes "\<And>data. \<exists>tag. hmac Sha1 secret data = Ok tag \<and> 20 \<le> length tag"
  shows "find_totp_step hmac secret typed t = Ok (find (\<lambda>n. shown_code hmac secret n = Some typed) (steps_around t))"
proof -
  have "\<exists>v. hotp hmac secret n 6 Sha1 = Ok v" for n
    using assms hotp_total [of hmac Sha1 secret n _ 6] by fastforce
  then have "\<exists>found. scan_each (\<lambda>n. hotp hmac secret n 6 Sha1) v (t div 30) [- int WINDOW .. int WINDOW] (False, 0) = Ok found" for v
    by (rule scan_each_total)
  then have "\<exists>found. find_totp_step hmac secret typed t = Ok found"
    by (cases "read_code typed") (auto simp: find_totp_step_def totp_verify_step_at_def scan_def describe_codes_def new_params_def check_params_def,
        metis map_sum.simps(2))
  then show ?thesis using found_by_scan by metis
qed

definition sample_hmac :: hmac where
  "sample_hmac hash secret data = Ok (drop 4 data @ replicate 20 (char_of (0 :: nat)))"

theorem typed_codes_are_found_witness:
  "find_totp_step sample_hmac ''secret'' ''000001'' 59 = Ok (Some 1)"
proof -
  have "\<exists>tag. sample_hmac Sha1 ''secret'' data = Ok tag \<and> 20 \<le> length tag" for data
    by (simp add: sample_hmac_def)
  note found = typed_codes_are_found [of sample_hmac "''secret''", OF this]
  have "hotp sample_hmac ''secret'' n 6 Sha1 = Ok n" if "n < 256" for n
    using that by (simp add: hotp_def sample_hmac_def be_bytes_def from_be_bytes_def upt_rec [of _ 8])
  then have "shown_code sample_hmac ''secret'' n = Some (format_code n 6)" if "n < 256" for n
    using that by (simp add: shown_code_def)
  moreover have "read_code ''000001'' = Some 1"
    by (simp add: read_code_def parse_unsigned_def decimal_def is_ascii_digit_def less_eq_char_def)
  then have "''000001'' = format_code 1 6" unfolding read_code_iff by simp
  moreover have "format_code (Suc (Suc 0)) 6 \<noteq> format_code 1 6" by (simp add: format_code_eq)
  ultimately have "find (\<lambda>n. shown_code sample_hmac ''secret'' n = Some ''000001'') (steps_around 59) = Some 1"
    by (simp add: steps_around_def)
  then show ?thesis using found by simp
qed

text \<open>
  C19: a code that is accepted is of the moment and of no step accepted before. When a typed code is accepted for
  a person, it is the code an application shows for the secret that was sealed for that very person of
  that realm, at a step no more than one from the present, later than the last step that was
  accepted; that step is then the last one.
\<close>

theorem accepted_codes_are_of_the_moment:
  "case accept_code (app\<lparr>app_find_totp_step := offer_codes hmac\<rparr>) p sealed typed used_for (s\<lparr>opened := Some w\<rparr>) of
     (Ok True, u) \<Rightarrow>
       (\<exists>secret n a v data_key.
         app_open_sealed app data_key \<lparr>place_tenant = scope_tenant (uow_scope w), place_realm = scope_realm (uow_scope w),
           place_purpose = TOTP_SECRET_PURPOSE, place_row = p\<rparr> sealed = Some secret \<and>
         shown_code hmac secret n = Some (trim typed) \<and>
         \<bar>int n - unix_timestamp (app_clock app (tick s) div 1000 * 1000) div 30\<bar> \<le> 1 \<and>
         st_totp (working w) (uow_realm w, p) = Some a \<and> totp_sealed_secret a = sealed \<and>
         (case totp_last_step a of None \<Rightarrow> True | Some before \<Rightarrow> before < int n) \<and>
         opened u = Some v \<and> map_option totp_last_step (st_totp (working v) (uow_realm v, p)) = Some (Some (int n)))
   | _ \<Rightarrow> True"
proof -
  let ?app = "app\<lparr>app_find_totp_step := offer_codes hmac\<rparr>" and ?s = "s\<lparr>opened := Some w\<rparr>"
  note known = typed_codes.wp_accept_code [of ?app hmac ?s w p sealed typed used_for, simplified]
  show ?thesis
  proof (cases "accept_code ?app p sealed typed used_for ?s")
    case (Pair r u)
    show ?thesis
    proof (cases "r = Ok True")
      case True
      with Pair known obtain secret n a v data_key where
        code: "app_open_sealed app data_key \<lparr>place_tenant = scope_tenant (uow_scope w), place_realm = scope_realm (uow_scope w),
           place_purpose = TOTP_SECRET_PURPOSE, place_row = p\<rparr> sealed = Some secret"
          "shown_code hmac secret n = Some (trim typed)"
        and around: "0 \<le> unix_timestamp (app_clock app (tick s) div 1000 * 1000)"
          "n \<in> set (steps_around (nat (unix_timestamp (app_clock app (tick s) div 1000 * 1000))))"
        and kept: "st_totp (working w) (uow_realm w, p) = Some a" "accepts_step sealed (int n) used_for a"
          "opened u = Some v" "map_option totp_last_step (st_totp (working v) (uow_realm v, p)) = Some (Some (int n))"
        unfolding wp_def by auto
      have "case totp_last_step a of None \<Rightarrow> True | Some before \<Rightarrow> before < int n" "totp_sealed_secret a = sealed"
        using kept(2) by (auto simp: accepts_step_def split: option.split)
      with code around_the_moment [OF around] kept True Pair show ?thesis by auto
    qed (use Pair in \<open>auto split: sum.splits bool.splits\<close>)
  qed
qed

end
