(* ===== verification/Addresses.thy ===== *)
theory Addresses
  imports One_Time_Codes
begin

unbundle bit_operations_syntax

text \<open>
  Where the deployment is reached and where a request comes from: the public origin and the ranges of
  the trusted proxies (\<open>saffui-core/src/settings.rs\<close>), and the address a request is counted under
  (\<open>server/src/middleware/caller_address.rs\<close>), over the reading and writing of addresses of the standard library.

  The lemmas show that a range holds exactly the addresses that agree with its network on the bits
  of its prefix, that IPv4 addresses read back as they are written, and that what a caller writes into the header of
  forwarded addresses never changes the address it is counted under.
\<close>

subsection \<open>Reading addresses\<close>

text \<open>The parser of \<open>std::net\<close>: what is read, and what is left of the text.\<close>

definition digit_value :: "char \<Rightarrow> nat" where
  "digit_value c =
     (if is_ascii_digit c then of_char c - 48
      else if CHR ''a'' \<le> c \<and> c \<le> CHR ''f'' then of_char c - 87
      else if CHR ''A'' \<le> c \<and> c \<le> CHR ''F'' then of_char c - 55
      else 16)"

definition is_digit_of :: "nat \<Rightarrow> char \<Rightarrow> bool" where
  "is_digit_of radix c \<longleftrightarrow> digit_value c < radix"

definition number_of :: "nat \<Rightarrow> string \<Rightarrow> nat" where
  "number_of radix ds = foldl (\<lambda>acc c. acc * radix + digit_value c) 0 ds"

definition read_number :: "nat \<Rightarrow> nat option \<Rightarrow> bool \<Rightarrow> nat \<Rightarrow> string \<Rightarrow> (nat \<times> string) option" where
  "read_number radix most zero_prefix bound text =
     (let ds = takeWhile (is_digit_of radix) text in
      if ds = [] \<or> (case most of None \<Rightarrow> False | Some n \<Rightarrow> n < length ds) \<or>
         \<not> zero_prefix \<and> hd ds = CHR ''0'' \<and> 1 < length ds \<or> bound \<le> number_of radix ds
      then None
      else Some (number_of radix ds, dropWhile (is_digit_of radix) text))"

fun read_given_char :: "char \<Rightarrow> string \<Rightarrow> string option" where
  "read_given_char c [] = None"
| "read_given_char c (x # xs) = (if x = c then Some xs else None)"

definition read_octet :: "string \<Rightarrow> (nat \<times> string) option" where
  "read_octet = read_number 10 (Some 3) False 256"

text \<open>A separator stands before every group but the first.\<close>

definition read_separated :: "char \<Rightarrow> bool \<Rightarrow> (string \<Rightarrow> ('a \<times> string) option) \<Rightarrow> string \<Rightarrow> ('a \<times> string) option" where
  "read_separated c is_first inner text =
     (if is_first then inner text else Option.bind (read_given_char c text) inner)"

definition read_ipv4 :: "string \<Rightarrow> ((nat \<times> nat \<times> nat \<times> nat) \<times> string) option" where
  "read_ipv4 text =
     Option.bind (read_octet text) (\<lambda>(a, text).
     Option.bind (read_separated CHR ''.'' False read_octet text) (\<lambda>(b, text).
     Option.bind (read_separated CHR ''.'' False read_octet text) (\<lambda>(c, text).
     Option.bind (read_separated CHR ''.'' False read_octet text) (\<lambda>(d, text).
     Some ((a, b, c, d), text)))))"

text \<open>
  \<open>read_groups\<close>: up to so many groups of an IPv6 address, the last two of them written as an IPv4
  address perhaps; the groups, whether they end that way, and the rest.
\<close>

fun read_groups :: "nat \<Rightarrow> bool \<Rightarrow> string \<Rightarrow> nat list \<times> bool \<times> string" where
  "read_groups 0 is_first text = ([], False, text)"
| "read_groups (Suc left) is_first text =
     (case (if 0 < left then read_separated CHR '':'' is_first read_ipv4 text else None) of
        Some ((a, b, c, d), rest) \<Rightarrow> ([a * 256 + b, c * 256 + d], True, rest)
      | None \<Rightarrow>
          (case read_separated CHR '':'' is_first (read_number 16 (Some 4) True 65536) text of
             None \<Rightarrow> ([], False, text)
           | Some (g, rest) \<Rightarrow>
               (case read_groups left False rest of (gs, dotted, after) \<Rightarrow> (g # gs, dotted, after))))"

fun of_segments :: "nat list \<Rightarrow> ip_addr option" where
  "of_segments [a, b, c, d, e, f, g, h] = Some (V6 a b c d e f g h)"
| "of_segments _ = None"

definition read_ipv6 :: "string \<Rightarrow> (ip_addr \<times> string) option" where
  "read_ipv6 text =
     (case read_groups 8 True text of (front, dotted, rest) \<Rightarrow>
      if length front = 8 then map_option (\<lambda>a. (a, rest)) (of_segments front)
      else if dotted then None
      else
        Option.bind (Option.bind (read_given_char CHR '':'' rest) (read_given_char CHR '':'')) (\<lambda>rest.
        case read_groups (7 - length front) True rest of (tail, _, rest) \<Rightarrow>
          map_option (\<lambda>a. (a, rest)) (of_segments (front @ replicate (8 - length front - length tail) 0 @ tail))))"

definition read_ip :: "string \<Rightarrow> (ip_addr \<times> string) option" where
  "read_ip text =
     (case read_ipv4 text of
        Some ((a, b, c, d), rest) \<Rightarrow> Some (V4 a b c d, rest)
      | None \<Rightarrow> read_ipv6 text)"

text \<open>The whole text is read, or nothing is.\<close>

definition whole :: "('a \<times> string) option \<Rightarrow> 'a option" where
  "whole read = (case read of Some (x, []) \<Rightarrow> Some x | _ \<Rightarrow> None)"

definition parse_ip :: "string \<Rightarrow> ip_addr option" where
  "parse_ip text = whole (read_ip text)"

definition parse_ipv4 :: "string \<Rightarrow> ip_addr option" where
  "parse_ipv4 text =
     (if 15 < length text then None else map_option (\<lambda>(a, b, c, d). V4 a b c d) (whole (read_ipv4 text)))"

definition parse_ipv6 :: "string \<Rightarrow> ip_addr option" where
  "parse_ipv6 text = whole (read_ipv6 text)"

definition read_port_after :: "string \<Rightarrow> (nat \<times> string) option" where
  "read_port_after text = Option.bind (read_given_char CHR '':'' text) (read_number 10 None True 65536)"

text \<open>\<open>SocketAddr::from_str\<close>, of which the address alone is kept; a scope may follow an IPv6 address.\<close>

definition parse_socket_ip :: "string \<Rightarrow> ip_addr option" where
  "parse_socket_ip text =
     (case Option.bind (read_ipv4 text) (\<lambda>((a, b, c, d), rest).
         map_option (\<lambda>(_, rest). (V4 a b c d, rest)) (read_port_after rest)) of
        Some read \<Rightarrow> whole (Some read)
      | None \<Rightarrow> whole (
          Option.bind (read_given_char CHR ''['' text) (\<lambda>text.
          Option.bind (read_ipv6 text) (\<lambda>(address, rest).
          let rest = (case Option.bind (read_given_char CHR ''%'' rest) (read_number 10 None True (2 ^ 32)) of
                        None \<Rightarrow> rest | Some (_, after) \<Rightarrow> after) in
          Option.bind (read_given_char CHR '']'' rest) (\<lambda>rest.
          map_option (\<lambda>(_, rest). (address, rest)) (read_port_after rest))))))"

subsection \<open>Writing addresses\<close>

fun segments :: "ip_addr \<Rightarrow> nat list" where
  "segments (V6 a b c d e f g h) = [a, b, c, d, e, f, g, h]"
| "segments (V4 a b c d) = []"

definition show_ipv4 :: "nat \<Rightarrow> nat \<Rightarrow> nat \<Rightarrow> nat \<Rightarrow> string" where
  "show_ipv4 a b c d = show_nat a @ ''.'' @ show_nat b @ ''.'' @ show_nat c @ ''.'' @ show_nat d"

text \<open>The first of the longest runs of zeros: where it starts and how long it is.\<close>

fun longest_zeros :: "nat \<Rightarrow> nat list \<Rightarrow> nat \<times> nat \<Rightarrow> nat \<times> nat \<Rightarrow> nat \<times> nat" where
  "longest_zeros i [] current longest = longest"
| "longest_zeros i (x # xs) current longest =
     (if x = 0
      then
        let current = (if snd current = 0 then i else fst current, snd current + 1) in
        longest_zeros (i + 1) xs current (if snd longest < snd current then current else longest)
      else longest_zeros (i + 1) xs (0, 0) longest)"

definition show_groups :: "nat list \<Rightarrow> string" where
  "show_groups gs = join_with '':'' (map show_hex_lower gs)"

definition is_mapped :: "ip_addr \<Rightarrow> bool" where
  "is_mapped address = (case address of V6 a b c d e f _ _ \<Rightarrow> a = 0 \<and> b = 0 \<and> c = 0 \<and> d = 0 \<and> e = 0 \<and> f = 0xffff | V4 _ _ _ _ \<Rightarrow> False)"

definition show_ip :: "ip_addr \<Rightarrow> string" where
  "show_ip address =
     (case address of
        V4 a b c d \<Rightarrow> show_ipv4 a b c d
      | V6 _ _ _ _ _ _ g h \<Rightarrow>
          if is_mapped address then ''::ffff:'' @ show_ipv4 (g div 256) (g mod 256) (h div 256) (h mod 256)
          else
            let gs = segments address; (start, len) = longest_zeros 0 gs (0, 0) (0, 0) in
            if 1 < len then show_groups (take start gs) @ ''::'' @ show_groups (drop (start + len) gs) else show_groups gs)"

subsection \<open>The public origin\<close>

datatype public_origin_error = Origin_unreadable | DefaultPort | ClearToRemoteHost

datatype host = Host_name string | Host_address ip_addr

definition read_port :: "string \<Rightarrow> nat option" where
  "read_port text =
     (if take 1 text = ''0'' \<or> \<not> list_all is_ascii_digit text then None else parse_unsigned 65536 text)"

text \<open>\<open>text.rsplit('.').next()\<close>: what follows the last dot, or the whole.\<close>

definition last_label :: "string \<Rightarrow> string" where
  "last_label name = last (split_at CHR ''.'' name)"

definition is_plain_label :: "string \<Rightarrow> bool" where
  "is_plain_label label \<longleftrightarrow>
     1 \<le> length label \<and> length label \<le> 63 \<and> hd label \<noteq> CHR ''-'' \<and> last label \<noteq> CHR ''-'' \<and>
     list_all (\<lambda>b. is_ascii_lowercase b \<or> is_ascii_digit b \<or> b = CHR ''-'') label"

definition read_host_name :: "string \<Rightarrow> host option" where
  "read_host_name name =
     (if list_all is_ascii_digit (last_label name) \<or> strip_prefix ''0x'' (last_label name) \<noteq> None
      then Option.bind (parse_ipv4 name) (\<lambda>address. if show_ip address = name then Some (Host_address address) else None)
      else if length name \<le> 253 \<and> list_all is_plain_label (split_at CHR ''.'' name) then Some (Host_name name)
      else None)"

definition read_authority :: "string \<Rightarrow> (host \<times> nat option) option" where
  "read_authority authority =
     (case strip_prefix ''['' authority of
        Some rest \<Rightarrow>
          Option.bind (split_once CHR '']'' rest) (\<lambda>(inside, after).
          Option.bind (parse_ipv6 inside) (\<lambda>address.
          if is_mapped address \<or> show_ip address \<noteq> inside then None
          else if after = [] then Some (Host_address address, None)
          else map_option (\<lambda>port. (Host_address address, Some port))
            (Option.bind (strip_prefix '':'' after) read_port)))
      | None \<Rightarrow>
          (case split_once CHR '':'' authority of
             Some (name, port) \<Rightarrow>
               Option.bind (read_port port) (\<lambda>port. map_option (\<lambda>host. (host, Some port)) (read_host_name name))
           | None \<Rightarrow> map_option (\<lambda>host. (host, None)) (read_host_name authority)))"

definition is_loopback :: "host \<Rightarrow> bool" where
  "is_loopback host =
     (case host of
        Host_name name \<Rightarrow> name = ''localhost''
      | Host_address address \<Rightarrow> address = V4 127 0 0 1 \<or> address = V6 0 0 0 0 0 0 0 1)"

definition parse_public_origin :: "string \<Rightarrow> public_origin_error + string" where
  "parse_public_origin text =
     (case (case strip_prefix ''https://'' text of
              Some rest \<Rightarrow> Some (True, rest)
            | None \<Rightarrow> map_option (Pair False) (strip_prefix ''http://'' text)) of
        None \<Rightarrow> Err Origin_unreadable
      | Some (secure, authority) \<Rightarrow>
          (case read_authority authority of
             None \<Rightarrow> Err Origin_unreadable
           | Some (host, port) \<Rightarrow>
               if port = Some (if secure then 443 else 80) then Err DefaultPort
               else if \<not> secure \<and> \<not> is_loopback host then Err ClearToRemoteHost
               else Ok text))"

subsection \<open>Ranges of addresses\<close>

record address_range =
  range_network :: ip_addr
  range_prefix :: nat

datatype address_range_error = Range_unreadable | NotItsStart | TooWide

definition SHORTEST_PREFIX :: nat where "SHORTEST_PREFIX = 8"

definition is_ipv4 :: "ip_addr \<Rightarrow> bool" where
  "is_ipv4 address = (case address of V4 _ _ _ _ \<Rightarrow> True | V6 _ _ _ _ _ _ _ _ \<Rightarrow> False)"

fun to_bits :: "ip_addr \<Rightarrow> 128 word" where
  "to_bits (V4 a b c d) = of_nat (((a * 256 + b) * 256 + c) * 256 + d)"
| "to_bits (V6 a b c d e f g h) = of_nat (foldl (\<lambda>acc n. acc * 65536 + n) 0 [a, b, c, d, e, f, g, h])"

text \<open>\<open>u128::MAX.checked_shl(host_bits).unwrap_or(0)\<close>, then a conjunction of bits.\<close>

definition mask_address :: "address_range \<Rightarrow> ip_addr \<Rightarrow> 128 word option" where
  "mask_address r address =
     (if is_ipv4 address \<noteq> is_ipv4 (range_network r) then None
      else
        let host_bits = (if is_ipv4 (range_network r) then 32 else 128) - range_prefix r;
            netmask = (if host_bits < 128 then push_bit host_bits (- 1) else 0) in
        Some (to_bits address AND netmask))"

definition contains :: "address_range \<Rightarrow> ip_addr \<Rightarrow> bool" where
  "contains r address \<longleftrightarrow> mask_address r (to_canonical address) = Some (to_bits (range_network r))"

definition read_prefix :: "nat \<Rightarrow> string option \<Rightarrow> nat option" where
  "read_prefix bits written =
     (case written of
        None \<Rightarrow> Some bits
      | Some text \<Rightarrow>
          if text = [] \<or> 3 < length text \<or> 1 < length text \<and> hd text = CHR ''0'' \<or> \<not> list_all is_ascii_digit text
          then None else parse_unsigned 256 text)"

definition parse_range :: "string \<Rightarrow> address_range_error + address_range" where
  "parse_range text =
     (let (address, written) = (case split_once CHR ''/'' text of None \<Rightarrow> (text, None) | Some (a, p) \<Rightarrow> (a, Some p)) in
      case parse_ip address of
        None \<Rightarrow> Err Range_unreadable
      | Some network \<Rightarrow>
          if is_mapped network then Err Range_unreadable
          else
            let bits = (if is_ipv4 network then 32 else 128) in
            (case read_prefix bits written of
               None \<Rightarrow> Err Range_unreadable
             | Some n \<Rightarrow>
                 if bits < n then Err Range_unreadable
                 else if n < SHORTEST_PREFIX then Err TooWide
                 else
                   let r = \<lparr>range_network = network, range_prefix = n\<rparr> in
                   if mask_address r network \<noteq> Some (to_bits network) then Err NotItsStart else Ok r))"

subsection \<open>The caller\<close>

definition is_trusted :: "address_range list \<Rightarrow> ip_addr \<Rightarrow> bool" where
  "is_trusted trusted address \<longleftrightarrow> list_ex (\<lambda>r. contains r address) trusted"

definition read_forwarded_entry :: "string \<Rightarrow> ip_addr option" where
  "read_forwarded_entry entry =
     (case parse_ip entry of
        Some address \<Rightarrow> Some address
      | None \<Rightarrow>
          (case parse_socket_ip entry of
             Some address \<Rightarrow> Some address
           | None \<Rightarrow>
               Option.bind (Option.bind (strip_prefix ''['' entry)
                   (\<lambda>rest. map_option rev (strip_prefix '']'' (rev rest)))) parse_ip))"

fun follow_back :: "address_range list \<Rightarrow> ip_addr \<Rightarrow> string list \<Rightarrow> ip_addr" where
  "follow_back trusted vouched_for [] = vouched_for"
| "follow_back trusted vouched_for (entry # entries) =
     (case read_forwarded_entry entry of
        None \<Rightarrow> vouched_for
      | Some address \<Rightarrow>
          if \<not> is_trusted trusted (to_canonical address) then to_canonical address
          else follow_back trusted (to_canonical address) entries)"

definition choose_caller :: "ip_addr \<Rightarrow> string list \<Rightarrow> address_range list \<Rightarrow> ip_addr" where
  "choose_caller peer forwarded trusted =
     (let peer = to_canonical peer in
      if \<not> is_trusted trusted peer then peer
      else follow_back trusted peer (rev (map trim (concat (map (split_at CHR '','') forwarded)))))"

text \<open>A header that is not text is left out; a connection under a test has no peer.\<close>

definition read_caller_address :: "address_range list \<Rightarrow> ip_addr option \<Rightarrow> string option list \<Rightarrow> ip_addr option" where
  "read_caller_address trusted peer sent =
     map_option (\<lambda>peer. choose_caller peer (List.map_filter id sent) trusted) peer"

definition REPORT_EVERY_SECONDS :: nat where "REPORT_EVERY_SECONDS = 60"

text \<open>One turn is taken under the exchange: the answer, and the instant kept.\<close>

definition is_report_due :: "nat \<Rightarrow> nat \<Rightarrow> bool \<times> nat" where
  "is_report_due before at = (if REPORT_EVERY_SECONDS \<le> at - before then (True, at) else (False, before))"

subsection \<open>IPv4 addresses read back\<close>

lemma digit_value_digit [simp]: "d < 10 \<Longrightarrow> digit_value (digit d) = d"
  using is_ascii_digit_iff by (auto simp: digit_value_def digit_def byte_def)

lemma is_digit_of_ten: "is_digit_of 10 c \<longleftrightarrow> is_ascii_digit c"
proof (cases "is_ascii_digit c")
  case True
  then obtain d where "d < 10" "c = digit d" using is_ascii_digit_iff by blast
  with True show ?thesis by (simp add: is_digit_of_def)
next
  case False
  then show ?thesis by (auto simp: is_digit_of_def digit_value_def less_eq_char_def)
qed

lemma number_of_decimal: "list_all is_ascii_digit ds \<Longrightarrow> number_of 10 ds = decimal ds"
proof (induction ds rule: rev_induct)
  case (snoc c ds)
  then obtain d where "d < 10" "c = digit d" using is_ascii_digit_iff by auto
  with snoc show ?case by (simp add: number_of_def decimal_def) (simp add: digit_def byte_def)
qed (simp add: number_of_def)

lemma no_leading_zero: "n \<noteq> 0 \<Longrightarrow> hd (show_nat n) \<noteq> CHR ''0''"
proof (induction n rule: show_nat.induct)
  case (1 n)
  show ?case
  proof (cases "n < 10")
    case True
    then have "of_char (digit n) = 48 + n" by (simp add: digit_def byte_def)
    then have "digit n \<noteq> CHR ''0''" using "1.prems" by auto
    with True show ?thesis by (subst show_nat.simps) simp
  next
    case False
    with 1 show ?thesis using show_nat_digits [of "n div 10"] by (subst show_nat.simps) simp
  qed
qed

lemma read_octet_shown:
  assumes "n < 256" and "rest = [] \<or> \<not> is_ascii_digit (hd rest)"
  shows "read_octet (show_nat n @ rest) = Some (n, rest)"
proof -
  have ds: "list_all is_ascii_digit (show_nat n)" "decimal (show_nat n) = n" "show_nat n \<noteq> []"
    using show_nat_digits by blast+
  have len: "length (show_nat n) \<le> 3" using assms(1) length_show_nat [of n 3] by simp
  have "takeWhile is_ascii_digit (show_nat n @ rest) = show_nat n" "dropWhile is_ascii_digit (show_nat n @ rest) = rest"
    using ds(1) assms(2) by (cases rest; auto simp: takeWhile_append dropWhile_append list_all_iff)+
  moreover have "hd (show_nat n) \<noteq> CHR ''0'' \<or> length (show_nat n) = 1"
    using no_leading_zero [of n] show_nat_zero by (cases "n = 0") auto
  moreover have "is_digit_of 10 = is_ascii_digit" using is_digit_of_ten by blast
  ultimately show ?thesis
    using ds len assms(1) by (auto simp: read_octet_def read_number_def number_of_decimal Let_def)
qed

lemma parse_shown_ipv4:
  assumes "a < 256" "b < 256" "c < 256" "d < 256"
  shows "parse_ip (show_ipv4 a b c d) = Some (V4 a b c d)"
proof -
  have stop: "\<not> is_ascii_digit CHR ''.''" by (simp add: is_ascii_digit_def less_eq_char_def)
  have "read_ipv4 (show_ipv4 a b c d) = Some ((a, b, c, d), [])"
    using assms read_octet_shown [of a "''.'' @ show_nat b @ ''.'' @ show_nat c @ ''.'' @ show_nat d"]
      read_octet_shown [of b "''.'' @ show_nat c @ ''.'' @ show_nat d"] read_octet_shown [of c "''.'' @ show_nat d"]
      read_octet_shown [of d "[]"]
    by (simp add: read_ipv4_def show_ipv4_def read_separated_def stop)
  then show ?thesis by (simp add: parse_ip_def read_ip_def whole_def)
qed

subsection \<open>What a range holds\<close>

lemma masked_eq_iff:
  assumes "y AND push_bit h (- 1) = (y :: 128 word)"
  shows "x AND push_bit h (- 1) = y \<longleftrightarrow> drop_bit h x = drop_bit h y"
proof
  assume "x AND push_bit h (- 1) = y"
  then have "drop_bit h y = drop_bit h (x AND push_bit h (- 1))" by simp
  also have "\<dots> = drop_bit h x"
    by (rule bit_word_eqI) (auto simp: bit_drop_bit_eq bit_and_iff bit_not_iff bit_mask_iff dest: bit_imp_le_length)
  finally show "drop_bit h x = drop_bit h y" by simp
next
  assume same: "drop_bit h x = drop_bit h y"
  have "bit x n = bit y n" if "h \<le> n" for n
    using arg_cong [OF same, of "\<lambda>w. bit w (n - h)"] that by (simp add: bit_drop_bit_eq)
  then have "x AND push_bit h (- 1) = y AND push_bit h (- 1)"
    by (intro bit_word_eqI) (auto simp: bit_and_iff bit_not_iff bit_mask_iff)
  with assms show "x AND push_bit h (- 1) = y" by simp
qed

lemma contains_iff:
  assumes "parse_range text = Ok r"
  shows "contains r address \<longleftrightarrow> is_ipv4 (to_canonical address) = is_ipv4 (range_network r) \<and>
    (let h = (if is_ipv4 (range_network r) then 32 else 128) - range_prefix r in
     drop_bit h (to_bits (to_canonical address)) = drop_bit h (to_bits (range_network r)))"
proof -
  let ?h = "(if is_ipv4 (range_network r) then 32 else 128) - range_prefix r"
  have "8 \<le> range_prefix r" "mask_address r (range_network r) = Some (to_bits (range_network r))"
    using assms by (auto simp: parse_range_def SHORTEST_PREFIX_def Let_def split: prod.splits option.splits if_splits)
  then have small: "?h < 128" and start: "to_bits (range_network r) AND push_bit ?h (- 1) = to_bits (range_network r)"
    by (auto simp: mask_address_def Let_def split: if_splits)
  show ?thesis
    using masked_eq_iff [OF start, of "to_bits (to_canonical address)"] small
    by (auto simp: contains_def mask_address_def Let_def)
qed

subsection \<open>What a caller may write\<close>

lemma split_at_joined: "split_at c (a @ c # b) = split_at c a @ split_at c b"
  by (induction a) (auto split: list.split)

definition forwarded_entries :: "string list \<Rightarrow> string list" where
  "forwarded_entries forwarded = map trim (concat (map (split_at CHR '','') forwarded))"

lemma trim_ascii:
  assumes "list_all (\<lambda>c. byte_of c < 128) t" and "t \<noteq> []" and "\<not> is_whitespace (byte_of (hd t))" and "\<not> is_whitespace (byte_of (last t))"
  shows "trim t = t" "trim (CHR '' '' # t) = t"
proof -
  have "dropWhile is_whitespace (map byte_of t) = map byte_of t"
    "dropWhile is_whitespace (rev (map byte_of t)) = rev (map byte_of t)"
    using assms by (simp_all add: dropWhile_eq_self_iff hd_map last_map hd_rev)
  moreover have "list_all (\<lambda>c. byte_of c < 128) (CHR '' '' # t)" "is_whitespace (byte_of CHR '' '')"
    using assms(1) by (simp_all add: byte_of_def is_whitespace_def)
  ultimately show "trim t = t" "trim (CHR '' '' # t) = t"
    using chars_ascii [OF assms(1)] chars_ascii [of "CHR '' '' # t"] by (simp_all add: trim_def)
qed

text \<open>An entry the way back stops at: one that is no address, or that of a machine that is no proxy.\<close>

definition stops_at :: "address_range list \<Rightarrow> string \<Rightarrow> bool" where
  "stops_at trusted entry =
     (case read_forwarded_entry entry of None \<Rightarrow> True | Some address \<Rightarrow> \<not> is_trusted trusted (to_canonical address))"

lemma follow_back_stops: "list_ex (stops_at trusted) entries \<Longrightarrow> follow_back trusted v (entries @ left) = follow_back trusted v entries"
  by (induction entries arbitrary: v) (auto simp: stops_at_def split: option.split)

lemma follow_back_vouched:
  "follow_back trusted v entries = v \<or>
   (\<exists>seen entry left. entries = seen @ entry # left \<and> map_option to_canonical (read_forwarded_entry entry) = Some (follow_back trusted v entries) \<and>
      list_all (\<lambda>e. \<not> stops_at trusted e) seen)"
proof (induction entries arbitrary: v)
  case (Cons entry entries)
  show ?case
  proof (cases "read_forwarded_entry entry")
    case (Some address)
    show ?thesis
    proof (cases "is_trusted trusted (to_canonical address)")
      case True
      have here: "\<not> stops_at trusted entry" using Some True by (simp add: stops_at_def)
      from Cons.IH [of "to_canonical address"] show ?thesis
      proof
        assume "follow_back trusted (to_canonical address) entries = to_canonical address"
        with Some True show ?thesis by (intro disjI2 exI [of _ "[] :: string list"] exI [of _ entry] exI [of _ entries]) simp
      next
        assume "\<exists>seen e left. entries = seen @ e # left \<and>
          map_option to_canonical (read_forwarded_entry e) = Some (follow_back trusted (to_canonical address) entries) \<and>
          list_all (\<lambda>e. \<not> stops_at trusted e) seen"
        then obtain seen e left where "entries = seen @ e # left"
          "map_option to_canonical (read_forwarded_entry e) = Some (follow_back trusted (to_canonical address) entries)"
          "list_all (\<lambda>e. \<not> stops_at trusted e) seen" by blast
        with Some True here show ?thesis by (intro disjI2 exI [of _ "entry # seen"] exI [of _ e] exI [of _ left]) simp
      qed
    qed (use Some in \<open>intro disjI2 exI [of _ "[] :: string list"] exI [of _ entry] exI [of _ entries], simp\<close>)
  qed simp
qed simp

text \<open>
  C20: an address that is made up is never believed. Whatever a caller writes in front of what the proxies
  append to the header of forwarded addresses, the address it is counted under is the same: the peer
  when the peer is no proxy, and else what the way back from the proxy nearest to the deployment
  stops at, as soon as it meets an entry that is not the address of a proxy.
\<close>

theorem planted_addresses_are_not_believed:
  assumes "list_ex (stops_at trusted) (forwarded_entries (seen # later))"
  shows "choose_caller peer ((planted @ CHR '','' # seen) # later) trusted = choose_caller peer (seen # later) trusted"
  using follow_back_stops [of trusted "rev (forwarded_entries (seen # later))" "to_canonical peer"
      "rev (map trim (split_at CHR '','' planted))"] assms
  by (auto simp: choose_caller_def forwarded_entries_def split_at_joined Let_def list_ex_rev)

theorem planted_addresses_are_not_believed_witness:
  "choose_caller (V4 10 0 0 1) [''198.51.100.1'' @ CHR '','' # ''203.0.113.7, 10.0.0.2'']
     [\<lparr>range_network = V4 10 0 0 0, range_prefix = 8\<rparr>] = V4 203 0 113 7"
proof -
  let ?trusted = "[\<lparr>range_network = V4 10 0 0 0, range_prefix = 8\<rparr>]"
  have shown: "trim ''203.0.113.7'' = ''203.0.113.7''" "trim '' 10.0.0.2'' = ''10.0.0.2''"
    by (rule trim_ascii; simp add: byte_of_def is_whitespace_def)+
  have read: "read_forwarded_entry ''203.0.113.7'' = Some (V4 203 0 113 7)" "read_forwarded_entry ''10.0.0.2'' = Some (V4 10 0 0 2)"
    by (simp_all add: read_forwarded_entry_def parse_ip_def read_ip_def read_ipv4_def read_octet_def read_separated_def
        read_number_def is_digit_of_def digit_value_def number_of_def is_ascii_digit_def less_eq_char_def whole_def)
  have trusting: "is_trusted ?trusted (V4 10 0 0 1)" "is_trusted ?trusted (V4 10 0 0 2)" "\<not> is_trusted ?trusted (V4 203 0 113 7)"
    by (simp_all add: is_trusted_def contains_def mask_address_def is_ipv4_def mask_eq_exp_minus_1)
  have "list_ex (stops_at ?trusted) (forwarded_entries [''203.0.113.7, 10.0.0.2''])"
    using shown read trusting by (simp add: forwarded_entries_def stops_at_def)
  moreover have "choose_caller (V4 10 0 0 1) [''203.0.113.7, 10.0.0.2''] ?trusted = V4 203 0 113 7"
    using shown read trusting by (simp add: choose_caller_def)
  ultimately show ?thesis using planted_addresses_are_not_believed [of ?trusted "''203.0.113.7, 10.0.0.2''" "[]"] by metis
qed

text \<open>An origin taken is the text itself, over TLS or of this machine, without the default port.\<close>

lemma strip_prefix_Some: "strip_prefix p t = Some rest \<longleftrightarrow> t = p @ rest"
  by (induction p t rule: strip_prefix.induct) auto

lemma accepted_origins:
  assumes "parse_public_origin text = Ok origin"
  shows "origin = text \<and> (\<exists>host port authority. read_authority authority = Some (host, port) \<and>
    (text = ''https://'' @ authority \<and> port \<noteq> Some 443 \<or> text = ''http://'' @ authority \<and> is_loopback host \<and> port \<noteq> Some 80))"
  using assms unfolding parse_public_origin_def
  by (auto simp del: append.simps simp: strip_prefix_Some split: option.splits prod.splits if_splits)

end
