(* ===== verification/Requests.thy ===== *)
theory Requests
  imports Addresses
begin

text \<open>
  What the server reads of the headers of a request: the credentials of a client
  (\<open>server/src/extract/client_credentials.rs\<close>) and the cookies (\<open>server/src/extract/cookies.rs\<close>). The
  base64 of a third party is a parameter.

  The lemmas show that credentials written as the protocol has them read back, that
  credentials are taken from one place only, and that a cookie is believed when it is sent once. They also
  show that an escape with a sign is taken.
\<close>

subsection \<open>Form components\<close>

text \<open>\<open>u8::from_str_radix\<close> on two bytes, in base sixteen: a sign may stand before a digit.\<close>

definition from_hex :: "char \<Rightarrow> char \<Rightarrow> nat option" where
  "from_hex a b =
     (if a = CHR ''+'' then (if digit_value b < 16 then Some (digit_value b) else None)
      else if digit_value a < 16 \<and> digit_value b < 16 then Some (digit_value a * 16 + digit_value b)
      else None)"

fun decode_bytes :: "string \<Rightarrow> bytes option" where
  "decode_bytes [] = Some []"
| "decode_bytes (first # rest) =
     (if first = CHR ''+'' then map_option (Cons CHR '' '') (decode_bytes rest)
      else if first = CHR ''%'' then
        (case rest of
           a # b # tail \<Rightarrow>
             (case from_hex a b of
                None \<Rightarrow> None
              | Some v \<Rightarrow> map_option (Cons (byte v)) (decode_bytes tail))
         | _ \<Rightarrow> None)
      else map_option (Cons first) (decode_bytes rest))"

definition decode_form_component :: "string \<Rightarrow> string option" where
  "decode_form_component encoded = filter_option is_utf8 (decode_bytes encoded)"

subsection \<open>Credentials\<close>

definition decode_basic_scheme :: "(string \<Rightarrow> bytes option) \<Rightarrow> string \<Rightarrow> (string \<times> string) option" where
  "decode_basic_scheme base64 header =
     Option.bind (split_once CHR '' '' header) (\<lambda>(scheme, encoded).
     if to_ascii_lowercase scheme \<noteq> ''basic'' then None
     else
       Option.bind (filter_option is_utf8 (base64 (trim encoded))) (\<lambda>decoded.
       Option.bind (split_once CHR '':'' decoded) (\<lambda>(client, secret).
       Option.bind (decode_form_component client) (\<lambda>client.
       map_option (Pair client) (decode_form_component secret)))))"

datatype 'a presented = Nothing_presented | Credentials 'a | Unusable

text \<open>The header as it is sent: absent, not text, or text.\<close>

definition read_basic_header :: "(string \<Rightarrow> bytes option) \<Rightarrow> string option option \<Rightarrow> (string \<times> bytes) presented" where
  "read_basic_header base64 header =
     (case header of
        None \<Rightarrow> Nothing_presented
      | Some value \<Rightarrow>
          (case Option.bind value (decode_basic_scheme base64) of
             None \<Rightarrow> Unusable
           | Some credentials \<Rightarrow> Credentials credentials))"

record client_identity =
  presented_client_id :: "string option"
  presented_secret :: "bytes option"
  asked_with_basic :: bool

datatype unreadable_identity = TwoMethods | UnusableHeader

definition read_client_identity :: "(string \<Rightarrow> bytes option) \<Rightarrow> string option option \<Rightarrow> string option \<Rightarrow> string option \<Rightarrow>
    unreadable_identity + client_identity" where
  "read_client_identity base64 header form_client_id form_secret =
     (case read_basic_header base64 header of
        Credentials (client, secret) \<Rightarrow>
          if form_secret \<noteq> None then Err TwoMethods
          else Ok \<lparr>presented_client_id = Some client, presented_secret = Some secret, asked_with_basic = True\<rparr>
      | Unusable \<Rightarrow> if form_secret \<noteq> None then Err TwoMethods else Err UnusableHeader
      | Nothing_presented \<Rightarrow>
          Ok \<lparr>presented_client_id = form_client_id, presented_secret = form_secret, asked_with_basic = False\<rparr>)"

subsection \<open>Cookies\<close>

definition is_served_over_tls :: "app \<Rightarrow> bool" where
  "is_served_over_tls app \<longleftrightarrow> strip_prefix ''https://'' (app_public_origin app) \<noteq> None"

definition choose_prefix :: "bool \<Rightarrow> string" where
  "choose_prefix secure = (if secure then ''__Host-'' else [])"

definition name_session_cookie :: "string \<Rightarrow> bool \<Rightarrow> string" where
  "name_session_cookie realm secure = choose_prefix secure @ ''saffui_session_'' @ realm"

definition name_flow_cookie :: "app \<Rightarrow> uuid \<Rightarrow> bool \<Rightarrow> string" where
  "name_flow_cookie app request secure = choose_prefix secure @ ''saffui_flow_'' @ app_uuid_text app request"

definition name_device_cookie :: "string \<Rightarrow> bool \<Rightarrow> string" where
  "name_device_cookie realm secure = choose_prefix secure @ ''saffui_mark_'' @ realm"

definition find_cookies :: "string \<Rightarrow> string \<Rightarrow> string list" where
  "find_cookies name header =
     List.map_filter (\<lambda>pair.
       case split_once CHR ''='' (trim pair) of
         Some (key, value) \<Rightarrow> if key = name then Some value else None
       | None \<Rightarrow> None) (split_at CHR '';'' header)"

definition read_cookie :: "string option list \<Rightarrow> string \<Rightarrow> string option" where
  "read_cookie sent name =
     (case concat (map (find_cookies name) (List.map_filter id sent)) of
        [only] \<Rightarrow> Some only
      | _ \<Rightarrow> None)"

definition write_cookie :: "string \<Rightarrow> string \<Rightarrow> int option \<Rightarrow> bool \<Rightarrow> string" where
  "write_cookie name value max_age secure =
     name @ ''='' @ value @ ''; Path=/'' @
     (case max_age of None \<Rightarrow> [] | Some seconds \<Rightarrow> ''; Max-Age='' @ show_int seconds) @
     ''; HttpOnly; SameSite=Lax'' @ (if secure then ''; Secure'' else [])"

subsection \<open>What reads back\<close>

lemma hex_value:
  assumes "n < 16"
  shows "digit_value (hex_digit_upper n) = n" "hex_digit_upper n \<noteq> CHR ''+''"
proof -
  have written: "of_char (hex_digit_upper n) = (if n < 10 then 48 + n else 55 + n)"
    using assms by (simp add: hex_digit_upper_def)
  then show "digit_value (hex_digit_upper n) = n"
    using assms by (simp add: digit_value_def is_ascii_digit_def less_eq_char_def)
  show "hex_digit_upper n \<noteq> CHR ''+''"
  proof
    assume "hex_digit_upper n = CHR ''+''"
    then have "of_char (hex_digit_upper n) = (43 :: nat)" by simp
    with written show False by (simp split: if_splits)
  qed
qed

lemma byte_splits: "byte (of_char c div 16 * 16 + of_char c mod 16) = c"
  by (simp add: byte_def)

lemma decode_escaped:
  "decode_bytes (CHR ''%'' # hex_digit_upper (of_char c div 16) # hex_digit_upper (of_char c mod 16) # rest) =
     map_option (Cons c) (decode_bytes rest)"
proof -
  have small: "of_char c div 16 < (16 :: nat)" "of_char c mod 16 < (16 :: nat)"
    by (simp_all add: less_mult_imp_div_less)
  from hex_value [OF small(1)] hex_value [OF small(2)] byte_splits [of c] small show ?thesis
    by (simp add: from_hex_def)
qed

lemma decode_percent_encoded: "decode_bytes (percent_encode bs) = Some bs"
proof (induction bs)
  case (Cons c bs)
  have "c \<noteq> CHR ''+'' \<and> c \<noteq> CHR ''%''" if "is_unreserved c"
    using that by (auto simp: is_unreserved_def is_ascii_alphanumeric_def is_ascii_lowercase_def is_ascii_uppercase_def
        is_ascii_digit_def less_eq_char_def)
  moreover have "percent_encode (c # bs) = (if is_unreserved c then [c]
      else [CHR ''%'', hex_digit_upper (of_char c div 16), hex_digit_upper (of_char c mod 16)]) @ percent_encode bs"
    by (simp add: percent_encode_def)
  ultimately show ?case
    using Cons decode_escaped [of c "percent_encode bs"] by (cases "is_unreserved c") simp_all
qed (simp add: percent_encode_def)

lemma percent_encoded_ascii: "list_all (\<lambda>c. byte_of c < 128 \<and> c \<noteq> CHR '':'') (percent_encode bs)"
proof -
  have "byte_of c < 128 \<and> c \<noteq> CHR '':''" if "is_unreserved c" for c
    using that by (auto simp: is_unreserved_def is_ascii_alphanumeric_def is_ascii_lowercase_def is_ascii_uppercase_def
        is_ascii_digit_def less_eq_char_def byte_of_def)
  moreover have "byte_of (hex_digit_upper n) < 128 \<and> hex_digit_upper n \<noteq> CHR '':''" if "n < 16" for n
  proof -
    have written: "byte_of (hex_digit_upper n) = (if n < 10 then 48 + n else 55 + n)"
      using that by (simp add: hex_digit_upper_def byte_of_def)
    have "False" if "hex_digit_upper n = CHR '':''"
    proof -
      from that have "byte_of (hex_digit_upper n) = 58" by (simp add: byte_of_def)
      with written show False by (simp split: if_splits)
    qed
    with written that show ?thesis by auto
  qed
  ultimately show ?thesis
    by (auto simp: percent_encode_def list_all_iff byte_of_def less_mult_imp_div_less)
qed

lemma written_pair_ascii:
  "list_all (\<lambda>c. byte_of c < 128) (percent_encode client @ '':'' @ percent_encode secret)"
  using percent_encoded_ascii [of client] percent_encoded_ascii [of secret] by (auto simp: list_all_iff byte_of_def)

lemma decode_written_component: "is_utf8 t \<Longrightarrow> decode_form_component (percent_encode t) = Some t"
  by (simp add: decode_form_component_def decode_percent_encoded)

lemma basic_lowercase: "to_ascii_lowercase ''Basic'' = ''basic''"
  by (simp add: to_ascii_lowercase_def is_ascii_uppercase_def less_eq_char_def char_of_def bit_0)

text \<open>
  C22: the credentials of a client read back from the Basic scheme. An identifier and a secret that are
  encoded as the protocol has it, joined by a colon and written in base64, are the ones the server reads, whatever
  bytes of text they hold, colons, signs and spaces included; with a secret in the form as well, the request is refused.
\<close>

theorem basic_credentials_read_back:
  assumes "\<And>x. list_all (\<lambda>c. byte_of c < 128) x \<Longrightarrow> base64 (trim (written x)) = Some x"
    and "is_utf8 client" and "is_utf8 secret"
  shows "read_client_identity base64
      (Some (Some (''Basic '' @ written (percent_encode client @ '':'' @ percent_encode secret)))) form_client form_secret =
    (if form_secret = None
     then Ok \<lparr>presented_client_id = Some client, presented_secret = Some secret, asked_with_basic = True\<rparr>
     else Err TwoMethods)"
proof -
  let ?pair = "percent_encode client @ '':'' @ percent_encode secret"
  have utf8: "is_utf8 ?pair" by (rule ascii_is_utf8) (rule written_pair_ascii)
  have "CHR '':'' \<notin> set (percent_encode client)" using percent_encoded_ascii [of client] by (auto simp: list_all_iff)
  then have "split_once CHR '':'' ?pair = Some (percent_encode client, percent_encode secret)" by (simp add: split_once_Some)
  moreover have "split_once CHR '' '' (''Basic '' @ written ?pair) = Some (''Basic'', written ?pair)" by simp
  ultimately have "decode_basic_scheme base64 (''Basic '' @ written ?pair) = Some (client, secret)"
    using utf8 assms(1) [OF written_pair_ascii [of client secret]] assms(2,3)
    by (simp add: decode_basic_scheme_def basic_lowercase decode_written_component)
  then show ?thesis by (simp add: read_client_identity_def read_basic_header_def)
qed

theorem basic_credentials_read_back_witness:
  "read_client_identity (\<lambda>t. Some (butlast (tl t)))
      (Some (Some (''Basic '' @ (''.'' @ (percent_encode ''a:b'' @ '':'' @ percent_encode ''p w'') @ ''.'')))) None None =
    Ok \<lparr>presented_client_id = Some ''a:b'', presented_secret = Some ''p w'', asked_with_basic = True\<rparr>"
proof -
  have "(\<lambda>t. Some (butlast (tl t))) (trim (''.'' @ x @ ''.'')) = Some x" if "list_all (\<lambda>c. byte_of c < 128) x" for x
  proof -
    have "trim (''.'' @ x @ ''.'') = ''.'' @ x @ ''.''"
      using that by (intro trim_ascii) (auto simp: byte_of_def is_whitespace_def)
    then show ?thesis by simp
  qed
  moreover have "is_utf8 ''a:b''" "is_utf8 ''p w''" by (auto intro!: ascii_is_utf8 simp: byte_of_def)
  ultimately show ?thesis
    using basic_credentials_read_back [of "\<lambda>t. Some (butlast (tl t))" "\<lambda>x. ''.'' @ x @ ''.''" "''a:b''" "''p w''" None None] by simp
qed

text \<open>An escape with a sign before its one digit is taken for the byte of that digit.\<close>

lemma signed_escapes_are_taken: "decode_form_component ''%+f'' = Some [byte 15]"
proof -
  have "is_utf8 [byte 15]" by (rule ascii_is_utf8) simp
  then show ?thesis
    by (simp add: decode_form_component_def from_hex_def digit_value_def is_ascii_digit_def less_eq_char_def)
qed

lemma find_cookies_append: "find_cookies name (a @ CHR '';'' # b) = find_cookies name a @ find_cookies name b"
  by (simp add: find_cookies_def split_at_joined map_filter_def)

text \<open>A cookie planted beside the real one, in its header or in another, silences it and is not believed.\<close>

lemma planted_cookies_are_not_believed:
  assumes "find_cookies name planted \<noteq> []" and "find_cookies name real \<noteq> []"
  shows "read_cookie [Some (planted @ CHR '';'' # real)] name = None" and "read_cookie [Some planted, Some real] name = None"
  using assms by (auto simp: read_cookie_def find_cookies_append List.map_filter_simps append_eq_Cons_conv split: list.split)

end
