(* ===== verification/Operations.thy ===== *)
theory Operations
  imports Requests
begin

text \<open>
  What keeps a deployment running: the plan of the migrations of the schema and the versions a
  binary serves (\<open>pgcore/src/migrate/plan.rs\<close>, \<open>window.rs\<close> and the loop of \<open>mod.rs\<close>), whether an instance
  takes traffic (\<open>saffui-core/src/readiness.rs\<close>), and what retention may remove (\<open>retention.rs\<close>). Running the text
  of a migration and the removal itself are statements of the database: the first is a parameter, the
  second is known by what its port promises.

  The lemmas show that what is applied is always a prefix of what the binary embeds, whatever
  migration fails, that an instance serves when all of it is applied, and that removing what retention
  names frees no name that is locked.
\<close>

subsection \<open>The plan of the migrations\<close>

record fingerprint =
  print_version :: int
  print_checksum :: bytes

datatype plan_error = EmbeddedOutOfOrder | Drift int | Ahead int | Gap int

text \<open>\<open>i32::try_from(position + 1) != Ok(version)\<close>\<close>

definition is_numbered :: "nat \<Rightarrow> fingerprint \<Rightarrow> bool" where
  "is_numbered position p \<longleftrightarrow> int (position + 1) < 2 ^ 31 \<and> int (position + 1) = print_version p"

fun check_numbers :: "nat \<Rightarrow> fingerprint list \<Rightarrow> plan_error + unit" where
  "check_numbers position [] = Ok ()"
| "check_numbers position (p # ps) =
     (if is_numbered position p then check_numbers (position + 1) ps else Err EmbeddedOutOfOrder)"

fun check_applied :: "fingerprint list \<Rightarrow> fingerprint list \<Rightarrow> plan_error + unit" where
  "check_applied embedded [] = Ok ()"
| "check_applied [] (done # applied) = Err (Ahead (print_version done))"
| "check_applied (found # embedded) (done # applied) =
     (if print_version done \<noteq> print_version found then Err (Gap (print_version found))
      else if print_checksum done \<noteq> print_checksum found then Err (Drift (print_version done))
      else check_applied embedded applied)"

definition plan_pending :: "fingerprint list \<Rightarrow> fingerprint list \<Rightarrow> plan_error + int list" where
  "plan_pending embedded applied =
     (case check_numbers 0 embedded of
        Err e \<Rightarrow> Err e
      | Ok _ \<Rightarrow>
          (case check_applied embedded applied of
             Err e \<Rightarrow> Err e
           | Ok _ \<Rightarrow> Ok (map print_version (drop (length applied) embedded))))"

subsection \<open>Applying them\<close>

datatype migrate_error = Plan_refused plan_error | Failed_migration int

text \<open>
  The loop of \<open>apply_under_lock\<close> over the history: each migration runs in a transaction of its own and is
  recorded with it, and the first that fails is rolled back and ends the run. Whether its text runs is
  told by the database.
\<close>

fun apply_each :: "(int \<Rightarrow> bool) \<Rightarrow> fingerprint list \<Rightarrow> int list \<Rightarrow> fingerprint list \<Rightarrow>
    (migrate_error + unit) \<times> fingerprint list" where
  "apply_each runs embedded [] history = (Ok (), history)"
| "apply_each runs embedded (version # versions) history =
     (case find (\<lambda>p. print_version p = version) embedded of
        None \<Rightarrow> (Err (Plan_refused EmbeddedOutOfOrder), history)
      | Some p \<Rightarrow>
          if runs version then apply_each runs embedded versions (history @ [p])
          else (Err (Failed_migration version), history))"

text \<open>\<open>SELECT COALESCE(max(version), 0)\<close>\<close>

definition read_schema_version :: "fingerprint list \<Rightarrow> int" where
  "read_schema_version history = foldr (\<lambda>p. max (print_version p)) history 0"

record migration_report =
  report_applied :: "int list"
  report_schema_version :: int

definition apply_under_lock :: "(int \<Rightarrow> bool) \<Rightarrow> fingerprint list \<Rightarrow> fingerprint list \<Rightarrow>
    (migrate_error + migration_report) \<times> fingerprint list" where
  "apply_under_lock runs embedded history =
     (case plan_pending embedded history of
        Err e \<Rightarrow> (Err (Plan_refused e), history)
      | Ok pending \<Rightarrow>
          (case apply_each runs embedded pending history of
             (Err e, left) \<Rightarrow> (Err e, left)
           | (Ok _, left) \<Rightarrow>
               (Ok \<lparr>report_applied = pending, report_schema_version = read_schema_version left\<rparr>, left)))"

subsection \<open>The versions a binary serves\<close>

record schema_window =
  window_oldest :: int
  window_newest :: int

datatype schema_standing = Within | Behind | Ahead_of

definition of_exactly :: "fingerprint list \<Rightarrow> schema_window" where
  "of_exactly migrations =
     (let newest = (if migrations = [] then 0 else print_version (last migrations)) in
      \<lparr>window_oldest = newest, window_newest = newest\<rparr>)"

definition judge_version :: "schema_window \<Rightarrow> int \<Rightarrow> schema_standing" where
  "judge_version window version =
     (if version < window_oldest window then Behind
      else if window_newest window < version then Ahead_of else Within)"

subsection \<open>Readiness\<close>

datatype readiness = Ready | Draining | Storage_unready storage_unavailable

definition check_readiness :: "bool \<Rightarrow> ctx \<Rightarrow> readiness" where
  "check_readiness draining s =
     (if draining then Draining
      else case outage s of None \<Rightarrow> Ready | Some reason \<Rightarrow> Storage_unready reason)"

subsection \<open>Retention\<close>

definition FAILURE_COUNTERS_KEPT :: duration where
  "FAILURE_COUNTERS_KEPT = 2 * 24 * 60 * 60 * 1000000000"

definition CODES_KEPT :: duration where
  "CODES_KEPT = SESSION_LIFETIME"

record purge_cutoffs =
  expired_before :: instant
  codes_before :: instant
  counters_before :: instant

definition cutoffs_at :: "instant \<Rightarrow> purge_cutoffs" where
  "cutoffs_at t = \<lparr>expired_before = t, codes_before = t - CODES_KEPT, counters_before = t - FAILURE_COUNTERS_KEPT\<rparr>"

datatype purge_outcome = Purge_done | RowsLeft | Purge_failed

record table_purge =
  removed_rows :: nat
  purge_outcome :: purge_outcome

record purge_report =
  purged_requests :: table_purge
  purged_codes :: table_purge
  purged_tokens :: table_purge
  purged_sessions :: table_purge
  purged_browsers :: table_purge
  purged_counters :: table_purge
  purged_enrollments :: table_purge

definition list_tables :: "purge_report \<Rightarrow> (string \<times> table_purge) list" where
  "list_tables report =
     [(''pending_requests'', purged_requests report), (''codes'', purged_codes report),
      (''refresh_tokens'', purged_tokens report), (''sessions'', purged_sessions report),
      (''known_browsers'', purged_browsers report), (''failure_counters'', purged_counters report),
      (''key_enrollments'', purged_enrollments report)]"

definition run_retention_pass :: "(purge_cutoffs \<Rightarrow> 'b \<Rightarrow> 'r) \<Rightarrow> instant \<Rightarrow> 'b \<Rightarrow> 'r" where
  "run_retention_pass purge_expired t budget = purge_expired (cutoffs_at t) budget"

subsection \<open>What the plan keeps\<close>

lemma check_applied_iff: "check_applied embedded applied = Ok () \<longleftrightarrow> prefix applied embedded"
  by (induction embedded applied rule: check_applied.induct) (auto intro: fingerprint.equality)

lemma check_numbers_iff:
  "check_numbers k embedded = Ok () \<longleftrightarrow> (\<forall>i < length embedded. is_numbered (k + i) (embedded ! i))"
proof (induction k embedded rule: check_numbers.induct)
  case (2 k p ps)
  then show ?case by (auto simp: nth_Cons split: nat.splits)
qed simp

lemma plan_pending_iff:
  "plan_pending embedded applied = Ok pending \<longleftrightarrow>
     check_numbers 0 embedded = Ok () \<and> prefix applied embedded \<and> pending = map print_version (drop (length applied) embedded)"
  by (auto simp: plan_pending_def check_applied_iff [symmetric] split: sum.splits)

lemma found_by_number:
  assumes "check_numbers 0 embedded = Ok ()" and "i < length embedded"
  shows "find (\<lambda>p. print_version p = print_version (embedded ! i)) embedded = Some (embedded ! i)"
proof -
  have "print_version (embedded ! j) = int (j + 1)" if "j < length embedded" for j
    using assms(1) that by (auto simp: check_numbers_iff is_numbered_def)
  with assms(2) show ?thesis by (auto simp: find_Some_iff intro!: exI [of _ i])
qed

lemma apply_each_prefix:
  assumes "check_numbers 0 embedded = Ok ()" and "prefix history embedded"
  shows "case apply_each runs embedded (map print_version (drop (length history) embedded)) history of
     (Ok _, left) \<Rightarrow> left = embedded
   | (Err e, left) \<Rightarrow> (\<exists>v. e = Failed_migration v \<and> \<not> runs v) \<and> prefix history left \<and> strict_prefix left embedded"
  using assms(2)
proof (induction "length embedded - length history" arbitrary: history)
  case 0
  then have "history = embedded" by (auto simp: prefix_def)
  then show ?case by simp
next
  case (Suc n)
  then have short: "length history < length embedded" by simp
  let ?p = "embedded ! length history"
  have history: "history = take (length history) embedded"
    using Suc.prems by (auto simp: prefix_def)
  have rest: "drop (length history) embedded = ?p # drop (length (history @ [?p])) embedded"
    using short by (simp add: Cons_nth_drop_Suc)
  have found: "find (\<lambda>p. print_version p = print_version ?p) embedded = Some ?p"
    by (rule found_by_number [OF assms(1) short])
  have next_prefix: "prefix (history @ [?p]) embedded"
    using history short by (metis take_Suc_conv_app_nth take_is_prefix)
  show ?case
  proof (cases "runs (print_version ?p)")
    case True
    with rest found have step: "apply_each runs embedded (map print_version (drop (length history) embedded)) history =
        apply_each runs embedded (map print_version (drop (length (history @ [?p])) embedded)) (history @ [?p])" by simp
    have "n = length embedded - length (history @ [?p])" using Suc.hyps(2) by simp
    from Suc.hyps(1) [OF this next_prefix] show ?thesis
      unfolding step by (auto split: prod.splits sum.splits dest: append_prefixD)
  next
    case False
    with rest found Suc.prems short show ?thesis by (auto simp: strict_prefix_def)
  qed
qed

lemma fold_versions:
  assumes "check_numbers 0 embedded = Ok ()"
  shows "read_schema_version embedded = int (length embedded)"
  using assms
proof (induction embedded rule: rev_induct)
  case (snoc p ps)
  have each: "is_numbered i ((ps @ [p]) ! i)" if "i < Suc (length ps)" for i
    using snoc.prems that by (simp add: check_numbers_iff)
  have number: "print_version p = int (length ps) + 1" using each [of "length ps"] by (simp add: is_numbered_def)
  have "is_numbered i (ps ! i)" if "i < length ps" for i using each [of i] that by (simp add: nth_append)
  then have earlier: "check_numbers 0 ps = Ok ()" by (simp add: check_numbers_iff)
  have grown: "foldr (\<lambda>p. max (print_version p)) qs n = max (foldr (\<lambda>p. max (print_version p)) qs 0) n" if "0 \<le> n" for qs and n :: int
    using that by (induction qs) auto
  from snoc.IH [OF earlier] number grown [of "int (length ps) + 1" ps] show ?case by (simp add: read_schema_version_def)
qed (simp add: read_schema_version_def)

text \<open>
  Whatever migration fails, what is applied is what was applied before and the next of what is embedded, and nothing is
  applied to a history that is not the start of what is embedded. A run that ends leaves all of it applied, and then
  the binary serves.
\<close>

lemma migrations_apply_in_order:
  "case apply_under_lock runs embedded history of
     (Ok report, left) \<Rightarrow> left = embedded \<and> history @ drop (length history) embedded = embedded \<and>
       report_applied report = map print_version (drop (length history) embedded) \<and>
       judge_version (of_exactly embedded) (report_schema_version report) = Within
   | (Err (Plan_refused e), left) \<Rightarrow> left = history \<and> plan_pending embedded history = Err e
   | (Err (Failed_migration v), left) \<Rightarrow> \<not> runs v \<and> prefix history left \<and> strict_prefix left embedded"
proof (cases "plan_pending embedded history")
  case (Inr pending)
  then have plan: "check_numbers 0 embedded = Ok ()" "prefix history embedded"
    "pending = map print_version (drop (length history) embedded)"
    by (auto simp: plan_pending_iff)
  have "judge_version (of_exactly embedded) (read_schema_version embedded) = Within"
  proof (cases embedded rule: rev_cases)
    case (snoc ps p)
    have "print_version p = int (length ps) + 1"
      using plan(1) snoc by (force simp: check_numbers_iff is_numbered_def nth_append)
    with snoc fold_versions [OF plan(1)] show ?thesis by (simp add: of_exactly_def judge_version_def Let_def)
  qed (simp add: of_exactly_def judge_version_def read_schema_version_def)
  with Inr plan apply_each_prefix [OF plan(1,2), of runs] show ?thesis
    by (auto simp: apply_under_lock_def prefix_def split: prod.splits sum.splits)
qed (simp add: apply_under_lock_def)

subsection \<open>What retention keeps\<close>

text \<open>A counter a pass may remove is older than every window that reads it, now and later.\<close>

lemma purged_counters_are_not_read:
  assumes "t \<le> later" and "bucket < counters_before (cutoffs_at t)"
  shows "bucket < start_window later" and "bucket < start_long_window later"
  using assms windows_later [of later] by (simp_all add: cutoffs_at_def FAILURE_COUNTERS_KEPT_def)

lemma counts_survive:
  assumes "\<And>owner digest bucket n. ((owner, digest, bucket), n) \<in> set rows \<Longrightarrow> \<not> keep ((owner, digest, bucket), n) \<Longrightarrow> bucket < (since :: instant)"
  shows "sum_list (map snd (filter (\<lambda>((owner, digest, bucket), _ :: nat). owner = realm \<and> digest = counter \<and> since \<le> bucket) (filter keep rows))) =
    sum_list (map snd (filter (\<lambda>((owner, digest, bucket), _). owner = realm \<and> digest = counter \<and> since \<le> bucket) rows))"
proof -
  let ?counted = "\<lambda>((owner, digest, bucket), _ :: nat). owner = realm \<and> digest = counter \<and> since \<le> bucket"
  have "filter ?counted (filter keep rows) = filter ?counted rows"
    unfolding filter_filter by (rule filter_cong) (use assms in \<open>force simp: not_less [symmetric]\<close>)+
  then show ?thesis by simp
qed

text \<open>A lock is decided by the counters of its windows.\<close>

definition counted :: "unit_of_work \<Rightarrow> bytes \<Rightarrow> instant \<Rightarrow> nat" where
  "counted w counter since = sum_list (map snd (filter (\<lambda>((owner, known_digest, bucket), _).
     owner = uow_realm w \<and> known_digest = counter \<and> since \<le> bucket) (st_login_failures (working w)))) mod 2 ^ 32"

lemma lock_by_counters:
  assumes "opened s = Some w"
  shows "is_name_locked b t s =
    (Ok (case brake_browser b of
       Some browser \<Rightarrow> is_locked (counted w (browser_recent browser) (start_window t)) \<or>
         MAX_DAILY_FAILURES_PER_BROWSER \<le> counted w (browser_today browser) (start_long_window t)
     | None \<Rightarrow>
         (case brake_address_and_name b of
            Some by_both \<Rightarrow> is_locked (counted w by_both (start_window t)) \<or>
              MAX_RECENT_FAILURES_PER_NAME \<le> counted w (brake_name b) (start_window t)
          | None \<Rightarrow> is_locked (counted w (brake_name b) (start_window t))) \<or>
         MAX_DAILY_FAILURES \<le> counted w (brake_name_today b) (start_long_window t)), s)"
    (is "_ = (Ok ?locked, s)")
proof -
  have "wp (is_name_locked b t) (\<lambda>locked u. locked = ?locked \<and> u = s) (\<lambda>_ _. False) s"
    using assms
    by (auto simp: is_name_locked_def store_count_login_failures_def wp_on_work_reading [OF assms] counted_def Let_def
        split: option.split)
  then show ?thesis by (auto simp: wp_def split: prod.splits sum.splits)
qed

text \<open>A pass that removes of the counters only what it may answers the same to every question of a lock.\<close>

lemma retention_frees_no_lock:
  assumes "opened s = Some w" and "t \<le> later"
    and "\<And>owner digest bucket n. ((owner, digest, bucket), n) \<in> set (st_login_failures (working w)) \<Longrightarrow>
      \<not> keep ((owner, digest, bucket), n) \<Longrightarrow> bucket < counters_before (cutoffs_at t)"
    and "w' = w\<lparr>working := (working w)\<lparr>st_login_failures := filter keep (st_login_failures (working w))\<rparr>\<rparr>"
  shows "fst (is_name_locked b later (s\<lparr>opened := Some w'\<rparr>)) = fst (is_name_locked b later s)"
proof -
  have same: "counted w' counter since = counted w counter since"
    if "since = start_window later \<or> since = start_long_window later" for counter since
  proof -
    have "bucket < since" if "((owner, digest, bucket), n) \<in> set (st_login_failures (working w))" "\<not> keep ((owner, digest, bucket), n)"
      for owner digest bucket n
      using assms(3) [OF that] purged_counters_are_not_read [OF assms(2)] \<open>since = _ \<or> since = _\<close> by auto
    note rows = counts_survive [OF this, where rows = "st_login_failures (working w)" and keep = keep
        and realm = "uow_realm w" and counter = counter]
    show ?thesis
      unfolding assms(4) by (simp add: counted_def uow_realm_def rows [unfolded uow_realm_def] del: filter_filter)
  qed
  show ?thesis
    unfolding lock_by_counters [OF assms(1)] lock_by_counters [of "s\<lparr>opened := Some w'\<rparr>" w', simplified]
    by (simp add: same split: option.split)
qed

end
