(* ===== verification/Spec2Isabelle.thy ===== *)
theory Spec2Isabelle
  imports Soundness Granting Operations
begin

text \<open>
  Saffui, an identity provider with a point of decision: a verification of its core.

  \<^bold>\<open>The program.\<close> A tenant has realms; a realm has people, clients, keys, roles, groups, relations,
  policies and a chain of audit events. Clients and browsers reach it over HTTP: the protocol plane
  signs people in and gives tokens to clients, the administration plane changes a realm for clients
  that hold a capability, the point of decision answers whether a subject may act on an object.
  Every use case of the core (\<open>src/crates/saffui-core\<close>) is a function of the application
  (\<open>App\<close>: the ports to the storage, the clock, the random source, cryptography and the settings)
  and runs over units of work: it opens one on the scope of a realm, reads and writes a working copy,
  records what it did in the chain of the realm, and commits.

  \<^bold>\<open>The model.\<close> A use case is a function from a context to a result and the context after it: the
  context (\<open>ctx\<close>, theory \<open>Storage\<close>) holds what is committed, the unit of work in hand, whether the
  storage is away, and the counters the ports are asked under, so that two readings of the clock or two
  draws may differ. Errors are values of a sum (\<open>Err\<close> on the left), \<open>?\<close> is \<open>and_then\<close>. What is
  not under \<open>src\<close> or is third-party code is a field of the record \<open>app\<close>: SHA-256 and the comparison in
  constant time, signing and verifying, sealing, hashing of passwords, one-time codes and security keys, UUIDs, the
  forms of instants, JSON and base64. The storage is the in-memory storage of \<open>testkit/memory\<close>, which the repository
  checks against the same contract as its database adapter. Texts are lists of bytes (UTF-8); instants and 64-bit integers
  are integers with the bounds the code checks written out; digests of the test double are 64-bit words.

  \<^bold>\<open>The theories,\<close> in the order they build on each other:
  \<^item> \<open>Prelude\<close>: results and their composition, weakest preconditions and what a step keeps, ordered maps and texts.
  \<^item> \<open>Errors\<close> (\<open>error.rs\<close>, \<open>oidc/errors.rs\<close>), \<open>Texts\<close> (names, identifiers, redirect addresses), \<open>Json\<close>
    (\<open>audit/canonical.rs\<close>), \<open>Digest\<close> (\<open>testkit/digest.rs\<close>), \<open>Domain\<close> (the records the components share).
  \<^item> \<open>Storage\<close> (\<open>app.rs\<close>, \<open>ids.rs\<close>, \<open>testkit/memory/mod.rs\<close>, \<open>tenancy/resolve.rs\<close>): units of work, and rules for
    runs that only read, that write nothing or that commit nothing.
  \<^item> \<open>Audit_Chain\<close> (\<open>audit\<close>): appending and verifying; a chain verifies exactly when it is intact, a break is told
    where it is, and its head pins it.
    \<open>Audited\<close>: the interface of a use case that changes something only together with one event more.
  \<^item> \<open>Directory\<close>, \<open>Authz_Store\<close>, \<open>Token_Store\<close>, \<open>Login_Store\<close>: the tables of the storage and what each operation does.
  \<^item> \<open>Schema\<close>, \<open>Compiler\<close> (\<open>authz/relations/schema.rs\<close>): the schema language, its lexer, parser and compiler.
    The parser ends on every text, cycles are found exactly, and what compiles is sound.
  \<^item> \<open>Walk\<close> (\<open>authz/relations/check.rs\<close>): the bounded walk, and that it tells what the relations say within its bounds.
  \<^item> \<open>Roles\<close>, \<open>Relations\<close>, \<open>Policy\<close> (\<open>authz\<close>): the use cases of administrators, each with what it leaves
    and the invariant of its tables; policies weigh in three values and a denial wins.
  \<^item> \<open>Tokens\<close>, \<open>Oidc\<close> (\<open>tokens\<close>, \<open>keys\<close>, \<open>oidc/token.rs\<close>, \<open>refresh.rs\<close>, \<open>revoke.rs\<close>, \<open>pkce.rs\<close>): what is minted
    reads back, a code and a refresh token are spent once, a replay takes the family back.
  \<^item> \<open>Decide\<close> (\<open>authz/decide.rs\<close>, \<open>shares.rs\<close>, \<open>admin.rs\<close>): the point of decision and the guard of the administration plane.
  \<^item> \<open>Provisioning\<close>, \<open>Sessions\<close>, \<open>Brake\<close>, \<open>Sign_In\<close>, \<open>Enroll\<close> (\<open>tenancy/realm.rs\<close>, \<open>clients\<close>, \<open>directory\<close>, \<open>keys/generate.rs\<close>,
    \<open>login\<close>, \<open>consent/manage.rs\<close>): realms, clients and people as they are made, sessions, the brake on guesses and its end,
    signing in with its factors, and setting factors up and taking them away.
  \<^item> \<open>Authorize\<close>, \<open>Protocol\<close> (\<open>oidc/authorize.rs\<close>, \<open>consent/answer.rs\<close>, \<open>oidc/introspect.rs\<close>, \<open>userinfo.rs\<close>, \<open>logout.rs\<close>,
    \<open>discovery.rs\<close>), and \<open>Granting\<close>: what the endpoint answers, to whom, and for whom.
  \<^item> \<open>Responses\<close>, \<open>Admin_Plane\<close> (\<open>src/crates/server\<close>: \<open>error.rs\<close>, \<open>extract\<close>, \<open>middleware/admin_guard.rs\<close>,
    \<open>api/rest/endpoints/admin\<close>, with the bodies and views of \<open>src/crates/api\<close>): every handler of the
    administration plane behind its guard; whatever it changes is accounted for.
  \<^item> \<open>One_Time_Codes\<close> (\<open>src/crates/crypto/src/otp/hotp.rs\<close>, \<open>totp.rs\<close>, \<open>adapters/otp.rs\<close>): the codes behind the port of
    the core over an HMAC, found exactly as a person sees them; through an interface the sign-in relies on, a code accepted is of the moment and new.
  \<^item> \<open>Addresses\<close>, \<open>Requests\<close> (\<open>settings.rs\<close>, \<open>src/crates/server\<close>: \<open>middleware/caller_address.rs\<close>, \<open>extract\<close>): the public
    origin, the trusted proxies and the address a caller is counted under, which it cannot make up; the credentials of clients and the cookies.
  \<^item> \<open>Operations\<close> (\<open>src/crates/pgcore/src/migrate\<close>, \<open>readiness.rs\<close>, \<open>retention.rs\<close>): migrations apply in order, and
    retention frees no lock.
  \<^item> \<open>Invariants\<close>: three interfaces of invariants of the committed state, under which every use case is
    followed once; \<open>Soundness\<close>: the interpretations, and that the tables and the chains stay sound.
  \<^item> This theory: every request the program serves as one step, the states reached by any
    sequence of them, and what holds of all of these.

  \<^bold>\<open>Bounds and fuel.\<close> The walk of relations carries the bounds of the code (depth, reads, fan-out, steps, duration) as its arguments.
  The parser of schemas is run on fuel of the length of the source, shown to be enough (\<open>parser_ends\<close>); every
  other loop is structural or has a measure. Instants are unbounded integers, except where the code asks for one that the
  calendar has; the counters of the brake wrap at 32 bits. JSON is taken to read back only values without fractions, in UTF-8,
  with their names in order and nested within the limit of its reader (\<open>reads_exactly\<close>).

  \<^bold>\<open>Not modelled.\<close> Requests are served one after another: what two requests do between the reads and the commit
  of one another is left to the isolation of the storage, and the locks of the shares are one step each. The adapters to
  PostgreSQL and OpenSSL (the plan of the migrations and the one-time codes apart), the vendored JOSE library, the pages and forms
  of the HTTP surface, the command line and the generator of schemas are input and output around the core and are not modelled, nor
  are the tests and the contract of the storage. Certificates, selective disclosure and legacy password hashes of the crate of
  cryptography are served by no use case of the core. The journal and the
  time a comparison takes are no part of a result.
\<close>

subsection \<open>What the program serves\<close>

text \<open>A request to the data plane, a page a person answers, or a command of the operator.\<close>

datatype served_request =
    Administer string "string option" admin_request
  | Token_grant string token_request
  | Token_revocation string "string option" "bytes option" "string option"
  | Introspection string "string option" "bytes option" "string option"
  | User_info string string
  | Question string "string option" "bytes option" decision_request
  | Authorization string authorization_parameters "session_ticket option"
  | Sign_in_page string uuid bytes
  | Sign_in string uuid bytes typed_sign_in
  | Consent_page string uuid bytes "session_ticket option"
  | Consent_answer string uuid bytes "session_ticket option" consent_decision
  | Logout string logout_parameters "session_ticket option"
  | Logout_confirmed string session_ticket
  | My_consents string "session_ticket option"
  | My_consent_withdrawn string "session_ticket option" string
  | Authenticator_page string "session_ticket option"
  | Authenticator_begun string "session_ticket option"
  | Authenticator_confirmed string "session_ticket option" bytes string "ip_addr option" "device_mark list"
  | Keys_page string "session_ticket option"
  | Key_begun string "session_ticket option" bytes "ip_addr option" "device_mark list"
  | Key_finished string "session_ticket option" json
  | Provision string string "first_client option"

text \<open>The state a request leaves: a unit of work it did not commit is dropped.\<close>

definition left_by :: "('x \<times> ctx) \<Rightarrow> ctx" where
  "left_by answered = (snd answered)\<lparr>opened := None\<rparr>"

fun serve :: "app \<Rightarrow> served_request \<Rightarrow> ctx \<Rightarrow> ctx" where
  "serve app (Administer realm header request) s = left_by (serve_admin app realm header request s)"
| "serve app (Token_grant realm request) s = left_by (grant_token app realm request s)"
| "serve app (Token_revocation realm client secret token) s = left_by (revoke_token app realm client secret token s)"
| "serve app (Introspection realm client secret token) s = left_by (introspect_token app realm client secret token s)"
| "serve app (User_info realm token) s = left_by (read_user_info app realm token s)"
| "serve app (Question realm client secret request) s = left_by (decide app realm client secret request s)"
| "serve app (Authorization realm parameters ticket) s = left_by (begin_authorization app realm parameters ticket s)"
| "serve app (Sign_in_page realm request secret) s = left_by (describe_owed_second_factor app realm request secret s)"
| "serve app (Sign_in realm request secret typed) s = left_by (finish_sign_in app realm request secret typed s)"
| "serve app (Consent_page realm request secret ticket) s = left_by (describe_consent app realm request secret ticket s)"
| "serve app (Consent_answer realm request secret ticket decision) s = left_by (answer_consent app realm request secret ticket decision s)"
| "serve app (Logout realm parameters ticket) s = left_by (begin_logout app realm parameters ticket s)"
| "serve app (Logout_confirmed realm ticket) s = left_by (confirm_logout app realm ticket s)"
| "serve app (My_consents realm ticket) s = left_by (list_my_consents app realm ticket s)"
| "serve app (My_consent_withdrawn realm ticket client) s = left_by (withdraw_my_consent app realm ticket client s)"
| "serve app (Authenticator_page realm ticket) s = left_by (describe_enrollment app realm ticket s)"
| "serve app (Authenticator_begun realm ticket) s = left_by (begin_totp_enrollment app realm ticket s)"
| "serve app (Authenticator_confirmed realm ticket password typed caller browsers) s =
     left_by (confirm_totp_enrollment app realm ticket password typed caller browsers s)"
| "serve app (Keys_page realm ticket) s = left_by (count_security_keys app realm ticket s)"
| "serve app (Key_begun realm ticket password caller browsers) s =
     left_by (begin_key_enrollment app realm ticket password caller browsers s)"
| "serve app (Key_finished realm ticket answer) s = left_by (finish_key_enrollment app realm ticket answer s)"
| "serve app (Provision ten realm first) s = left_by (provision_realm_with_client app ten realm first s)"

text \<open>The states the program reaches: requests are served one after another, and the storage may go away and come back.\<close>

inductive reaches :: "app \<Rightarrow> ctx \<Rightarrow> ctx \<Rightarrow> bool" for app s where
  started: "reaches app s s"
| served: "reaches app s t \<Longrightarrow> reaches app s (serve app request t)"
| storage_changed: "reaches app s t \<Longrightarrow> reaches app s (t\<lparr>outage := reason\<rparr>)"

inductive_cases reaches_elim: "reaches app s t"

subsection \<open>What every request keeps\<close>

lemma left_by_same [simp]: "shared (left_by x) = shared (snd x)" "opened (left_by x) = None"
  by (simp_all add: left_by_def)

lemma ctx_inv_left: "I (shared (snd x)) \<Longrightarrow> ctx_inv I (left_by x)"
  by (simp add: ctx_inv_def)

lemma ctx_inv_outage [simp]: "ctx_inv I (s\<lparr>outage := reason\<rparr>) = ctx_inv I s"
  by (simp add: ctx_inv_def)

lemma left_kept: "keeps (ctx_inv I) m \<Longrightarrow> ctx_inv I s \<Longrightarrow> ctx_inv I (left_by (m s))"
  by (auto simp: keeps_def intro!: ctx_inv_left ctx_inv_shared)

lemma left_uncommitted: "commits_nothing m \<Longrightarrow> ctx_inv I s \<Longrightarrow> ctx_inv I (left_by (m s))"
  by (auto simp: commits_nothing_def intro!: ctx_inv_left dest: ctx_inv_shared)

text \<open>Every request but those to the administration plane keeps what any invariant of the directory says.\<close>

lemma serve_keeps:
  assumes "directory_invariant I" and "\<And>realm header request. ctx_inv I s \<Longrightarrow> ctx_inv I (left_by (serve_admin app realm header request s))"
    and "ctx_inv I s"
  shows "ctx_inv I (serve app request s)"
proof -
  note state = directory_invariant.axioms(1) [OF assms(1)]
  show ?thesis
    using assms(2,3)
    by (cases request)
      (auto intro: left_kept left_uncommitted commits_nothing_decide
        state_invariant.keeps_token_endpoints [OF state] state_invariant.keeps_protocol [OF state]
        state_invariant.keeps_begin_authorization [OF state] state_invariant.keeps_finish_sign_in [OF state]
        state_invariant.keeps_consent_page [OF state] state_invariant.keeps_answer_consent [OF state]
        state_invariant.keeps_consents [OF state] state_invariant.keeps_enrollment [OF state]
        directory_invariant.keeps_provisioning [OF assms(1)])
qed

subsection \<open>What no request rewrites\<close>

text \<open>The chains, as they stood at some time, are still how the chains begin.\<close>

definition remembers :: "(uuid \<Rightarrow> chained_event list) \<Rightarrow> state \<Rightarrow> bool" where
  "remembers past s \<longleftrightarrow> (\<forall>realm. prefix (past realm) (st_audit s realm))"

lemma remembers_link: "\<lbrakk>\<not> failed w; remembers past (working w)\<rbrakk> \<Longrightarrow> remembers past (working (snd (link_event app envelope w)))"
  by (auto simp: remembers_def link_event_def and_then_def refuse_in_snapshot_def Let_def split: option.split)
    (metis Nil_prefix prefix_Nil)

lemma keeps_append_remembered: "keeps (work_inv (remembers past)) (store_append_audit_event app envelope)"
proof -
  have "keeps (work_inv (remembers past)) (link_event app envelope)"
    by (simp add: keeps_def work_inv_def failed_link_event remembers_link)
  then show ?thesis
    unfolding store_append_audit_event_def by (rule keeps_record_refusal)
qed

interpretation history: log_invariant "remembers past" for past
  by unfold_locales (simp_all add: remembers_def [abs_def] keeps_append_remembered [unfolded remembers_def [abs_def]])

lemma remembers_one_more: "one_event_more realm before after \<Longrightarrow> remembers past before \<Longrightarrow> remembers past after"
  by (auto simp: one_event_more_def remembers_def)

lemma administration_remembers:
  assumes "remembers past (shared s)"
  shows "remembers past (shared (snd (serve_admin app realm header request s)))"
proof -
  obtain r t where run: "authorize_admin_call app realm (read_bearer_token header) (required_capability request) s = (r, t)"
    by (metis surj_pair)
  then have same: "shared t = shared s"
    using wp_authorize_admin_call [of app realm "read_bearer_token header" "required_capability request" s]
    by (simp add: wp_def split: sum.splits)
  show ?thesis
  proof (cases r)
    case (Inl e)
    then show ?thesis using run same assms by (simp add: serve_admin_def require_capability_def)
  next
    case (Inr caller)
    obtain resp u where "handle_admin app request caller t = (resp, u)" by (metis surj_pair)
    with accountableD [OF handlers_are_accountable this] Inr run same assms show ?thesis
      by (auto simp: serve_admin_def require_capability_def intro: remembers_one_more)
  qed
qed

lemma reached_keeps:
  assumes "reaches app s t" and "ctx_inv I s"
    and "\<And>request u. ctx_inv I u \<Longrightarrow> ctx_inv I (serve app request u)"
  shows "ctx_inv I t"
  using assms(1) by (induction rule: reaches.induct) (simp_all add: assms(2,3))

lemma sound_empty: "sound app empty_state"
  by (simp add: sound_def roles_inv_defs relations_inv_defs policies_inv_defs directory_ok_def chains_intact_def
      empty_state_def intact_def map_filter_def split: role_holder.splits)

subsection \<open>Properties\<close>

text \<open>
  C1: the program keeps its state sound, whatever it is asked. From a sound state, and the empty one
  is sound, no sequence of requests to the administration plane, the protocol plane and the point of decision, no
  page answered, no realm provisioned and no outage of the storage in between leads to a state that is not: roles are
  granted to those the realm knows, relations are of the kinds its schema admits, policies are
  within their bounds, clients and people are named once, and every chain of the audit is intact. The
  one thing asked of the ports is that a schema that was written reads back as it was, or not at all.
\<close>

theorem system_stays_sound:
  assumes "\<And>schema. app_schema_read app (app_schema_form app schema) \<in> {None, Some schema}"
    and "sound app (shared s)" and "opened s = None" and "reaches app s t"
  shows "sound app (shared t)"
proof -
  have "ctx_inv (sound app) t"
  proof (rule reached_keeps [OF assms(4)])
    show "ctx_inv (sound app) s" using assms(2,3) by (simp add: ctx_inv_def)
    show "ctx_inv (sound app) (serve app request u)" if "ctx_inv (sound app) u" for request u
    proof (rule serve_keeps [OF sound_state.directory_invariant_axioms _ that])
      show "ctx_inv (sound app) (left_by (serve_admin app realm header asked u))" for realm header asked
        using administration_is_sound [OF assms(1)] that by (intro ctx_inv_left) (simp add: answers_soundly_def)
    qed
  qed
  then show ?thesis by (rule ctx_inv_shared)
qed

theorem system_stays_sound_witness:
  "sound sample_app (shared sample_ctx) \<and>
   sound sample_app (shared (serve sample_app (Provision ''acme'' ''main'' None) sample_ctx))"
proof -
  let ?step = "serve sample_app (Provision ''acme'' ''main'' None) sample_ctx"
  have reads: "app_schema_read sample_app (app_schema_form sample_app schema) \<in> {None, Some schema}" for schema
    by (simp add: sample_app_def)
  have before: "sound sample_app (shared sample_ctx)" "opened sample_ctx = None"
    by (simp_all add: sample_ctx_def sound_empty)
  have "reaches sample_app sample_ctx ?step" by (rule reaches.served [OF reaches.started])
  with system_stays_sound [OF reads before this] before(1) show ?thesis by blast
qed

text \<open>
  C2: nothing that was recorded is ever rewritten. Whatever requests are served, in whatever order,
  the chain of every realm, as it stood, is how its chain begins from then on: no event is changed,
  moved or taken away.
\<close>

theorem history_is_never_rewritten:
  assumes "opened s = None" and "reaches app s t"
  shows "prefix (st_audit (shared s) realm) (st_audit (shared t) realm)"
proof -
  let ?I = "remembers (st_audit (shared s))"
  have "ctx_inv ?I t"
  proof (rule reached_keeps [OF assms(2)])
    show "ctx_inv ?I s" using assms(1) by (simp add: ctx_inv_def remembers_def)
    show "ctx_inv ?I (serve app request u)" if "ctx_inv ?I u" for request u
      by (rule serve_keeps [OF history.directory_invariant_axioms _ that])
         (rule ctx_inv_left, rule administration_remembers [OF ctx_inv_shared [OF that]])
  qed
  then have "?I (shared t)" by (rule ctx_inv_shared)
  then show ?thesis by (simp add: remembers_def)
qed

theorem history_is_never_rewritten_witness:
  "prefix [sample_event] (st_audit (shared (serve sample_app (Provision ''acme'' ''main'' None) sample_chain_ctx)) 2)"
proof -
  let ?step = "serve sample_app (Provision ''acme'' ''main'' None) sample_chain_ctx"
  have "opened sample_chain_ctx = None" "st_audit (shared sample_chain_ctx) 2 = [sample_event]"
    by (simp_all add: sample_chain_ctx_def sample_ctx_def)
  moreover have "reaches sample_app sample_chain_ctx ?step" by (rule reaches.served [OF reaches.started])
  ultimately show ?thesis using history_is_never_rewritten [of sample_chain_ctx sample_app ?step 2] by simp
qed

end
